(* ===== verification/Gateway_Prelude.thy ===== *)
theory Gateway_Prelude
  imports Main "HOL-Library.Word"
begin

text \<open>
  The shared layer of the development: names for the C integer types, the byte order
  conversions, the parts of the C string library the gateway calls (bounded copies,
  decimal printing, substring search), the first-fit search over fixed slot tables that
  several components use, and the outcome type that tells a completed run of a C
  function from one that reads or writes outside an object. The collections
  \<open>gw_simps\<close>, \<open>gw_inv\<close> and \<open>gw_defs\<close> carry the component proofs.
\<close>

unbundle bit_operations_syntax

named_theorems gw_simps \<open>rewrite rules shared by the component proofs\<close>
named_theorems gw_inv \<open>preservation lemmas of the component invariants\<close>
named_theorems gw_defs \<open>small definitions that component proofs unfold together\<close>

section \<open>Machine types\<close>

type_synonym u8 = "8 word"
type_synonym u16 = "16 word"
type_synonym u32 = "32 word"
type_synonym u64 = "64 word"
type_synonym size_t = "64 word"
type_synonym bytes = "8 word list"

text \<open>The process environment: \<open>getenv\<close> of a name.\<close>

type_synonym getenv = "string \<Rightarrow> string option"

text \<open>The outcome of code that may touch memory outside an object.\<close>

datatype 'a outcome = Finished 'a | Undefined

definition bind_outcome :: "'a outcome \<Rightarrow> ('a \<Rightarrow> 'b outcome) \<Rightarrow> 'b outcome" where
  "bind_outcome m f = (case m of Undefined \<Rightarrow> Undefined | Finished x \<Rightarrow> f x)"

text \<open>A signed 32-bit \<open>int\<close> after a conversion that keeps the low 32 bits.\<close>

definition int32 :: "int \<Rightarrow> int" where
  "int32 x = (x + 2 ^ 31) mod 2 ^ 32 - 2 ^ 31"

abbreviation INT_MAX :: int where
  "INT_MAX \<equiv> 2147483647"

section \<open>Byte order\<close>

definition htonl_bytes :: "u32 \<Rightarrow> bytes" where
  "htonl_bytes w = [ucast (drop_bit 24 w), ucast (drop_bit 16 w), ucast (drop_bit 8 w), ucast w]"

fun ntohl_bytes :: "bytes \<Rightarrow> u32" where
  "ntohl_bytes (a # b # c # d # _) =
     (push_bit 24 (ucast a) OR push_bit 16 (ucast b) OR push_bit 8 (ucast c) OR ucast d)"
| "ntohl_bytes _ = 0"

section \<open>C strings\<close>

text \<open>
  A C string is modelled by the list of its characters before the terminating NUL. A copy
  into a buffer of \<open>n\<close> bytes that reserves the last byte keeps \<open>n - 1\<close> characters: this is
  what \<open>strncpy(buf, s, n - 1)\<close> followed by a terminator does, and what \<open>snprintf\<close> stores.
\<close>

definition c_copy :: "nat \<Rightarrow> string \<Rightarrow> string" where
  "c_copy n s = take (n - 1) s"

definition bytes_of_string :: "string \<Rightarrow> bytes" where
  "bytes_of_string s = map of_char s"

definition string_of_bytes :: "bytes \<Rightarrow> string" where
  "string_of_bytes bs = map (\<lambda>b. char_of (unat b)) bs"

definition digit_char :: "nat \<Rightarrow> char" where
  "digit_char d = char_of (48 + d)"

text \<open>The decimal digits \<open>printf\<close> writes for \<open>%u\<close>, and with a sign for \<open>%d\<close>.\<close>

fun dec_nat :: "nat \<Rightarrow> string" where
  "dec_nat n = (if n < 10 then [digit_char n] else dec_nat (n div 10) @ [digit_char (n mod 10)])"

definition dec_int :: "int \<Rightarrow> string" where
  "dec_int i = (if i < 0 then ''-'' @ dec_nat (nat (- i)) else dec_nat (nat i))"

definition is_digit :: "char \<Rightarrow> bool" where
  "is_digit c = (48 \<le> (of_char c :: nat) \<and> of_char c \<le> (57 :: nat))"

definition digit_val :: "char \<Rightarrow> nat" where
  "digit_val c = of_char c - 48"

text \<open>The \<open>isspace\<close> characters of the C locale.\<close>

definition is_space :: "char \<Rightarrow> bool" where
  "is_space c = (of_char c \<in> {9, 10, 11, 12, 13, 32 :: nat})"

definition to_lower :: "char \<Rightarrow> char" where
  "to_lower c = (if 65 \<le> (of_char c :: nat) \<and> of_char c \<le> (90 :: nat)
                 then char_of (of_char c + (32 :: nat)) else c)"

definition read_digits :: "string \<Rightarrow> nat" where
  "read_digits s = foldl (\<lambda>a c. 10 * a + digit_val c) 0 s"

text \<open>
  \<open>strtol\<close> in base ten: leading white space, an optional sign, the longest run of digits.
  The result is the value and the rest of the string; with no digit the value is 0 and the
  rest is the whole string. The value saturates at the range of a 64-bit \<open>long\<close>.
\<close>

definition long_sat :: "int \<Rightarrow> int" where
  "long_sat i = max (- (2 ^ 63)) (min (2 ^ 63 - 1) i)"

definition strtol :: "string \<Rightarrow> int \<times> string" where
  "strtol s =
     (let t = dropWhile is_space s;
          (neg, u) = (case t of
             [] \<Rightarrow> (False, [])
           | c # r \<Rightarrow> (if c = CHR ''-'' then (True, r)
                      else if c = CHR ''+'' then (False, r) else (False, t)));
          ds = takeWhile is_digit u
      in if ds = [] then (0, s)
         else (long_sat (if neg then - int (read_digits ds) else int (read_digits ds)),
               dropWhile is_digit u))"

text \<open>\<open>atoi\<close> is \<open>strtol\<close> converted to \<open>int\<close>, as glibc defines it.\<close>

definition atoi :: "string \<Rightarrow> int" where
  "atoi s = int32 (fst (strtol s))"

text \<open>\<open>strncmp(s, p, strlen(p)) == 0\<close>, and \<open>strstr\<close> returning the suffix at the first match.\<close>

fun starts_with :: "string \<Rightarrow> string \<Rightarrow> bool" where
  "starts_with _ [] = True"
| "starts_with [] (_ # _) = False"
| "starts_with (c # s) (p # ps) = (c = p \<and> starts_with s ps)"

fun strstr :: "string \<Rightarrow> string \<Rightarrow> string option" where
  "strstr [] p = (if p = [] then Some [] else None)"
| "strstr (c # s) p = (if starts_with (c # s) p then Some (c # s) else strstr s p)"

fun strchr :: "string \<Rightarrow> char \<Rightarrow> string option" where
  "strchr [] _ = None"
| "strchr (c # s) d = (if c = d then Some (c # s) else strchr s d)"

definition strcasecmp_eq :: "string \<Rightarrow> string \<Rightarrow> bool" where
  "strcasecmp_eq s t = (map to_lower s = map to_lower t)"

section \<open>Slot tables\<close>

text \<open>The index a \<open>for\<close> loop over a fixed array stops at: the first slot that satisfies the test.\<close>

fun first_index :: "('a \<Rightarrow> bool) \<Rightarrow> 'a list \<Rightarrow> nat option" where
  "first_index P [] = None"
| "first_index P (x # xs) = (if P x then Some 0 else map_option Suc (first_index P xs))"

text \<open>The indices a loop \<open>for (i = 0; i < n; i++)\<close> visits.\<close>

definition slots :: "nat \<Rightarrow> nat list" where
  "slots n = [0..<n]"

text \<open>The number of slots with a property.\<close>

definition count_slots :: "('a \<Rightarrow> bool) \<Rightarrow> 'a list \<Rightarrow> nat" where
  "count_slots P xs = length (filter P xs)"

section \<open>Lemmas\<close>

lemma bind_outcome_simps [simp]:
  "bind_outcome (Finished x) f = f x" "bind_outcome Undefined f = Undefined"
  by (simp_all add: bind_outcome_def)

lemma bind_Finished: "bind_outcome m f = Finished y \<longleftrightarrow> (\<exists>x. m = Finished x \<and> f x = Finished y)"
  by (cases m) simp_all

subsection \<open>Byte order\<close>

lemma length_htonl_bytes [simp]: "length (htonl_bytes w) = 4"
  by (simp add: htonl_bytes_def)

lemma ntohl_htonl [simp]: "ntohl_bytes (htonl_bytes w @ r) = w"
proof (unfold htonl_bytes_def, simp, rule bit_word_eqI)
  fix n :: nat
  assume "n < LENGTH(32)"
  then consider "n < 8" | "8 \<le> n" "n < 16" | "16 \<le> n" "n < 24" | "24 \<le> n" "n < 32"
    by (cases "n < 8"; cases "n < 16"; cases "n < 24"; fastforce simp: not_less)
  then show "bit (push_bit 24 (ucast (ucast (drop_bit 24 w) :: u8) :: u32) OR push_bit 16 (ucast (ucast (drop_bit 16 w) :: u8)) OR
      push_bit 8 (ucast (ucast (drop_bit 8 w) :: u8)) OR ucast (ucast w :: u8)) n = bit w n"
    by cases (auto simp: bit_simps)
qed

lemma not_bit_u8: "8 \<le> n \<Longrightarrow> \<not> bit (w :: u8) n"
  using bit_imp_le_length [of w n] by auto

lemma htonl_ntohl: "htonl_bytes (ntohl_bytes (a # b # c # d # r)) = [a, b, c, d]"
  by (auto simp: htonl_bytes_def not_bit_u8 intro!: bit_word_eqI simp: bit_simps)

lemma htonl_bytes_inject [simp]: "htonl_bytes v = htonl_bytes w \<longleftrightarrow> v = w"
  using ntohl_htonl [of v "[]"] ntohl_htonl [of w "[]"] by fastforce

lemma ntohl_take: "4 \<le> length bs \<Longrightarrow> htonl_bytes (ntohl_bytes bs) = take 4 bs"
proof -
  assume "4 \<le> length bs"
  then obtain a b c d r where "bs = a # b # c # d # r"
    by (auto simp: eval_nat_numeral Suc_le_length_iff)
  then show ?thesis by (simp add: htonl_ntohl del: ntohl_bytes.simps)
qed

lemma ntohl_append [simp]: "4 \<le> length bs \<Longrightarrow> ntohl_bytes (bs @ r) = ntohl_bytes bs"
  using ntohl_take [of bs] ntohl_take [of "bs @ r"] by (simp flip: htonl_bytes_inject)

subsection \<open>Words\<close>

lemma unat_ucast_mod: "unat (ucast (x :: 'a::len word) :: 'b::len word) = unat x mod 2 ^ LENGTH('b)"
  by (simp add: unsigned_ucast_eq take_bit_eq_mod)

lemma uint_int_unat: "uint (x :: 'a::len word) = int (unat x)"
  by simp

lemma unat_eq_of_nat: "unat (x :: 'a::len word) = n \<Longrightarrow> x = of_nat n"
  by auto

lemma unat_of_nat_small: "n < 2 ^ LENGTH('a) \<Longrightarrow> unat (of_nat n :: 'a::len word) = n"
  by (simp add: unat_of_nat take_bit_nat_eq_self)

lemma unat_ucast_u32_u64: "unat (ucast (x :: u32) :: u64) = unat x"
proof -
  have "unat x < 2 ^ 32" by (rule order_less_le_trans [OF unsigned_less]) simp
  then show ?thesis by (simp only: unat_ucast_mod) simp
qed

lemma ucast_u8_u32 [simp]: "ucast (ucast (b :: u8) :: u32) = b"
  by (rule bit_word_eqI) (simp add: bit_simps)

subsection \<open>Strings and numbers\<close>

lemma length_bytes_of_string [simp]: "length (bytes_of_string s) = length s"
  by (simp add: bytes_of_string_def)

lemma length_c_copy [simp]: "length (c_copy n s) = min (n - 1) (length s)"
  by (simp add: c_copy_def min.commute)

lemma c_copy_id [simp]: "length s < n \<Longrightarrow> c_copy n s = s"
  by (simp add: c_copy_def)

lemma unat_of_char_u8 [simp]: "unat (of_char c :: u8) = of_char c"
proof -
  have "(of_char c :: u8) = word_of_nat (of_char c)"
    by (cases c) (simp add: of_char_def horner_sum_simps)
  moreover have "of_char c < (256 :: nat)"
    by (rule nat_of_char_less_256)
  ultimately show ?thesis
    by (simp add: unat_of_nat take_bit_eq_mod)
qed

lemma takeWhile_nul [simp]: "0 \<notin> set xs \<Longrightarrow> takeWhile (\<lambda>b. b \<noteq> 0) (xs @ 0 # ys) = xs"
  by (induction xs) auto

lemma string_of_bytes_of_string [simp]: "string_of_bytes (bytes_of_string s) = s"
  by (simp add: string_of_bytes_def bytes_of_string_def comp_def)

lemma bytes_of_string_inject [simp]: "bytes_of_string s = bytes_of_string t \<longleftrightarrow> s = t"
  by (metis string_of_bytes_of_string)

declare dec_nat.simps [simp del]

lemma digit_char_simps [simp]:
  "digit_char 0 = CHR ''0''" "digit_char (Suc 0) = CHR ''1''" "digit_char 1 = CHR ''1''" "digit_char 2 = CHR ''2''"
  "digit_char 3 = CHR ''3''" "digit_char 4 = CHR ''4''" "digit_char 5 = CHR ''5''" "digit_char 6 = CHR ''6''"
  "digit_char 7 = CHR ''7''" "digit_char 8 = CHR ''8''" "digit_char 9 = CHR ''9''"
  by code_simp+

lemma digit_val_digit_char [simp]: "d < 10 \<Longrightarrow> digit_val (digit_char d) = d"
  by (simp add: digit_val_def digit_char_def)

lemma is_digit_digit_char [simp]: "d < 10 \<Longrightarrow> is_digit (digit_char d)"
  by (simp add: is_digit_def digit_char_def)

lemma read_digits_snoc [simp]: "read_digits (s @ [c]) = 10 * read_digits s + digit_val c"
  by (simp add: read_digits_def)

lemma read_digits_dec_nat [simp]: "read_digits (dec_nat n) = n"
proof (induction n rule: dec_nat.induct)
  case (1 n)
  then show ?case
    by (subst dec_nat.simps) (simp add: read_digits_def [of "[_]"])
qed

lemma dec_nat_digits: "c \<in> set (dec_nat n) \<Longrightarrow> is_digit c"
proof (induction n rule: dec_nat.induct)
  case (1 n)
  from "1.prems" show ?case
    by (subst (asm) dec_nat.simps) (auto split: if_splits intro: "1.IH")
qed

lemma dec_nat_not_Nil [simp]: "dec_nat n \<noteq> []"
  by (subst dec_nat.simps) simp

lemma length_dec_nat: "n < 10 ^ k \<Longrightarrow> 0 < k \<Longrightarrow> length (dec_nat n) \<le> k"
proof (induction n arbitrary: k rule: dec_nat.induct)
  case (1 n)
  show ?case
  proof (cases "n < 10")
    case True
    with "1.prems" show ?thesis by (subst dec_nat.simps) simp
  next
    case False
    with "1.prems" obtain j where k: "k = Suc j" and "0 < j"
      by (cases k; cases "k - 1") auto
    moreover from "1.prems" k have "n div 10 < 10 ^ j"
      by (simp add: less_mult_imp_div_less mult.commute)
    ultimately have "length (dec_nat (n div 10)) \<le> j"
      using False "1.IH" by blast
    with False k show ?thesis by (subst dec_nat.simps) simp
  qed
qed

lemma is_digit_not_sign: "is_digit c \<Longrightarrow> \<not> is_space c \<and> c \<noteq> CHR ''-'' \<and> c \<noteq> CHR ''+''"
  by (auto simp: is_digit_def is_space_def)

lemma strtol_dec_nat:
  assumes "n < 2 ^ 63"
  shows "strtol (dec_nat n) = (int n, [])"
proof -
  obtain c r where cr: "dec_nat n = c # r"
    using dec_nat_not_Nil [of n] by (cases "dec_nat n") auto
  then have c: "is_digit c" using dec_nat_digits [of c n] by simp
  have all: "\<forall>x\<in>set (dec_nat n). is_digit x" using dec_nat_digits by blast
  have tw: "takeWhile is_digit (dec_nat n) = dec_nat n" "dropWhile is_digit (dec_nat n) = []"
    using all by (simp_all add: takeWhile_eq_all_conv)
  have sp: "dropWhile is_space (dec_nat n) = dec_nat n"
    using c cr is_digit_not_sign by simp
  have sg: "(case dec_nat n of [] \<Rightarrow> (False, []) | x # y \<Rightarrow> (if x = CHR ''-'' then (True, y)
      else if x = CHR ''+'' then (False, y) else (False, dec_nat n))) = (False, dec_nat n)"
    using cr is_digit_not_sign [OF c] by simp
  have "long_sat (int n) = int n"
    using assms by (simp add: long_sat_def)
  then show ?thesis
    unfolding strtol_def Let_def sp sg prod.case tw by simp
qed

lemma int32_id [simp]: "- (2 ^ 31) \<le> x \<Longrightarrow> x < 2 ^ 31 \<Longrightarrow> int32 x = x"
  by (simp add: int32_def)

lemma int32_range: "- (2 ^ 31) \<le> int32 x" "int32 x < 2 ^ 31"
  by (simp_all add: int32_def)

lemma starts_with_iff: "starts_with s p \<longleftrightarrow> (\<exists>r. s = p @ r)"
  by (induction s p rule: starts_with.induct) auto

lemma starts_with_append [simp]: "starts_with (p @ r) p"
  by (simp add: starts_with_iff)

lemma strstr_Some: "strstr s p = Some t \<Longrightarrow> (\<exists>u. s = u @ t) \<and> starts_with t p"
proof (induction s)
  case (Cons c s)
  show ?case
  proof (cases "starts_with (c # s) p")
    case False
    with Cons obtain u where "s = u @ t" "starts_with t p" by auto
    then show ?thesis by (auto intro: exI [of _ "c # u"])
  qed (use Cons.prems in auto)
qed (simp split: if_splits)

subsection \<open>Slot tables\<close>

lemma first_index_None [gw_simps]: "first_index P xs = None \<longleftrightarrow> (\<forall>x\<in>set xs. \<not> P x)"
  by (induction xs) auto

lemma first_index_Some: "first_index P xs = Some i \<Longrightarrow> i < length xs \<and> P (xs ! i) \<and> (\<forall>j<i. \<not> P (xs ! j))"
proof (induction xs arbitrary: i)
  case (Cons x xs)
  then show ?case
    by (auto split: if_splits simp: nth_Cons' less_Suc_eq_0_disj)
qed simp

lemma first_index_less: "first_index P xs = Some i \<Longrightarrow> i < length xs"
  using first_index_Some by blast

lemma first_index_holds: "first_index P xs = Some i \<Longrightarrow> P (xs ! i)"
  using first_index_Some by blast

lemma first_index_ex: "x \<in> set xs \<Longrightarrow> P x \<Longrightarrow> \<exists>i. first_index P xs = Some i"
  using first_index_None [of P xs] by (cases "first_index P xs") auto

lemma first_index_append:
  "first_index P (xs @ ys) = (case first_index P xs of Some i \<Rightarrow> Some i
     | None \<Rightarrow> map_option (\<lambda>i. length xs + i) (first_index P ys))"
proof (induction xs)
  case Nil
  show ?case by (cases "first_index P ys") simp_all
next
  case (Cons x xs)
  then show ?case by (cases "first_index P ys") (auto split: option.splits)
qed

lemma set_slots [simp]: "set (slots n) = {..<n}" and distinct_slots [simp]: "distinct (slots n)"
  and length_slots [simp]: "length (slots n) = n"
  by (auto simp: slots_def)

lemma count_slots_le: "count_slots P xs \<le> length xs"
  by (simp add: count_slots_def)

lemma count_slots_update:
  "i < length xs \<Longrightarrow> count_slots P (xs[i := y]) + (if P (xs ! i) then 1 else 0) =
     count_slots P xs + (if P y then 1 else 0)"
proof (induction xs arbitrary: i)
  case (Cons x xs)
  then show ?case by (cases i) (auto simp: count_slots_def)
qed simp

lemma count_slots_replicate [simp]: "count_slots P (replicate n x) = (if P x then n else 0)"
  by (simp add: count_slots_def)

lemma count_slots_pos: "i < length xs \<Longrightarrow> P (xs ! i) \<Longrightarrow> 0 < count_slots P xs"
  by (auto simp: count_slots_def filter_empty_conv)

lemma sum_list_update_nat:
  fixes xs :: "nat list"
  shows "i < length xs \<Longrightarrow> sum_list (xs[i := v]) + xs ! i = sum_list xs + v"
proof (induction xs arbitrary: i)
  case (Cons x xs)
  then show ?case by (cases i) (auto simp: add_ac)
qed simp

lemma sum_list_update_int:
  fixes xs :: "int list"
  shows "i < length xs \<Longrightarrow> sum_list (xs[i := v]) = sum_list xs - xs ! i + v"
proof (induction xs arbitrary: i)
  case (Cons x xs)
  then show ?case by (cases i) auto
qed simp

lemma nth_le_sum_list: "\<forall>x\<in>set xs. 0 \<le> x \<Longrightarrow> i < length xs \<Longrightarrow> xs ! i \<le> sum_list (xs :: int list)"
proof (induction xs arbitrary: i)
  case (Cons x xs)
  then have "0 \<le> sum_list xs" by (simp add: sum_list_nonneg)
  with Cons show ?case by (cases i) force+
qed simp

lemma list_all_update: "(\<forall>x\<in>set xs. P x) \<Longrightarrow> P v \<Longrightarrow> \<forall>x\<in>set (xs[i := v]). P x"
  using set_update_subset_insert [of xs i v] by blast

end
