(* ===== verification/IPC_Protocol.thy ===== *)
theory IPC_Protocol
  imports Gateway_Prelude
begin

text \<open>
  The wire protocol of the IPC socket (\<open>src/src/ipc_protocol.c\<close>, \<open>src/include/ipc_protocol.h\<close>):
  a frame is a four byte big-endian total length, a version byte, a type byte and the payload.
  A heap object that a \<open>char *\<close> points to is the list of its initialised bytes, the NUL that
  ends a string included; a null pointer is \<open>None\<close>. A pointer parameter of which the code only
  asks whether it is null is an \<open>option\<close> as well. The argument \<open>alloc\<close> says whether the call
  of \<open>malloc\<close> in the function succeeds. An access outside an object is \<^const>\<open>Undefined\<close>.
\<close>

section \<open>Constants, messages and errors\<close>

abbreviation (input) IPC_PROTOCOL_VERSION :: u8 where "IPC_PROTOCOL_VERSION \<equiv> 1"
abbreviation (input) IPC_HEADER_SIZE :: "'a::numeral" where "IPC_HEADER_SIZE \<equiv> 6"
abbreviation (input) IPC_MAX_FRAME_SIZE :: "'a::numeral" where "IPC_MAX_FRAME_SIZE \<equiv> 4194304"

text \<open>The values of \<open>ipc_message_type_t\<close>; a decoded message may hold any other byte value.\<close>

abbreviation (input) IPC_MSG_TASK_SUBMIT :: u32 where "IPC_MSG_TASK_SUBMIT \<equiv> 0x01"
abbreviation (input) IPC_MSG_TASK_QUERY :: u32 where "IPC_MSG_TASK_QUERY \<equiv> 0x02"
abbreviation (input) IPC_MSG_TASK_CANCEL :: u32 where "IPC_MSG_TASK_CANCEL \<equiv> 0x03"
abbreviation (input) IPC_MSG_STREAM_SUBSCRIBE :: u32 where "IPC_MSG_STREAM_SUBSCRIBE \<equiv> 0x04"
abbreviation (input) IPC_MSG_STREAM_DATA :: u32 where "IPC_MSG_STREAM_DATA \<equiv> 0x05"
abbreviation (input) IPC_MSG_STREAM_COMPLETE :: u32 where "IPC_MSG_STREAM_COMPLETE \<equiv> 0x06"
abbreviation (input) IPC_MSG_STREAM_ERROR :: u32 where "IPC_MSG_STREAM_ERROR \<equiv> 0x07"
abbreviation (input) IPC_MSG_RESPONSE_OK :: u32 where "IPC_MSG_RESPONSE_OK \<equiv> 0x10"
abbreviation (input) IPC_MSG_RESPONSE_ERROR :: u32 where "IPC_MSG_RESPONSE_ERROR \<equiv> 0x11"
abbreviation (input) IPC_MSG_PING :: u32 where "IPC_MSG_PING \<equiv> 0xF0"
abbreviation (input) IPC_MSG_PONG :: u32 where "IPC_MSG_PONG \<equiv> 0xF1"
abbreviation (input) IPC_MSG_CAPABILITIES :: u32 where "IPC_MSG_CAPABILITIES \<equiv> 0xF2"

datatype ipc_error_t =
    IPC_ERR_OK
  | IPC_ERR_INVALID_VERSION
  | IPC_ERR_INVALID_TYPE
  | IPC_ERR_FRAME_TOO_LARGE
  | IPC_ERR_INVALID_PAYLOAD
  | IPC_ERR_TIMEOUT
  | IPC_ERR_CONNECTION_CLOSED
  | IPC_ERR_INTERNAL

fun ipc_error_code :: "ipc_error_t \<Rightarrow> int" where
  "ipc_error_code IPC_ERR_OK = 0"
| "ipc_error_code IPC_ERR_INVALID_VERSION = 1"
| "ipc_error_code IPC_ERR_INVALID_TYPE = 2"
| "ipc_error_code IPC_ERR_FRAME_TOO_LARGE = 3"
| "ipc_error_code IPC_ERR_INVALID_PAYLOAD = 4"
| "ipc_error_code IPC_ERR_TIMEOUT = 5"
| "ipc_error_code IPC_ERR_CONNECTION_CLOSED = 6"
| "ipc_error_code IPC_ERR_INTERNAL = 99"

record ipc_message_t =
  mtype :: u32
  payload :: "bytes option"
  payload_len :: size_t

section \<open>Operations\<close>

fun ipc_strerror :: "ipc_error_t \<Rightarrow> string" where
  "ipc_strerror IPC_ERR_OK = ''Success''"
| "ipc_strerror IPC_ERR_INVALID_VERSION = ''Unsupported protocol version''"
| "ipc_strerror IPC_ERR_INVALID_TYPE = ''Unknown message type''"
| "ipc_strerror IPC_ERR_FRAME_TOO_LARGE = ''Frame too large''"
| "ipc_strerror IPC_ERR_INVALID_PAYLOAD = ''Invalid payload''"
| "ipc_strerror IPC_ERR_TIMEOUT = ''Timeout''"
| "ipc_strerror IPC_ERR_CONNECTION_CLOSED = ''Connection closed''"
| "ipc_strerror IPC_ERR_INTERNAL = ''Internal error''"

text \<open>The header the encoder writes for a frame of \<open>n\<close> bytes.\<close>

definition ipc_header :: "size_t \<Rightarrow> u32 \<Rightarrow> bytes" where
  "ipc_header n ty = htonl_bytes (ucast n) @ [IPC_PROTOCOL_VERSION, ucast ty]"

text \<open>
  The result is the returned length, or -1, and the frame buffer afterwards. The sum of header
  size and payload length is taken in \<open>size_t\<close>, so it wraps. Without a payload to copy only the
  header of the buffer is written.
\<close>

definition ipc_encode_message ::
    "ipc_message_t option \<Rightarrow> bytes option \<Rightarrow> size_t \<Rightarrow> (int \<times> bytes option) outcome" where
  "ipc_encode_message msg frame_buf frame_size =
     (case (msg, frame_buf) of
        (Some m, Some buf) \<Rightarrow>
          (let total_size = IPC_HEADER_SIZE + payload_len m in
           if total_size > frame_size then Finished (-1, frame_buf)
           else if total_size > IPC_MAX_FRAME_SIZE then Finished (-1, frame_buf)
           else (let n = unat (payload_len m) in
             case payload m of
               Some p \<Rightarrow>
                 if n > length p \<or> IPC_HEADER_SIZE + n > length buf then Undefined
                 else Finished (uint total_size,
                   Some (ipc_header total_size (mtype m) @ take n p @ drop (IPC_HEADER_SIZE + n) buf))
             | None \<Rightarrow>
                 if IPC_HEADER_SIZE > length buf then Undefined
                 else Finished (uint total_size,
                   Some (ipc_header total_size (mtype m) @ drop IPC_HEADER_SIZE buf))))
      | _ \<Rightarrow> Finished (-1, frame_buf))"

text \<open>
  The checks come in the order of the source: size of the header, length field against the size
  given, maximum, version. The message is written as far as the code gets.
\<close>

definition ipc_decode_message ::
    "bool \<Rightarrow> bytes option \<Rightarrow> size_t \<Rightarrow> ipc_message_t option \<Rightarrow>
      (ipc_error_t \<times> ipc_message_t option) outcome" where
  "ipc_decode_message alloc frame frame_size msg =
     (case (frame, msg) of
        (Some f, Some m) \<Rightarrow>
          if frame_size < IPC_HEADER_SIZE then Finished (IPC_ERR_INVALID_PAYLOAD, msg)
          else if length f < IPC_HEADER_SIZE then Undefined
          else (let len = ntohl_bytes f in
            if ucast len \<noteq> frame_size then Finished (IPC_ERR_INVALID_PAYLOAD, msg)
            else if len > IPC_MAX_FRAME_SIZE then Finished (IPC_ERR_FRAME_TOO_LARGE, msg)
            else if f ! 4 \<noteq> IPC_PROTOCOL_VERSION then Finished (IPC_ERR_INVALID_VERSION, msg)
            else (let m1 = m\<lparr>mtype := ucast (f ! 5), payload_len := ucast (len - IPC_HEADER_SIZE)\<rparr>;
                      n = unat (payload_len m1) in
              if payload_len m1 > 0 then
                if \<not> alloc then Finished (IPC_ERR_INTERNAL, Some (m1\<lparr>payload := None\<rparr>))
                else if IPC_HEADER_SIZE + n > length f then Undefined
                else Finished (IPC_ERR_OK,
                  Some (m1\<lparr>payload := Some (take n (drop IPC_HEADER_SIZE f) @ [0])\<rparr>))
              else Finished (IPC_ERR_OK, Some (m1\<lparr>payload := None\<rparr>))))
      | _ \<Rightarrow> Finished (IPC_ERR_INVALID_PAYLOAD, msg))"

text \<open>The text \<open>snprintf\<close> produces for the error payload.\<close>

definition ipc_error_json :: "ipc_error_t \<Rightarrow> string \<Rightarrow> string" where
  "ipc_error_json code err_str =
     ''{\"ok\":false,\"error\":{\"code\":'' @ dec_int (ipc_error_code code) @
     '',\"message\":\"'' @ err_str @ ''\"}}''"

definition ipc_create_error_response ::
    "bool \<Rightarrow> ipc_error_t \<Rightarrow> string option \<Rightarrow> ipc_message_t option \<Rightarrow> ipc_error_t \<times> ipc_message_t option" where
  "ipc_create_error_response alloc error_code error_msg msg =
     (case msg of
        None \<Rightarrow> (IPC_ERR_INVALID_PAYLOAD, None)
      | Some m \<Rightarrow>
          (let m1 = m\<lparr>mtype := IPC_MSG_RESPONSE_ERROR\<rparr>;
               err_str = (case error_msg of Some s \<Rightarrow> s | None \<Rightarrow> ipc_strerror error_code);
               json_size = 128 + length err_str;
               json = ipc_error_json error_code err_str in
           if \<not> alloc then (IPC_ERR_INTERNAL, Some (m1\<lparr>payload := None\<rparr>))
           else if length json \<ge> json_size then (IPC_ERR_INTERNAL, Some (m1\<lparr>payload := None\<rparr>))
           else (IPC_ERR_OK, Some (m1\<lparr>payload := Some (bytes_of_string json @ [0]),
                                     payload_len := of_nat (length json)\<rparr>))))"

definition ipc_free_message :: "ipc_message_t option \<Rightarrow> ipc_message_t option" where
  "ipc_free_message msg =
     (case msg of
        Some m \<Rightarrow> (case payload m of
            Some _ \<Rightarrow> Some (m\<lparr>payload := None, payload_len := 0\<rparr>)
          | None \<Rightarrow> Some m)
      | None \<Rightarrow> None)"

section \<open>Well-formed messages\<close>

text \<open>
  What the encoder needs of a message: the payload object holds the payload and the frame fits
  the limit. A well-formed message, as the decoder makes it, has moreover a type that fits the
  type byte and a payload object that is the payload followed by its terminator.
\<close>

definition ipc_sendable :: "ipc_message_t \<Rightarrow> bool" where
  "ipc_sendable m =
     (payload_len m \<le> IPC_MAX_FRAME_SIZE - IPC_HEADER_SIZE \<and>
      (case payload m of
         None \<Rightarrow> payload_len m = 0
       | Some p \<Rightarrow> unat (payload_len m) \<le> length p))"

definition ipc_message_wf :: "ipc_message_t \<Rightarrow> bool" where
  "ipc_message_wf m =
     (mtype m < 256 \<and> payload_len m \<le> IPC_MAX_FRAME_SIZE - IPC_HEADER_SIZE \<and>
      (case payload m of
         None \<Rightarrow> payload_len m = 0
       | Some p \<Rightarrow> payload_len m > 0 \<and> length p = unat (payload_len m) + 1 \<and> last p = 0))"

text \<open>The payload bytes of a message and the frame that carries it.\<close>

definition ipc_payload_bytes :: "ipc_message_t \<Rightarrow> bytes" where
  "ipc_payload_bytes m = (case payload m of None \<Rightarrow> [] | Some p \<Rightarrow> take (unat (payload_len m)) p)"

definition ipc_frame_of :: "ipc_message_t \<Rightarrow> bytes" where
  "ipc_frame_of m = ipc_header (IPC_HEADER_SIZE + payload_len m) (mtype m) @ ipc_payload_bytes m"

text \<open>A complete, acceptable frame: what the decoder asks of the bytes.\<close>

definition ipc_frame_ok :: "bytes \<Rightarrow> bool" where
  "ipc_frame_ok f =
     (IPC_HEADER_SIZE \<le> length f \<and> length f \<le> IPC_MAX_FRAME_SIZE \<and>
      unat (ntohl_bytes f) = length f \<and> f ! 4 = IPC_PROTOCOL_VERSION)"

text \<open>The message a decoded frame stands for.\<close>

definition ipc_message_of :: "bytes \<Rightarrow> ipc_message_t" where
  "ipc_message_of f =
     \<lparr>mtype = ucast (f ! 5),
      payload = (if length f = IPC_HEADER_SIZE then None else Some (drop IPC_HEADER_SIZE f @ [0])),
      payload_len = of_nat (length f - IPC_HEADER_SIZE)\<rparr>"

text \<open>A sample message.\<close>

definition ping_message :: ipc_message_t where
  "ping_message = \<lparr>mtype = IPC_MSG_PING, payload = Some [123, 125, 0], payload_len = 2\<rparr>"

section \<open>Lemmas\<close>

lemma length_ipc_header [simp]: "length (ipc_header n ty) = 6"
  by (simp add: ipc_header_def)

lemma ntohl_ipc_header [simp]: "ntohl_bytes (ipc_header n ty @ r) = ucast n"
  by (simp add: ipc_header_def)

lemma ipc_header_version [simp]: "(ipc_header n ty @ r) ! 4 = IPC_PROTOCOL_VERSION"
  by (simp add: ipc_header_def nth_append)

lemma ipc_header_type [simp]: "(ipc_header n ty @ r) ! 5 = ucast ty"
  by (simp add: ipc_header_def nth_append)

lemma ipc_header_drop [simp]: "drop 6 (ipc_header n ty @ r) = r"
  by simp

lemma unat_total:
  "payload_len m \<le> IPC_MAX_FRAME_SIZE - IPC_HEADER_SIZE \<Longrightarrow>
     unat (IPC_HEADER_SIZE + payload_len m) = IPC_HEADER_SIZE + unat (payload_len m)"
  by (subst unat_add_lem [THEN iffD1]) (auto simp: word_le_nat_alt)

lemma ucast_small:
  fixes x :: size_t
  assumes "x \<le> IPC_MAX_FRAME_SIZE"
  shows "ucast (ucast x :: u32) = x"
proof -
  from assms have "unat x \<le> 4194304" by (simp add: word_le_nat_alt)
  then have "unat (ucast (ucast x :: u32) :: size_t) = unat x"
    by (simp only: unat_ucast_mod) simp
  then show ?thesis by (simp only: word_unat_eq_iff)
qed

lemma ipc_message_wf_sendable: "ipc_message_wf m \<Longrightarrow> ipc_sendable m"
  by (auto simp: ipc_message_wf_def ipc_sendable_def split: option.splits)

lemma ipc_frame_of_length_sendable:
  "ipc_sendable m \<Longrightarrow> length (ipc_frame_of m) = IPC_HEADER_SIZE + unat (payload_len m)"
  by (auto simp: ipc_sendable_def ipc_frame_of_def ipc_payload_bytes_def split: option.splits)

lemmas ipc_frame_of_length = ipc_frame_of_length_sendable [OF ipc_message_wf_sendable]

lemma ipc_total_le:
  "ipc_sendable m \<Longrightarrow> IPC_HEADER_SIZE + payload_len m \<le> IPC_MAX_FRAME_SIZE"
  using unat_total [of m] by (simp add: ipc_sendable_def word_le_nat_alt)

lemma ipc_encode_sendable:
  assumes "ipc_sendable m" "unat frame_size \<le> length buf" "IPC_HEADER_SIZE + unat (payload_len m) \<le> unat frame_size"
  shows "ipc_encode_message (Some m) (Some buf) frame_size =
    Finished (int (length (ipc_frame_of m)), Some (ipc_frame_of m @ drop (length (ipc_frame_of m)) buf))"
proof -
  have tot: "unat (IPC_HEADER_SIZE + payload_len m) = IPC_HEADER_SIZE + unat (payload_len m)"
    using assms(1) unat_total [of m] by (simp add: ipc_sendable_def)
  have "\<not> IPC_HEADER_SIZE + payload_len m > frame_size"
    using tot assms(3) by (simp add: word_less_nat_alt)
  moreover have "\<not> IPC_HEADER_SIZE + payload_len m > IPC_MAX_FRAME_SIZE"
    using ipc_total_le [OF assms(1)] by simp
  moreover have "uint (IPC_HEADER_SIZE + payload_len m) = int (length (ipc_frame_of m))"
    using tot ipc_frame_of_length_sendable [OF assms(1)] by (simp only: uint_int_unat)
  ultimately show ?thesis
    using assms ipc_frame_of_length_sendable [OF assms(1)]
    by (auto simp: ipc_encode_message_def ipc_frame_of_def ipc_payload_bytes_def ipc_sendable_def Let_def
        split: option.splits)
qed

lemmas ipc_encode_wf = ipc_encode_sendable [OF ipc_message_wf_sendable]

lemma ipc_frame_ok_len:
  assumes "ipc_frame_ok f"
  shows "ucast (ntohl_bytes f) = (of_nat (length f) :: size_t)" "unat (of_nat (length f) :: size_t) = length f"
    "unat (ntohl_bytes f - IPC_HEADER_SIZE) = length f - IPC_HEADER_SIZE"
proof -
  show "ucast (ntohl_bytes f) = (of_nat (length f) :: size_t)"
    using assms by (intro unat_eq_of_nat, simp only: unat_ucast_mod) (simp add: ipc_frame_ok_def)
  show "unat (of_nat (length f) :: size_t) = length f"
    using assms by (simp add: ipc_frame_ok_def unat_of_nat take_bit_nat_eq_self)
  show "unat (ntohl_bytes f - IPC_HEADER_SIZE) = length f - IPC_HEADER_SIZE"
    using assms by (simp add: ipc_frame_ok_def unat_sub word_le_nat_alt)
qed

lemma ipc_decode_ok:
  assumes "ipc_frame_ok f"
  shows "ipc_decode_message True (Some (f @ r)) (of_nat (length f)) (Some m) =
    Finished (IPC_ERR_OK, Some (ipc_message_of f))"
proof -
  note len = ipc_frame_ok_len [OF assms]
  have ok: "6 \<le> length f" "length f \<le> 4194304" "f ! 4 = 1" "unat (ntohl_bytes f) = length f"
    using assms by (auto simp: ipc_frame_ok_def)
  have nt: "ntohl_bytes (f @ r) = ntohl_bytes f"
    using ok by simp
  have pl: "unat (ucast (ntohl_bytes f - IPC_HEADER_SIZE) :: size_t) = length f - 6"
    using len ok by (simp only: unat_ucast_mod) simp
  then have pl': "(ucast (ntohl_bytes f - IPC_HEADER_SIZE) :: size_t) = of_nat (length f - 6)"
    by (rule unat_eq_of_nat)
  show ?thesis
    using ok len pl pl' nt
    by (auto simp: ipc_decode_message_def ipc_message_of_def Let_def word_less_nat_alt nth_append)
qed

lemma unat_payload_of:
  "ipc_frame_ok f \<Longrightarrow> unat (of_nat (length f - 6) :: size_t) = length f - 6"
  by (rule unat_of_nat_small) (auto simp: ipc_frame_ok_def)

lemma ipc_message_of_wf: "ipc_frame_ok f \<Longrightarrow> ipc_message_wf (ipc_message_of f)"
proof -
  assume f: "ipc_frame_ok f"
  note unat_payload_of [OF f]
  moreover have "unat (f ! 5) < 256"
    by (rule order_less_le_trans [OF unsigned_less]) simp
  then have "unat (ucast (f ! 5) :: u32) < 256"
    by (simp only: unat_ucast_mod) (metis mod_less_eq_dividend order_le_less_trans)
  ultimately show ?thesis
    using f by (auto simp: ipc_message_wf_def ipc_message_of_def ipc_frame_ok_def
        word_le_nat_alt word_less_nat_alt simp del: of_nat_diff)
qed

lemma ipc_frame_of_ok: "ipc_message_wf m \<Longrightarrow> ipc_frame_ok (ipc_frame_of m)"
proof -
  assume m: "ipc_message_wf m"
  have "unat (ucast (IPC_HEADER_SIZE + payload_len m) :: u32) = 6 + unat (payload_len m)"
    using m unat_total [of m] by (simp only: unat_ucast_mod) (simp add: ipc_message_wf_def word_le_nat_alt)
  then show ?thesis
    using m ipc_frame_of_length [OF m]
    by (simp add: ipc_frame_ok_def ipc_frame_of_def ipc_message_wf_def word_le_nat_alt)
qed

lemma ipc_message_of_frame_of: "ipc_message_wf m \<Longrightarrow> ipc_message_of (ipc_frame_of m) = m"
proof -
  assume m: "ipc_message_wf m"
  have "unat (ucast (ucast (mtype m) :: u8) :: u32) = unat (mtype m)"
    using m by (simp only: unat_ucast_mod) (simp add: ipc_message_wf_def word_less_nat_alt)
  then have ty: "ucast (ucast (mtype m) :: u8) = mtype m"
    by (simp only: word_unat_eq_iff)
  have len: "length (ipc_frame_of m) - 6 = unat (payload_len m)"
    using ipc_frame_of_length [OF m] by simp
  have pay: "payload m = (if length (ipc_frame_of m) = 6 then None else Some (ipc_payload_bytes m @ [0]))"
  proof (cases "payload m")
    case (Some p)
    with m have p: "length p = unat (payload_len m) + 1" "last p = 0" "payload_len m > 0"
      by (auto simp: ipc_message_wf_def)
    then have "p = butlast p @ [0]" by (metis append_butlast_last_id list.size(3) add_is_0 one_neq_zero)
    moreover have "take (unat (payload_len m)) p = butlast p"
      using p by (simp add: butlast_conv_take)
    ultimately show ?thesis
      using p Some len by (auto simp: ipc_payload_bytes_def word_less_nat_alt)
  qed (use m len in \<open>simp add: ipc_message_wf_def ipc_frame_of_length\<close>)
  show ?thesis
    unfolding ipc_message_of_def len using pay ty
    by (simp add: ipc_frame_of_def)
qed

lemma ipc_frame_of_message_of: "ipc_frame_ok f \<Longrightarrow> ipc_frame_of (ipc_message_of f) = f"
proof -
  assume f: "ipc_frame_ok f"
  then obtain h v t r where fr: "f = h @ [v, t] @ r" "length h = 4"
  proof -
    have "f = take 4 f @ [f ! 4, f ! 5] @ drop 6 f"
      using f Cons_nth_drop_Suc [of 4 f] Cons_nth_drop_Suc [of 5 f] append_take_drop_id [of 4 f]
      by (simp add: ipc_frame_ok_def)
    then show thesis using f that [of "take 4 f" "f ! 4" "f ! 5" "drop 6 f"]
      by (simp add: ipc_frame_ok_def)
  qed
  note l = unat_payload_of [OF f]
  have "unat (IPC_HEADER_SIZE + payload_len (ipc_message_of f)) = length f"
    using unat_total [of "ipc_message_of f"] ipc_message_of_wf [OF f] l f
    by (simp add: ipc_message_wf_def ipc_message_of_def ipc_frame_ok_def del: of_nat_diff)
  then have "ucast (IPC_HEADER_SIZE + payload_len (ipc_message_of f)) = ntohl_bytes f"
    using f by (simp only: word_unat_eq_iff unat_ucast_mod) (simp add: ipc_frame_ok_def)
  then have "htonl_bytes (ucast (IPC_HEADER_SIZE + payload_len (ipc_message_of f))) = h"
    using fr ntohl_take [of f] f by (simp add: ipc_frame_ok_def)
  then show ?thesis
    using fr f l by (auto simp: ipc_frame_of_def ipc_header_def ipc_payload_bytes_def
        ipc_frame_ok_def ipc_message_of_def nth_append simp del: of_nat_diff)
qed

text \<open>The decoder never reads outside a frame of the length it is told.\<close>

lemma ipc_decode_not_ok:
  assumes "length f = unat n" "\<not> ipc_frame_ok f"
  shows "\<exists>e m'. ipc_decode_message alloc (Some f) n (Some m) = Finished (e, Some m') \<and> e \<noteq> IPC_ERR_OK"
proof (rule ccontr)
  assume c: "\<not> ?thesis"
  then have "\<not> n < 6" "ucast (ntohl_bytes f) = n" "\<not> ntohl_bytes f > 4194304" "f ! 4 = 1"
    using assms(1) by (auto simp: ipc_decode_message_def Let_def word_less_nat_alt split: if_splits)
  moreover from this have "unat (ntohl_bytes f) = unat n"
    using unat_ucast_u32_u64 [of "ntohl_bytes f"] by simp
  ultimately show False
    using assms by (simp add: ipc_frame_ok_def word_less_nat_alt)
qed

section \<open>Properties\<close>

text \<open>
  C1. Encoding a well-formed message into a buffer that holds its frame and decoding the bytes
  written gives the message back, with its type, payload object and length; the decoder is
  given any previous content of the message it fills.
\<close>

theorem ipc_encode_decode:
  assumes "ipc_message_wf m" "length buf = unat frame_size"
    "IPC_HEADER_SIZE + unat (payload_len m) \<le> unat frame_size"
  shows "\<exists>frame. ipc_encode_message (Some m) (Some buf) frame_size =
      Finished (int (IPC_HEADER_SIZE + unat (payload_len m)), Some frame) \<and> length frame = length buf \<and>
    ipc_decode_message True (Some frame) (of_nat (IPC_HEADER_SIZE + unat (payload_len m))) (Some out) =
      Finished (IPC_ERR_OK, Some m)"
proof -
  let ?f = "ipc_frame_of m" let ?fr = "?f @ drop (length ?f) buf"
  note len = ipc_frame_of_length [OF assms(1)]
  have "ipc_encode_message (Some m) (Some buf) frame_size =
      Finished (int (IPC_HEADER_SIZE + unat (payload_len m)), Some ?fr)"
    using ipc_encode_wf [OF assms(1) _ assms(3)] assms(2) len by simp
  moreover have "ipc_decode_message True (Some ?fr) (of_nat (IPC_HEADER_SIZE + unat (payload_len m))) (Some out) =
      Finished (IPC_ERR_OK, Some m)"
    using ipc_decode_ok [OF ipc_frame_of_ok [OF assms(1)]] len
    by (metis assms(1) ipc_message_of_frame_of)
  moreover have "length ?fr = length buf"
    using len assms(2,3) by simp
  ultimately show ?thesis by blast
qed

text \<open>
  C2. Given a frame and its length, the decoder always returns, and accepts exactly the frames
  that are at least a header long, at most 4 MB, carry their own length in the length field and
  the protocol version; what it then returns is well-formed and encodes to the bytes decoded.
\<close>

theorem ipc_decode_exact:
  assumes "length f = unat n" "length f \<le> length buf" "length buf < 2 ^ 64"
  shows "\<exists>e m'. ipc_decode_message True (Some f) n (Some m) = Finished (e, Some m') \<and>
      (if ipc_frame_ok f
       then e = IPC_ERR_OK \<and> ipc_message_wf m' \<and>
         ipc_encode_message (Some m') (Some buf) (of_nat (length buf)) =
           Finished (int (length f), Some (f @ drop (length f) buf))
       else e \<noteq> IPC_ERR_OK)"
proof (cases "ipc_frame_ok f")
  case f: True
  let ?m = "ipc_message_of f"
  have "n = of_nat (length f)" using assms(1) by simp
  then have dec: "ipc_decode_message True (Some f) n (Some m) = Finished (IPC_ERR_OK, Some ?m)"
    using ipc_decode_ok [OF f, of "[]" m] by simp
  have "6 + unat (payload_len ?m) = length f"
    using ipc_frame_of_length [OF ipc_message_of_wf [OF f]] ipc_frame_of_message_of [OF f] by simp
  moreover have "unat (of_nat (length buf) :: size_t) = length buf"
    by (rule unat_of_nat_small) (use assms in simp)
  ultimately have "ipc_encode_message (Some ?m) (Some buf) (of_nat (length buf)) =
      Finished (int (length f), Some (f @ drop (length f) buf))"
    using ipc_encode_wf [OF ipc_message_of_wf [OF f], of "of_nat (length buf)" buf] assms(2)
    by (simp add: ipc_frame_of_message_of [OF f])
  then show ?thesis
    using dec ipc_message_of_wf [OF f] f by simp
qed (use ipc_decode_not_ok [OF assms(1)] in auto)

theorem ipc_encode_decode_witness:
  "\<exists>frame. ipc_encode_message (Some ping_message) (Some (replicate 16 0)) 16 = Finished (8, Some frame) \<and>
    length frame = 16 \<and>
    ipc_decode_message True (Some frame) 8 (Some ping_message) = Finished (IPC_ERR_OK, Some ping_message)"
  using ipc_encode_decode [of ping_message "replicate 16 0" 16 ping_message]
  by (simp add: ping_message_def ipc_message_wf_def)

theorem ipc_decode_exact_witness:
  "ipc_frame_ok [0, 0, 0, 8, 1, 0xF0, 123, 125] \<and>
   (\<exists>e m'. ipc_decode_message True (Some [0, 0, 0, 8, 1, 0xF0, 123, 125]) 8 (Some ping_message) = Finished (e, Some m') \<and>
      e = IPC_ERR_OK \<and>
      ipc_encode_message (Some m') (Some [0, 0, 0, 0, 0, 0, 0, 0, 0, 0]) 10 =
        Finished (8, Some ([0, 0, 0, 8, 1, 0xF0, 123, 125, 0, 0])))"
proof -
  have ok: "ipc_frame_ok [0, 0, 0, 8, 1, 0xF0, 123, 125]"
    by (simp add: ipc_frame_ok_def)
  then show ?thesis
    using ipc_decode_exact [of "[0, 0, 0, 8, 1, 0xF0, 123, 125]" 8 "[0, 0, 0, 0, 0, 0, 0, 0, 0, 0]" ping_message]
    by auto
qed

end
