(* ===== verification/IPC_Server.thy ===== *)
theory IPC_Server
  imports IPC_Protocol
begin

text \<open>
  The Unix socket server (\<open>src/src/ipc_server.c\<close>): a table of 64 clients, the receive buffer of
  each, the loop that cuts the received bytes into frames, and one iteration of the event loop.
  A client's \<open>recv_buf\<close> and \<open>recv_len\<close> are the list \<open>recv_data\<close> of the first \<open>recv_len\<close>
  bytes; the bytes after them are never read. The operating system is the record \<open>ipc_env\<close>: the
  answers of \<open>recv\<close> and \<open>send\<close>, of the allocations of one call in their order, and the content
  of the stack array a frame is built in. What the server does to its sockets is a list of events.
\<close>

section \<open>State\<close>

abbreviation (input) IPC_MAX_CONNECTIONS :: nat where "IPC_MAX_CONNECTIONS \<equiv> 64"

abbreviation (input) IPC_DEFAULT_SOCKET_PATH :: string where
  "IPC_DEFAULT_SOCKET_PATH \<equiv> ''/tmp/beamline-gateway.sock''"

datatype recv_result = Received bytes | Recv_Eof | Recv_Again | Recv_Error

datatype sock_event = Sent int bytes | Closed int

record ipc_env =
  env_recv :: "int \<Rightarrow> nat \<Rightarrow> recv_result"
  env_send :: "int \<Rightarrow> bytes \<Rightarrow> int"
  env_alloc :: "nat \<Rightarrow> bool"
  env_stack :: bytes

type_synonym 'u ipc_handler = "ipc_message_t \<Rightarrow> ipc_message_t \<Rightarrow> 'u \<Rightarrow> ipc_message_t \<times> 'u"

record ipc_client =
  fd :: int
  recv_data :: bytes
  active :: bool

record 'u ipc_server =
  listen_fd :: int
  socket_path :: string
  clients :: "ipc_client list"
  running :: bool
  message_handler :: "'u ipc_handler option"
  user_data :: 'u

definition zero_message :: ipc_message_t where
  "zero_message = \<lparr>mtype = 0, payload = None, payload_len = 0\<rparr>"

section \<open>Sending and the frame loop\<close>

definition ipc_send_message :: "ipc_env \<Rightarrow> int \<Rightarrow> ipc_message_t \<Rightarrow> (int \<times> sock_event list) outcome" where
  "ipc_send_message env cfd msg =
     (case ipc_encode_message (Some msg) (Some (env_stack env)) IPC_MAX_FRAME_SIZE of
        Finished (frame_size, Some frame_buf) \<Rightarrow>
          if frame_size < 0 then Finished (-1, [])
          else (let frame = take (nat frame_size) frame_buf;
                    sent = env_send env cfd frame in
                Finished (if sent \<noteq> frame_size then -1 else 0, [Sent cfd frame]))
      | _ \<Rightarrow> Undefined)"

text \<open>
  One pass of the \<open>while\<close> loop over the receive buffer: wait for more bytes, close the client
  after the given events, or go on after a frame of the given length. The k-th pass of a call
  uses the allocations \<open>2 * k\<close> and \<open>2 * k + 1\<close>.
\<close>

datatype 'u frame_step =
    Wait
  | Shut "sock_event list"
  | Next nat 'u "sock_event list"
  | Fault

definition ipc_response ::
    "ipc_env \<Rightarrow> nat \<Rightarrow> 'u ipc_handler option \<Rightarrow> ipc_message_t \<Rightarrow> 'u \<Rightarrow> (ipc_message_t \<times> 'u) option" where
  "ipc_response env k handler req u =
     (case handler of
        Some h \<Rightarrow> Some (h req zero_message u)
      | None \<Rightarrow>
          if env_alloc env (2 * k + 1)
          then Some (zero_message\<lparr>mtype := IPC_MSG_RESPONSE_OK,
                       payload := Some (bytes_of_string ''{\"ok\":true}'' @ [0]), payload_len := 11\<rparr>, u)
          else None)"

definition ipc_frame_step ::
    "ipc_env \<Rightarrow> nat \<Rightarrow> 'u ipc_handler option \<Rightarrow> int \<Rightarrow> bytes \<Rightarrow> 'u \<Rightarrow> 'u frame_step" where
  "ipc_frame_step env k handler cfd buf u =
     (let frame_len = ntohl_bytes buf in
      if frame_len > IPC_MAX_FRAME_SIZE then Shut []
      else if length buf < unat frame_len then Wait
      else case ipc_decode_message (env_alloc env (2 * k)) (Some buf) (ucast frame_len) (Some zero_message) of
          Finished (err, Some req) \<Rightarrow>
            if err \<noteq> IPC_ERR_OK then
              (case ipc_create_error_response (env_alloc env (2 * k + 1)) err None (Some zero_message) of
                 (IPC_ERR_OK, Some error_resp) \<Rightarrow>
                   (case ipc_send_message env cfd error_resp of
                      Finished (_, evs) \<Rightarrow> Shut evs
                    | Undefined \<Rightarrow> Fault)
               | _ \<Rightarrow> Shut [])
            else
              (case ipc_response env k handler req u of
                 Some (response, u') \<Rightarrow>
                   (case ipc_send_message env cfd response of
                      Finished (_, evs) \<Rightarrow> Next (unat frame_len) u' evs
                    | Undefined \<Rightarrow> Fault)
               | None \<Rightarrow> Fault)
        | _ \<Rightarrow> Fault)"

text \<open>The events of a first part put before those of the second.\<close>

fun after_events :: "sock_event list \<Rightarrow> ('a \<times> sock_event list) outcome \<Rightarrow> ('a \<times> sock_event list) outcome" where
  "after_events evs (Finished (x, evs')) = Finished (x, evs @ evs')"
| "after_events evs Undefined = Undefined"

text \<open>The loop: the bytes left over, or \<open>None\<close> when the client is to be closed.\<close>

function (sequential) ipc_frames ::
    "ipc_env \<Rightarrow> nat \<Rightarrow> 'u ipc_handler option \<Rightarrow> int \<Rightarrow> bytes \<Rightarrow> 'u \<Rightarrow>
      ((bytes option \<times> 'u) \<times> sock_event list) outcome" where
  "ipc_frames env k handler cfd buf u =
     (if length buf < IPC_HEADER_SIZE then Finished ((Some buf, u), [])
      else case ipc_frame_step env k handler cfd buf u of
          Wait \<Rightarrow> Finished ((Some buf, u), [])
        | Shut evs \<Rightarrow> Finished ((None, u), evs)
        | Fault \<Rightarrow> Undefined
        | Next n u' evs \<Rightarrow> after_events evs (ipc_frames env (Suc k) handler cfd (drop n buf) u'))"
  by pat_completeness auto

lemma ipc_decode_OK_len:
  "ipc_decode_message a f n m = Finished (IPC_ERR_OK, r) \<Longrightarrow> 6 \<le> n"
  by (auto simp: ipc_decode_message_def split: option.splits if_splits)

lemma ipc_frame_step_Next_len:
  assumes "ipc_frame_step env k handler cfd buf u = Next n u' evs"
  shows "6 \<le> n \<and> n \<le> length buf"
proof -
  obtain r where d: "ipc_decode_message (env_alloc env (2 * k)) (Some buf) (ucast (ntohl_bytes buf)) (Some zero_message) =
      Finished (IPC_ERR_OK, r)" and n: "n = unat (ntohl_bytes buf)" "n \<le> length buf"
    using assms
    by (auto simp: ipc_frame_step_def Let_def split: if_splits outcome.splits option.splits prod.splits ipc_error_t.splits)
  from ipc_decode_OK_len [OF d] have "6 \<le> unat (ntohl_bytes buf)"
    by (simp add: word_le_nat_alt unat_ucast_u32_u64)
  with n show ?thesis by simp
qed

termination ipc_frames
  by (relation "measure (\<lambda>(_, _, _, _, buf, _). length buf)") (auto dest: ipc_frame_step_Next_len)

declare ipc_frames.simps [simp del]

section \<open>The client table\<close>

definition ipc_close_client :: "'u ipc_server \<Rightarrow> nat \<Rightarrow> 'u ipc_server \<times> sock_event list" where
  "ipc_close_client server slot =
     (let client = clients server ! slot in
      if active client
      then (server\<lparr>clients := (clients server)[slot := client\<lparr>active := False, recv_data := []\<rparr>]\<rparr>,
            [Closed (fd client)])
      else (server, []))"

text \<open>
  \<open>accepted\<close> is the descriptor \<open>accept\<close> returns, \<open>nonblock\<close> the result of making it
  non-blocking. The result is the slot taken, or -1.
\<close>

definition ipc_accept_client :: "int \<Rightarrow> int \<Rightarrow> 'u ipc_server \<Rightarrow> int \<times> 'u ipc_server \<times> sock_event list" where
  "ipc_accept_client accepted nonblock server =
     (if accepted < 0 then (-1, server, [])
      else if nonblock < 0 then (-1, server, [Closed accepted])
      else (case first_index (\<lambda>c. \<not> active c) (clients server) of
              Some i \<Rightarrow> (int i, server\<lparr>clients := (clients server)[i :=
                            \<lparr>fd = accepted, recv_data = [], active = True\<rparr>]\<rparr>, [])
            | None \<Rightarrow> (-1, server, [Closed accepted])))"

definition ipc_handle_client_data ::
    "ipc_env \<Rightarrow> 'u ipc_server \<Rightarrow> nat \<Rightarrow> ('u ipc_server \<times> sock_event list) outcome" where
  "ipc_handle_client_data env server slot =
     (let client = clients server ! slot;
          room = IPC_MAX_FRAME_SIZE - length (recv_data client) in
      case env_recv env (fd client) room of
        Recv_Again \<Rightarrow> Finished (server, [])
      | Recv_Eof \<Rightarrow> Finished (ipc_close_client server slot)
      | Recv_Error \<Rightarrow> Finished (ipc_close_client server slot)
      | Received bs \<Rightarrow>
          if length bs > room then Undefined
          else (case ipc_frames env 0 (message_handler server) (fd client) (recv_data client @ bs) (user_data server) of
              Undefined \<Rightarrow> Undefined
            | Finished ((Some rest, u), evs) \<Rightarrow>
                Finished (server\<lparr>clients := (clients server)[slot := client\<lparr>recv_data := rest\<rparr>], user_data := u\<rparr>, evs)
            | Finished ((None, u), evs) \<Rightarrow>
                (let (s, cl) = ipc_close_client (server\<lparr>user_data := u\<rparr>) slot in Finished (s, evs @ cl))))"

section \<open>Life cycle and event loop\<close>

text \<open>
  \<open>sock\<close> is the result of \<open>ipc_create_unix_socket\<close> on the path, \<open>nonblock\<close> that of
  \<open>set_nonblocking\<close>, \<open>alloc\<close> that of \<open>calloc\<close>; \<open>u0\<close> is the null user data.
\<close>

definition ipc_server_init :: "bool \<Rightarrow> (string \<Rightarrow> int) \<Rightarrow> int \<Rightarrow> 'u \<Rightarrow> string option \<Rightarrow> 'u ipc_server option" where
  "ipc_server_init alloc sock nonblock u0 path =
     (if \<not> alloc then None
      else (let p = (case path of Some s \<Rightarrow> s | None \<Rightarrow> IPC_DEFAULT_SOCKET_PATH);
                lfd = sock p in
            if lfd < 0 then None
            else if nonblock < 0 then None
            else Some \<lparr>listen_fd = lfd, socket_path = c_copy 256 p,
                       clients = replicate IPC_MAX_CONNECTIONS \<lparr>fd = 0, recv_data = [], active = False\<rparr>,
                       running = True, message_handler = None, user_data = u0\<rparr>))"

definition ipc_server_set_handler :: "'u ipc_server \<Rightarrow> 'u ipc_handler option \<Rightarrow> 'u \<Rightarrow> 'u ipc_server" where
  "ipc_server_set_handler server handler u = server\<lparr>message_handler := handler, user_data := u\<rparr>"

definition ipc_server_stop :: "'u ipc_server \<Rightarrow> 'u ipc_server" where
  "ipc_server_stop server = server\<lparr>running := False\<rparr>"

text \<open>
  The answer of \<open>poll\<close>: interrupted, failed, timed out, or the descriptors that have input.
  The accepted descriptor and the result of making it non-blocking come with it.
\<close>

datatype poll_result = Poll_Intr | Poll_Fail | Poll_Timeout | Poll_Ready "int \<Rightarrow> bool" int int

definition polled_fds :: "'u ipc_server \<Rightarrow> int list" where
  "polled_fds server = map fd (filter active (clients server))"

fun serve_clients ::
    "ipc_env \<Rightarrow> (int \<Rightarrow> bool) \<Rightarrow> int list \<Rightarrow> nat list \<Rightarrow> 'u ipc_server \<Rightarrow> ('u ipc_server \<times> sock_event list) outcome" where
  "serve_clients env pollin fds [] server = Finished (server, [])"
| "serve_clients env pollin fds (i # is) server =
     (let c = clients server ! i in
      if active c \<and> fd c \<in> set fds \<and> pollin (fd c) then
        (case ipc_handle_client_data env server i of
           Undefined \<Rightarrow> Undefined
         | Finished (s, evs) \<Rightarrow> after_events evs (serve_clients env pollin fds is s))
      else serve_clients env pollin fds is server)"

text \<open>One iteration of \<open>ipc_server_run\<close>; the flag says whether the loop goes round again.\<close>

definition ipc_server_iter ::
    "ipc_env \<Rightarrow> poll_result \<Rightarrow> 'u ipc_server \<Rightarrow> (bool \<times> 'u ipc_server \<times> sock_event list) outcome" where
  "ipc_server_iter env pr server =
     (case pr of
        Poll_Intr \<Rightarrow> Finished (True, server, [])
      | Poll_Fail \<Rightarrow> Finished (False, server, [])
      | Poll_Timeout \<Rightarrow> Finished (True, server, [])
      | Poll_Ready pollin accepted nonblock \<Rightarrow>
          (let fds = polled_fds server;
               (s1, evs1) = (if pollin (listen_fd server)
                             then snd (ipc_accept_client accepted nonblock server) else (server, [])) in
           case serve_clients env pollin fds (slots IPC_MAX_CONNECTIONS) s1 of
             Undefined \<Rightarrow> Undefined
           | Finished (s2, evs2) \<Rightarrow> Finished (True, s2, evs1 @ evs2)))"

fun close_all :: "nat list \<Rightarrow> 'u ipc_server \<Rightarrow> 'u ipc_server \<times> sock_event list" where
  "close_all [] server = (server, [])"
| "close_all (i # is) server =
     (let (s, e) = ipc_close_client server i; (s', e') = close_all is s in (s', e @ e'))"

definition ipc_server_destroy :: "'u ipc_server \<Rightarrow> sock_event list" where
  "ipc_server_destroy server =
     snd (close_all (slots IPC_MAX_CONNECTIONS) server) @
     (if listen_fd server \<ge> 0 then [Closed (listen_fd server)] else [])"

section \<open>Specification\<close>

text \<open>Bytes the loop leaves in the buffer: less than a header, or less than the announced frame.\<close>

definition ipc_incomplete :: "bytes \<Rightarrow> bool" where
  "ipc_incomplete buf =
     (length buf < IPC_HEADER_SIZE \<or>
      (unat (ntohl_bytes buf) \<le> IPC_MAX_FRAME_SIZE \<and> length buf < unat (ntohl_bytes buf)))"

text \<open>Bytes that start with a frame the server refuses.\<close>

definition ipc_refused :: "bytes \<Rightarrow> bool" where
  "ipc_refused buf =
     (IPC_HEADER_SIZE \<le> length buf \<and>
      (IPC_MAX_FRAME_SIZE < unat (ntohl_bytes buf) \<or>
       unat (ntohl_bytes buf) \<le> length buf \<and> \<not> ipc_frame_ok (take (unat (ntohl_bytes buf)) buf)))"

text \<open>The conversation a handler has over a list of frames: the response frames in order.\<close>

fun answer_frames :: "'u ipc_handler \<Rightarrow> bytes list \<Rightarrow> 'u \<Rightarrow> bytes list \<times> 'u" where
  "answer_frames h [] u = ([], u)"
| "answer_frames h (f # fs) u =
     (let (r, u1) = h (ipc_message_of f) zero_message u;
          (rs, u2) = answer_frames h fs u1 in
      (ipc_frame_of r # rs, u2))"

text \<open>An environment whose allocations succeed and whose frame array has its declared size.\<close>

definition ipc_env_ok :: "ipc_env \<Rightarrow> bool" where
  "ipc_env_ok env = (env_alloc env = (\<lambda>_. True) \<and> length (env_stack env) = IPC_MAX_FRAME_SIZE)"

text \<open>What POSIX says of \<open>recv\<close>: never more bytes than asked for.\<close>

definition recv_bounded :: "ipc_env \<Rightarrow> bool" where
  "recv_bounded env = (\<forall>s n bs. env_recv env s n = Received bs \<longrightarrow> length bs \<le> n)"

text \<open>The bytes of one connection delivered in the given pieces, one \<open>recv\<close> each.\<close>

fun receive_chunks ::
    "ipc_env \<Rightarrow> nat \<Rightarrow> bytes list \<Rightarrow> 'u ipc_server \<Rightarrow> ('u ipc_server \<times> sock_event list) outcome" where
  "receive_chunks env slot [] server = Finished (server, [])"
| "receive_chunks env slot (c # cs) server =
     (if \<not> active (clients server ! slot) then Finished (server, [])
      else case ipc_handle_client_data (env\<lparr>env_recv := (\<lambda>_ _. Received c)\<rparr>) server slot of
          Undefined \<Rightarrow> Undefined
        | Finished (s, evs) \<Rightarrow> after_events evs (receive_chunks env slot cs s))"

definition ipc_client_inv :: "ipc_client \<Rightarrow> bool" where
  "ipc_client_inv c = (if active c then ipc_incomplete (recv_data c) else recv_data c = [])"

definition ipc_server_inv :: "'u ipc_server \<Rightarrow> bool" where
  "ipc_server_inv server =
     (length (clients server) = IPC_MAX_CONNECTIONS \<and>
      list_all ipc_client_inv (clients server))"

text \<open>The states of a server under any sequence of poll results, stops and handler changes.\<close>

inductive ipc_server_reach :: "'u ipc_server \<Rightarrow> bool" where
  start: "ipc_server_init alloc sock nonblock u0 path = Some s \<Longrightarrow> ipc_server_reach s"
| iter: "ipc_server_reach s \<Longrightarrow> running s \<Longrightarrow> recv_bounded env \<Longrightarrow>
    ipc_server_iter env pr s = Finished (b, s', evs) \<Longrightarrow> ipc_server_reach s'"
| handler: "ipc_server_reach s \<Longrightarrow> ipc_server_reach (ipc_server_set_handler s h u)"
| stop: "ipc_server_reach s \<Longrightarrow> ipc_server_reach (ipc_server_stop s)"

text \<open>A sample environment and a server with one client.\<close>

definition demo_env :: ipc_env where
  "demo_env = \<lparr>env_recv = (\<lambda>_ _. Recv_Eof), env_send = (\<lambda>_ f. int (length f)),
     env_alloc = (\<lambda>_. True), env_stack = replicate 4194304 0\<rparr>"

definition demo_server :: "unit ipc_server" where
  "demo_server = \<lparr>listen_fd = 3, socket_path = ''s'',
     clients = \<lparr>fd = 4, recv_data = [], active = True\<rparr> # replicate 63 \<lparr>fd = 0, recv_data = [], active = False\<rparr>,
     running = True, message_handler = None, user_data = ()\<rparr>"

section \<open>Lemmas\<close>

lemma length_answer_frames [simp]: "length (fst (answer_frames h fs u)) = length fs"
  by (induction fs arbitrary: u) (auto simp: case_prod_unfold Let_def)

lemma ipc_incomplete_bound: "ipc_incomplete buf \<Longrightarrow> length buf < 4194304"
  by (auto simp: ipc_incomplete_def)

lemma after_events_Finished:
  "after_events evs out = Finished (x, evs') \<longleftrightarrow> (\<exists>e. out = Finished (x, e) \<and> evs' = evs @ e)"
  by (cases "(evs, out)" rule: after_events.cases) auto

lemma after_events_Nil [simp]: "after_events [] out = out"
  by (cases "([] :: sock_event list, out)" rule: after_events.cases) auto

lemma after_events_append [simp]: "after_events xs (after_events ys out) = after_events (xs @ ys) out"
  by (cases "(ys, out)" rule: after_events.cases) auto

lemma after_events_Undefined [simp]: "after_events evs out = Undefined \<longleftrightarrow> out = Undefined"
  by (cases "(evs, out)" rule: after_events.cases) auto

text \<open>The loop unrolled by the outcome of one pass.\<close>

lemma ipc_frames_unroll:
  "length buf < 6 \<Longrightarrow> ipc_frames env k h cfd buf u = Finished ((Some buf, u), [])"
  "6 \<le> length buf \<Longrightarrow> ipc_frame_step env k h cfd buf u = Wait \<Longrightarrow>
     ipc_frames env k h cfd buf u = Finished ((Some buf, u), [])"
  "6 \<le> length buf \<Longrightarrow> ipc_frame_step env k h cfd buf u = Shut evs \<Longrightarrow>
     ipc_frames env k h cfd buf u = Finished ((None, u), evs)"
  "6 \<le> length buf \<Longrightarrow> ipc_frame_step env k h cfd buf u = Fault \<Longrightarrow>
     ipc_frames env k h cfd buf u = Undefined"
  "6 \<le> length buf \<Longrightarrow> ipc_frame_step env k h cfd buf u = Next n u' evs \<Longrightarrow>
     ipc_frames env k h cfd buf u = after_events evs (ipc_frames env (Suc k) h cfd (drop n buf) u')"
  by (subst ipc_frames.simps; simp)+

lemma ipc_frame_step_Wait:
  "ipc_frame_step env k h cfd buf u = Wait \<longleftrightarrow>
     ntohl_bytes buf \<le> 4194304 \<and> length buf < unat (ntohl_bytes buf)"
  by (auto simp: ipc_frame_step_def Let_def
      split: if_splits outcome.splits option.splits prod.splits ipc_error_t.splits)

lemma ipc_frames_rest:
  "ipc_frames env k h cfd buf u = Finished ((Some rest, u'), evs) \<Longrightarrow> ipc_incomplete rest"
proof (induction env k h cfd buf u arbitrary: evs rule: ipc_frames.induct)
  case (1 env k h cfd buf u)
  show ?case
  proof (cases "length buf < 6")
    case False
    then show ?thesis
    proof (cases "ipc_frame_step env k h cfd buf u")
      case (Next n u1 e)
      with "1.prems" False obtain e' where "ipc_frames env (Suc k) h cfd (drop n buf) u1 = Finished ((Some rest, u'), e')"
        by (auto simp: ipc_frames_unroll after_events_Finished)
      with "1.IH" [OF False Next] show ?thesis by simp
    next
      case Wait
      then have "ntohl_bytes buf \<le> 4194304" "length buf < unat (ntohl_bytes buf)"
        by (simp_all add: ipc_frame_step_Wait)
      with "1.prems" False Wait show ?thesis
        by (simp add: ipc_frames_unroll ipc_incomplete_def word_le_nat_alt)
    qed (use "1.prems" in \<open>simp_all add: ipc_frames_unroll\<close>)
  qed (use "1.prems" in \<open>simp add: ipc_frames_unroll ipc_incomplete_def\<close>)
qed

lemma ipc_close_client_simps [simp]:
  "length (clients (fst (ipc_close_client s i))) = length (clients s)"
  "user_data (fst (ipc_close_client s i)) = user_data s"
  "running (fst (ipc_close_client s i)) = running s"
  by (simp_all add: ipc_close_client_def Let_def)

lemma ipc_server_inv_update:
  "ipc_server_inv s \<Longrightarrow> ipc_client_inv c \<Longrightarrow> ipc_server_inv (s\<lparr>clients := (clients s)[i := c]\<rparr>)"
  using list_all_update [of "clients s" ipc_client_inv c i] by (simp add: ipc_server_inv_def list_all_iff)

lemma ipc_close_client_inv [gw_inv]: "ipc_server_inv s \<Longrightarrow> ipc_server_inv (fst (ipc_close_client s i))"
  by (simp add: ipc_close_client_def Let_def ipc_server_inv_update ipc_client_inv_def)

lemma ipc_accept_client_inv [gw_inv]:
  "ipc_server_inv s \<Longrightarrow> ipc_server_inv (fst (snd (ipc_accept_client a nb s)))"
  by (simp add: ipc_accept_client_def ipc_incomplete_def ipc_server_inv_update ipc_client_inv_def
      split: option.split)

lemma ipc_server_inv_user [simp]: "ipc_server_inv (s\<lparr>user_data := u\<rparr>) = ipc_server_inv s"
  by (simp add: ipc_server_inv_def)

lemma ipc_handle_client_data_inv [gw_inv]:
  assumes "ipc_server_inv s" "active (clients s ! i)"
    "ipc_handle_client_data env s i = Finished (s', evs)"
  shows "ipc_server_inv s'"
proof -
  let ?c = "clients s ! i"
  show ?thesis
  proof (cases "env_recv env (fd ?c) (4194304 - length (recv_data ?c))")
    case (Received bs)
    from assms(3) obtain r u e where fr: "ipc_frames env 0 (message_handler s) (fd ?c) (recv_data ?c @ bs) (user_data s) =
        Finished ((r, u), e)"
      by (auto simp: ipc_handle_client_data_def Let_def Received split: outcome.splits if_splits)
    show ?thesis
    proof (cases r)
      case None
      then have "s' = fst (ipc_close_client (s\<lparr>user_data := u\<rparr>) i)"
        using assms(3) fr Received
        by (auto simp: ipc_handle_client_data_def Let_def split: if_splits prod.splits)
      then show ?thesis using assms(1) ipc_close_client_inv [of "s\<lparr>user_data := u\<rparr>"] by simp
    next
      case (Some rest)
      then have "ipc_client_inv (?c\<lparr>recv_data := rest\<rparr>)"
        using ipc_frames_rest fr assms(2) by (auto simp: ipc_client_inv_def)
      then show ?thesis
        using assms(1,3) fr Received Some ipc_server_inv_update [of s "?c\<lparr>recv_data := rest\<rparr>" i]
        by (auto simp: ipc_handle_client_data_def Let_def split: if_splits)
    qed
  qed (use assms ipc_close_client_inv [of s i] in \<open>auto simp: ipc_handle_client_data_def Let_def\<close>)
qed

lemma serve_clients_inv [gw_inv]:
  "ipc_server_inv s \<Longrightarrow> serve_clients env pollin fds is s = Finished (s', evs) \<Longrightarrow> ipc_server_inv s'"
proof (induction "is" arbitrary: s evs)
  case (Cons i "is")
  show ?case
  proof (cases "active (clients s ! i) \<and> fd (clients s ! i) \<in> set fds \<and> pollin (fd (clients s ! i))")
    case True
    with Cons.prems(2) obtain s1 e1 e2 where "ipc_handle_client_data env s i = Finished (s1, e1)"
      "serve_clients env pollin fds is s1 = Finished (s', e2)"
      by (auto simp: Let_def after_events_Finished split: outcome.splits)
    with True Cons.prems(1) Cons.IH show ?thesis
      using ipc_handle_client_data_inv by blast
  qed (use Cons in \<open>auto simp: Let_def split: if_splits\<close>)
qed simp

lemma ipc_server_iter_inv [gw_inv]:
  "ipc_server_inv s \<Longrightarrow> ipc_server_iter env pr s = Finished (b, s', evs) \<Longrightarrow> ipc_server_inv s'"
proof (cases pr)
  case (Poll_Ready pollin a nb)
  assume s: "ipc_server_inv s" and it: "ipc_server_iter env pr s = Finished (b, s', evs)"
  let ?s1 = "fst (if pollin (listen_fd s) then snd (ipc_accept_client a nb s) else (s, []))"
  from it Poll_Ready obtain e2 where "serve_clients env pollin (polled_fds s) (slots 64) ?s1 = Finished (s', e2)"
    by (auto simp: ipc_server_iter_def Let_def split: outcome.splits prod.splits)
  moreover from s have "ipc_server_inv ?s1"
    by (simp add: ipc_accept_client_inv)
  ultimately show ?thesis using serve_clients_inv by blast
qed (simp_all add: ipc_server_iter_def)

lemma ipc_server_init_inv [gw_inv]:
  "ipc_server_init alloc sock nb u0 path = Some s \<Longrightarrow> ipc_server_inv s"
  by (auto simp: ipc_server_init_def Let_def ipc_server_inv_def ipc_client_inv_def list_all_iff split: if_splits)

lemma ipc_server_reach_inv: "ipc_server_reach s \<Longrightarrow> ipc_server_inv s"
proof (induction rule: ipc_server_reach.induct)
  case (iter s env pr b s' evs)
  then show ?case using ipc_server_iter_inv by blast
next
  case (start alloc sock nonblock u0 path s)
  then show ?case by (rule ipc_server_init_inv)
qed (simp_all add: ipc_server_inv_def ipc_server_set_handler_def ipc_server_stop_def)

subsection \<open>Frames in order\<close>

lemma ipc_decode_append:
  "unat n \<le> length f \<Longrightarrow>
     ipc_decode_message a (Some (f @ r)) n (Some m) = ipc_decode_message a (Some f) n (Some m)"
  using unat_sub [of 6 "ntohl_bytes f"]
  by (cases "unat n < 6") (auto simp: ipc_decode_message_def Let_def word_less_nat_alt word_le_nat_alt nth_append
      unat_ucast_u32_u64 split: if_splits)

lemma ipc_frame_step_alloc:
  "ipc_env_ok env \<Longrightarrow> ipc_frame_step env k h cfd buf u = ipc_frame_step env 0 h cfd buf u"
proof -
  assume "ipc_env_ok env"
  then have a: "env_alloc env = (\<lambda>_. True)" by (simp add: ipc_env_ok_def)
  have r: "ipc_response env k h = ipc_response env 0 h"
    by (simp add: fun_eq_iff ipc_response_def a)
  show ?thesis unfolding ipc_frame_step_def r a ..
qed

lemma ipc_frame_step_append:
  assumes "ipc_frame_step env k h cfd buf u \<noteq> Wait" "6 \<le> length buf"
  shows "ipc_frame_step env k h cfd (buf @ ys) u = ipc_frame_step env k h cfd buf u"
proof -
  have nt: "ntohl_bytes (buf @ ys) = ntohl_bytes buf"
    using assms(2) by simp
  show ?thesis
  proof (cases "ntohl_bytes buf > 4194304")
    case False
    with assms(1) have "unat (ntohl_bytes buf) \<le> length buf"
      by (auto simp: ipc_frame_step_Wait)
    then have "ipc_decode_message (env_alloc env (2 * k)) (Some (buf @ ys)) (ucast (ntohl_bytes buf)) (Some zero_message) =
      ipc_decode_message (env_alloc env (2 * k)) (Some buf) (ucast (ntohl_bytes buf)) (Some zero_message)"
      by (intro ipc_decode_append) (simp add: unat_ucast_u32_u64)
    with False \<open>unat (ntohl_bytes buf) \<le> length buf\<close> show ?thesis
      by (simp add: ipc_frame_step_def Let_def nt)
  qed (simp add: ipc_frame_step_def nt Let_def)
qed

lemma ipc_frames_alloc:
  "ipc_env_ok env \<Longrightarrow> ipc_frames env k h cfd buf u = ipc_frames env j h cfd buf u"
proof (induction env k h cfd buf u arbitrary: j rule: ipc_frames.induct)
  case (1 env k h cfd buf u)
  show ?case
  proof (cases "length buf < 6")
    case False
    have step: "ipc_frame_step env j h cfd buf u = ipc_frame_step env k h cfd buf u"
      using ipc_frame_step_alloc [OF "1.prems"] by metis
    show ?thesis
    proof (cases "ipc_frame_step env k h cfd buf u")
      case (Next n u1 e)
      with "1.IH" [OF False Next "1.prems", of "Suc j"] step False show ?thesis
        by (simp add: ipc_frames_unroll)
    qed (use step False in \<open>simp_all add: ipc_frames_unroll\<close>)
  qed (simp add: ipc_frames_unroll)
qed

text \<open>What the loop makes of a longer buffer, from what it makes of the first bytes.\<close>

lemma ipc_frames_append:
  "ipc_env_ok env \<Longrightarrow>
     ipc_frames env k h cfd (xs @ ys) u =
       (case ipc_frames env k h cfd xs u of
          Finished ((Some r, u'), evs) \<Rightarrow> after_events evs (ipc_frames env k h cfd (r @ ys) u')
        | out \<Rightarrow> out)"
proof (induction env k h cfd xs u rule: ipc_frames.induct)
  case (1 env k h cfd xs u)
  show ?case
  proof (cases "length xs < 6")
    case False
    then have app: "ipc_frame_step env k h cfd xs u \<noteq> Wait \<Longrightarrow>
        ipc_frame_step env k h cfd (xs @ ys) u = ipc_frame_step env k h cfd xs u"
      by (intro ipc_frame_step_append) simp_all
    show ?thesis
    proof (cases "ipc_frame_step env k h cfd xs u")
      case (Next n u1 e)
      then have step: "ipc_frame_step env k h cfd (xs @ ys) u = Next n u1 e"
        using app by simp
      have n: "n \<le> length xs" using ipc_frame_step_Next_len [OF Next] by simp
      note IH = "1.IH" [OF False Next "1.prems"]
      have k: "ipc_frames env (Suc k) h cfd (r @ ys) v = ipc_frames env k h cfd (r @ ys) v" for r v
        by (rule ipc_frames_alloc [OF "1.prems"])
      show ?thesis
        using IH step Next False n
        by (cases "ipc_frames env (Suc k) h cfd (drop n xs) u1")
           (auto simp: ipc_frames_unroll k split: option.splits)
    next
      case (Shut e)
      then have "ipc_frame_step env k h cfd (xs @ ys) u = Shut e"
        using app by simp
      with Shut False show ?thesis by (simp add: ipc_frames_unroll)
    next
      case Fault
      then have "ipc_frame_step env k h cfd (xs @ ys) u = Fault"
        using app by simp
      with Fault False show ?thesis by (simp add: ipc_frames_unroll)
    qed (use False in \<open>simp add: ipc_frames_unroll\<close>)
  qed (simp add: ipc_frames_unroll)
qed

lemma ipc_frame_ok_take:
  "ipc_frame_ok (take n buf) \<Longrightarrow> n \<le> length buf \<Longrightarrow> unat (ntohl_bytes buf) = n"
  using ntohl_append [of "take n buf" "drop n buf"] by (simp add: ipc_frame_ok_def)

text \<open>Sending a message the encoder accepts hands exactly its frame to the socket.\<close>

lemma ipc_send_sendable:
  assumes "ipc_env_ok env" "ipc_sendable m"
  shows "\<exists>r. ipc_send_message env cfd m = Finished (r, [Sent cfd (ipc_frame_of m)])"
proof -
  have "6 + unat (payload_len m) \<le> unat (4194304 :: size_t)"
    using assms(2) by (simp add: ipc_sendable_def word_le_nat_alt)
  then show ?thesis
    using ipc_encode_sendable [OF assms(2), of 4194304 "env_stack env"] assms(1)
    by (simp add: ipc_send_message_def ipc_env_ok_def Let_def)
qed

lemma ipc_frame_step_refused:
  assumes "ipc_env_ok env" "ipc_refused buf"
  shows "\<exists>evs. ipc_frame_step env k h cfd buf u = Shut evs \<and>
    (if 4194304 < unat (ntohl_bytes buf) then evs = []
     else \<exists>e m. e \<noteq> IPC_ERR_OK \<and> snd (ipc_create_error_response True e None (Some zero_message)) = Some m \<and>
       evs = [Sent cfd (ipc_frame_of m)])"
proof (cases "4194304 < unat (ntohl_bytes buf)")
  case False
  let ?n = "unat (ntohl_bytes buf)"
  from False assms(2) have n: "?n \<le> length buf" "\<not> ipc_frame_ok (take ?n buf)" "6 \<le> length buf"
    by (auto simp: ipc_refused_def)
  have al: "env_alloc env j" for j using assms(1) by (simp add: ipc_env_ok_def)
  obtain e m where d: "ipc_decode_message True (Some (take ?n buf)) (ucast (ntohl_bytes buf)) (Some zero_message) =
      Finished (e, Some m)" and e: "e \<noteq> IPC_ERR_OK"
    using ipc_decode_not_ok [OF _ n(2), where n = "ucast (ntohl_bytes buf)" and alloc = True and m = zero_message] n(1)
    by (auto simp: unat_ucast_u32_u64)
  have "ipc_decode_message True (Some buf) (ucast (ntohl_bytes buf)) (Some zero_message) = Finished (e, Some m)"
    using d ipc_decode_append [of "ucast (ntohl_bytes buf)" "take ?n buf" True "drop ?n buf"] n(1)
    by (simp add: unat_ucast_u32_u64)
  moreover obtain em where em: "ipc_create_error_response True e None (Some zero_message) = (IPC_ERR_OK, Some em)"
      "ipc_message_wf em"
    by (cases e) (auto simp: ipc_create_error_response_def ipc_error_json_def zero_message_def ipc_message_wf_def
        Let_def dec_int_def dec_nat.simps)
  moreover obtain r where "ipc_send_message env cfd em = Finished (r, [Sent cfd (ipc_frame_of em)])"
    using ipc_send_sendable [OF assms(1) ipc_message_wf_sendable [OF em(2)]] by blast
  ultimately show ?thesis
    using False n(1) e by (auto simp: ipc_frame_step_def Let_def al word_less_nat_alt)
qed (simp add: ipc_frame_step_def word_less_nat_alt)

text \<open>Every buffer is a run of acceptable frames followed by an incomplete or a refused one.\<close>

lemma ipc_buffer_cases:
  "\<exists>fs rest. buf = concat fs @ rest \<and> list_all ipc_frame_ok fs \<and> (ipc_incomplete rest \<or> ipc_refused rest)"
proof (induction "length buf" arbitrary: buf rule: less_induct)
  case less
  let ?n = "unat (ntohl_bytes buf)"
  show ?case
  proof (cases "ipc_incomplete buf \<or> ipc_refused buf")
    case True
    then show ?thesis by (intro exI [of _ "[]"] exI [of _ buf]) simp
  next
    case False
    then have ok: "ipc_frame_ok (take ?n buf)" "?n \<le> length buf" "6 \<le> length buf"
      by (auto simp: ipc_incomplete_def ipc_refused_def)
    then have "length (drop ?n buf) < length buf"
      by (auto simp: ipc_frame_ok_def)
    from less [OF this] obtain fs rest where
      "drop ?n buf = concat fs @ rest" "list_all ipc_frame_ok fs" "ipc_incomplete rest \<or> ipc_refused rest"
      by blast
    with ok(1) show ?thesis
      by (intro exI [of _ "take ?n buf # fs"] exI [of _ rest]) (simp, metis append_take_drop_id)
  qed
qed

section \<open>The contract of a message handler\<close>

text \<open>
  What the server relies on in the callback it is given (\<open>ipc_message_handler_fn\<close>): from a state
  the handler keeps valid, a well-formed request is answered by a message the encoder accepts.
\<close>

locale ipc_handler_contract =
  fixes handler :: "'u ipc_handler"
    and hinv :: "'u \<Rightarrow> bool"
  assumes handler_wf: "hinv u \<Longrightarrow> ipc_message_wf req \<Longrightarrow> ipc_sendable (fst (handler req zero_message u))"
    and handler_inv: "hinv u \<Longrightarrow> ipc_message_wf req \<Longrightarrow> hinv (snd (handler req zero_message u))"
begin

lemma frame_step_ok:
  assumes "ipc_env_ok env" "hinv u" "ipc_frame_ok f"
  shows "ipc_frame_step env k (Some handler) cfd (f @ r) u =
    Next (length f) (snd (handler (ipc_message_of f) zero_message u))
      [Sent cfd (ipc_frame_of (fst (handler (ipc_message_of f) zero_message u)))]"
proof -
  have nt: "ntohl_bytes (f @ r) = ntohl_bytes f" "unat (ntohl_bytes f) = length f" "length f \<le> 4194304"
    using assms(3) by (simp_all add: ipc_frame_ok_def)
  have d: "ipc_decode_message True (Some (f @ r)) (ucast (ntohl_bytes f)) (Some zero_message) =
      Finished (IPC_ERR_OK, Some (ipc_message_of f))"
    using ipc_decode_ok [OF assms(3)] ipc_frame_ok_len(1) [OF assms(3)] by simp
  obtain q where "ipc_send_message env cfd (fst (handler (ipc_message_of f) zero_message u)) =
      Finished (q, [Sent cfd (ipc_frame_of (fst (handler (ipc_message_of f) zero_message u)))])"
    using ipc_send_sendable [OF assms(1) handler_wf [OF assms(2) ipc_message_of_wf [OF assms(3)]]] by blast
  then show ?thesis
    using assms(1) nt d
    by (simp add: ipc_frame_step_def Let_def ipc_env_ok_def ipc_response_def word_less_nat_alt case_prod_unfold)
qed

lemma frames_answered:
  assumes "ipc_env_ok env" "list_all ipc_frame_ok fs" "hinv u"
  shows "ipc_frames env k (Some handler) cfd (concat fs @ rest) u =
      after_events (map (Sent cfd) (fst (answer_frames handler fs u)))
        (ipc_frames env k (Some handler) cfd rest (snd (answer_frames handler fs u))) \<and>
    hinv (snd (answer_frames handler fs u))"
  using assms(2,3)
proof (induction fs arbitrary: u k)
  case (Cons f fs)
  let ?u = "snd (handler (ipc_message_of f) zero_message u)"
  have f: "ipc_frame_ok f" "hinv ?u"
    using Cons.prems handler_inv ipc_message_of_wf by auto
  have len: "6 \<le> length (f @ (concat fs @ rest))" using f by (simp add: ipc_frame_ok_def)
  note IH = Cons.IH [of ?u]
  have k: "ipc_frames env (Suc k) (Some handler) cfd b v = ipc_frames env k (Some handler) cfd b v" for b v
    by (rule ipc_frames_alloc [OF assms(1)])
  show ?case
    using ipc_frames_unroll(5) [OF len frame_step_ok [OF assms(1) Cons.prems(2) f(1), of k cfd "concat fs @ rest"]]
      IH Cons.prems(1) f
    by (simp add: k case_prod_unfold Let_def)
qed simp

end

section \<open>Delivery in pieces\<close>

lemma ipc_frame_step_recv [simp]:
  "ipc_frame_step (env\<lparr>env_recv := r\<rparr>) k h cfd buf u = ipc_frame_step env k h cfd buf u"
proof -
  have eqs: "ipc_send_message (env\<lparr>env_recv := r\<rparr>) = ipc_send_message env"
    "env_alloc (env\<lparr>env_recv := r\<rparr>) = env_alloc env"
    "ipc_response (env\<lparr>env_recv := r\<rparr>) k h = ipc_response env k h"
    by (auto simp: fun_eq_iff ipc_send_message_def ipc_response_def split: outcome.split option.split)
  show ?thesis unfolding ipc_frame_step_def eqs ..
qed

lemma ipc_frames_recv [simp]:
  "ipc_frames (env\<lparr>env_recv := r\<rparr>) k h cfd buf u = ipc_frames env k h cfd buf u"
proof (induction env k h cfd buf u rule: ipc_frames.induct)
  case (1 env k h cfd buf u)
  then show ?case
    by (cases "length buf < 6"; cases "ipc_frame_step env k h cfd buf u") (simp_all add: ipc_frames_unroll)
qed

lemma ipc_frames_rest_length:
  "ipc_frames env k h cfd buf u = Finished ((Some rest, u'), evs) \<Longrightarrow> length rest \<le> length buf"
proof (induction env k h cfd buf u arbitrary: evs rule: ipc_frames.induct)
  case (1 env k h cfd buf u)
  then show ?case
    by (cases "length buf < 6"; cases "ipc_frame_step env k h cfd buf u")
       (fastforce simp: ipc_frames_unroll after_events_Finished)+
qed

lemma ipc_frames_incomplete: "ipc_incomplete buf \<Longrightarrow> ipc_frames env k h cfd buf u = Finished ((Some buf, u), [])"
  by (cases "length buf < 6")
     (auto simp: ipc_incomplete_def ipc_frames_unroll ipc_frame_step_Wait word_le_nat_alt)

text \<open>One \<open>recv\<close> that returns the given bytes.\<close>

abbreviation (input) deliver :: "ipc_env \<Rightarrow> nat \<Rightarrow> bytes \<Rightarrow> 'u ipc_server \<Rightarrow> ('u ipc_server \<times> sock_event list) outcome" where
  "deliver env slot bs s \<equiv> ipc_handle_client_data (env\<lparr>env_recv := (\<lambda>_ _. Received bs)\<rparr>) s slot"

lemma deliver_append:
  assumes "ipc_env_ok env" "slot < length (clients s)" "active (clients s ! slot)"
    "length (recv_data (clients s ! slot)) + length xs + length ys \<le> 4194304"
  shows "deliver env slot (xs @ ys) s =
    (case deliver env slot xs s of
       Finished (s1, evs) \<Rightarrow> if active (clients s1 ! slot) then after_events evs (deliver env slot ys s1) else Finished (s1, evs)
     | Undefined \<Rightarrow> Undefined)"
proof -
  let ?c = "clients s ! slot"
  let ?F = "\<lambda>b v. ipc_frames env 0 (message_handler s) (fd ?c) b v"
  have app: "?F (recv_data ?c @ xs @ ys) (user_data s) =
      (case ?F (recv_data ?c @ xs) (user_data s) of
          Finished ((Some r, u'), evs) \<Rightarrow> after_events evs (?F (r @ ys) u') | out \<Rightarrow> out)"
    using ipc_frames_append [OF assms(1), of 0 _ _ "recv_data ?c @ xs"] by simp
  show ?thesis
  proof (cases "?F (recv_data ?c @ xs) (user_data s)")
    case (Finished a)
    obtain r u e where a: "a = ((r, u), e)" by (metis surj_pair)
    show ?thesis
    proof (cases r)
      case None
      with assms Finished a app show ?thesis
        by (auto simp: ipc_handle_client_data_def Let_def ipc_close_client_def)
    next
      case (Some rest)
      then have "length rest \<le> length (recv_data ?c) + length xs"
        using Finished a ipc_frames_rest_length by fastforce
      with assms Finished a app Some show ?thesis
        by (cases "?F (rest @ ys) u")
           (auto simp: ipc_handle_client_data_def Let_def ipc_close_client_def split: option.splits)
    qed
  qed (use assms app in \<open>auto simp: ipc_handle_client_data_def Let_def\<close>)
qed

lemma deliver_fits:
  assumes "deliver env slot xs s = Finished (s1, evs)" "slot < length (clients s)" "active (clients s1 ! slot)"
    "active (clients s ! slot)"
  shows "slot < length (clients s1)"
    "length (recv_data (clients s1 ! slot)) \<le> length (recv_data (clients s ! slot)) + length xs"
  using assms ipc_frames_rest_length
  by (fastforce simp: ipc_handle_client_data_def Let_def ipc_close_client_def
      split: outcome.splits option.splits if_splits)+

lemma deliver_Nil:
  assumes "ipc_server_inv s" "slot < length (clients s)" "active (clients s ! slot)"
  shows "deliver env slot [] s = Finished (s, [])"
proof -
  have "ipc_incomplete (recv_data (clients s ! slot))"
    using assms by (auto simp: ipc_server_inv_def list_all_length ipc_client_inv_def)
  moreover have "(clients s)[slot := (clients s ! slot)\<lparr>recv_data := recv_data (clients s ! slot)\<rparr>] = clients s"
    by simp
  ultimately show ?thesis
    by (simp add: ipc_handle_client_data_def Let_def ipc_frames_incomplete)
qed

section \<open>Properties\<close>

text \<open>
  C3. The server answers a byte stream the same way however the kernel cuts it into \<open>recv\<close>
  results: delivering the pieces one by one gives the same server state and the same socket
  events as delivering their concatenation at once.
\<close>

theorem ipc_chunking:
  assumes "ipc_env_ok env" "ipc_server_inv s" "slot < length (clients s)" "active (clients s ! slot)"
    "length (recv_data (clients s ! slot)) + length (concat cs) \<le> IPC_MAX_FRAME_SIZE"
  shows "receive_chunks env slot cs s = receive_chunks env slot [concat cs] s"
  using assms(2-5)
proof (induction cs arbitrary: s)
  case Nil
  then show ?case by (simp add: deliver_Nil)
next
  case (Cons c cs)
  have app: "deliver env slot (c @ concat cs) s =
    (case deliver env slot c s of
       Finished (s1, evs) \<Rightarrow> if active (clients s1 ! slot) then after_events evs (deliver env slot (concat cs) s1)
         else Finished (s1, evs)
     | Undefined \<Rightarrow> Undefined)"
    using deliver_append [OF assms(1) Cons.prems(2,3), of c "concat cs"] Cons.prems(4) by simp
  show ?case
  proof (cases "deliver env slot c s")
    case (Finished a)
    obtain s1 evs where a: "a = (s1, evs)" by fastforce
    have inv: "ipc_server_inv s1"
      using ipc_handle_client_data_inv [OF Cons.prems(1,3)] Finished a by blast
    show ?thesis
    proof (cases "active (clients s1 ! slot)")
      case True
      then have "receive_chunks env slot cs s1 = receive_chunks env slot [concat cs] s1"
        using Cons.IH [OF inv] deliver_fits [OF Finished [unfolded a]] Cons.prems by simp
      then show ?thesis
        using Cons.prems(3) Finished a app True
        by (cases "deliver env slot (concat cs) s1") (auto split: prod.splits)
    next
      case False
      then show ?thesis
        using Cons.prems(3) Finished a app by (cases cs) auto
    qed
  qed (use Cons.prems(3) app in auto)
qed

text \<open>
  C4. In every state the event loop reaches, whatever the clients send and whichever handler is
  installed, the table has 64 slots and each active client has room in its receive buffer, which
  holds no complete frame: a full buffer never makes \<open>recv\<close> return 0 and drop a live client.
\<close>

theorem ipc_server_room:
  assumes "ipc_server_reach s" "i < IPC_MAX_CONNECTIONS" "active (clients s ! i)"
  shows "length (clients s) = IPC_MAX_CONNECTIONS \<and> ipc_incomplete (recv_data (clients s ! i)) \<and>
    length (recv_data (clients s ! i)) < IPC_MAX_FRAME_SIZE"
  using ipc_server_reach_inv [OF assms(1)] assms(2,3) ipc_incomplete_bound
  by (auto simp: ipc_server_inv_def list_all_length ipc_client_inv_def)

theorem ipc_chunking_witness:
  "receive_chunks demo_env 0 [[0, 0, 0], [6, 1, 0xF0, 0], [0, 0]] demo_server =
   receive_chunks demo_env 0 [[0, 0, 0, 6, 1, 0xF0, 0, 0, 0]] demo_server"
  using ipc_chunking [of demo_env demo_server 0 "[[0, 0, 0], [6, 1, 0xF0, 0], [0, 0]]"]
  by (simp add: ipc_env_ok_def demo_env_def demo_server_def ipc_server_inv_def ipc_client_inv_def
      ipc_incomplete_def list_all_iff)

theorem ipc_server_room_witness:
  "\<exists>s :: unit ipc_server. ipc_server_reach s \<and> active (clients s ! 0) \<and> length (clients s) = 64 \<and>
     length (recv_data (clients s ! 0)) < 4194304"
proof -
  let ?c0 = "\<lparr>fd = 0, recv_data = [], active = False\<rparr> :: ipc_client"
  let ?s0 = "\<lparr>listen_fd = 3, socket_path = ''s'', clients = replicate 64 ?c0,
     running = True, message_handler = None, user_data = ()\<rparr> :: unit ipc_server"
  let ?s1 = "?s0\<lparr>clients := (replicate 64 ?c0)[0 := \<lparr>fd = 4, recv_data = [], active = True\<rparr>]\<rparr>"
  have init: "ipc_server_init True (\<lambda>_. 3) 0 () (Some ''s'') = Some ?s0"
    by (simp add: ipc_server_init_def)
  have "first_index (\<lambda>c. \<not> active c) (replicate 64 ?c0) = Some 0"
    by (simp add: numeral_eq_Suc)
  then have acc: "ipc_accept_client 4 0 ?s0 = (0, ?s1, [])"
    by (simp add: ipc_accept_client_def)
  have "serve_clients demo_env pollin [] is s = Finished (s, [])" for pollin "is" and s :: "unit ipc_server"
    by (induction "is") (auto simp: Let_def)
  then have "ipc_server_iter demo_env (Poll_Ready (\<lambda>f. f = 3) 4 0) ?s0 = Finished (True, ?s1, [])"
    by (simp add: ipc_server_iter_def polled_fds_def acc)
  moreover have "recv_bounded demo_env" by (simp add: recv_bounded_def demo_env_def)
  ultimately have "ipc_server_reach ?s1"
    using ipc_server_reach.iter [OF ipc_server_reach.start [OF init]] by simp
  moreover have "active (clients ?s1 ! 0)" by simp
  ultimately show ?thesis
    using ipc_server_room [of ?s1 0] by (intro exI [of _ ?s1]) simp
qed

end
