(* ===== verification/NATS_Client.thy ===== *)
theory NATS_Client
  imports Gateway_Prelude
begin

text \<open>
  The two NATS clients the gateway can be linked with: \<open>src/src/nats_client_stub.c\<close>, which
  answers with fixed JSON texts, and \<open>src/src/nats_client_real.c\<close>, which asks the NATS C
  library. The library is the parameter \<open>lib\<close>: from url, subject, request and timeout it gives a
  reply and its next state. The environment variables are a parameter too. A client function
  that returns 0 with a text in the caller's buffer is \<open>Some\<close> of that text; -1 is \<open>None\<close>.
  Every caller passes a buffer, so \<open>resp_buf\<close> is never null; where the code treats a null and an
  empty argument alike, the empty string stands for both.
\<close>

section \<open>The interface both clients implement\<close>

record 'w nats_api =
  nats_request_decide :: "string \<Rightarrow> nat \<Rightarrow> 'w \<Rightarrow> string option \<times> 'w"
  nats_request_get_decision :: "string \<Rightarrow> string \<Rightarrow> nat \<Rightarrow> 'w \<Rightarrow> string option \<times> 'w"
  nats_request_get_extension_health :: "nat \<Rightarrow> 'w \<Rightarrow> string option \<times> 'w"
  nats_request_get_circuit_breaker_states :: "nat \<Rightarrow> 'w \<Rightarrow> string option \<times> 'w"
  nats_request_dry_run_pipeline :: "string \<Rightarrow> nat \<Rightarrow> 'w \<Rightarrow> string option \<times> 'w"
  nats_request_get_pipeline_complexity :: "string \<Rightarrow> string \<Rightarrow> nat \<Rightarrow> 'w \<Rightarrow> string option \<times> 'w"
  nats_get_status_string :: "'w \<Rightarrow> string"

section \<open>The stub client\<close>

definition stub_reply :: "string \<Rightarrow> nat \<Rightarrow> string option" where
  "stub_reply dummy resp_size =
     (if resp_size = 0 then None
      else if length dummy + 1 > resp_size then None
      else Some dummy)"

definition stub_decide_json :: string where
  "stub_decide_json =
     ''{\"message_id\":\"dummy\",\"provider_id\":\"provider-1\",\"reason\":\"stub\",\"priority\":1,'' @
     ''\"expected_latency_ms\":42,\"expected_cost\":0.001,\"currency\":\"USD\",\"trace_id\":\"trace-stub\"}''"

definition stub_get_decision_json :: string where
  "stub_get_decision_json =
     ''{\"message_id\":\"dummy\",\"provider_id\":\"provider-1\",\"reason\":\"stub-get-by-id\",\"priority\":1,'' @
     ''\"expected_latency_ms\":42,\"expected_cost\":0.001,\"currency\":\"USD\",\"trace_id\":\"trace-stub\"}''"

definition stub_extension_health_json :: string where
  "stub_extension_health_json =
     ''{\"health\":{\"extension_1\":{\"extension_id\":\"extension_1\",\"status\":\"healthy\",'' @
     ''\"success_rate\":0.95,\"avg_latency_ms\":25.5}}}''"

definition stub_circuit_breaker_json :: string where
  "stub_circuit_breaker_json =
     ''{\"states\":[{\"extension_id\":\"extension_1\",\"state\":\"closed\",\"opened_at_ms\":0}]}''"

definition stub_dry_run_json :: string where
  "stub_dry_run_json =
     ''{\"ok\":true,\"result\":{\"decision\":{\"provider_id\":\"openai\",\"reason\":\"weighted\",\"priority\":1},'' @
     ''\"executed_extensions\":[],\"final_payload\":{}}}''"

definition stub_complexity_json :: string where
  "stub_complexity_json =
     ''{\"complexity_score\":45,\"total_extensions\":3,\"pre_count\":1,\"validators_count\":1,'' @
     ''\"post_count\":1,\"estimated_latency_ms\":90,\"recommended_max_total\":4,\"recommended_max_pre\":2,'' @
     ''\"recommended_max_validators\":2,\"recommended_max_post\":2,\"warnings\":[],\"recommendations\":[]}''"

definition stub_request_decide :: "string \<Rightarrow> nat \<Rightarrow> 'w \<Rightarrow> string option \<times> 'w" where
  "stub_request_decide req_json resp_size w = (stub_reply stub_decide_json resp_size, w)"

definition stub_request_get_decision :: "string \<Rightarrow> string \<Rightarrow> nat \<Rightarrow> 'w \<Rightarrow> string option \<times> 'w" where
  "stub_request_get_decision tenant_id message_id resp_size w = (stub_reply stub_get_decision_json resp_size, w)"

definition stub_request_get_extension_health :: "nat \<Rightarrow> 'w \<Rightarrow> string option \<times> 'w" where
  "stub_request_get_extension_health resp_size w = (stub_reply stub_extension_health_json resp_size, w)"

definition stub_request_get_circuit_breaker_states :: "nat \<Rightarrow> 'w \<Rightarrow> string option \<times> 'w" where
  "stub_request_get_circuit_breaker_states resp_size w = (stub_reply stub_circuit_breaker_json resp_size, w)"

definition stub_request_dry_run_pipeline :: "string \<Rightarrow> nat \<Rightarrow> 'w \<Rightarrow> string option \<times> 'w" where
  "stub_request_dry_run_pipeline req_json resp_size w = (stub_reply stub_dry_run_json resp_size, w)"

definition stub_request_get_pipeline_complexity :: "string \<Rightarrow> string \<Rightarrow> nat \<Rightarrow> 'w \<Rightarrow> string option \<times> 'w" where
  "stub_request_get_pipeline_complexity tenant_id policy_id resp_size w = (stub_reply stub_complexity_json resp_size, w)"

definition nats_stub :: "'w nats_api" where
  "nats_stub =
     \<lparr>nats_request_decide = stub_request_decide,
      nats_request_get_decision = stub_request_get_decision,
      nats_request_get_extension_health = stub_request_get_extension_health,
      nats_request_get_circuit_breaker_states = stub_request_get_circuit_breaker_states,
      nats_request_dry_run_pipeline = stub_request_dry_run_pipeline,
      nats_request_get_pipeline_complexity = stub_request_get_pipeline_complexity,
      nats_get_status_string = (\<lambda>_. ''stub'')\<rparr>"

section \<open>The client on the NATS library\<close>

text \<open>The ways a connect and request through the library can end; a reply may carry no data.\<close>

datatype nats_reply = Connect_Failed | Request_Failed | Reply "string option"

type_synonym 'l nats_lib = "string \<Rightarrow> string \<Rightarrow> string \<Rightarrow> int \<Rightarrow> 'l \<Rightarrow> nats_reply \<times> 'l"

text \<open>The file's static status string and the state of the library and network behind it.\<close>

record 'l nats_world =
  g_last_nats_status :: string
  lib_state :: 'l

text \<open>A setting that falls back to a default when unset or empty.\<close>

definition env_or :: "getenv \<Rightarrow> string \<Rightarrow> string \<Rightarrow> string" where
  "env_or env name dflt = (case env name of Some v \<Rightarrow> if v = [] then dflt else v | None \<Rightarrow> dflt)"

definition request_timeout_ms :: "getenv \<Rightarrow> int" where
  "request_timeout_ms env =
     (case env ''ROUTER_REQUEST_TIMEOUT_MS'' of
        Some v \<Rightarrow> if v \<noteq> [] \<and> atoi v > 0 then atoi v else 5000
      | None \<Rightarrow> 5000)"

text \<open>The text a buffer of raw bytes holds as a C string.\<close>

definition c_string :: "string \<Rightarrow> string" where
  "c_string s = takeWhile (\<lambda>c. c \<noteq> CHR 0x00) s"

definition nats_request_common ::
    "getenv \<Rightarrow> 'l nats_lib \<Rightarrow> string \<Rightarrow> string \<Rightarrow> nat \<Rightarrow> 'l nats_world \<Rightarrow> string option \<times> 'l nats_world" where
  "nats_request_common env lib subject req_json resp_size w =
     (if subject = [] \<or> resp_size = 0 then (None, w)
      else (let url = env_or env ''NATS_URL'' ''nats://nats:4222'';
                (r, l) = lib url subject req_json (request_timeout_ms env) (lib_state w);
                w1 = w\<lparr>lib_state := l\<rparr> in
        case r of
          Connect_Failed \<Rightarrow> (None, w1\<lparr>g_last_nats_status := ''disconnected''\<rparr>)
        | Request_Failed \<Rightarrow> (None, w1\<lparr>g_last_nats_status := ''disconnected''\<rparr>)
        | Reply None \<Rightarrow> (None, w1)
        | Reply (Some data) \<Rightarrow>
            if length data = 0 then (None, w1)
            else if length data + 1 > resp_size then (None, w1)
            else (Some (c_string data), w1\<lparr>g_last_nats_status := ''connected''\<rparr>)))"

definition real_request_decide ::
    "getenv \<Rightarrow> 'l nats_lib \<Rightarrow> string \<Rightarrow> nat \<Rightarrow> 'l nats_world \<Rightarrow> string option \<times> 'l nats_world" where
  "real_request_decide env lib req_json resp_size =
     nats_request_common env lib (env_or env ''ROUTER_DECIDE_SUBJECT'' ''beamline.router.v1.decide'') req_json resp_size"

definition real_request_get_decision ::
    "getenv \<Rightarrow> 'l nats_lib \<Rightarrow> string \<Rightarrow> string \<Rightarrow> nat \<Rightarrow> 'l nats_world \<Rightarrow> string option \<times> 'l nats_world" where
  "real_request_get_decision env lib tenant_id message_id resp_size w =
     (let subject = env_or env ''ROUTER_GET_DECISION_SUBJECT'' ''beamline.router.v1.get_decision'';
          req_json = ''{\"message_id\":\"'' @ message_id @ ''\"}'' in
      if message_id = [] then (None, w)
      else if length req_json \<ge> 256 then (None, w)
      else nats_request_common env lib subject req_json resp_size w)"

definition real_request_get_extension_health ::
    "getenv \<Rightarrow> 'l nats_lib \<Rightarrow> nat \<Rightarrow> 'l nats_world \<Rightarrow> string option \<times> 'l nats_world" where
  "real_request_get_extension_health env lib resp_size =
     nats_request_common env lib (env_or env ''ROUTER_ADMIN_GET_EXTENSION_HEALTH_SUBJECT''
       ''beamline.router.v1.admin.get_extension_health'') ''{}'' resp_size"

definition real_request_get_circuit_breaker_states ::
    "getenv \<Rightarrow> 'l nats_lib \<Rightarrow> nat \<Rightarrow> 'l nats_world \<Rightarrow> string option \<times> 'l nats_world" where
  "real_request_get_circuit_breaker_states env lib resp_size =
     nats_request_common env lib (env_or env ''ROUTER_ADMIN_GET_CIRCUIT_BREAKER_STATES_SUBJECT''
       ''beamline.router.v1.admin.get_circuit_breaker_states'') ''{}'' resp_size"

definition real_request_dry_run_pipeline ::
    "getenv \<Rightarrow> 'l nats_lib \<Rightarrow> string \<Rightarrow> nat \<Rightarrow> 'l nats_world \<Rightarrow> string option \<times> 'l nats_world" where
  "real_request_dry_run_pipeline env lib req_json resp_size w =
     (if req_json = [] then (None, w)
      else nats_request_common env lib (env_or env ''ROUTER_ADMIN_DRY_RUN_PIPELINE_SUBJECT''
        ''beamline.router.v1.admin.dry_run_pipeline'') req_json resp_size w)"

definition real_request_get_pipeline_complexity ::
    "getenv \<Rightarrow> 'l nats_lib \<Rightarrow> string \<Rightarrow> string \<Rightarrow> nat \<Rightarrow> 'l nats_world \<Rightarrow> string option \<times> 'l nats_world" where
  "real_request_get_pipeline_complexity env lib tenant_id policy_id resp_size w =
     (if tenant_id = [] \<or> policy_id = [] then (None, w)
      else (let subject = env_or env ''ROUTER_ADMIN_GET_PIPELINE_COMPLEXITY_SUBJECT''
                  ''beamline.router.v1.admin.get_pipeline_complexity'';
                req_json = ''{\"tenant_id\":\"'' @ tenant_id @ ''\",\"policy_id\":\"'' @ policy_id @ ''\"}'' in
            if length req_json \<ge> 512 then (None, w)
            else nats_request_common env lib subject req_json resp_size w))"

definition nats_real :: "getenv \<Rightarrow> 'l nats_lib \<Rightarrow> 'l nats_world nats_api" where
  "nats_real env lib =
     \<lparr>nats_request_decide = real_request_decide env lib,
      nats_request_get_decision = real_request_get_decision env lib,
      nats_request_get_extension_health = real_request_get_extension_health env lib,
      nats_request_get_circuit_breaker_states = real_request_get_circuit_breaker_states env lib,
      nats_request_dry_run_pipeline = real_request_dry_run_pipeline env lib,
      nats_request_get_pipeline_complexity = real_request_get_pipeline_complexity env lib,
      nats_get_status_string = g_last_nats_status\<rparr>"

section \<open>The contract of a NATS client\<close>

text \<open>
  What the callers of either client rely on: a text that is returned fits the caller's buffer
  together with its terminator.
\<close>

definition reply_fits :: "(nat \<Rightarrow> 'w \<Rightarrow> string option \<times> 'w) \<Rightarrow> bool" where
  "reply_fits f = (\<forall>n w s. fst (f n w) = Some s \<longrightarrow> length s < n)"

locale nats_transport =
  fixes api :: "'w nats_api"
  assumes decide_fits: "reply_fits (nats_request_decide api r)"
    and get_decision_fits: "reply_fits (nats_request_get_decision api t m)"
    and extension_health_fits: "reply_fits (nats_request_get_extension_health api)"
    and circuit_breaker_fits: "reply_fits (nats_request_get_circuit_breaker_states api)"
    and dry_run_fits: "reply_fits (nats_request_dry_run_pipeline api r)"
    and complexity_fits: "reply_fits (nats_request_get_pipeline_complexity api t p)"
begin

text \<open>Asking with an empty buffer never gives a text.\<close>

lemma no_room: "fst (nats_request_decide api r 0 w) = None"
  using decide_fits [of r] by (cases "fst (nats_request_decide api r 0 w)") (auto simp: reply_fits_def)

lemma decide_length: "nats_request_decide api r n w = (Some s, w') \<Longrightarrow> length s < n"
  using decide_fits [of r] by (auto simp: reply_fits_def) (metis fst_conv)

end

section \<open>Lemmas\<close>

lemma stub_reply_fits: "stub_reply d n = Some s \<Longrightarrow> length s < n"
  by (auto simp: stub_reply_def split: if_splits)

lemma c_string_length: "length (c_string s) \<le> length s"
  by (simp add: c_string_def length_takeWhile_le)

lemma nats_request_common_Some:
  assumes "nats_request_common env lib subject req n w = (Some s, w')"
  shows "\<exists>d l. lib (env_or env ''NATS_URL'' ''nats://nats:4222'') subject req (request_timeout_ms env) (lib_state w) =
      (Reply (Some d), l) \<and> s = c_string d \<and> d \<noteq> [] \<and> length d < n \<and>
      w' = w\<lparr>lib_state := l, g_last_nats_status := ''connected''\<rparr>"
proof -
  let ?r = "lib (env_or env ''NATS_URL'' ''nats://nats:4222'') subject req (request_timeout_ms env) (lib_state w)"
  obtain r l where rl: "?r = (r, l)" by fastforce
  with assms obtain d where "r = Reply (Some d)"
    by (cases r) (auto simp: nats_request_common_def Let_def split: if_splits option.splits)
  with assms rl show ?thesis
    by (auto simp: nats_request_common_def Let_def split: if_splits)
qed

lemma nats_request_common_fits:
  "fst (nats_request_common env lib subject req n w) = Some s \<Longrightarrow> length s < n"
  using nats_request_common_Some c_string_length le_less_trans by (metis prod.collapse)

lemmas real_defs = real_request_decide_def real_request_get_decision_def real_request_get_extension_health_def
  real_request_get_circuit_breaker_states_def real_request_dry_run_pipeline_def
  real_request_get_pipeline_complexity_def

lemmas stub_defs = stub_request_decide_def stub_request_get_decision_def stub_request_get_extension_health_def
  stub_request_get_circuit_breaker_states_def stub_request_dry_run_pipeline_def
  stub_request_get_pipeline_complexity_def

interpretation stub: nats_transport nats_stub
  by unfold_locales (auto simp: nats_stub_def stub_defs reply_fits_def dest: stub_reply_fits)

interpretation real: nats_transport "nats_real env lib" for env lib
  by unfold_locales
     (auto simp: nats_real_def real_defs reply_fits_def Let_def dest: nats_request_common_fits split: if_splits)

end
