(* ===== verification/IPC_Bridge.thy ===== *)
theory IPC_Bridge
  imports IPC_Server NATS_Client
begin

text \<open>
  The bridge between the IPC server and NATS (\<open>src/src/ipc_nats_bridge.c\<close>), with the small
  modules about what it offers and where it sends: \<open>ipc_capabilities.c\<close>, \<open>nats_subjects.c\<close>
  and the peer credential check of \<open>ipc_peercred.c\<close>. The handler's world is the clock, the
  allocator and the NATS client; the user data is the bridge, or null, and the world's state.
\<close>

section \<open>State\<close>

record ipc_nats_config_t =
  nats_url :: "string option"
  router_subject :: "string option"
  bridge_timeout_ms :: int
  enable_nats :: bool

record ipc_nats_bridge_t =
  config :: ipc_nats_config_t
  total_requests :: size_t
  nats_errors :: size_t
  timeouts :: size_t
  overload_rejects :: size_t

record 'w bridge_env =
  benv_clock :: "'w \<Rightarrow> (int \<times> int) \<times> 'w"
  benv_nats :: "'w nats_api"
  benv_alloc :: "'w \<Rightarrow> bool \<times> 'w"

section \<open>Transformations\<close>

definition generate_task_id :: "int \<times> int \<Rightarrow> string" where
  "generate_task_id ts = c_copy 64 (''task_'' @ dec_int (fst ts) @ ''_'' @ dec_int (snd ts))"

text \<open>The payload object read as a C string, up to its first NUL.\<close>

definition payload_cstr :: "ipc_message_t \<Rightarrow> string option" where
  "payload_cstr m = map_option (\<lambda>p. string_of_bytes (takeWhile (\<lambda>b. b \<noteq> 0) p)) (payload m)"

definition nats_envelope :: "string \<Rightarrow> string \<Rightarrow> string" where
  "nats_envelope task_id inp =
     ''{\"from\":\"ide@localhost\",\"to\":\"router\",\"message_id\":\"'' @ task_id @
     ''\",\"tenant_id\":\"default\",\"policy_id\":\"default\",\"input\":'' @ inp @ ''}''"

definition transform_to_nats_request :: "int \<times> int \<Rightarrow> ipc_message_t \<Rightarrow> nat \<Rightarrow> string option" where
  "transform_to_nats_request ts ipc_msg nats_req_size =
     (let task_id = generate_task_id ts;
          txt = nats_envelope task_id (case payload_cstr ipc_msg of Some p \<Rightarrow> p | None \<Rightarrow> ''{}'') in
      if length txt \<ge> nats_req_size then None else Some txt)"

text \<open>\<open>ipc_create_error_response\<close> into the response, with the allocator of the world.\<close>

definition bridge_error ::
    "'w bridge_env \<Rightarrow> ipc_error_t \<Rightarrow> string \<Rightarrow> ipc_message_t \<Rightarrow> 'w \<Rightarrow> ipc_message_t \<times> 'w" where
  "bridge_error env code msg resp w =
     (let (ok, w') = benv_alloc env w in
      case ipc_create_error_response ok code (Some msg) (Some resp) of
        (_, Some r) \<Rightarrow> (r, w')
      | (_, None) \<Rightarrow> (resp, w'))"

definition transform_to_ipc_response ::
    "'w bridge_env \<Rightarrow> string option \<Rightarrow> ipc_message_t \<Rightarrow> 'w \<Rightarrow> ipc_message_t \<times> 'w" where
  "transform_to_ipc_response env nats_resp ipc_resp w =
     (case nats_resp of
        Some s \<Rightarrow>
          (let (ok, w') = benv_alloc env w in
           (ipc_resp\<lparr>mtype := IPC_MSG_RESPONSE_OK,
              payload := (if ok then Some (bytes_of_string s @ [0]) else None),
              payload_len := of_nat (length s)\<rparr>, w'))
      | None \<Rightarrow> bridge_error env IPC_ERR_INTERNAL ''NATS request failed'' ipc_resp w)"

definition stub_echo :: "ipc_message_t \<Rightarrow> string" where
  "stub_echo request =
     ''{\"message_id\":\"stub\",\"status\":\"ok\",\"result\":{\"echo\":'' @
     (case payload_cstr request of Some p \<Rightarrow> p | None \<Rightarrow> ''null'') @ ''}}''"

section \<open>The message handler\<close>

definition bridge_message_handler ::
    "'w bridge_env \<Rightarrow> (ipc_nats_bridge_t option \<times> 'w) ipc_handler" where
  "bridge_message_handler env request response user =
     (case user of
        (None, w) \<Rightarrow>
          (let (r, w') = bridge_error env IPC_ERR_INTERNAL ''Bridge not initialized'' response w in (r, (None, w')))
      | (Some b0, w) \<Rightarrow>
          (let b = b0\<lparr>total_requests := total_requests b0 + 1\<rparr> in
           if mtype request = IPC_MSG_PING then
             (response\<lparr>mtype := IPC_MSG_PONG, payload := None, payload_len := 0\<rparr>, (Some b, w))
           else if mtype request \<noteq> IPC_MSG_TASK_SUBMIT \<and> mtype request \<noteq> IPC_MSG_TASK_QUERY \<and>
                   mtype request \<noteq> IPC_MSG_TASK_CANCEL then
             (let (r, w') = bridge_error env IPC_ERR_INVALID_TYPE ''Unsupported message type'' response w in
              (r, (Some b, w')))
           else
             (let (ts, w1) = benv_clock env w in
              case transform_to_nats_request ts request 8192 of
                None \<Rightarrow>
                  (let (r, w2) = bridge_error env IPC_ERR_INVALID_PAYLOAD ''Failed to transform request'' response w1 in
                   (r, (Some (b\<lparr>nats_errors := nats_errors b + 1\<rparr>), w2)))
              | Some nats_req \<Rightarrow>
                  (let (nats_resp, w2) =
                         (if enable_nats (config b) then nats_request_decide (benv_nats env) nats_req 8192 w1
                          else (Some (c_copy 8192 (stub_echo request)), w1));
                       b2 = (if nats_resp = None then b\<lparr>nats_errors := nats_errors b + 1\<rparr> else b);
                       (r, w3) = transform_to_ipc_response env nats_resp response w2 in
                   (r, (Some b2, w3))))))"

definition ipc_nats_bridge_init :: "bool \<Rightarrow> ipc_nats_config_t option \<Rightarrow> ipc_nats_bridge_t option" where
  "ipc_nats_bridge_init alloc cfg =
     (case cfg of
        None \<Rightarrow> None
      | Some c \<Rightarrow>
          if \<not> alloc then None
          else Some \<lparr>config = c\<lparr>bridge_timeout_ms := (if bridge_timeout_ms c > 0 then bridge_timeout_ms c else 30000)\<rparr>,
                     total_requests = 0, nats_errors = 0, timeouts = 0, overload_rejects = 0\<rparr>)"

definition ipc_nats_bridge_get_stats :: "ipc_nats_bridge_t \<Rightarrow> size_t \<times> size_t \<times> size_t" where
  "ipc_nats_bridge_get_stats b = (total_requests b, nats_errors b, timeouts b)"

section \<open>Capabilities, subjects, peer credentials\<close>

definition SUPPORTED_TYPES :: "u32 list" where
  "SUPPORTED_TYPES =
     [IPC_MSG_TASK_SUBMIT, IPC_MSG_TASK_QUERY, IPC_MSG_TASK_CANCEL, IPC_MSG_PING, IPC_MSG_PONG,
      IPC_MSG_CAPABILITIES, IPC_MSG_RESPONSE_OK, IPC_MSG_RESPONSE_ERROR]"

definition hex_digit :: "nat \<Rightarrow> char" where
  "hex_digit d = (if d < 10 then char_of (48 + d) else char_of (87 + d))"

text \<open>\<open>%02x\<close> of a value below 256.\<close>

definition hex2 :: "nat \<Rightarrow> string" where
  "hex2 n = [hex_digit (n div 16), hex_digit (n mod 16)]"

text \<open>
  One \<open>snprintf\<close> at the end of what is already in the buffer: \<open>None\<close> when it does not fit.
\<close>

definition append_fits :: "nat \<Rightarrow> string option \<Rightarrow> string \<Rightarrow> string option" where
  "append_fits bsz acc s =
     (case acc of None \<Rightarrow> None | Some t \<Rightarrow> if length t + length s \<ge> bsz then None else Some (t @ s))"

fun capabilities_types :: "nat \<Rightarrow> string option \<Rightarrow> bool \<Rightarrow> u32 list \<Rightarrow> string option" where
  "capabilities_types bsz acc first [] = acc"
| "capabilities_types bsz acc first (t # ts) =
     capabilities_types bsz (append_fits bsz acc ((if first then [] else '','') @ ''0x'' @ hex2 (unat t))) False ts"

fun capabilities_list :: "bool \<Rightarrow> u32 list \<Rightarrow> string" where
  "capabilities_list first [] = []"
| "capabilities_list first (t # ts) =
     (if first then [] else '','') @ ''0x'' @ hex2 (unat t) @ capabilities_list False ts"

definition ipc_get_capabilities_json :: "nat \<Rightarrow> string option" where
  "ipc_get_capabilities_json buf_size =
     (if buf_size = 0 then None
      else (let start = append_fits buf_size (Some [])
                  (''{\"protocol_version\":\"1.0\",\"supported_versions\":[\"1.0\"],\"supported_message_types\":['');
                types = capabilities_types buf_size start True SUPPORTED_TYPES in
            append_fits buf_size types (''],\"max_payload_size\":'' @ dec_nat 4194298 @ '',\"features\":[\"basic\"]}'')))"

definition ipc_is_message_type_supported :: "u32 \<Rightarrow> bool" where
  "ipc_is_message_type_supported msg_type = (msg_type \<in> set SUPPORTED_TYPES)"

definition ipc_is_version_supported :: "u8 \<Rightarrow> bool" where
  "ipc_is_version_supported v = (v = IPC_PROTOCOL_VERSION)"

definition nats_subject_is_valid :: "string option \<Rightarrow> bool" where
  "nats_subject_is_valid subject =
     (case subject of
        None \<Rightarrow> False
      | Some s \<Rightarrow>
          if s = [] then False
          else if \<not> starts_with s ''beamline.'' then False
          else if strchr s (CHR ''*'') \<noteq> None \<or> strchr s (CHR ''>'') \<noteq> None then False
          else True)"

definition nats_subject_build_router :: "nat \<Rightarrow> string option" where
  "nats_subject_build_router buf_size =
     (if buf_size = 0 then None
      else if length ''beamline.router.v1.decide'' \<ge> buf_size then None
      else Some ''beamline.router.v1.decide'')"

text \<open>\<open>getsockopt(SO_PEERCRED)\<close> is the parameter \<open>peer\<close>: uid, gid and pid of the other end.\<close>

definition ipc_peercred_get :: "(int \<Rightarrow> (u32 \<times> u32 \<times> int) option) \<Rightarrow> int \<Rightarrow> (u32 \<times> u32 \<times> int) option" where
  "ipc_peercred_get peer sockfd = (if sockfd < 0 then None else peer sockfd)"

definition ipc_peercred_is_authorized :: "(int \<Rightarrow> (u32 \<times> u32 \<times> int) option) \<Rightarrow> int \<Rightarrow> u32 \<Rightarrow> bool" where
  "ipc_peercred_is_authorized peer sockfd server_uid =
     (case ipc_peercred_get peer sockfd of
        None \<Rightarrow> False
      | Some (uid, gid, pid) \<Rightarrow> if uid = server_uid \<or> uid = 0 then True else False)"

text \<open>A world with an allocator that does not fail, a clock and a client.\<close>

definition bridge_env_of :: "('w \<Rightarrow> (int \<times> int) \<times> 'w) \<Rightarrow> 'w nats_api \<Rightarrow> 'w bridge_env" where
  "bridge_env_of clk api = \<lparr>benv_clock = clk, benv_nats = api, benv_alloc = (\<lambda>w. (True, w))\<rparr>"

definition demo_bridge :: ipc_nats_bridge_t where
  "demo_bridge = \<lparr>config = \<lparr>nats_url = None, router_subject = None, bridge_timeout_ms = 30000, enable_nats = False\<rparr>,
     total_requests = 0, nats_errors = 0, timeouts = 0, overload_rejects = 0\<rparr>"

definition demo_handler :: "(ipc_nats_bridge_t option \<times> unit nats_world) ipc_handler" where
  "demo_handler = bridge_message_handler
     (bridge_env_of (\<lambda>w. ((1, 2), w)) (nats_real (\<lambda>_. None) (\<lambda>_ _ _ _ l. (Connect_Failed, l))))"

definition demo_user :: "ipc_nats_bridge_t option \<times> unit nats_world" where
  "demo_user = (Some demo_bridge, \<lparr>g_last_nats_status = ''unknown'', lib_state = ()\<rparr>)"

section \<open>Lemmas\<close>

lemma bridge_env_of_simps [simp]:
  "benv_clock (bridge_env_of clk api) = clk" "benv_nats (bridge_env_of clk api) = api"
  "benv_alloc (bridge_env_of clk api) w = (True, w)"
  by (simp_all add: bridge_env_of_def)

lemma ipc_error_code_digits: "length (dec_int (ipc_error_code e)) \<le> 2"
  by (cases e) (simp_all add: dec_int_def dec_nat.simps)

lemma ipc_error_json_length: "length (ipc_error_json e s) < 128 + length s"
  using ipc_error_code_digits [of e] by (simp add: ipc_error_json_def)

lemma ipc_create_error_Some:
  "\<exists>r. ipc_create_error_response ok code msg (Some m) = (if ok then IPC_ERR_OK else IPC_ERR_INTERNAL, Some r)"
  using ipc_error_json_length [of code "case msg of Some s \<Rightarrow> s | None \<Rightarrow> ipc_strerror code"]
  by (auto simp: ipc_create_error_response_def Let_def)

lemma ipc_create_error_sendable:
  assumes "length msg < 1000"
  shows "\<exists>r. ipc_create_error_response True code (Some msg) (Some m) = (IPC_ERR_OK, Some r) \<and>
    ipc_sendable r \<and> mtype r = IPC_MSG_RESPONSE_ERROR \<and>
    payload r = Some (bytes_of_string (ipc_error_json code msg) @ [0])"
proof -
  have len: "length (ipc_error_json code msg) < 128 + length msg"
    by (rule ipc_error_json_length)
  then have "unat (of_nat (length (ipc_error_json code msg)) :: size_t) = length (ipc_error_json code msg)"
    using assms by (intro unat_of_nat_small) simp
  with len assms show ?thesis
    by (simp add: ipc_create_error_response_def Let_def not_le ipc_sendable_def word_le_nat_alt)
qed

lemma response_ok_sendable:
  assumes "length s < 8192"
  shows "ipc_sendable (m\<lparr>mtype := t, payload := Some (bytes_of_string s @ [0]), payload_len := of_nat (length s)\<rparr>)"
proof -
  have "unat (of_nat (length s) :: size_t) = length s"
    using assms by (intro unat_of_nat_small) simp
  with assms show ?thesis by (simp add: ipc_sendable_def word_le_nat_alt)
qed

lemma bridge_error_sendable:
  assumes "fst (benv_alloc env w)" "length msg < 1000"
  shows "ipc_sendable (fst (bridge_error env code msg resp w))"
  using assms ipc_create_error_sendable [OF assms(2), of code resp]
  by (auto simp: bridge_error_def split: prod.splits)

lemma transform_to_ipc_response_sendable:
  assumes "fst (benv_alloc env w)" "\<And>s. r = Some s \<Longrightarrow> length s < 8192"
  shows "ipc_sendable (fst (transform_to_ipc_response env r m w))"
proof (cases r)
  case (Some s)
  with assms show ?thesis
    using response_ok_sendable [of s] by (auto simp: transform_to_ipc_response_def split: prod.splits)
qed (simp add: transform_to_ipc_response_def bridge_error_sendable assms(1))

lemma stub_echo_length: "transform_to_nats_request ts m 8192 = Some req \<Longrightarrow> length (stub_echo m) < 8192"
  by (auto simp: transform_to_nats_request_def nats_envelope_def stub_echo_def Let_def
      split: if_splits option.splits)

lemma append_fits_append: "append_fits n (append_fits n acc s) t = append_fits n acc (s @ t)"
  by (cases acc) (simp_all add: append_fits_def)

lemma capabilities_types_fits:
  "ts \<noteq> [] \<Longrightarrow> capabilities_types n acc first ts = append_fits n acc (capabilities_list first ts)"
proof (induction ts arbitrary: acc first)
  case (Cons t ts)
  show ?case
  proof (cases "ts = []")
    case False
    then show ?thesis
      unfolding capabilities_types.simps capabilities_list.simps Cons.IH [OF False]
      by (simp only: append_fits_append append_assoc)
  qed simp
qed simp

lemma capabilities_text:
  "capabilities_list True SUPPORTED_TYPES = ''0x01,0x02,0x03,0xf0,0xf1,0xf2,0x10,0x11''"
  "dec_nat 4194298 = ''4194298''" "SUPPORTED_TYPES \<noteq> []"
  by (code_simp, simp add: dec_nat.simps, simp add: SUPPORTED_TYPES_def)

lemma ipc_refused_answer:
  assumes "ipc_env_ok env" "ipc_refused buf"
  shows "\<exists>evs. ipc_frame_step env k h cfd buf u = Shut evs \<and>
    (evs = [] \<or> (\<exists>m. evs = [Sent cfd (ipc_frame_of m)] \<and> mtype m = IPC_MSG_RESPONSE_ERROR))"
proof -
  have "mtype m = IPC_MSG_RESPONSE_ERROR"
    if "snd (ipc_create_error_response True e None (Some zero_message)) = Some m" for e m
    using that by (auto simp: ipc_create_error_response_def Let_def split: if_splits)
  then show ?thesis
    using ipc_frame_step_refused [OF assms, of k h cfd u] by (fastforce split: if_splits)
qed

section \<open>The bridge as the server's handler\<close>

text \<open>
  The bridge in a world whose allocations succeed and whose NATS client keeps its contract
  fulfils what the server asks of a handler, in every state.
\<close>

locale bridge_world = nats_transport "benv_nats env" for env :: "'w bridge_env" +
  assumes alloc_ok: "fst (benv_alloc env w)"
begin

lemma handler_sendable: "ipc_sendable (fst (bridge_message_handler env req zero_message u))"
proof -
  obtain b w where u: "u = (b, w)" by fastforce
  have err: "length msg < 1000 \<Longrightarrow> ipc_sendable (fst (bridge_error env code msg zero_message v))" for code msg v
    by (rule bridge_error_sendable [OF alloc_ok])
  show ?thesis
  proof (cases b)
    case None
    with u err [of "''Bridge not initialized''" IPC_ERR_INTERNAL w] show ?thesis
      by (simp add: bridge_message_handler_def case_prod_unfold Let_def)
  next
    case (Some b0)
    obtain ts w1 where clk: "benv_clock env w = (ts, w1)" by fastforce
    have reply: "ipc_sendable (fst (transform_to_ipc_response env r zero_message v))"
      if "\<And>s. r = Some s \<Longrightarrow> length s < 8192" for r v
      by (rule transform_to_ipc_response_sendable [OF alloc_ok that])
    have nats: "fst (nats_request_decide (benv_nats env) q 8192 v) = Some s \<Longrightarrow> length s < 8192" for q v s
      using decide_fits [of q] by (auto simp: reply_fits_def)
    note [simp] = u Some clk bridge_message_handler_def case_prod_unfold Let_def
    consider "mtype req = 0xF0" | "mtype req \<noteq> 0xF0" "mtype req \<noteq> 1 \<and> mtype req \<noteq> 2 \<and> mtype req \<noteq> 3"
      | "mtype req \<noteq> 0xF0" "\<not> (mtype req \<noteq> 1 \<and> mtype req \<noteq> 2 \<and> mtype req \<noteq> 3)" "transform_to_nats_request ts req 8192 = None"
      | q where "mtype req \<noteq> 0xF0" "\<not> (mtype req \<noteq> 1 \<and> mtype req \<noteq> 2 \<and> mtype req \<noteq> 3)"
          "transform_to_nats_request ts req 8192 = Some q"
      by fastforce
    then show ?thesis
    proof cases
      case 1
      then show ?thesis by (simp add: ipc_sendable_def)
    next
      case 4
      from 4(3) have "length (stub_echo req) < 8192" by (rule stub_echo_length)
      with 4 show ?thesis using reply nats by auto
    qed (use err in \<open>auto simp: err\<close>)
  qed
qed

end

sublocale bridge_world \<subseteq> served: ipc_handler_contract "bridge_message_handler env" "\<lambda>_. True"
  by unfold_locales (simp_all add: handler_sendable)

interpretation stub_bridge: bridge_world "bridge_env_of clk nats_stub" for clk
  by (intro bridge_world.intro bridge_world_axioms.intro) (simp_all add: stub.nats_transport_axioms)

interpretation real_bridge: bridge_world "bridge_env_of clk (nats_real env lib)" for clk env lib
  by (intro bridge_world.intro bridge_world_axioms.intro) (simp_all add: real.nats_transport_axioms)

section \<open>Properties\<close>

text \<open>
  C5. With the bridge on the NATS library as the handler, the receive loop always returns. The
  buffer is a run of acceptable frames followed by an incomplete or a refused one; each
  acceptable frame is answered by one frame, in order; then the incomplete bytes are kept, or the
  client is closed after at most one error frame. Nothing is assumed of the library's replies.
\<close>

theorem bridge_conversation:
  assumes "ipc_env_ok env" "h = bridge_message_handler (bridge_env_of clk (nats_real genv lib))"
  shows "\<exists>fs rest. buf = concat fs @ rest \<and> list_all ipc_frame_ok fs \<and>
    (case answer_frames h fs u of (replies, u') \<Rightarrow>
       length replies = length fs \<and>
       (if ipc_incomplete rest
        then ipc_frames env 0 (Some h) cfd buf u = Finished ((Some rest, u'), map (Sent cfd) replies)
        else ipc_refused rest \<and>
          (\<exists>err. ipc_frames env 0 (Some h) cfd buf u = Finished ((None, u'), map (Sent cfd) replies @ err) \<and>
             (err = [] \<or> (\<exists>m. err = [Sent cfd (ipc_frame_of m)] \<and> mtype m = IPC_MSG_RESPONSE_ERROR)))))"
proof -
  obtain fs rest where fs: "buf = concat fs @ rest" "list_all ipc_frame_ok fs" "ipc_incomplete rest \<or> ipc_refused rest"
    using ipc_buffer_cases by blast
  obtain replies u' where a: "answer_frames h fs u = (replies, u')" by (metis surj_pair)
  have len: "length replies = length fs"
    using a length_answer_frames [of h fs u] by simp
  have run: "ipc_frames env 0 (Some h) cfd buf u = after_events (map (Sent cfd) replies) (ipc_frames env 0 (Some h) cfd rest u')"
    using real_bridge.served.frames_answered [OF assms(1) fs(2), of 0 clk genv lib cfd rest u] assms(2) fs(1) a by simp
  have "(if ipc_incomplete rest
        then ipc_frames env 0 (Some h) cfd buf u = Finished ((Some rest, u'), map (Sent cfd) replies)
        else ipc_refused rest \<and>
          (\<exists>err. ipc_frames env 0 (Some h) cfd buf u = Finished ((None, u'), map (Sent cfd) replies @ err) \<and>
             (err = [] \<or> (\<exists>m. err = [Sent cfd (ipc_frame_of m)] \<and> mtype m = IPC_MSG_RESPONSE_ERROR))))"
  proof (cases "ipc_incomplete rest")
    case True
    then show ?thesis using run by (simp add: ipc_frames_incomplete)
  next
    case False
    with fs(3) have rf: "ipc_refused rest" by simp
    obtain evs where e: "ipc_frame_step env 0 (Some h) cfd rest u' = Shut evs"
        "evs = [] \<or> (\<exists>m. evs = [Sent cfd (ipc_frame_of m)] \<and> mtype m = IPC_MSG_RESPONSE_ERROR)"
      using ipc_refused_answer [OF assms(1) rf, of 0 "Some h" cfd u'] by blast
    then have "ipc_frames env 0 (Some h) cfd rest u' = Finished ((None, u'), evs)"
      using rf by (simp add: ipc_refused_def ipc_frames_unroll)
    then show ?thesis using run rf e(2) False by auto
  qed
  with fs(1,2) a len show ?thesis by (intro exI [of _ fs] exI [of _ rest]) simp
qed

text \<open>
  C11. What the handler does for every message type: each request counts once, a ping is answered
  by an empty pong, a type other than submit, query and cancel by error 2 without touching the
  error count, and a forwarded request by an OK or an error response, where exactly the error
  responses add one to the error count. The configuration and the timeout count never change.
\<close>

theorem bridge_handler_effect:
  assumes "bridge_message_handler (bridge_env_of clk api) req zero_message (Some b, w) = (r, ob, w')"
  shows "\<exists>b'. ob = Some b' \<and> total_requests b' = total_requests b + 1 \<and> config b' = config b \<and> timeouts b' = timeouts b \<and>
    (if mtype req = IPC_MSG_PING
     then mtype r = IPC_MSG_PONG \<and> payload r = None \<and> payload_len r = 0 \<and> nats_errors b' = nats_errors b \<and> w' = w
     else if mtype req \<in> {IPC_MSG_TASK_SUBMIT, IPC_MSG_TASK_QUERY, IPC_MSG_TASK_CANCEL}
     then (mtype r = IPC_MSG_RESPONSE_OK \<and> nats_errors b' = nats_errors b) \<or>
          (mtype r = IPC_MSG_RESPONSE_ERROR \<and> nats_errors b' = nats_errors b + 1)
     else mtype r = IPC_MSG_RESPONSE_ERROR \<and>
          payload r = Some (bytes_of_string (ipc_error_json IPC_ERR_INVALID_TYPE ''Unsupported message type'') @ [0]) \<and>
          nats_errors b' = nats_errors b \<and> w' = w)"
proof -
  have err: "length msg < 1000 \<Longrightarrow>
      mtype (fst (bridge_error (bridge_env_of clk api) code msg zero_message v)) = 0x11 \<and>
      payload (fst (bridge_error (bridge_env_of clk api) code msg zero_message v)) =
        Some (bytes_of_string (ipc_error_json code msg) @ [0]) \<and>
      snd (bridge_error (bridge_env_of clk api) code msg zero_message v) = v" for code msg v
    using ipc_create_error_sendable [of msg code zero_message] by (auto simp: bridge_error_def)
  have out: "mtype (fst (transform_to_ipc_response (bridge_env_of clk api) q zero_message v)) =
      (if q = None then 0x11 else 0x10)" for q v
    using err [of "''NATS request failed''"] by (cases q) (simp_all add: transform_to_ipc_response_def)
  note [simp] = bridge_message_handler_def case_prod_unfold Let_def
  consider "mtype req = 0xF0" | "mtype req \<noteq> 0xF0" "mtype req \<noteq> 1 \<and> mtype req \<noteq> 2 \<and> mtype req \<noteq> 3"
    | "mtype req \<noteq> 0xF0" "mtype req = 1 \<or> mtype req = 2 \<or> mtype req = 3"
    by fastforce
  then show ?thesis
  proof cases
    case 1
    with assms show ?thesis by auto
  next
    case 2
    with assms show ?thesis using err [of "''Unsupported message type''" IPC_ERR_INVALID_TYPE] by auto
  next
    case 3
    with assms show ?thesis
      using err [of "''Failed to transform request''"] out
      by (cases "transform_to_nats_request (fst (clk w)) req 8192") (auto split: if_splits)
  qed
qed

text \<open>
  Without NATS the bridge echoes a forwarded payload: when the request envelope fits its 8 KB
  buffer, the response is the whole echo text, never cut off by the response buffer.
\<close>

theorem bridge_stub_echo:
  assumes "\<not> enable_nats (config b)" "mtype req \<in> {IPC_MSG_TASK_SUBMIT, IPC_MSG_TASK_QUERY, IPC_MSG_TASK_CANCEL}"
    "payload req = Some (bytes_of_string p @ [0])" "0 \<notin> set (bytes_of_string p)"
    "length (nats_envelope (generate_task_id (fst (clk w))) p) < 8192"
  shows "bridge_message_handler (bridge_env_of clk api) req zero_message (Some b, w) =
    (let txt = ''{\"message_id\":\"stub\",\"status\":\"ok\",\"result\":{\"echo\":'' @ p @ ''}}'' in
     (\<lparr>mtype = IPC_MSG_RESPONSE_OK, payload = Some (bytes_of_string txt @ [0]), payload_len = of_nat (length txt)\<rparr>,
      (Some (b\<lparr>total_requests := total_requests b + 1\<rparr>), snd (clk w))))"
proof -
  have p: "payload_cstr req = Some p"
    using assms(3,4) by (simp add: payload_cstr_def)
  obtain ts w1 where clk: "clk w = (ts, w1)" by fastforce
  have tr: "transform_to_nats_request ts req 8192 = Some (nats_envelope (generate_task_id ts) p)"
    using assms(5) p clk by (simp add: transform_to_nats_request_def)
  have "c_copy 8192 (stub_echo req) = stub_echo req"
    using stub_echo_length [OF tr] by simp
  moreover have "mtype req \<noteq> 0xF0" using assms(2) by auto
  ultimately show ?thesis
    using assms(1,2) tr clk p
    by (auto simp: bridge_message_handler_def transform_to_ipc_response_def zero_message_def stub_echo_def)
qed

text \<open>
  The capabilities text is all or nothing: with room for it and its terminator the complete
  text is produced, with less room nothing is.
\<close>

theorem capabilities_complete:
  "ipc_get_capabilities_json n =
     (let txt = ''{\"protocol_version\":\"1.0\",\"supported_versions\":[\"1.0\"],\"supported_message_types\":['' @
          ''0x01,0x02,0x03,0xf0,0xf1,0xf2,0x10,0x11],\"max_payload_size\":4194298,\"features\":[\"basic\"]}'' in
      if length txt < n then Some txt else None)"
proof -
  let ?pre = "''{\"protocol_version\":\"1.0\",\"supported_versions\":[\"1.0\"],\"supported_message_types\":[''"
  let ?post = "''],\"max_payload_size\":'' @ dec_nat 4194298 @ '',\"features\":[\"basic\"]}''"
  have "ipc_get_capabilities_json n =
      (if n = 0 then None else append_fits n (Some []) (?pre @ capabilities_list True SUPPORTED_TYPES @ ?post))"
    unfolding ipc_get_capabilities_json_def Let_def capabilities_types_fits [OF capabilities_text(3)] append_fits_append
    by (simp only: append_assoc)
  then show ?thesis
    unfolding capabilities_text(1,2) Let_def by (simp add: append_fits_def not_less)
qed

text \<open>
  The type list advertises the capabilities request as supported, yet the bridge answers it
  with the error for an unsupported type, whatever its payload.
\<close>

theorem capabilities_advertised_not_served:
  "ipc_is_message_type_supported IPC_MSG_CAPABILITIES \<and>
   mtype (fst (bridge_message_handler (bridge_env_of clk api)
     \<lparr>mtype = IPC_MSG_CAPABILITIES, payload = p, payload_len = n\<rparr> zero_message (Some b, w))) = IPC_MSG_RESPONSE_ERROR"
  using ipc_create_error_sendable [of "''Unsupported message type''" IPC_ERR_INVALID_TYPE zero_message]
  by (auto simp: ipc_is_message_type_supported_def SUPPORTED_TYPES_def bridge_message_handler_def bridge_error_def)

theorem bridge_conversation_witness:
  "\<exists>fs rest. [0, 0, 0, 6, 1, 0xF0, 0] = concat fs @ rest \<and> list_all ipc_frame_ok fs \<and>
     length (fst (answer_frames demo_handler fs demo_user)) = length fs \<and> (ipc_incomplete rest \<or> ipc_refused rest)"
proof -
  have "ipc_env_ok demo_env" by (simp add: ipc_env_ok_def demo_env_def)
  note c = bridge_conversation [OF this demo_handler_def, of "[0, 0, 0, 6, 1, 0xF0, 0]" 4 demo_user]
  show ?thesis
    by (rule exE [OF c], erule exE, intro exI, erule conjE, erule conjE, intro conjI, assumption, assumption)
       (auto simp: case_prod_unfold split: if_splits)
qed

theorem bridge_handler_effect_witness:
  "\<exists>r b'. bridge_message_handler (bridge_env_of (\<lambda>w. ((1, 2), w)) nats_stub)
      \<lparr>mtype = IPC_MSG_PING, payload = None, payload_len = 0\<rparr> zero_message (Some demo_bridge, ()) = (r, Some b', ()) \<and>
    mtype r = IPC_MSG_PONG \<and> total_requests b' = 1"
  using bridge_handler_effect [of "\<lambda>w. ((1, 2), w)" nats_stub "\<lparr>mtype = IPC_MSG_PING, payload = None, payload_len = 0\<rparr>"
      demo_bridge "()"]
  by (auto simp: bridge_message_handler_def demo_bridge_def)

theorem bridge_stub_echo_witness:
  "fst (bridge_message_handler (bridge_env_of (\<lambda>w. ((1, 2), w)) nats_stub)
      \<lparr>mtype = IPC_MSG_TASK_QUERY, payload = Some [123, 125, 0], payload_len = 2\<rparr> zero_message (Some demo_bridge, ())) =
   \<lparr>mtype = IPC_MSG_RESPONSE_OK,
    payload = Some (bytes_of_string ''{\"message_id\":\"stub\",\"status\":\"ok\",\"result\":{\"echo\":{}}}'' @ [0]),
    payload_len = 56\<rparr>"
  using bridge_stub_echo [of demo_bridge "\<lparr>mtype = IPC_MSG_TASK_QUERY, payload = Some [123, 125, 0], payload_len = 2\<rparr>"
      "''{}''" "\<lambda>w. ((1, 2), w)" "()" nats_stub]
  by (simp add: demo_bridge_def bytes_of_string_def nats_envelope_def generate_task_id_def c_copy_def
      dec_int_def dec_nat.simps Let_def)

end
