(* ===== verification/IPC_Socket.thy ===== *)
theory IPC_Socket
  imports IPC_Server
begin

text \<open>
  The listening socket of the IPC server (\<open>src/src/ipc_server.c\<close>): its creation with the socket file, the
  start of the server on it and the clean-up. The results of the system calls are parameters; the files
  with their modes and the closed descriptors are the state. \<open>bind\<close> refuses a name that exists.
\<close>

section \<open>State\<close>

record socket_calls =
  sk_alloc :: bool
  sk_socket :: int
  sk_bind :: bool
  sk_mode :: nat
  sk_listen :: bool
  sk_getfl :: int
  sk_setfl :: int

record socket_world =
  sw_files :: "string \<Rightarrow> nat option"
  sw_closed :: "int list"

definition unlink :: "string \<Rightarrow> socket_world \<Rightarrow> socket_world" where
  "unlink path w = w\<lparr>sw_files := (sw_files w)(path := None)\<rparr>"

definition chmod :: "string \<Rightarrow> nat \<Rightarrow> socket_world \<Rightarrow> socket_world" where
  "chmod path mode w = (if sw_files w path = None then w else w\<lparr>sw_files := (sw_files w)(path \<mapsto> mode)\<rparr>)"

definition close_fd :: "int \<Rightarrow> socket_world \<Rightarrow> socket_world" where
  "close_fd d w = w\<lparr>sw_closed := sw_closed w @ [d]\<rparr>"

section \<open>Operations\<close>

definition set_nonblocking :: "socket_calls \<Rightarrow> int" where
  "set_nonblocking c = (if sk_getfl c < 0 then -1 else sk_setfl c)"

text \<open>The name in the address has room for 107 characters; mode 384 is read and write for the owner.\<close>

definition ipc_create_unix_socket :: "socket_calls \<Rightarrow> string \<Rightarrow> socket_world \<Rightarrow> int \<times> socket_world" where
  "ipc_create_unix_socket c path w =
     (let sfd = sk_socket c; name = c_copy 108 path in
      if sfd < 0 then (-1, w)
      else (let w1 = unlink path w in
            if \<not> sk_bind c \<or> sw_files w1 name \<noteq> None then (-1, close_fd sfd w1)
            else (let w2 = chmod path 384 (w1\<lparr>sw_files := (sw_files w1)(name \<mapsto> sk_mode c)\<rparr>) in
                  if \<not> sk_listen c then (-1, unlink path (close_fd sfd w2)) else (sfd, w2))))"

text \<open>\<open>ipc_server_init\<close> with the socket it creates and what it undoes when the socket cannot be used.\<close>

definition ipc_server_open :: "socket_calls \<Rightarrow> 'u \<Rightarrow> string option \<Rightarrow> socket_world \<Rightarrow> 'u ipc_server option \<times> socket_world" where
  "ipc_server_open c u0 path w =
     (let p = (case path of Some s \<Rightarrow> s | None \<Rightarrow> IPC_DEFAULT_SOCKET_PATH);
          (lfd, w1) = ipc_create_unix_socket c p w in
      if \<not> sk_alloc c then (None, w)
      else (ipc_server_init True (\<lambda>_. lfd) (set_nonblocking c) u0 path,
            if lfd \<ge> 0 \<and> set_nonblocking c < 0 then unlink p (close_fd lfd w1) else w1))"

definition ipc_server_release :: "'u ipc_server \<Rightarrow> socket_world \<Rightarrow> socket_world" where
  "ipc_server_release server w =
     (let w1 = w\<lparr>sw_closed := sw_closed w @ concat (map (\<lambda>e. case e of Closed d \<Rightarrow> [d] | _ \<Rightarrow> []) (ipc_server_destroy server))\<rparr> in
      if listen_fd server \<ge> 0 then unlink (socket_path server) w1 else w1)"

section \<open>Properties\<close>

lemmas socket_defs = ipc_create_unix_socket_def unlink_def chmod_def close_fd_def Let_def

text \<open>
  A path of less than 108 characters: either the server has the descriptor and the file of that name is
  readable and writable by its owner only, or there is no server, the descriptor, if there was one, has
  been closed once, and no file of that name is left. No other file changes.
\<close>

theorem socket_owner_only:
  assumes "length p < 108" "sk_alloc c" "ipc_server_open c u0 (Some p) w = (r, w')"
  shows "(case r of
       Some server \<Rightarrow> listen_fd server = sk_socket c \<and> sw_files w' p = Some 384 \<and> sw_closed w' = sw_closed w
     | None \<Rightarrow> if sk_socket c < 0 then w' = w else sw_files w' p = None \<and> sw_closed w' = sw_closed w @ [sk_socket c]) \<and>
     (\<forall>q. q \<noteq> p \<longrightarrow> sw_files w' q = sw_files w q)"
  using assms by (auto simp: ipc_server_open_def ipc_server_init_def socket_defs split: if_splits)

text \<open>The server that was opened on such a path leaves no file behind when it is destroyed.\<close>

theorem socket_removed:
  assumes "length p < 108" "ipc_server_open c u0 (Some p) w = (Some server, w')" "listen_fd server' = listen_fd server"
    "socket_path server' = socket_path server"
  shows "sw_files (ipc_server_release server' w'') p = None"
  using assms by (auto simp: ipc_server_open_def ipc_server_init_def ipc_server_release_def socket_defs split: if_splits prod.splits)

text \<open>
  With a longer path the socket is created under the shortened name, which the call of \<open>chmod\<close> does not
  reach: it keeps the mode that \<open>bind\<close> gave it, and no clean-up removes it.
\<close>

lemma long_path_unprotected:
  assumes "length p \<ge> 108" "sk_socket c \<ge> 0" "sk_bind c" "sk_listen c" "sw_files w (c_copy 108 p) = None"
  shows "sw_files (snd (ipc_create_unix_socket c p w)) (c_copy 108 p) = Some (sk_mode c)"
    "ipc_create_unix_socket (c\<lparr>sk_listen := False\<rparr>) p w = (-1, w') \<Longrightarrow> sw_files w' (c_copy 108 p) = Some (sk_mode c)"
proof -
  have "length (c_copy 108 p) < length p" using assms(1) by simp
  then have "c_copy 108 p \<noteq> p" by (metis less_irrefl)
  then show "sw_files (snd (ipc_create_unix_socket c p w)) (c_copy 108 p) = Some (sk_mode c)"
    "ipc_create_unix_socket (c\<lparr>sk_listen := False\<rparr>) p w = (-1, w') \<Longrightarrow> sw_files w' (c_copy 108 p) = Some (sk_mode c)"
    using assms(2-5) by (auto simp: socket_defs)
qed

end
