(* ===== verification/Flow_Control.thy ===== *)
theory Flow_Control
  imports Gateway_Prelude
begin

text \<open>
  The two admission controls of the gateway: \<open>src/src/ipc_backpressure.c\<close>, which limits the
  requests in flight over all connections and per connection, and \<open>src/src/nats_resilience.c\<close>,
  which limits the requests in flight to NATS and tracks connection state and back-off. The
  locale \<open>admission\<close> is what a caller of either relies on. Counters of type \<open>int\<close> are
  mathematical integers; the back-off, the only one the code multiplies, wraps at 32 bits.
\<close>

section \<open>IPC backpressure\<close>

record ipc_backpressure_config_t =
  global_max_inflight :: int
  per_conn_max_inflight :: int

record ipc_backpressure_t =
  bp_config :: ipc_backpressure_config_t
  global_inflight :: int
  connections :: "int list"
  total_rejections :: size_t

abbreviation (input) MAX_CONNECTIONS :: int where "MAX_CONNECTIONS \<equiv> 64"

definition ipc_backpressure_init :: "bool \<Rightarrow> ipc_backpressure_config_t option \<Rightarrow> ipc_backpressure_t option" where
  "ipc_backpressure_init alloc config =
     (if \<not> alloc then None
      else (let c = (case config of Some c \<Rightarrow> c
                     | None \<Rightarrow> \<lparr>global_max_inflight = 1000, per_conn_max_inflight = 10\<rparr>);
                c1 = (if global_max_inflight c \<le> 0 then c\<lparr>global_max_inflight := 1000\<rparr> else c);
                c2 = (if per_conn_max_inflight c1 \<le> 0 then c1\<lparr>per_conn_max_inflight := 10\<rparr> else c1) in
            Some \<lparr>bp_config = c2, global_inflight = 0, connections = replicate 64 0, total_rejections = 0\<rparr>))"

definition ipc_backpressure_can_accept :: "int \<Rightarrow> ipc_backpressure_t \<Rightarrow> bool" where
  "ipc_backpressure_can_accept conn_id bp =
     (if conn_id < 0 \<or> conn_id \<ge> MAX_CONNECTIONS then False
      else if global_inflight bp \<ge> global_max_inflight (bp_config bp) then False
      else if connections bp ! nat conn_id \<ge> per_conn_max_inflight (bp_config bp) then False
      else True)"

definition ipc_backpressure_request_start :: "int \<Rightarrow> ipc_backpressure_t \<Rightarrow> ipc_backpressure_t" where
  "ipc_backpressure_request_start conn_id bp =
     (if conn_id < 0 \<or> conn_id \<ge> MAX_CONNECTIONS then bp
      else if \<not> ipc_backpressure_can_accept conn_id bp
      then bp\<lparr>total_rejections := total_rejections bp + 1\<rparr>
      else bp\<lparr>global_inflight := global_inflight bp + 1,
              connections := (connections bp)[nat conn_id := connections bp ! nat conn_id + 1]\<rparr>)"

definition ipc_backpressure_request_complete :: "int \<Rightarrow> ipc_backpressure_t \<Rightarrow> ipc_backpressure_t" where
  "ipc_backpressure_request_complete conn_id bp =
     (if conn_id < 0 \<or> conn_id \<ge> MAX_CONNECTIONS then bp
      else (let bp1 = (if global_inflight bp > 0 then bp\<lparr>global_inflight := global_inflight bp - 1\<rparr> else bp) in
            if connections bp1 ! nat conn_id > 0
            then bp1\<lparr>connections := (connections bp1)[nat conn_id := connections bp1 ! nat conn_id - 1]\<rparr>
            else bp1))"

definition ipc_backpressure_get_stats :: "ipc_backpressure_t \<Rightarrow> int \<times> size_t" where
  "ipc_backpressure_get_stats bp = (global_inflight bp, total_rejections bp)"

section \<open>NATS resilience\<close>

datatype nats_connection_state_t =
    NATS_STATE_DISCONNECTED
  | NATS_STATE_CONNECTED
  | NATS_STATE_DEGRADED
  | NATS_STATE_RECONNECTING

record nats_resilience_config_t =
  max_inflight :: int
  min_backoff_ms :: int
  max_backoff_ms :: int
  degraded_threshold :: int
  reconnect_limit :: int

record nats_resilience_t =
  res_config :: nats_resilience_config_t
  res_state :: nats_connection_state_t
  inflight_count :: int
  consecutive_errors :: size_t
  total_errors :: size_t
  reconnect_attempts :: int
  current_backoff_ms :: int
  last_error_time :: int

definition nats_resilience_init :: "bool \<Rightarrow> nats_resilience_config_t option \<Rightarrow> nats_resilience_t option" where
  "nats_resilience_init alloc config =
     (if \<not> alloc then None
      else (let c = (case config of Some c \<Rightarrow> c
                     | None \<Rightarrow> \<lparr>max_inflight = 100, min_backoff_ms = 100, max_backoff_ms = 30000,
                               degraded_threshold = 3, reconnect_limit = 0\<rparr>);
                c1 = (if max_inflight c \<le> 0 then c\<lparr>max_inflight := 100\<rparr> else c);
                c2 = (if min_backoff_ms c1 \<le> 0 then c1\<lparr>min_backoff_ms := 100\<rparr> else c1);
                c3 = (if max_backoff_ms c2 \<le> 0 then c2\<lparr>max_backoff_ms := 30000\<rparr> else c2) in
            Some \<lparr>res_config = c3, res_state = NATS_STATE_DISCONNECTED, inflight_count = 0,
                  consecutive_errors = 0, total_errors = 0, reconnect_attempts = 0,
                  current_backoff_ms = min_backoff_ms c3, last_error_time = 0\<rparr>))"

definition nats_resilience_get_state :: "nats_resilience_t option \<Rightarrow> nats_connection_state_t" where
  "nats_resilience_get_state res = (case res of Some r \<Rightarrow> res_state r | None \<Rightarrow> NATS_STATE_DISCONNECTED)"

definition nats_resilience_can_accept :: "nats_resilience_t \<Rightarrow> bool" where
  "nats_resilience_can_accept res =
     (if inflight_count res \<ge> max_inflight (res_config res) then False
      else if res_state res = NATS_STATE_DISCONNECTED \<or> res_state res = NATS_STATE_RECONNECTING then False
      else True)"

definition nats_resilience_request_start :: "nats_resilience_t \<Rightarrow> nats_resilience_t" where
  "nats_resilience_request_start res = res\<lparr>inflight_count := inflight_count res + 1\<rparr>"

text \<open>\<open>now\<close> is the answer of \<open>time(NULL)\<close>. The threshold is compared as a \<open>size_t\<close>.\<close>

definition nats_resilience_request_complete :: "int \<Rightarrow> bool \<Rightarrow> nats_resilience_t \<Rightarrow> nats_resilience_t" where
  "nats_resilience_request_complete now success res =
     (let r = (if inflight_count res > 0 then res\<lparr>inflight_count := inflight_count res - 1\<rparr> else res) in
      if success then
        (let r1 = r\<lparr>consecutive_errors := 0\<rparr> in
         if res_state r1 = NATS_STATE_DEGRADED
         then r1\<lparr>res_state := NATS_STATE_CONNECTED, current_backoff_ms := min_backoff_ms (res_config r1)\<rparr>
         else r1)
      else
        (let r1 = r\<lparr>consecutive_errors := consecutive_errors r + 1, total_errors := total_errors r + 1,
                    last_error_time := now\<rparr>;
             r2 = (if consecutive_errors r1 \<ge> of_int (degraded_threshold (res_config r1)) \<and>
                      res_state r1 = NATS_STATE_CONNECTED
                   then r1\<lparr>res_state := NATS_STATE_DEGRADED\<rparr> else r1);
             r3 = r2\<lparr>current_backoff_ms := int32 (current_backoff_ms r2 * 2)\<rparr> in
         if current_backoff_ms r3 > max_backoff_ms (res_config r3)
         then r3\<lparr>current_backoff_ms := max_backoff_ms (res_config r3)\<rparr> else r3))"

definition nats_resilience_mark_connected :: "nats_resilience_t \<Rightarrow> nats_resilience_t" where
  "nats_resilience_mark_connected res =
     res\<lparr>res_state := NATS_STATE_CONNECTED, consecutive_errors := 0,
         current_backoff_ms := min_backoff_ms (res_config res), reconnect_attempts := 0\<rparr>"

definition nats_resilience_get_backoff_ms :: "nats_resilience_t option \<Rightarrow> int" where
  "nats_resilience_get_backoff_ms res = (case res of Some r \<Rightarrow> current_backoff_ms r | None \<Rightarrow> 100)"

definition nats_resilience_get_stats :: "nats_resilience_t \<Rightarrow> int \<times> size_t \<times> int" where
  "nats_resilience_get_stats res = (inflight_count res, total_errors res, reconnect_attempts res)"

section \<open>Specification\<close>

text \<open>
  A caller that starts a request only when the control accepts it, and reports completions.
\<close>

datatype ('c, 'r) admission_op = Ask 'c | Done 'r

fun run_guarded ::
    "('c \<Rightarrow> 's \<Rightarrow> bool) \<Rightarrow> ('c \<Rightarrow> 's \<Rightarrow> 's) \<Rightarrow> ('r \<Rightarrow> 's \<Rightarrow> 's) \<Rightarrow> ('c, 'r) admission_op list \<Rightarrow> 's \<Rightarrow> 's" where
  "run_guarded can go fin [] s = s"
| "run_guarded can go fin (Ask c # ops) s =
     run_guarded can go fin ops (if can c s then go c s else s)"
| "run_guarded can go fin (Done r # ops) s = run_guarded can go fin ops (fin r s)"

text \<open>
  Invariant of the backpressure state: no count is negative, none exceeds its limit, and the
  global count is not above the sum of the connections' counts.
\<close>

definition backpressure_inv :: "ipc_backpressure_t \<Rightarrow> bool" where
  "backpressure_inv bp =
     (length (connections bp) = 64 \<and>
      list_all (\<lambda>n. 0 \<le> n \<and> n \<le> per_conn_max_inflight (bp_config bp)) (connections bp) \<and>
      0 \<le> global_inflight bp \<and> global_inflight bp \<le> global_max_inflight (bp_config bp) \<and>
      global_inflight bp \<le> sum_list (connections bp))"

text \<open>
  The requests of each connection that were started and not yet completed; the operations that
  a caller who completes only what it started performs.
\<close>

datatype bp_op = BP_Start int | BP_Complete int

fun bp_apply :: "bp_op \<Rightarrow> ipc_backpressure_t \<Rightarrow> ipc_backpressure_t" where
  "bp_apply (BP_Start c) bp = ipc_backpressure_request_start c bp"
| "bp_apply (BP_Complete c) bp = ipc_backpressure_request_complete c bp"

inductive bp_matched :: "ipc_backpressure_config_t option \<Rightarrow> ipc_backpressure_t \<Rightarrow> bool" for cfg where
  bp_new: "ipc_backpressure_init True cfg = Some bp \<Longrightarrow> bp_matched cfg bp"
| bp_start: "bp_matched cfg bp \<Longrightarrow> bp_matched cfg (bp_apply (BP_Start c) bp)"
| bp_complete: "bp_matched cfg bp \<Longrightarrow> 0 \<le> c \<Longrightarrow> c < 64 \<Longrightarrow> 0 < connections bp ! nat c \<Longrightarrow>
    bp_matched cfg (bp_apply (BP_Complete c) bp)"

text \<open>Back-off stays between the configured bounds, which are far enough below the \<open>int\<close> range.\<close>

definition resilience_inv :: "nats_resilience_t \<Rightarrow> bool" where
  "resilience_inv r =
     (0 < min_backoff_ms (res_config r) \<and> min_backoff_ms (res_config r) \<le> max_backoff_ms (res_config r) \<and>
      max_backoff_ms (res_config r) \<le> 2 ^ 30 - 1 \<and>
      min_backoff_ms (res_config r) \<le> current_backoff_ms r \<and> current_backoff_ms r \<le> max_backoff_ms (res_config r) \<and>
      0 \<le> inflight_count r \<and> res_state r \<noteq> NATS_STATE_RECONNECTING)"

text \<open>A run of failed requests.\<close>

fun fail_n :: "int \<Rightarrow> nat \<Rightarrow> nats_resilience_t \<Rightarrow> nats_resilience_t" where
  "fail_n now 0 r = r"
| "fail_n now (Suc n) r = nats_resilience_request_complete now False (fail_n now n r)"

definition demo_resilience :: nats_resilience_t where
  "demo_resilience = \<lparr>res_config = \<lparr>max_inflight = 2, min_backoff_ms = 100, max_backoff_ms = 30000,
       degraded_threshold = 3, reconnect_limit = 0\<rparr>,
     res_state = NATS_STATE_CONNECTED, inflight_count = 0, consecutive_errors = 0, total_errors = 0,
     reconnect_attempts = 0, current_backoff_ms = 100, last_error_time = 0\<rparr>"

section \<open>The admission contract\<close>

text \<open>
  An admission control promises: it accepts only below its limit, an accepted start counts one
  more, a completion never counts up, and the limit stays. A caller that asks first then keeps
  the number of requests in flight within the limit, whatever the order of its operations.
\<close>

locale admission =
  fixes can_accept :: "'c \<Rightarrow> 's \<Rightarrow> bool"
    and start :: "'c \<Rightarrow> 's \<Rightarrow> 's"
    and complete :: "'r \<Rightarrow> 's \<Rightarrow> 's"
    and inflight :: "'s \<Rightarrow> int"
    and limit :: "'s \<Rightarrow> int"
    and invar :: "'s \<Rightarrow> bool"
  assumes accept_room: "invar s \<Longrightarrow> can_accept c s \<Longrightarrow> inflight s < limit s"
    and start_counts: "invar s \<Longrightarrow> can_accept c s \<Longrightarrow> inflight (start c s) = inflight s + 1"
    and start_keeps: "invar s \<Longrightarrow> can_accept c s \<Longrightarrow> invar (start c s) \<and> limit (start c s) = limit s"
    and complete_counts: "invar s \<Longrightarrow> inflight (complete r s) \<le> inflight s"
    and complete_keeps: "invar s \<Longrightarrow> invar (complete r s) \<and> limit (complete r s) = limit s"
begin

lemma guarded_within_limit:
  "invar s \<Longrightarrow> inflight s \<le> limit s \<Longrightarrow>
     invar (run_guarded can_accept start complete ops s) \<and>
     limit (run_guarded can_accept start complete ops s) = limit s \<and>
     inflight (run_guarded can_accept start complete ops s) \<le> limit s"
proof (induction ops arbitrary: s)
  case (Cons oper ops)
  show ?case
  proof (cases oper)
    case (Ask c)
    then show ?thesis
      using Cons.IH [of "start c s"] Cons.IH [of s] Cons.prems accept_room [of s c] start_counts [of s c]
        start_keeps [of s c] by (cases "can_accept c s") auto
  next
    case (Done r)
    then show ?thesis
      using Cons.IH [of "complete r s"] Cons.prems complete_counts [of s r] complete_keeps [of s r] by auto
  qed
qed simp

end

section \<open>Lemmas on backpressure\<close>

lemma connections_sum:
  assumes "backpressure_inv bp" "0 \<le> c" "c < 64"
  shows "sum_list ((connections bp)[nat c := v]) = sum_list (connections bp) - connections bp ! nat c + v"
  using assms by (intro sum_list_update_int) (simp add: backpressure_inv_def)

lemma connections_bounds:
  assumes "backpressure_inv bp" "0 \<le> c" "c < 64"
  shows "0 \<le> connections bp ! nat c" "connections bp ! nat c \<le> per_conn_max_inflight (bp_config bp)"
    "connections bp ! nat c \<le> sum_list (connections bp)"
proof -
  have i: "nat c < length (connections bp)" using assms by (simp add: backpressure_inv_def)
  show "0 \<le> connections bp ! nat c" "connections bp ! nat c \<le> per_conn_max_inflight (bp_config bp)"
    using assms(1) i by (auto simp: backpressure_inv_def list_all_length)
  have "\<forall>x\<in>set (connections bp). 0 \<le> x"
    using assms(1) by (auto simp: backpressure_inv_def list_all_iff)
  then show "connections bp ! nat c \<le> sum_list (connections bp)"
    using i by (rule nth_le_sum_list)
qed

lemma backpressure_init_inv [gw_inv]: "ipc_backpressure_init a cfg = Some bp \<Longrightarrow> backpressure_inv bp"
  by (auto simp: ipc_backpressure_init_def backpressure_inv_def list_all_iff sum_list_replicate Let_def
      split: if_splits)

lemma backpressure_start_inv [gw_inv]:
  "backpressure_inv bp \<Longrightarrow> backpressure_inv (ipc_backpressure_request_start c bp)"
  using connections_sum [of bp c "connections bp ! nat c + 1"] connections_bounds [of bp c]
  by (auto simp: ipc_backpressure_request_start_def ipc_backpressure_can_accept_def backpressure_inv_def
      list_all_length nth_list_update)

lemma backpressure_complete_inv [gw_inv]:
  "backpressure_inv bp \<Longrightarrow> backpressure_inv (ipc_backpressure_request_complete c bp)"
  using connections_sum [of bp c "connections bp ! nat c - 1"] connections_bounds [of bp c]
  by (auto simp: ipc_backpressure_request_complete_def backpressure_inv_def list_all_length nth_list_update Let_def)

lemma backpressure_config [simp]:
  "bp_config (ipc_backpressure_request_start c bp) = bp_config bp"
  "bp_config (ipc_backpressure_request_complete c bp) = bp_config bp"
  by (simp_all add: ipc_backpressure_request_start_def ipc_backpressure_request_complete_def Let_def)

interpretation backpressure: admission ipc_backpressure_can_accept ipc_backpressure_request_start
  ipc_backpressure_request_complete global_inflight "\<lambda>bp. global_max_inflight (bp_config bp)" backpressure_inv
proof (unfold_locales, goal_cases)
  case (1 s c)
  then show ?case by (simp add: ipc_backpressure_can_accept_def split: if_splits)
next
  case (2 s c)
  then show ?case
    by (simp add: ipc_backpressure_request_start_def)
       (auto simp: ipc_backpressure_can_accept_def split: if_splits)
next
  case (4 s r)
  then show ?case by (simp add: ipc_backpressure_request_complete_def Let_def)
qed (auto simp: backpressure_start_inv backpressure_complete_inv)

lemma bp_matched_inv:
  "bp_matched cfg bp \<Longrightarrow> backpressure_inv bp \<and> global_inflight bp = sum_list (connections bp)"
proof (induction rule: bp_matched.induct)
  case (bp_new bp)
  then show ?case
    using backpressure_init_inv [OF bp_new]
    by (auto simp: ipc_backpressure_init_def sum_list_replicate Let_def split: if_splits)
next
  case (bp_start bp c)
  then show ?case
    using backpressure_start_inv [of bp c] connections_sum [of bp c "connections bp ! nat c + 1"]
    by (auto simp: ipc_backpressure_request_start_def split: if_splits)
next
  case (bp_complete bp c)
  then show ?case
    using backpressure_complete_inv [of bp c] connections_sum [of bp c "connections bp ! nat c - 1"]
      connections_bounds [of bp c]
    by (auto simp: ipc_backpressure_request_complete_def Let_def split: if_splits)
qed

section \<open>Lemmas on resilience\<close>

lemma resilience_config [simp]:
  "res_config (nats_resilience_request_start r) = res_config r"
  "res_config (nats_resilience_request_complete now b r) = res_config r"
  "res_config (nats_resilience_mark_connected r) = res_config r"
  by (simp_all add: nats_resilience_request_start_def nats_resilience_request_complete_def
      nats_resilience_mark_connected_def Let_def)

lemma resilience_fail_backoff:
  assumes "resilience_inv r"
  shows "current_backoff_ms (nats_resilience_request_complete now False r) =
    min (max_backoff_ms (res_config r)) (2 * current_backoff_ms r)"
proof -
  have "int32 (current_backoff_ms r * 2) = 2 * current_backoff_ms r"
    using assms by (subst int32_id) (auto simp: resilience_inv_def)
  then show ?thesis
    by (simp add: nats_resilience_request_complete_def Let_def)
qed

lemma resilience_success_backoff:
  "resilience_inv r \<Longrightarrow> current_backoff_ms (nats_resilience_request_complete now True r) \<in>
     {current_backoff_ms r, min_backoff_ms (res_config r)}"
  by (auto simp: nats_resilience_request_complete_def Let_def)

lemma resilience_other [simp]:
  "inflight_count (nats_resilience_request_complete now b r) = (if inflight_count r > 0 then inflight_count r - 1 else inflight_count r)"
  "inflight_count (nats_resilience_request_start r) = inflight_count r + 1"
  "inflight_count (nats_resilience_mark_connected r) = inflight_count r"
  "res_state (nats_resilience_request_start r) = res_state r"
  "current_backoff_ms (nats_resilience_request_start r) = current_backoff_ms r"
  by (simp_all add: nats_resilience_request_complete_def nats_resilience_request_start_def
      nats_resilience_mark_connected_def Let_def)

lemma resilience_complete_state:
  "res_state (nats_resilience_request_complete now b r) \<in>
     (if res_state r \<in> {NATS_STATE_CONNECTED, NATS_STATE_DEGRADED}
      then {NATS_STATE_CONNECTED, NATS_STATE_DEGRADED} else {res_state r})"
  by (auto simp: nats_resilience_request_complete_def Let_def)

lemma resilience_complete_inv [gw_inv]:
  assumes "resilience_inv r"
  shows "resilience_inv (nats_resilience_request_complete now b r)"
proof -
  have "min_backoff_ms (res_config r) \<le> current_backoff_ms (nats_resilience_request_complete now b r)"
    "current_backoff_ms (nats_resilience_request_complete now b r) \<le> max_backoff_ms (res_config r)"
    using assms resilience_fail_backoff [OF assms, of now] resilience_success_backoff [OF assms, of now]
    by (cases b; auto simp: resilience_inv_def)+
  moreover have "res_state (nats_resilience_request_complete now b r) \<noteq> NATS_STATE_RECONNECTING"
    using assms resilience_complete_state [of now b r] by (auto simp: resilience_inv_def split: if_splits)
  ultimately show ?thesis using assms by (simp add: resilience_inv_def)
qed

lemma resilience_start_inv [gw_inv]: "resilience_inv r \<Longrightarrow> resilience_inv (nats_resilience_request_start r)"
  by (simp add: resilience_inv_def)

lemma resilience_connected_inv [gw_inv]: "resilience_inv r \<Longrightarrow> resilience_inv (nats_resilience_mark_connected r)"
  by (simp add: resilience_inv_def nats_resilience_mark_connected_def)

interpretation resilience: admission "\<lambda>_ :: unit. nats_resilience_can_accept" "\<lambda>_. nats_resilience_request_start"
  "\<lambda>(now, ok). nats_resilience_request_complete now ok" inflight_count "\<lambda>r. max_inflight (res_config r)" resilience_inv
  by unfold_locales
     (auto simp: nats_resilience_can_accept_def resilience_start_inv resilience_complete_inv split: if_splits)

lemma fail_n_inv: "resilience_inv r \<Longrightarrow> resilience_inv (fail_n now n r) \<and> res_config (fail_n now n r) = res_config r"
  by (induction n) (auto simp: resilience_complete_inv)

lemma fail_n_backoff:
  "resilience_inv r \<Longrightarrow> current_backoff_ms (fail_n now n r) =
     min (max_backoff_ms (res_config r)) (current_backoff_ms r * 2 ^ n)"
proof (induction n)
  case (Suc n)
  then show ?case
    using resilience_fail_backoff [of "fail_n now n r" now] fail_n_inv [of r now n]
    by (auto simp: resilience_inv_def min_def)
qed (auto simp: resilience_inv_def)

lemma fail_n_errors: "consecutive_errors (fail_n now n r) = consecutive_errors r + of_nat n"
  by (induction n) (simp_all add: nats_resilience_request_complete_def Let_def)

lemma fail_n_state:
  assumes "resilience_inv r" "res_state r = NATS_STATE_CONNECTED" "consecutive_errors r = 0"
    "0 \<le> degraded_threshold (res_config r)" "degraded_threshold (res_config r) \<le> INT_MAX" "n < 2 ^ 64"
  shows "res_state (fail_n now n r) =
    (if 0 < n \<and> nat (degraded_threshold (res_config r)) \<le> n then NATS_STATE_DEGRADED else NATS_STATE_CONNECTED)"
  using assms(6)
proof (induction n)
  case (Suc n)
  let ?f = "fail_n now n r"
  have thr: "unat (of_int (degraded_threshold (res_config r)) :: size_t) = nat (degraded_threshold (res_config r))"
  proof -
    from assms(4) obtain k where "degraded_threshold (res_config r) = int k" by (rule nonneg_int_cases)
    with assms(5) show ?thesis using unat_of_nat_small [of k, where 'a = 64] by simp
  qed
  have "consecutive_errors ?f + 1 = of_nat (Suc n)"
    using fail_n_errors [of now n r] assms(3) by simp
  then have "unat (consecutive_errors ?f + 1) = Suc n"
    using unat_of_nat_small [of "Suc n", where 'a = 64] Suc.prems by (simp only: len_of_numeral_defs) simp
  then have "(of_int (degraded_threshold (res_config r)) \<le> consecutive_errors ?f + 1) =
      (nat (degraded_threshold (res_config r)) \<le> Suc n)"
    using thr by (simp add: word_le_nat_alt)
  with Suc fail_n_inv [OF assms(1), of now n] show ?case
    by (auto simp: nats_resilience_request_complete_def Let_def)
qed (use assms(2) in simp)

section \<open>Properties\<close>

text \<open>
  C12. When completions are reported only for requests in flight, the global count of the
  backpressure control is the sum of the connections' counts, no connection exceeds its limit
  and the total never exceeds the global limit, whatever the interleaving of the connections.
\<close>

theorem backpressure_matched_limits:
  assumes "bp_matched cfg bp"
  shows "global_inflight bp = sum_list (connections bp) \<and>
    sum_list (connections bp) \<le> global_max_inflight (bp_config bp) \<and>
    (\<forall>c\<in>set (connections bp). 0 \<le> c \<and> c \<le> per_conn_max_inflight (bp_config bp))"
  using bp_matched_inv [OF assms] by (auto simp: backpressure_inv_def list_all_iff)

text \<open>
  A completion reported for an idle connection is subtracted from the global count all the
  same, so that afterwards more requests are in flight than the global limit allows.
\<close>

theorem backpressure_idle_complete_overcommits:
  "\<exists>bp0 bp. ipc_backpressure_init True (Some \<lparr>global_max_inflight = 1, per_conn_max_inflight = 1\<rparr>) = Some bp0 \<and>
     bp = ipc_backpressure_request_start 2 (ipc_backpressure_request_complete 1 (ipc_backpressure_request_start 0 bp0)) \<and>
     total_rejections bp = 0 \<and> sum_list (connections bp) = 2 \<and> global_max_inflight (bp_config bp) = 1"
proof -
  define bp0 where "bp0 = \<lparr>bp_config = \<lparr>global_max_inflight = 1, per_conn_max_inflight = 1\<rparr>, global_inflight = 0,
      connections = replicate 64 0, total_rejections = 0\<rparr>"
  have "ipc_backpressure_init True (Some \<lparr>global_max_inflight = 1, per_conn_max_inflight = 1\<rparr>) = Some bp0"
    by (simp add: ipc_backpressure_init_def bp0_def)
  moreover have "ipc_backpressure_request_start 2 (ipc_backpressure_request_complete 1 (ipc_backpressure_request_start 0 bp0)) =
      bp0\<lparr>global_inflight := 1, connections := (replicate 64 0)[0 := 1, 2 := 1]\<rparr>"
    by (simp add: ipc_backpressure_request_start_def ipc_backpressure_request_complete_def
        ipc_backpressure_can_accept_def bp0_def Let_def)
  moreover have "sum_list ((replicate 64 (0 :: int))[0 := 1, 2 := 1]) = 2"
    by (simp add: sum_list_update_int sum_list_replicate)
  ultimately show ?thesis by (intro exI conjI) (auto simp: bp0_def)
qed

text \<open>
  After a connection is established, n failed requests double the back-off n times from its
  minimum, capped at the maximum, and the connection counts as degraded exactly when at least the
  threshold of failures, and at least one, has occurred. Both bounds are below half the \<open>int\<close> range.
\<close>

theorem resilience_failures:
  assumes "resilience_inv r" "0 \<le> degraded_threshold (res_config r)" "degraded_threshold (res_config r) \<le> INT_MAX"
    "n < 2 ^ 64" "r' = fail_n now n (nats_resilience_mark_connected r)"
  shows "current_backoff_ms r' = min (max_backoff_ms (res_config r)) (min_backoff_ms (res_config r) * 2 ^ n) \<and>
    res_state r' = (if 0 < n \<and> degraded_threshold (res_config r) \<le> int n
                    then NATS_STATE_DEGRADED else NATS_STATE_CONNECTED)"
proof -
  let ?r = "nats_resilience_mark_connected r"
  have r: "res_state ?r = NATS_STATE_CONNECTED" "consecutive_errors ?r = 0"
    "current_backoff_ms ?r = min_backoff_ms (res_config r)"
    by (simp_all add: nats_resilience_mark_connected_def)
  show ?thesis
    using fail_n_backoff [OF resilience_connected_inv [OF assms(1)], of now n]
      fail_n_state [OF resilience_connected_inv [OF assms(1)] r(1,2), of n now] r assms(2-5)
    by (simp add: nat_le_iff)
qed

text \<open>
  A caller that starts a NATS request only when it is accepted keeps the requests in flight
  within the configured maximum, over any sequence of requests, successes and failures; the
  back-off stays within its bounds, and the reconnecting state is never entered.
\<close>

theorem resilience_guarded:
  assumes "resilience_inv r" "inflight_count r \<le> max_inflight (res_config r)"
    "r' = run_guarded (\<lambda>_ :: unit. nats_resilience_can_accept) (\<lambda>_. nats_resilience_request_start)
            (\<lambda>(now, ok). nats_resilience_request_complete now ok) ops r"
  shows "0 \<le> inflight_count r' \<and> inflight_count r' \<le> max_inflight (res_config r) \<and>
    min_backoff_ms (res_config r') \<le> current_backoff_ms r' \<and> current_backoff_ms r' \<le> max_backoff_ms (res_config r') \<and>
    res_state r' \<noteq> NATS_STATE_RECONNECTING"
  using resilience.guarded_within_limit [OF assms(1,2), of ops] assms(3) by (simp add: resilience_inv_def)

text \<open>
  The doubling of the back-off is not protected: with a maximum above half the \<open>int\<close> range
  the product leaves the range, and with wrap-around the back-off becomes negative.
\<close>

theorem resilience_backoff_overflow:
  "current_backoff_ms (nats_resilience_request_complete now False
     (demo_resilience\<lparr>res_config := (res_config demo_resilience)\<lparr>max_backoff_ms := INT_MAX\<rparr>,
        current_backoff_ms := 2 ^ 30\<rparr>)) < 0"
  by (simp add: nats_resilience_request_complete_def demo_resilience_def Let_def int32_def)

theorem backpressure_matched_limits_witness:
  "\<exists>bp. bp_matched None bp \<and> global_inflight bp = 1 \<and> sum_list (connections bp) = 1"
proof -
  define bp0 where "bp0 = \<lparr>bp_config = \<lparr>global_max_inflight = 1000, per_conn_max_inflight = 10\<rparr>, global_inflight = 0,
      connections = replicate 64 0, total_rejections = 0\<rparr>"
  have "ipc_backpressure_init True None = Some bp0"
    by (simp add: ipc_backpressure_init_def bp0_def)
  then have m: "bp_matched None (bp_apply (BP_Start 3) bp0)" by (intro bp_start bp_new)
  have "global_inflight (bp_apply (BP_Start 3) bp0) = 1"
    by (simp add: ipc_backpressure_request_start_def ipc_backpressure_can_accept_def bp0_def)
  with m backpressure_matched_limits [OF m] show ?thesis by (intro exI conjI) auto
qed

theorem resilience_failures_witness:
  "current_backoff_ms (fail_n 0 3 (nats_resilience_mark_connected demo_resilience)) = 800 \<and>
   res_state (fail_n 0 3 (nats_resilience_mark_connected demo_resilience)) = NATS_STATE_DEGRADED"
  using resilience_failures [of demo_resilience 3 "fail_n 0 3 (nats_resilience_mark_connected demo_resilience)" 0]
  by (simp add: demo_resilience_def resilience_inv_def)

theorem resilience_guarded_witness:
  "inflight_count (run_guarded (\<lambda>_ :: unit. nats_resilience_can_accept) (\<lambda>_. nats_resilience_request_start)
     (\<lambda>(now, ok). nats_resilience_request_complete now ok) [Ask (), Ask (), Ask (), Done (5, False)] demo_resilience) \<le> 2"
  using resilience_guarded [of demo_resilience _ "[Ask (), Ask (), Ask (), Done (5, False)]"]
  by (simp add: demo_resilience_def resilience_inv_def)

end
