(* ===== verification/Circuit_Breaker.thy ===== *)
theory Circuit_Breaker
  imports Gateway_Prelude
begin

text \<open>
  The circuit breaker of \<open>src/src/circuit_breaker.c\<close>, and the interface every breaker of the
  gateway offers, as the locale \<open>breaker\<close>. Each operation runs under the breaker's mutex, so it
  is one atomic step on the state; the time it reads, \<open>get_time_ms\<close>, is its first argument. All
  counters keep their width. An abstract machine without widths is the specification, and the
  code refines it.
\<close>

section \<open>State\<close>

datatype cb_state_t = CB_STATE_CLOSED | CB_STATE_OPEN | CB_STATE_HALF_OPEN

record cb_config_t =
  failure_threshold :: u32
  success_threshold :: u32
  timeout_ms :: u32
  half_open_max_calls :: u32

record circuit_breaker =
  cb_config :: cb_config_t
  cb_state :: cb_state_t
  consecutive_failures :: u32
  consecutive_successes :: u32
  half_open_calls :: u32
  total_successes :: u64
  total_failures :: u64
  total_rejects :: u64
  state_changed_at_ms :: u64

section \<open>Operations\<close>

definition circuit_breaker_create :: "bool \<Rightarrow> u64 \<Rightarrow> cb_config_t option \<Rightarrow> circuit_breaker option" where
  "circuit_breaker_create alloc now config =
     (case config of
        None \<Rightarrow> None
      | Some c \<Rightarrow>
          if \<not> alloc then None
          else Some \<lparr>cb_config = c, cb_state = CB_STATE_CLOSED, consecutive_failures = 0,
                     consecutive_successes = 0, half_open_calls = 0, total_successes = 0,
                     total_failures = 0, total_rejects = 0, state_changed_at_ms = now\<rparr>)"

definition transition_to_open :: "u64 \<Rightarrow> circuit_breaker \<Rightarrow> circuit_breaker" where
  "transition_to_open now cb =
     cb\<lparr>cb_state := CB_STATE_OPEN, consecutive_failures := 0, consecutive_successes := 0, state_changed_at_ms := now\<rparr>"

definition transition_to_half_open :: "u64 \<Rightarrow> circuit_breaker \<Rightarrow> circuit_breaker" where
  "transition_to_half_open now cb =
     cb\<lparr>cb_state := CB_STATE_HALF_OPEN, half_open_calls := 0, consecutive_successes := 0, state_changed_at_ms := now\<rparr>"

definition transition_to_closed :: "u64 \<Rightarrow> circuit_breaker \<Rightarrow> circuit_breaker" where
  "transition_to_closed now cb =
     cb\<lparr>cb_state := CB_STATE_CLOSED, consecutive_failures := 0, consecutive_successes := 0,
        half_open_calls := 0, state_changed_at_ms := now\<rparr>"

definition circuit_breaker_allow_request :: "u64 \<Rightarrow> circuit_breaker \<Rightarrow> bool \<times> circuit_breaker" where
  "circuit_breaker_allow_request now cb =
     (if cb_state cb = CB_STATE_CLOSED then (True, cb)
      else if cb_state cb = CB_STATE_OPEN then
        (let elapsed = now - state_changed_at_ms cb in
         if elapsed \<ge> ucast (timeout_ms (cb_config cb)) then (True, transition_to_half_open now cb)
         else (False, cb\<lparr>total_rejects := total_rejects cb + 1\<rparr>))
      else if half_open_calls cb < half_open_max_calls (cb_config cb)
      then (True, cb\<lparr>half_open_calls := half_open_calls cb + 1\<rparr>)
      else (False, cb\<lparr>total_rejects := total_rejects cb + 1\<rparr>))"

definition circuit_breaker_on_success :: "u64 \<Rightarrow> circuit_breaker \<Rightarrow> circuit_breaker" where
  "circuit_breaker_on_success now cb =
     (let cb1 = cb\<lparr>total_successes := total_successes cb + 1,
                   consecutive_successes := consecutive_successes cb + 1, consecutive_failures := 0\<rparr> in
      if cb_state cb1 = CB_STATE_HALF_OPEN \<and> consecutive_successes cb1 \<ge> success_threshold (cb_config cb1)
      then transition_to_closed now cb1 else cb1)"

definition circuit_breaker_on_failure :: "u64 \<Rightarrow> circuit_breaker \<Rightarrow> circuit_breaker" where
  "circuit_breaker_on_failure now cb =
     (let cb1 = cb\<lparr>total_failures := total_failures cb + 1,
                   consecutive_failures := consecutive_failures cb + 1, consecutive_successes := 0\<rparr> in
      if cb_state cb1 = CB_STATE_CLOSED then
        (if consecutive_failures cb1 \<ge> failure_threshold (cb_config cb1) then transition_to_open now cb1 else cb1)
      else if cb_state cb1 = CB_STATE_HALF_OPEN then transition_to_open now cb1
      else cb1)"

definition circuit_breaker_get_state :: "circuit_breaker option \<Rightarrow> cb_state_t" where
  "circuit_breaker_get_state cb = (case cb of None \<Rightarrow> CB_STATE_CLOSED | Some b \<Rightarrow> cb_state b)"

definition circuit_breaker_reset :: "u64 \<Rightarrow> circuit_breaker \<Rightarrow> circuit_breaker" where
  "circuit_breaker_reset now cb = transition_to_closed now cb"

definition circuit_breaker_get_stats :: "circuit_breaker \<Rightarrow> u64 \<times> u64 \<times> u64" where
  "circuit_breaker_get_stats cb = (total_successes cb, total_failures cb, total_rejects cb)"

section \<open>Specification\<close>

text \<open>
  The abstract breaker: closed with the current run of failures, open since a time, or half open
  with the calls counted and the successes so far. Its thresholds are natural numbers.
\<close>

datatype breaker_spec = S_Closed nat | S_Open u64 | S_Half nat nat

fun spec_allow :: "cb_config_t \<Rightarrow> u64 \<Rightarrow> breaker_spec \<Rightarrow> bool \<times> breaker_spec" where
  "spec_allow c now (S_Closed f) = (True, S_Closed f)"
| "spec_allow c now (S_Open t) =
     (if unat (now - t) \<ge> unat (timeout_ms c) then (True, S_Half 0 0) else (False, S_Open t))"
| "spec_allow c now (S_Half n s) =
     (if n < unat (half_open_max_calls c) then (True, S_Half (n + 1) s) else (False, S_Half n s))"

fun spec_success :: "cb_config_t \<Rightarrow> breaker_spec \<Rightarrow> breaker_spec" where
  "spec_success c (S_Closed f) = S_Closed 0"
| "spec_success c (S_Open t) = S_Open t"
| "spec_success c (S_Half n s) =
     (if s + 1 \<ge> unat (success_threshold c) then S_Closed 0 else S_Half n (s + 1))"

fun spec_failure :: "cb_config_t \<Rightarrow> u64 \<Rightarrow> breaker_spec \<Rightarrow> breaker_spec" where
  "spec_failure c now (S_Closed f) =
     (if f + 1 \<ge> unat (failure_threshold c) then S_Open now else S_Closed (f + 1))"
| "spec_failure c now (S_Open t) = S_Open t"
| "spec_failure c now (S_Half n s) = S_Open now"

definition cb_abs :: "circuit_breaker \<Rightarrow> breaker_spec" where
  "cb_abs cb =
     (case cb_state cb of
        CB_STATE_CLOSED \<Rightarrow> S_Closed (unat (consecutive_failures cb))
      | CB_STATE_OPEN \<Rightarrow> S_Open (state_changed_at_ms cb)
      | CB_STATE_HALF_OPEN \<Rightarrow> S_Half (unat (half_open_calls cb)) (unat (consecutive_successes cb)))"

definition below :: "u32 \<Rightarrow> u32 \<Rightarrow> bool" where
  "below n t = (n = 0 \<or> n < t)"

text \<open>The counter that decides in the current state has not reached its threshold.\<close>

definition cb_inv :: "circuit_breaker \<Rightarrow> bool" where
  "cb_inv cb =
     (case cb_state cb of
        CB_STATE_CLOSED \<Rightarrow> below (consecutive_failures cb) (failure_threshold (cb_config cb))
      | CB_STATE_OPEN \<Rightarrow> True
      | CB_STATE_HALF_OPEN \<Rightarrow> below (consecutive_successes cb) (success_threshold (cb_config cb)) \<and>
          half_open_calls cb \<le> half_open_max_calls (cb_config cb))"

text \<open>A client's operations on a breaker, in the order its threads take the lock.\<close>

datatype 't cb_op = Op_Allow 't | Op_Success 't | Op_Failure 't

fun cb_op_time :: "'t cb_op \<Rightarrow> 't" where
  "cb_op_time (Op_Allow t) = t"
| "cb_op_time (Op_Success t) = t"
| "cb_op_time (Op_Failure t) = t"

fun run_breaker ::
    "('t \<Rightarrow> 's \<Rightarrow> bool \<times> 's) \<Rightarrow> ('t \<Rightarrow> 's \<Rightarrow> 's) \<Rightarrow> ('t \<Rightarrow> 's \<Rightarrow> 's) \<Rightarrow> 't cb_op list \<Rightarrow> 's \<Rightarrow> bool list \<times> 's" where
  "run_breaker allow ok bad [] s = ([], s)"
| "run_breaker allow ok bad (Op_Allow t # ops) s =
     (let (a, s1) = allow t s; (as, s2) = run_breaker allow ok bad ops s1 in (a # as, s2))"
| "run_breaker allow ok bad (Op_Success t # ops) s = run_breaker allow ok bad ops (ok t s)"
| "run_breaker allow ok bad (Op_Failure t # ops) s = run_breaker allow ok bad ops (bad t s)"

abbreviation (input) cb_run :: "u64 cb_op list \<Rightarrow> circuit_breaker \<Rightarrow> bool list \<times> circuit_breaker" where
  "cb_run \<equiv> run_breaker circuit_breaker_allow_request circuit_breaker_on_success circuit_breaker_on_failure"

definition spec_run :: "cb_config_t \<Rightarrow> u64 cb_op list \<Rightarrow> breaker_spec \<Rightarrow> bool list \<times> breaker_spec" where
  "spec_run c = run_breaker (spec_allow c) (\<lambda>_. spec_success c) (spec_failure c)"

definition demo_breaker :: circuit_breaker where
  "demo_breaker = \<lparr>cb_config = \<lparr>failure_threshold = 3, success_threshold = 2, timeout_ms = 1000, half_open_max_calls = 1\<rparr>,
     cb_state = CB_STATE_OPEN, consecutive_failures = 0, consecutive_successes = 0, half_open_calls = 0,
     total_successes = 0, total_failures = 3, total_rejects = 0, state_changed_at_ms = 5000\<rparr>"

section \<open>The breaker interface\<close>

text \<open>
  What a client relies on: a closed breaker lets calls through, an open one that has not cooled
  down refuses them and reports do not change that, and a failure in the half-open state opens it.
\<close>

locale breaker =
  fixes allow :: "'t \<Rightarrow> 's \<Rightarrow> bool \<times> 's"
    and ok :: "'t \<Rightarrow> 's \<Rightarrow> 's"
    and bad :: "'t \<Rightarrow> 's \<Rightarrow> 's"
    and closed :: "'s \<Rightarrow> bool"
    and opened :: "'s \<Rightarrow> bool"
    and cooled :: "'t \<Rightarrow> 's \<Rightarrow> bool"
  assumes closed_allows: "closed s \<Longrightarrow> fst (allow t s) \<and> closed (snd (allow t s))"
    and open_refuses: "opened s \<Longrightarrow> \<not> cooled t s \<Longrightarrow> \<not> fst (allow t s) \<and> opened (snd (allow t s))"
    and allow_cooled: "opened s \<Longrightarrow> \<not> cooled t s \<Longrightarrow> cooled u (snd (allow t s)) = cooled u s"
    and ok_open: "opened s \<Longrightarrow> opened (ok t s) \<and> cooled u (ok t s) = cooled u s"
    and bad_open: "opened s \<Longrightarrow> opened (bad t s) \<and> cooled u (bad t s) = cooled u s"
    and half_bad: "\<not> closed s \<Longrightarrow> \<not> opened s \<Longrightarrow> opened (bad t s)"
    and open_cooled_allows: "opened s \<Longrightarrow> cooled t s \<Longrightarrow> fst (allow t s) \<and> \<not> opened (snd (allow t s))"
begin

text \<open>While an open breaker has not cooled down, no call gets through.\<close>

lemma open_stays:
  "opened s \<Longrightarrow> \<forall>x\<in>set ops. \<not> cooled (cb_op_time x) s \<Longrightarrow>
     True \<notin> set (fst (run_breaker allow ok bad ops s)) \<and> opened (snd (run_breaker allow ok bad ops s)) \<and>
     (\<forall>u. cooled u (snd (run_breaker allow ok bad ops s)) = cooled u s)"
proof (induction ops arbitrary: s)
  case (Cons x ops)
  show ?case
  proof (cases x)
    case (Op_Allow t)
    then show ?thesis
      using Cons.IH [of "snd (allow t s)"] Cons.prems open_refuses [of s t] allow_cooled [of s t]
      by (auto simp: case_prod_unfold Let_def)
  next
    case (Op_Success t)
    then show ?thesis using Cons.IH [of "ok t s"] Cons.prems ok_open [of s] by auto
  next
    case (Op_Failure t)
    then show ?thesis using Cons.IH [of "bad t s"] Cons.prems bad_open [of s] by auto
  qed
qed simp

text \<open>The first call after the cool-down is let through.\<close>

lemma recovers:
  assumes "opened s" "\<forall>x\<in>set ops. \<not> cooled (cb_op_time x) s" "cooled t s"
  shows "fst (allow t (snd (run_breaker allow ok bad ops s)))"
  using open_stays [OF assms(1,2)] assms(3) open_cooled_allows by auto

end

section \<open>Lemmas\<close>

lemmas cb_defs = circuit_breaker_allow_request_def circuit_breaker_on_success_def circuit_breaker_on_failure_def
  transition_to_open_def transition_to_half_open_def transition_to_closed_def

lemma unat_Suc_less: "(n :: u32) < t \<Longrightarrow> unat (n + 1) = unat n + 1"
proof -
  assume "n < t"
  then have "unat n < unat t" by (simp add: word_less_nat_alt)
  moreover have "unat t < 2 ^ 32" by (rule order_less_le_trans [OF unsigned_less]) simp
  ultimately show ?thesis by (simp add: unat_word_ariths)
qed

lemma below_Suc: "below n t \<Longrightarrow> unat (n + 1) = unat n + 1"
  using unat_Suc_less [of n t] by (auto simp: below_def)

lemma cb_config_same [simp]:
  "cb_config (snd (circuit_breaker_allow_request now cb)) = cb_config cb"
  "cb_config (circuit_breaker_on_success now cb) = cb_config cb"
  "cb_config (circuit_breaker_on_failure now cb) = cb_config cb"
  by (simp_all add: cb_defs Let_def)

lemma timeout_compare: "ucast (t :: u32) \<le> (e :: u64) \<longleftrightarrow> unat t \<le> unat e"
  by (simp add: word_le_nat_alt unat_ucast_u32_u64)

lemma cb_allow_refines:
  "cb_inv cb \<Longrightarrow>
     fst (circuit_breaker_allow_request now cb) = fst (spec_allow (cb_config cb) now (cb_abs cb)) \<and>
     cb_abs (snd (circuit_breaker_allow_request now cb)) = snd (spec_allow (cb_config cb) now (cb_abs cb)) \<and>
     cb_inv (snd (circuit_breaker_allow_request now cb))"
  using unat_Suc_less [of "half_open_calls cb" "half_open_max_calls (cb_config cb)"]
  by (cases "cb_state cb")
     (auto simp: cb_defs cb_abs_def cb_inv_def below_def Let_def unat_ucast_u32_u64 word_less_nat_alt word_le_nat_alt
      split: if_splits)

lemma cb_success_refines:
  "cb_inv cb \<Longrightarrow> cb_abs (circuit_breaker_on_success now cb) = spec_success (cb_config cb) (cb_abs cb) \<and>
     cb_inv (circuit_breaker_on_success now cb)"
  using below_Suc [of "consecutive_successes cb" "success_threshold (cb_config cb)"]
  by (cases "cb_state cb")
     (auto simp: cb_defs cb_abs_def cb_inv_def Let_def word_le_nat_alt, auto simp: below_def word_less_nat_alt word_le_nat_alt)

lemma cb_failure_refines:
  "cb_inv cb \<Longrightarrow> cb_abs (circuit_breaker_on_failure now cb) = spec_failure (cb_config cb) now (cb_abs cb) \<and>
     cb_inv (circuit_breaker_on_failure now cb)"
  using below_Suc [of "consecutive_failures cb" "failure_threshold (cb_config cb)"]
  by (cases "cb_state cb")
     (auto simp: cb_defs cb_abs_def cb_inv_def Let_def word_le_nat_alt, auto simp: below_def word_less_nat_alt word_le_nat_alt)

lemma cb_run_refines:
  "cb_inv cb \<Longrightarrow>
     fst (cb_run ops cb) = fst (spec_run (cb_config cb) ops (cb_abs cb)) \<and>
     cb_abs (snd (cb_run ops cb)) = snd (spec_run (cb_config cb) ops (cb_abs cb)) \<and>
     cb_inv (snd (cb_run ops cb)) \<and> cb_config (snd (cb_run ops cb)) = cb_config cb"
proof (induction ops arbitrary: cb)
  case (Cons x ops)
  show ?case
  proof (cases x)
    case (Op_Allow t)
    then show ?thesis
      using Cons.IH [of "snd (circuit_breaker_allow_request t cb)"] cb_allow_refines [OF Cons.prems, of t]
      by (auto simp: spec_run_def case_prod_unfold Let_def)
  next
    case (Op_Success t)
    then show ?thesis
      using Cons.IH [of "circuit_breaker_on_success t cb"] cb_success_refines [OF Cons.prems, of t]
      by (auto simp: spec_run_def)
  next
    case (Op_Failure t)
    then show ?thesis
      using Cons.IH [of "circuit_breaker_on_failure t cb"] cb_failure_refines [OF Cons.prems, of t]
      by (auto simp: spec_run_def)
  qed
qed (simp add: spec_run_def)

interpretation cb: breaker circuit_breaker_allow_request circuit_breaker_on_success circuit_breaker_on_failure
  "\<lambda>s. cb_state s = CB_STATE_CLOSED" "\<lambda>s. cb_state s = CB_STATE_OPEN"
  "\<lambda>t s. ucast (timeout_ms (cb_config s)) \<le> t - state_changed_at_ms s"
proof (unfold_locales, goal_cases)
  case (6 s t)
  then show ?case by (cases "cb_state s") (simp_all add: cb_defs Let_def)
qed (auto simp: cb_defs Let_def)

text \<open>Calls to a breaker in the half-open state.\<close>

lemma cb_half_allow:
  assumes "cb_state cb = CB_STATE_HALF_OPEN" "half_open_calls cb \<le> half_open_max_calls (cb_config cb)"
  shows "fst (cb_run (map Op_Allow ts) cb) =
      map (\<lambda>i. unat (half_open_calls cb) + i < unat (half_open_max_calls (cb_config cb))) [0..<length ts]"
  using assms
proof (induction ts arbitrary: cb)
  case (Cons t ts)
  let ?c = "snd (circuit_breaker_allow_request t cb)"
  show ?case
  proof (cases "half_open_calls cb < half_open_max_calls (cb_config cb)")
    case True
    then have c: "cb_state ?c = CB_STATE_HALF_OPEN" "half_open_calls ?c \<le> half_open_max_calls (cb_config ?c)"
      "unat (half_open_calls ?c) = unat (half_open_calls cb) + 1" "fst (circuit_breaker_allow_request t cb)"
      using Cons.prems unat_Suc_less [OF True] by (auto simp: cb_defs word_le_nat_alt word_less_nat_alt)
    show ?thesis
      using Cons.IH [OF c(1,2)] c(3,4) True
      by (simp add: case_prod_unfold Let_def upt_conv_Cons word_less_nat_alt map_Suc_upt [symmetric] comp_def del: upt_Suc)
  next
    case False
    then have c: "?c = cb\<lparr>total_rejects := total_rejects cb + 1\<rparr>" "\<not> fst (circuit_breaker_allow_request t cb)"
      using Cons.prems by (auto simp: cb_defs)
    show ?thesis
      using Cons.IH [of ?c] Cons.prems c False
      by (simp add: case_prod_unfold Let_def upt_conv_Cons word_less_nat_alt map_Suc_upt [symmetric] comp_def del: upt_Suc)
  qed
qed simp

section \<open>Properties\<close>

text \<open>
  C13. The breaker with its 32-bit counters behaves, over every sequence of calls, successes and
  failures at arbitrary times, exactly like the abstract breaker with unbounded counters: the same
  calls are let through and the states correspond. No counter that decides anything wraps.
\<close>

theorem circuit_breaker_refinement:
  assumes "circuit_breaker_create True t0 (Some c) = Some cb"
  shows "fst (cb_run ops cb) = fst (spec_run c ops (S_Closed 0)) \<and>
    cb_abs (snd (cb_run ops cb)) = snd (spec_run c ops (S_Closed 0))"
proof -
  have "cb_inv cb" "cb_abs cb = S_Closed 0" "cb_config cb = c"
    using assms by (auto simp: circuit_breaker_create_def cb_inv_def below_def cb_abs_def)
  with cb_run_refines [of cb ops] show ?thesis by simp
qed

text \<open>
  C14. An open breaker refuses every call until its timeout has passed since it opened, whatever
  successes and failures are reported meanwhile, and lets the first call after that through.
\<close>

theorem circuit_breaker_fast_fail:
  assumes "cb_state cb = CB_STATE_OPEN"
    "\<forall>x\<in>set ops. unat (cb_op_time x - state_changed_at_ms cb) < unat (timeout_ms (cb_config cb))"
    "unat (timeout_ms (cb_config cb)) \<le> unat (now - state_changed_at_ms cb)"
  shows "True \<notin> set (fst (cb_run ops cb)) \<and> cb_state (snd (cb_run ops cb)) = CB_STATE_OPEN \<and>
    fst (circuit_breaker_allow_request now (snd (cb_run ops cb)))"
proof -
  have nc: "\<forall>x\<in>set ops. \<not> ucast (timeout_ms (cb_config cb)) \<le> cb_op_time x - state_changed_at_ms cb"
    using assms(2) by (auto simp: timeout_compare)
  show ?thesis
    using cb.open_stays [OF assms(1) nc] cb.recovers [OF assms(1) nc, of now] assms(3)
    by (simp add: timeout_compare)
qed

text \<open>
  After the timeout an open breaker lets one call more through than \<open>half_open_max_calls\<close>: the
  call that moves it to the half-open state is not counted. Of n calls made then, with no report
  in between, exactly the first \<open>half_open_max_calls + 1\<close> pass.
\<close>

theorem circuit_breaker_half_open_calls:
  assumes "cb_state cb = CB_STATE_OPEN" "unat (timeout_ms (cb_config cb)) \<le> unat (t - state_changed_at_ms cb)"
  shows "fst (cb_run (map Op_Allow (t # ts)) cb) =
    map (\<lambda>i. i \<le> unat (half_open_max_calls (cb_config cb))) [0..<Suc (length ts)]"
proof -
  let ?h = "transition_to_half_open t cb"
  have a: "circuit_breaker_allow_request t cb = (True, ?h)"
    using assms by (simp add: circuit_breaker_allow_request_def Let_def timeout_compare)
  have "fst (cb_run (map Op_Allow ts) ?h) = map (\<lambda>i. i < unat (half_open_max_calls (cb_config cb))) [0..<length ts]"
    by (subst cb_half_allow) (simp_all add: transition_to_half_open_def)
  with a show ?thesis
    by (simp add: case_prod_unfold Let_def upt_conv_Cons map_Suc_upt [symmetric] comp_def Suc_le_eq del: upt_Suc)
qed

text \<open>
  A half-open breaker that has let its quota of calls through without enough successes to
  close stays half open and refuses every further call, however much time passes: unlike the open
  state, the half-open state has no timeout.
\<close>

theorem circuit_breaker_half_open_stuck:
  assumes "cb_state cb = CB_STATE_HALF_OPEN" "half_open_calls cb = half_open_max_calls (cb_config cb)"
  shows "True \<notin> set (fst (cb_run (map Op_Allow ts) cb)) \<and>
    cb_state (snd (cb_run (map Op_Allow ts) cb)) = CB_STATE_HALF_OPEN"
proof -
  have "cb_state (snd (cb_run (map Op_Allow ts) b)) = CB_STATE_HALF_OPEN"
    if "cb_state b = CB_STATE_HALF_OPEN" for b
    using that
  proof (induction ts arbitrary: b)
    case (Cons t ts)
    then have "cb_state (snd (circuit_breaker_allow_request t b)) = CB_STATE_HALF_OPEN"
      by (simp add: cb_defs)
    with Cons.IH show ?case by (simp add: case_prod_unfold Let_def)
  qed simp
  with assms cb_half_allow [OF assms(1), of ts] show ?thesis by auto
qed

theorem circuit_breaker_refinement_witness:
  "\<exists>cb. circuit_breaker_create True 7 (Some \<lparr>failure_threshold = 2, success_threshold = 1, timeout_ms = 10, half_open_max_calls = 1\<rparr>) = Some cb \<and>
     cb_abs (snd (cb_run [Op_Failure 8, Op_Failure 9, Op_Allow 10] cb)) = S_Open 9"
  using circuit_breaker_refinement [of 7 "\<lparr>failure_threshold = 2, success_threshold = 1, timeout_ms = 10, half_open_max_calls = 1\<rparr>" _
      "[Op_Failure 8, Op_Failure 9, Op_Allow 10]"]
  by (simp add: circuit_breaker_create_def spec_run_def)

theorem circuit_breaker_fast_fail_witness:
  "True \<notin> set (fst (cb_run [Op_Allow 5001, Op_Success 5500, Op_Allow 5999] demo_breaker)) \<and>
   fst (circuit_breaker_allow_request 6000 (snd (cb_run [Op_Allow 5001, Op_Success 5500, Op_Allow 5999] demo_breaker)))"
  using circuit_breaker_fast_fail [of demo_breaker "[Op_Allow 5001, Op_Success 5500, Op_Allow 5999]" 6000]
  by (simp add: demo_breaker_def)

theorem circuit_breaker_half_open_calls_witness:
  "fst (cb_run (map Op_Allow [6000, 6001, 6002, 6003]) demo_breaker) = [True, True, False, False]"
  using circuit_breaker_half_open_calls [of demo_breaker 6000 "[6001, 6002, 6003]"]
  by (simp add: demo_breaker_def upt_rec)

theorem circuit_breaker_half_open_stuck_witness:
  "fst (cb_run (map Op_Allow [6000, 900000000]) (demo_breaker\<lparr>cb_state := CB_STATE_HALF_OPEN, half_open_calls := 1\<rparr>)) =
     [False, False]"
proof -
  let ?b = "demo_breaker\<lparr>cb_state := CB_STATE_HALF_OPEN, half_open_calls := 1\<rparr>"
  have "True \<notin> set (fst (cb_run (map Op_Allow [6000, 900000000]) ?b))"
    using circuit_breaker_half_open_stuck [of ?b "[6000, 900000000]"] by (simp add: demo_breaker_def)
  then show ?thesis by (simp add: case_prod_unfold Let_def)
qed

end
