(* ===== verification/Resource_Pools.thy ===== *)
theory Resource_Pools
  imports Gateway_Prelude
begin

text \<open>
  The two pools of the gateway: the buffer pool (\<open>src/src/buffer_pool.c\<close>), a linked free list
  threaded through an array of entries, and the NATS connection pool (\<open>src/src/nats_pool.c\<close>), an
  array that grows on demand. Every operation of the connection pool runs under its
  mutex, so it is one step; the buffer pool takes its mutex only when it is configured thread-safe,
  and without it the steps are those of one caller. A
  pointer to an entry is its index. The locale \<open>exclusive_pool\<close> is what the users of a pool
  rely on: what is handed out is not handed out again before it is given back.
\<close>

section \<open>Buffer pool\<close>

record pool_entry_t =
  buf_size :: size_t
  buf_capacity :: size_t
  entry_in_use :: bool
  next_free :: "nat option"

record buffer_pool_t =
  buffer_size :: size_t
  pool_size :: nat
  thread_safe :: bool
  entries :: "pool_entry_t list"
  free_list :: "nat option"
  acquisitions :: u64
  releases :: u64
  available :: nat

record buffer_pool_config_t =
  cfg_buffer_size :: size_t
  cfg_pool_size :: nat
  cfg_thread_safe :: bool

text \<open>
  The loop of \<open>buffer_pool_create\<close> over the entries from index \<open>i\<close>; \<open>alloc\<close> says which of the
  data allocations succeed. Each entry is put at the head of the free list.
\<close>

fun init_entries :: "(nat \<Rightarrow> bool) \<Rightarrow> size_t \<Rightarrow> nat list \<Rightarrow> pool_entry_t list \<Rightarrow> nat option \<Rightarrow>
    (pool_entry_t list \<times> nat option) option" where
  "init_entries alloc sz [] es fl = Some (es, fl)"
| "init_entries alloc sz (i # is) es fl =
     (if \<not> alloc i then None
      else init_entries alloc sz is
        (es[i := \<lparr>buf_size = 0, buf_capacity = sz, entry_in_use = False, next_free = fl\<rparr>]) (Some i))"

definition zero_entry :: pool_entry_t where
  "zero_entry = \<lparr>buf_size = 0, buf_capacity = 0, entry_in_use = False, next_free = None\<rparr>"

definition buffer_pool_create :: "bool \<Rightarrow> bool \<Rightarrow> (nat \<Rightarrow> bool) \<Rightarrow> buffer_pool_config_t option \<Rightarrow> buffer_pool_t option" where
  "buffer_pool_create alloc_pool alloc_entries alloc config =
     (case config of
        None \<Rightarrow> None
      | Some c \<Rightarrow>
          if cfg_buffer_size c = 0 \<or> cfg_pool_size c = 0 then None
          else if \<not> alloc_pool then None
          else if \<not> alloc_entries then None
          else (case init_entries alloc (cfg_buffer_size c) (slots (cfg_pool_size c))
                       (replicate (cfg_pool_size c) zero_entry) None of
                  None \<Rightarrow> None
                | Some (es, fl) \<Rightarrow>
                    Some \<lparr>buffer_size = cfg_buffer_size c, pool_size = cfg_pool_size c,
                          thread_safe = cfg_thread_safe c, entries = es, free_list = fl,
                          acquisitions = 0, releases = 0, available = cfg_pool_size c\<rparr>))"

text \<open>\<open>available\<close> is only decremented when the free list is not empty.\<close>

definition buffer_pool_acquire :: "buffer_pool_t \<Rightarrow> nat option \<times> buffer_pool_t" where
  "buffer_pool_acquire pool =
     (case free_list pool of
        Some i \<Rightarrow>
          (let e = entries pool ! i in
           (Some i, pool\<lparr>free_list := next_free e,
              entries := (entries pool)[i := e\<lparr>entry_in_use := True, buf_size := 0\<rparr>],
              available := available pool - 1, acquisitions := acquisitions pool + 1\<rparr>))
      | None \<Rightarrow> (None, pool))"

definition buffer_pool_release :: "nat \<Rightarrow> buffer_pool_t \<Rightarrow> buffer_pool_t" where
  "buffer_pool_release i pool =
     (let e = entries pool ! i in
      if entry_in_use e
      then pool\<lparr>entries := (entries pool)[i := e\<lparr>buf_size := 0, entry_in_use := False, next_free := free_list pool\<rparr>],
                free_list := Some i, available := available pool + 1, releases := releases pool + 1\<rparr>
      else pool)"

definition buffer_pool_stats :: "buffer_pool_t \<Rightarrow> nat \<times> nat \<times> u64 \<times> u64" where
  "buffer_pool_stats pool = (pool_size pool, available pool, acquisitions pool, releases pool)"

section \<open>NATS connection pool\<close>

record nats_connection_t =
  nats_handle :: "nat option"
  created_at :: int
  last_used :: int
  conn_in_use :: bool
  healthy :: bool
  conn_reconnects :: int

record nats_pool_config_t =
  min_connections :: nat
  cfg_max_connections :: nat
  connection_timeout_ms :: int
  idle_timeout_sec :: int
  max_reconnect_attempts :: int
  pool_url :: "string option"

record nats_pool_stats_t =
  active_connections :: size_t
  idle_connections :: size_t
  total_created :: size_t
  total_destroyed :: size_t
  total_acquired :: size_t
  total_released :: size_t
  acquire_timeouts :: size_t
  health_check_failures :: size_t

record nats_pool_t =
  pool_config :: nats_pool_config_t
  pool_conns :: "nats_connection_t list"
  num_connections :: nat
  max_connections :: nat
  pool_stats :: nats_pool_stats_t
  shutdown :: bool

definition zero_conn :: nats_connection_t where
  "zero_conn = \<lparr>nats_handle = None, created_at = 0, last_used = 0, conn_in_use = False, healthy = False, conn_reconnects = 0\<rparr>"

definition new_conn :: "nat \<Rightarrow> int \<Rightarrow> bool \<Rightarrow> nats_connection_t" where
  "new_conn h now used =
     \<lparr>nats_handle = Some h, created_at = now, last_used = now, conn_in_use = used, healthy = True, conn_reconnects = 0\<rparr>"

definition zero_stats :: nats_pool_stats_t where
  "zero_stats = \<lparr>active_connections = 0, idle_connections = 0, total_created = 0, total_destroyed = 0,
     total_acquired = 0, total_released = 0, acquire_timeouts = 0, health_check_failures = 0\<rparr>"

text \<open>
  \<open>create\<close> gives the handle of the i-th connection made at start, or nothing on failure. The array
  has the size the caller asked for, the loop the corrected minimum: a write past the array is
  \<^const>\<open>Undefined\<close>.
\<close>

fun init_conns :: "(nat \<Rightarrow> nat option) \<Rightarrow> int \<Rightarrow> nat list \<Rightarrow> nats_pool_t \<Rightarrow> nats_pool_t outcome" where
  "init_conns create now [] p = Finished p"
| "init_conns create now (i # is) p =
     (case create i of
        None \<Rightarrow> init_conns create now is p
      | Some h \<Rightarrow>
          if i \<ge> length (pool_conns p) then Undefined
          else init_conns create now is
            (p\<lparr>pool_conns := (pool_conns p)[i := new_conn h now False], num_connections := num_connections p + 1,
               pool_stats := (pool_stats p)\<lparr>total_created := total_created (pool_stats p) + 1,
                                           idle_connections := idle_connections (pool_stats p) + 1\<rparr>\<rparr>))"

definition validate_pool_config :: "nats_pool_config_t \<Rightarrow> nats_pool_config_t" where
  "validate_pool_config c0 =
     (let c1 = (if min_connections c0 < 1 then c0\<lparr>min_connections := 1\<rparr> else c0);
          c2 = (if cfg_max_connections c1 < min_connections c1
                then c1\<lparr>cfg_max_connections := min_connections c1\<rparr> else c1);
          c3 = (if connection_timeout_ms c2 \<le> 0 then c2\<lparr>connection_timeout_ms := 5000\<rparr> else c2) in
      if idle_timeout_sec c3 \<le> 0 then c3\<lparr>idle_timeout_sec := 60\<rparr> else c3)"

definition nats_pool_init :: "bool \<Rightarrow> (nat \<Rightarrow> nat option) \<Rightarrow> int \<Rightarrow> nats_pool_config_t option \<Rightarrow> nats_pool_t option outcome" where
  "nats_pool_init alloc create now config =
     (case config of
        None \<Rightarrow> Finished None
      | Some c0 \<Rightarrow>
          if pool_url c0 = None then Finished None
          else if \<not> alloc then Finished None
          else (let c4 = validate_pool_config c0;
                    p = \<lparr>pool_config = c4, pool_conns = replicate (cfg_max_connections c0) zero_conn,
                         num_connections = 0, max_connections = cfg_max_connections c0,
                         pool_stats = zero_stats, shutdown = False\<rparr> in
                case init_conns create now (slots (min_connections c4)) p of
                  Undefined \<Rightarrow> Undefined
                | Finished p' \<Rightarrow> Finished (Some p')))"

text \<open>One pass of the wait loop of \<open>nats_pool_acquire\<close>: take an idle connection or make a new one.\<close>

definition acquire_pass :: "nat option \<Rightarrow> int \<Rightarrow> nats_pool_t \<Rightarrow> (nat \<times> nats_pool_t) option" where
  "acquire_pass create now p =
     (case first_index (\<lambda>c. \<not> conn_in_use c \<and> healthy c) (take (num_connections p) (pool_conns p)) of
        Some i \<Rightarrow>
          Some (i, p\<lparr>pool_conns := (pool_conns p)[i := (pool_conns p ! i)\<lparr>conn_in_use := True, last_used := now\<rparr>],
                     pool_stats := (pool_stats p)\<lparr>active_connections := active_connections (pool_stats p) + 1,
                                                 idle_connections := idle_connections (pool_stats p) - 1\<rparr>\<rparr>)
      | None \<Rightarrow>
          if num_connections p < max_connections p then
            (case create of
               Some h \<Rightarrow>
                 Some (num_connections p,
                   p\<lparr>pool_conns := (pool_conns p)[num_connections p := new_conn h now True],
                     num_connections := num_connections p + 1,
                     pool_stats := (pool_stats p)\<lparr>total_created := total_created (pool_stats p) + 1,
                                                 active_connections := active_connections (pool_stats p) + 1\<rparr>\<rparr>)
             | None \<Rightarrow> None)
          else None)"

text \<open>
  The end of a wait on the condition variable: the pool as the other threads left it, with the
  connection a further pass could make, and whether the timed wait ran out. The wait loop with
  such a sequence of wake-ups; \<open>None\<close> when it is still waiting at the end of the sequence.
\<close>

datatype wake = Woken nats_pool_t "nat option" | Timed_Out nats_pool_t

definition note_timeout :: "nats_pool_t \<Rightarrow> nats_pool_t" where
  "note_timeout p = p\<lparr>pool_stats := (pool_stats p)\<lparr>acquire_timeouts := acquire_timeouts (pool_stats p) + 1\<rparr>\<rparr>"

text \<open>One turn of the loop; \<open>None\<close> when the thread has to wait.\<close>

definition acquire_turn :: "int \<Rightarrow> int \<Rightarrow> nat option \<Rightarrow> nats_pool_t \<Rightarrow> (nat option \<times> nats_pool_t) option" where
  "acquire_turn timeout now create p =
     (if shutdown p then Some (None, p)
      else case acquire_pass create now p of
          Some (i, p') \<Rightarrow> Some (Some i, p')
        | None \<Rightarrow> if timeout = 0 then Some (None, note_timeout p) else None)"

fun acquire_loop :: "int \<Rightarrow> int \<Rightarrow> nat option \<Rightarrow> wake list \<Rightarrow> nats_pool_t \<Rightarrow> (nat option \<times> nats_pool_t) option" where
  "acquire_loop timeout now create wakes p =
     (case acquire_turn timeout now create p of
        Some r \<Rightarrow> Some r
      | None \<Rightarrow>
          (case wakes of
             [] \<Rightarrow> None
           | Woken q create' # ws \<Rightarrow> acquire_loop timeout now create' ws q
           | Timed_Out q # ws \<Rightarrow>
               if timeout < 0 then acquire_loop timeout now None ws q else Some (None, note_timeout q)))"

definition note_acquire :: "nats_pool_t \<Rightarrow> nats_pool_t" where
  "note_acquire p = p\<lparr>pool_stats := (pool_stats p)\<lparr>total_acquired := total_acquired (pool_stats p) + 1\<rparr>\<rparr>"

definition nats_pool_acquire :: "int \<Rightarrow> int \<Rightarrow> nat option \<Rightarrow> wake list \<Rightarrow> nats_pool_t \<Rightarrow> (nat option \<times> nats_pool_t) option" where
  "nats_pool_acquire timeout now create wakes p = acquire_loop timeout now create wakes (note_acquire p)"

text \<open>
  The same loop with several threads. The mutex makes each turn one step; between its turns a thread
  waits, with its timeout and the time of its call. A thread calls \<open>nats_pool_acquire\<close>, is woken, or has
  its timed wait run out.
\<close>

datatype acquire_event = Call nat int int "nat option" | Wake nat "nat option" | Expire nat

type_synonym waiting = "nat \<rightharpoonup> int \<times> int"

definition after_turn ::
    "nat \<Rightarrow> int \<times> int \<Rightarrow> nat option \<Rightarrow> nats_pool_t \<times> waiting \<Rightarrow> nat option \<times> nats_pool_t \<times> waiting" where
  "after_turn t call create s =
     (case acquire_turn (fst call) (snd call) create (fst s) of
        Some (r, p) \<Rightarrow> (r, p, (snd s)(t := None))
      | None \<Rightarrow> (None, fst s, (snd s)(t \<mapsto> call)))"

fun nats_pool_thread :: "acquire_event \<Rightarrow> nats_pool_t \<times> waiting \<Rightarrow> nat option \<times> nats_pool_t \<times> waiting" where
  "nats_pool_thread (Call t timeout now create) (p, w) =
     (if w t = None then after_turn t (timeout, now) create (note_acquire p, w) else (None, p, w))"
| "nats_pool_thread (Wake t create) (p, w) =
     (case w t of Some call \<Rightarrow> after_turn t call create (p, w) | None \<Rightarrow> (None, p, w))"
| "nats_pool_thread (Expire t) (p, w) =
     (case w t of
        Some call \<Rightarrow> if fst call > 0 then (None, note_timeout p, w(t := None)) else (None, p, w)
      | None \<Rightarrow> (None, p, w))"

definition nats_pool_release :: "int \<Rightarrow> nat \<Rightarrow> nats_pool_t \<Rightarrow> nats_pool_t" where
  "nats_pool_release now i p =
     p\<lparr>pool_conns := (pool_conns p)[i := (pool_conns p ! i)\<lparr>conn_in_use := False, last_used := now\<rparr>],
       pool_stats := (pool_stats p)\<lparr>active_connections := active_connections (pool_stats p) - 1,
                                   idle_connections := idle_connections (pool_stats p) + 1,
                                   total_released := total_released (pool_stats p) + 1\<rparr>\<rparr>"

definition nats_pool_get_stats :: "nats_pool_t \<Rightarrow> nats_pool_stats_t" where
  "nats_pool_get_stats p = pool_stats p"

text \<open>\<open>probe\<close> is \<open>health_check_connection\<close> on a handle that is not null.\<close>

definition check_conn :: "(nat \<Rightarrow> bool) \<Rightarrow> int \<Rightarrow> int \<Rightarrow> nats_connection_t \<Rightarrow> nats_pool_stats_t \<Rightarrow>
    nats_connection_t \<times> nats_pool_stats_t \<times> bool" where
  "check_conn probe now idle_timeout c st =
     (if conn_in_use c then (c, st, False)
      else if now - last_used c > idle_timeout then
        (c\<lparr>nats_handle := None, healthy := False\<rparr>,
         st\<lparr>idle_connections := idle_connections st - 1, total_destroyed := total_destroyed st + 1\<rparr>, True)
      else (case nats_handle c of
              Some h \<Rightarrow>
                if \<not> probe h then
                  (c\<lparr>nats_handle := None, healthy := False\<rparr>,
                   st\<lparr>health_check_failures := health_check_failures st + 1,
                      idle_connections := idle_connections st - 1, total_destroyed := total_destroyed st + 1\<rparr>, True)
                else (c, st, False)
            | None \<Rightarrow> (c, st, False)))"

fun check_conns :: "(nat \<Rightarrow> bool) \<Rightarrow> int \<Rightarrow> int \<Rightarrow> nats_connection_t list \<Rightarrow> nats_pool_stats_t \<Rightarrow>
    nats_connection_t list \<times> nats_pool_stats_t \<times> nat" where
  "check_conns probe now idle [] st = ([], st, 0)"
| "check_conns probe now idle (c # cs) st =
     (let (c', st1, r) = check_conn probe now idle c st;
          (cs', st2, n) = check_conns probe now idle cs st1 in
      (c' # cs', st2, (if r then 1 else 0) + n))"

text \<open>
  Compaction moves the live connections to the front of the array; the slots behind them keep
  what they held.
\<close>

definition compact :: "nats_connection_t list \<Rightarrow> nats_connection_t list" where
  "compact cs = (let live = filter (\<lambda>c. nats_handle c \<noteq> None) cs in live @ drop (length live) cs)"

definition nats_pool_health_check :: "(nat \<Rightarrow> bool) \<Rightarrow> int \<Rightarrow> nats_pool_t \<Rightarrow> nat \<times> nats_pool_t" where
  "nats_pool_health_check probe now p =
     (let cs = take (num_connections p) (pool_conns p);
          (cs', st, removed) = check_conns probe now (idle_timeout_sec (pool_config p)) cs (pool_stats p);
          rest = drop (num_connections p) (pool_conns p) in
      if removed > 0
      then (removed, p\<lparr>pool_conns := compact cs' @ rest, pool_stats := st,
                       num_connections := length (filter (\<lambda>c. nats_handle c \<noteq> None) cs')\<rparr>)
      else (removed, p\<lparr>pool_conns := cs' @ rest, pool_stats := st\<rparr>))"

section \<open>Specification\<close>

text \<open>The indices met when following the free list of an array of entries.\<close>

fun chain :: "pool_entry_t list \<Rightarrow> nat option \<Rightarrow> nat list \<Rightarrow> bool" where
  "chain es p [] = (p = None)"
| "chain es p (i # is) = (p = Some i \<and> i < length es \<and> chain es (next_free (es ! i)) is)"

definition buffer_held :: "buffer_pool_t \<Rightarrow> nat set" where
  "buffer_held pool = {i. i < length (entries pool) \<and> entry_in_use (entries pool ! i)}"

text \<open>
  The free list is finite and without repetition, runs through exactly the entries not in use,
  and \<open>available\<close> is its length.
\<close>

definition buffer_pool_inv :: "buffer_pool_t \<Rightarrow> bool" where
  "buffer_pool_inv pool =
     (length (entries pool) = pool_size pool \<and>
      (\<exists>fl. chain (entries pool) (free_list pool) fl \<and> distinct fl \<and> available pool = length fl \<and>
            set fl = {i. i < length (entries pool) \<and> \<not> entry_in_use (entries pool ! i)}))"

definition nats_held :: "nats_pool_t \<Rightarrow> nat set" where
  "nats_held p = {i. i < num_connections p \<and> conn_in_use (pool_conns p ! i)}"

definition nats_pool_inv :: "nats_pool_t \<Rightarrow> bool" where
  "nats_pool_inv p = (num_connections p \<le> max_connections p \<and> length (pool_conns p) = max_connections p)"

text \<open>
  Users of a pool: what is acquired is outstanding until it is released, and only outstanding
  resources are released.
\<close>

datatype ('a, 'b, 'r) pool_op = Acquire 'a | Release 'b 'r

fun use_pool :: "('a \<Rightarrow> 's \<Rightarrow> 'r option \<times> 's) \<Rightarrow> ('b \<Rightarrow> 'r \<Rightarrow> 's \<Rightarrow> 's) \<Rightarrow> ('a, 'b, 'r) pool_op list \<Rightarrow>
    'r list \<Rightarrow> 's \<Rightarrow> 'r list \<times> 's" where
  "use_pool acq rel [] out s = (out, s)"
| "use_pool acq rel (Acquire a # ops) out s =
     (case acq a s of
        (Some r, s') \<Rightarrow> use_pool acq rel ops (r # out) s'
      | (None, s') \<Rightarrow> use_pool acq rel ops out s')"
| "use_pool acq rel (Release b r # ops) out s =
     (if r \<in> set out then use_pool acq rel ops (remove1 r out) (rel b r s) else use_pool acq rel ops out s)"

text \<open>Three connections, the first idle for long, the others in use under the handles 11 and 12.\<close>

definition demo_pool :: nats_pool_t where
  "demo_pool =
     \<lparr>pool_config = \<lparr>min_connections = 1, cfg_max_connections = 3, connection_timeout_ms = 5000,
        idle_timeout_sec = 60, max_reconnect_attempts = 3, pool_url = Some ''nats://localhost''\<rparr>,
      pool_conns = [(new_conn 10 0 False), (new_conn 11 0 True), (new_conn 12 0 True)],
      num_connections = 3, max_connections = 3, pool_stats = zero_stats, shutdown = False\<rparr>"

section \<open>The pool contract\<close>

locale exclusive_pool =
  fixes acquire :: "'a \<Rightarrow> 's \<Rightarrow> 'r option \<times> 's"
    and release :: "'b \<Rightarrow> 'r \<Rightarrow> 's \<Rightarrow> 's"
    and held :: "'s \<Rightarrow> 'r set"
    and invar :: "'s \<Rightarrow> bool"
  assumes acquire_Some: "invar s \<Longrightarrow> acquire a s = (Some r, s') \<Longrightarrow> r \<notin> held s \<and> held s' = insert r (held s) \<and> invar s'"
    and acquire_None: "invar s \<Longrightarrow> acquire a s = (None, s') \<Longrightarrow> held s' = held s \<and> invar s'"
    and release_held: "invar s \<Longrightarrow> r \<in> held s \<Longrightarrow> held (release b r s) = held s - {r} \<and> invar (release b r s)"
begin

text \<open>No resource is ever outstanding twice, and the pool's idea of what is in use is exact.\<close>

lemma outstanding_exact:
  "invar s \<Longrightarrow> distinct out \<Longrightarrow> set out = held s \<Longrightarrow> use_pool acquire release ops out s = (out', s') \<Longrightarrow>
     distinct out' \<and> set out' = held s' \<and> invar s'"
proof (induction ops arbitrary: out s)
  case (Cons x ops)
  show ?case
  proof (cases x)
    case (Acquire a)
    obtain r s1 where a: "acquire a s = (r, s1)" by fastforce
    show ?thesis
    proof (cases r)
      case None
      with Acquire a Cons show ?thesis using acquire_None [of s a s1] by auto
    next
      case (Some y)
      with a acquire_Some [OF Cons.prems(1)] have "y \<notin> held s" "held s1 = insert y (held s)" "invar s1" by auto
      with Acquire a Some Cons.prems show ?thesis using Cons.IH [of s1 "y # out"] by auto
    qed
  next
    case (Release b r)
    show ?thesis
    proof (cases "r \<in> set out")
      case True
      with release_held [OF Cons.prems(1), of r b] Cons.prems Release show ?thesis
        using Cons.IH [of "release b r s" "remove1 r out"] by (auto simp: set_remove1_eq)
    qed (use Release Cons in auto)
  qed
qed simp

end

section \<open>Lemmas on the buffer pool\<close>

lemma chain_update: "chain es p js \<Longrightarrow> i \<notin> set js \<Longrightarrow> chain (es[i := e]) p js"
  by (induction js arbitrary: p) auto

lemma chain_in_use: "chain es p js \<Longrightarrow> chain (es[i := (es ! i)\<lparr>entry_in_use := b, buf_size := z\<rparr>]) p js"
proof (induction js arbitrary: p)
  case (Cons a js)
  have "next_free (es[i := (es ! i)\<lparr>entry_in_use := b, buf_size := z\<rparr>] ! a) = next_free (es ! a)"
    by (cases "i < length es"; cases "a = i") (simp_all add: list_update_beyond)
  with Cons show ?case by simp
qed simp

lemma buffer_acquire_Some:
  assumes "buffer_pool_inv pool" "buffer_pool_acquire pool = (Some i, pool')"
  shows "i \<notin> buffer_held pool" "buffer_held pool' = insert i (buffer_held pool)" "buffer_pool_inv pool'"
    "Suc (available pool') = available pool" "pool_size pool' = pool_size pool"
proof -
  from assms(1) obtain fl where fl: "chain (entries pool) (free_list pool) fl" "distinct fl" "available pool = length fl"
      "set fl = {i. i < length (entries pool) \<and> \<not> entry_in_use (entries pool ! i)}" "length (entries pool) = pool_size pool"
    by (auto simp: buffer_pool_inv_def)
  from assms(2) have fi: "free_list pool = Some i"
    by (auto simp: buffer_pool_acquire_def Let_def split: option.splits)
  with fl(1) obtain ks where js: "fl = i # ks" "i < length (entries pool)" "chain (entries pool) (next_free (entries pool ! i)) ks"
    by (cases fl) auto
  let ?es = "(entries pool)[i := (entries pool ! i)\<lparr>entry_in_use := True, buf_size := 0\<rparr>]"
  from assms(2) fi have p: "pool' = pool\<lparr>free_list := next_free (entries pool ! i), entries := ?es,
      available := available pool - 1, acquisitions := acquisitions pool + 1\<rparr>"
    by (simp add: buffer_pool_acquire_def Let_def)
  show "i \<notin> buffer_held pool" using fl(4) js by (auto simp: buffer_held_def)
  show "buffer_held pool' = insert i (buffer_held pool)"
    using p js(2) by (auto simp: buffer_held_def nth_list_update split: if_splits)
  show "Suc (available pool') = available pool" "pool_size pool' = pool_size pool" using p fl(3) js by simp_all
  have "set ks = {j. j < length ?es \<and> \<not> entry_in_use (?es ! j)}"
  proof -
    have "set ks = set fl - {i}" using fl(2) js(1) by simp
    also have "\<dots> = {j. j < length ?es \<and> \<not> entry_in_use (?es ! j)}"
      unfolding fl(4) using js(2) by (auto simp: nth_list_update)
    finally show ?thesis .
  qed
  moreover have "chain ?es (next_free (entries pool ! i)) ks" "distinct ks" "available pool - 1 = length ks"
    using chain_in_use [OF js(3), of i 0 True] fl(2,3) js(1) by simp_all
  ultimately show "buffer_pool_inv pool'"
    unfolding buffer_pool_inv_def p using fl(5) by (intro conjI exI [of _ ks]) simp_all
qed

lemma buffer_acquire_None:
  assumes "buffer_pool_inv pool" "buffer_pool_acquire pool = (None, pool')"
  shows "pool' = pool" "buffer_held pool = {..<pool_size pool}" "available pool = 0"
proof -
  have p: "pool' = pool" "free_list pool = None"
    using assms(2) by (auto simp: buffer_pool_acquire_def Let_def split: option.splits)
  then show "pool' = pool" by simp
  from assms(1) obtain fl where fl: "chain (entries pool) (free_list pool) fl" "available pool = length fl"
      "set fl = {i. i < length (entries pool) \<and> \<not> entry_in_use (entries pool ! i)}" "length (entries pool) = pool_size pool"
    by (auto simp: buffer_pool_inv_def)
  then have "fl = []" using p(2) by (cases fl) auto
  with fl show "buffer_held pool = {..<pool_size pool}" "available pool = 0" by (auto simp: buffer_held_def)
qed

lemma buffer_release_held:
  assumes "buffer_pool_inv pool" "i \<in> buffer_held pool"
  shows "buffer_held (buffer_pool_release i pool) = buffer_held pool - {i}" "buffer_pool_inv (buffer_pool_release i pool)"
    "available (buffer_pool_release i pool) = Suc (available pool)" "pool_size (buffer_pool_release i pool) = pool_size pool"
proof -
  from assms(1) obtain fl where fl: "chain (entries pool) (free_list pool) fl" "distinct fl" "available pool = length fl"
      "set fl = {i. i < length (entries pool) \<and> \<not> entry_in_use (entries pool ! i)}" "length (entries pool) = pool_size pool"
    by (auto simp: buffer_pool_inv_def)
  from assms(2) have i: "i < length (entries pool)" "entry_in_use (entries pool ! i)" "i \<notin> set fl"
    using fl(4) by (auto simp: buffer_held_def)
  let ?e = "(entries pool ! i)\<lparr>buf_size := 0, entry_in_use := False, next_free := free_list pool\<rparr>"
  have p: "buffer_pool_release i pool = pool\<lparr>entries := (entries pool)[i := ?e], free_list := Some i,
      available := available pool + 1, releases := releases pool + 1\<rparr>"
    using i(2) by (simp add: buffer_pool_release_def Let_def)
  show "buffer_held (buffer_pool_release i pool) = buffer_held pool - {i}"
    using p i(1) by (auto simp: buffer_held_def nth_list_update split: if_splits)
  show "available (buffer_pool_release i pool) = Suc (available pool)"
    "pool_size (buffer_pool_release i pool) = pool_size pool" using p by simp_all
  have "chain ((entries pool)[i := ?e]) (Some i) (i # fl)" "distinct (i # fl)"
    using chain_update [OF fl(1) i(3), of ?e] i fl(2) by simp_all
  moreover have "set (i # fl) = {j. j < length ((entries pool)[i := ?e]) \<and> \<not> entry_in_use ((entries pool)[i := ?e] ! j)}"
    using i fl(4) by (auto simp: nth_list_update)
  ultimately show "buffer_pool_inv (buffer_pool_release i pool)"
    unfolding buffer_pool_inv_def p using fl(3,5) i(1) chain_update [OF fl(1) i(3), of ?e]
    by (intro conjI exI [of _ "i # fl"]) simp_all
qed

interpretation buffers: exclusive_pool "\<lambda>_ :: unit. buffer_pool_acquire" "\<lambda>_ :: unit. buffer_pool_release" buffer_held
  "\<lambda>p. buffer_pool_inv p \<and> pool_size p = n" for n
  by unfold_locales (auto dest: buffer_acquire_Some buffer_acquire_None buffer_release_held)

text \<open>A fresh pool: the entries are chained in the reverse of the order they were made.\<close>

lemma init_entries_chain:
  "init_entries alloc sz [k..<n] es fl = Some (es', fl') \<Longrightarrow> k \<le> n \<Longrightarrow> length es = n \<Longrightarrow>
     chain es fl (rev [0..<k]) \<Longrightarrow> (\<forall>i<n. \<not> entry_in_use (es ! i)) \<Longrightarrow>
     length es' = n \<and> chain es' fl' (rev [0..<n]) \<and> (\<forall>i<n. \<not> entry_in_use (es' ! i))"
proof (induction "n - k" arbitrary: k es fl)
  case (Suc d)
  let ?e = "\<lparr>buf_size = 0, buf_capacity = sz, entry_in_use = False, next_free = fl\<rparr>"
  from Suc.hyps(2) have kn: "k < n" by simp
  then have "init_entries alloc sz [Suc k..<n] (es[k := ?e]) (Some k) = Some (es', fl')"
    using Suc.prems(1) by (simp add: upt_conv_Cons split: if_splits)
  moreover have "chain (es[k := ?e]) (Some k) (rev [0..<Suc k])"
    using chain_update [OF Suc.prems(4), of k ?e] Suc.prems(3) kn by simp
  moreover have "\<forall>i<n. \<not> entry_in_use (es[k := ?e] ! i)"
    using Suc.prems(3,5) kn by (auto simp: nth_list_update)
  ultimately show ?case
    using Suc.hyps(1) [of "Suc k" "es[k := ?e]" "Some k"] Suc.hyps(2) Suc.prems(3) kn by simp
qed simp

lemma buffer_pool_create_inv:
  assumes "buffer_pool_create a b alloc (Some c) = Some pool"
  shows "buffer_pool_inv pool" "buffer_held pool = {}" "available pool = pool_size pool" "pool_size pool = cfg_pool_size c"
proof -
  let ?n = "cfg_pool_size c"
  from assms obtain es fl where ini: "init_entries alloc (cfg_buffer_size c) [0..<?n] (replicate ?n zero_entry) None = Some (es, fl)"
    and pool: "entries pool = es" "free_list pool = fl" "pool_size pool = ?n" "available pool = ?n"
    by (auto simp: buffer_pool_create_def slots_def split: if_splits option.splits)
  have r: "length es = ?n" "chain es fl (rev [0..<?n])" "\<forall>i<?n. \<not> entry_in_use (es ! i)"
    using init_entries_chain [OF ini] by (simp_all add: zero_entry_def)
  then show "buffer_held pool = {}" "available pool = pool_size pool" "pool_size pool = cfg_pool_size c"
    using pool by (auto simp: buffer_held_def)
  show "buffer_pool_inv pool"
    unfolding buffer_pool_inv_def using r pool by (intro conjI exI [of _ "rev [0..<?n]"]) auto
qed

text \<open>Free and held entries together are the whole pool.\<close>

lemma buffer_available: "buffer_pool_inv pool \<Longrightarrow> available pool + card (buffer_held pool) = pool_size pool"
proof -
  assume "buffer_pool_inv pool"
  then obtain fl where fl: "distinct fl" "available pool = length fl"
      "set fl = {i. i < length (entries pool) \<and> \<not> entry_in_use (entries pool ! i)}" "length (entries pool) = pool_size pool"
    by (auto simp: buffer_pool_inv_def)
  have "set fl \<union> buffer_held pool = {..<pool_size pool}" "set fl \<inter> buffer_held pool = {}"
    unfolding fl(3) buffer_held_def using fl(4) by auto
  moreover from this have "finite (buffer_held pool)" by (metis finite_Un finite_lessThan)
  ultimately have "card (set fl) + card (buffer_held pool) = pool_size pool"
    by (metis card_Un_disjoint card_lessThan finite_set)
  then show ?thesis using fl(1,2) by (simp add: distinct_card)
qed

section \<open>Lemmas on the connection pool\<close>

lemma acquire_pass_Some:
  assumes "nats_pool_inv p" "acquire_pass create now p = Some (i, p')"
  shows "i \<notin> nats_held p" "nats_held p' = insert i (nats_held p)" "nats_pool_inv p'"
proof -
  let ?cs = "take (num_connections p) (pool_conns p)"
  consider (idle) "first_index (\<lambda>c. \<not> conn_in_use c \<and> healthy c) ?cs = Some i"
      "pool_conns p' = (pool_conns p)[i := (pool_conns p ! i)\<lparr>conn_in_use := True, last_used := now\<rparr>]"
      "num_connections p' = num_connections p" "max_connections p' = max_connections p"
    | (new) h where "i = num_connections p" "num_connections p < max_connections p"
      "pool_conns p' = (pool_conns p)[i := new_conn h now True]" "num_connections p' = Suc i" "max_connections p' = max_connections p"
    using assms(2) by (auto simp: acquire_pass_def split: option.splits if_splits)
  then have "i \<notin> nats_held p \<and> nats_held p' = insert i (nats_held p) \<and> nats_pool_inv p'"
  proof cases
    case idle
    have "i < num_connections p" "\<not> conn_in_use (pool_conns p ! i)" "num_connections p \<le> length (pool_conns p)"
      using first_index_Some [OF idle(1)] assms(1) by (auto simp: nats_pool_inv_def)
    with idle assms(1) show ?thesis
      by (auto simp: nats_held_def nats_pool_inv_def nth_list_update)
  next
    case new
    with assms(1) show ?thesis
      by (auto simp: nats_held_def nats_pool_inv_def nth_list_update new_conn_def less_Suc_eq)
  qed
  then show "i \<notin> nats_held p" "nats_held p' = insert i (nats_held p)" "nats_pool_inv p'" by auto
qed

lemma nats_stats_inv [simp]:
  "nats_pool_inv (p\<lparr>pool_stats := s\<rparr>) = nats_pool_inv p" "nats_held (p\<lparr>pool_stats := s\<rparr>) = nats_held p"
  by (simp_all add: nats_pool_inv_def nats_held_def)

lemma nats_notes [simp]:
  "nats_pool_inv (note_acquire p) = nats_pool_inv p" "nats_held (note_acquire p) = nats_held p"
  "nats_pool_inv (note_timeout p) = nats_pool_inv p" "nats_held (note_timeout p) = nats_held p"
  "max_connections (note_acquire p) = max_connections p" "max_connections (note_timeout p) = max_connections p"
  by (simp_all add: note_acquire_def note_timeout_def)

text \<open>What a step of a thread does: it takes a connection that nobody holds, or leaves the held ones alone.\<close>

definition taken :: "nats_pool_t \<Rightarrow> nat option \<Rightarrow> nats_pool_t \<Rightarrow> bool" where
  "taken p r p' \<longleftrightarrow> nats_pool_inv p' \<and> max_connections p' = max_connections p \<and> nats_held p' = nats_held p \<union> set_option r \<and>
     nats_held p \<inter> set_option r = {}"

lemma taken_simps [simp]: "nats_pool_inv p \<Longrightarrow> taken p None p" "nats_pool_inv p \<Longrightarrow> taken p None (note_timeout p)"
  "taken (note_acquire p) r p' = taken p r p'"
  by (simp_all add: taken_def)

lemma acquire_pass_max: "acquire_pass create now p = Some (i, p') \<Longrightarrow> max_connections p' = max_connections p"
  by (auto simp: acquire_pass_def split: option.splits if_splits)

lemma acquire_turn_taken:
  assumes "nats_pool_inv p" "acquire_turn timeout now create p = Some (r, p')"
  shows "taken p r p'"
proof (cases "acquire_pass create now p")
  case None
  then show ?thesis using assms by (auto simp: acquire_turn_def split: if_splits)
next
  case (Some x)
  then obtain i q where x: "acquire_pass create now p = Some (i, q)" by (cases x) simp
  have "taken p (Some i) q" using acquire_pass_Some [OF assms(1) x] acquire_pass_max [OF x] by (simp add: taken_def)
  then show ?thesis using assms x by (auto simp: acquire_turn_def split: if_splits)
qed

lemma after_turn_taken:
  assumes "nats_pool_inv (fst s)" "after_turn t call create s = (r, s')"
  shows "taken (fst s) r (fst s')"
proof (cases "acquire_turn (fst call) (snd call) create (fst s)")
  case (Some x)
  then show ?thesis using assms acquire_turn_taken [OF assms(1), of "fst call" "snd call" create "fst x" "snd x"]
    by (cases x) (auto simp: after_turn_def)
qed (use assms in \<open>auto simp: after_turn_def\<close>)

lemma thread_taken:
  assumes "nats_pool_inv (fst s)" "nats_pool_thread e s = (r, s')"
  shows "taken (fst s) r (fst s')"
proof (cases s)
  case (Pair p w)
  show ?thesis
  proof (cases e)
    case (Call t timeout now create)
    then show ?thesis using assms Pair after_turn_taken [of "(note_acquire p, w)" t "(timeout, now)" create r s']
      by (auto split: if_splits)
  next
    case (Wake t create)
    then show ?thesis using assms Pair after_turn_taken [of "(p, w)" t _ create r s'] by (auto split: option.splits)
  qed (use assms Pair in \<open>auto split: if_splits option.splits\<close>)
qed

lemma nats_release_held:
  assumes "nats_pool_inv p" "i \<in> nats_held p"
  shows "nats_held (nats_pool_release now i p) = nats_held p - {i}" "nats_pool_inv (nats_pool_release now i p)"
  using assms by (auto simp: nats_held_def nats_pool_inv_def nats_pool_release_def nth_list_update split: if_splits)

interpretation nats_conns: exclusive_pool nats_pool_thread "\<lambda>now i s. (nats_pool_release now i (fst s), snd s)"
  "\<lambda>s. nats_held (fst s)" "\<lambda>s. nats_pool_inv (fst s) \<and> max_connections (fst s) = m"
proof (unfold_locales, goal_cases)
  case (1 s a r s')
  then show ?case using thread_taken [of s a "Some r" s'] by (simp add: taken_def)
next
  case (2 s a s')
  then show ?case using thread_taken [of s a None s'] by (simp add: taken_def)
next
  case (3 s r b)
  then show ?case using nats_release_held [of "fst s" r b] by (simp add: nats_pool_release_def)
qed

lemma init_conns_inv:
  "init_conns create now [k..<n] p = Finished p' \<Longrightarrow> num_connections p \<le> k \<Longrightarrow> num_connections p \<le> length (pool_conns p) \<Longrightarrow>
     \<forall>c\<in>set (pool_conns p). \<not> conn_in_use c \<Longrightarrow>
     num_connections p' \<le> length (pool_conns p') \<and> length (pool_conns p') = length (pool_conns p) \<and>
     max_connections p' = max_connections p \<and> (\<forall>c\<in>set (pool_conns p'). \<not> conn_in_use c)"
proof (induction "n - k" arbitrary: k p)
  case (Suc d)
  then have k: "[k..<n] = k # [Suc k..<n]" by (simp add: upt_conv_Cons)
  show ?case
  proof (cases "create k")
    case None
    then have "init_conns create now [Suc k..<n] p = Finished p'" using Suc.prems(1) k by simp
    moreover have "d = n - Suc k" using Suc.hyps(2) by arith
    ultimately show ?thesis using Suc.hyps(1) [of "Suc k" p] Suc.prems(2-4) by simp
  next
    case (Some h)
    let ?q = "p\<lparr>pool_conns := (pool_conns p)[k := new_conn h now False], num_connections := num_connections p + 1,
       pool_stats := (pool_stats p)\<lparr>total_created := total_created (pool_stats p) + 1,
                                   idle_connections := idle_connections (pool_stats p) + 1\<rparr>\<rparr>"
    have "k < length (pool_conns p)" "init_conns create now [Suc k..<n] ?q = Finished p'"
      using Suc.prems(1) k Some by (auto split: if_splits)
    moreover have "\<forall>c\<in>set (pool_conns ?q). \<not> conn_in_use c"
      using Suc.prems(4) set_update_subset_insert [of "pool_conns p" k "new_conn h now False"] by (auto simp: new_conn_def)
    moreover have "d = n - Suc k" using Suc.hyps(2) by arith
    ultimately show ?thesis using Suc.hyps(1) [of "Suc k" ?q] Suc.prems(2) by simp
  qed
qed simp

lemma nats_pool_init_inv:
  assumes "nats_pool_init alloc create now (Some c) = Finished (Some p)"
  shows "nats_pool_inv p" "nats_held p = {}" "max_connections p = cfg_max_connections c"
proof -
  let ?c = "validate_pool_config c"
  let ?p = "\<lparr>pool_config = ?c, pool_conns = replicate (cfg_max_connections c) zero_conn, num_connections = 0,
      max_connections = cfg_max_connections c, pool_stats = zero_stats, shutdown = False\<rparr>"
  have "init_conns create now [0..<min_connections ?c] ?p = Finished p"
    using assms by (auto simp: nats_pool_init_def slots_def Let_def split: if_splits outcome.splits)
  from init_conns_inv [OF this] have p: "num_connections p \<le> length (pool_conns p)" "length (pool_conns p) = cfg_max_connections c"
      "max_connections p = cfg_max_connections c" "\<forall>c\<in>set (pool_conns p). \<not> conn_in_use c"
    by (auto simp: zero_conn_def)
  then show "nats_pool_inv p" "nats_held p = {}" "max_connections p = cfg_max_connections c"
    by (auto simp: nats_pool_inv_def nats_held_def)
qed

lemma init_conns_overflow:
  "m < n \<Longrightarrow> k \<le> m \<Longrightarrow> length (pool_conns p) = m \<Longrightarrow> \<forall>i. create i \<noteq> None \<Longrightarrow>
     init_conns create now [k..<n] p = Undefined"
proof (induction "m - k" arbitrary: k p)
  case 0
  then obtain h where "create k = Some h" by auto
  with 0 show ?case by (simp add: upt_conv_Cons)
next
  case (Suc d)
  from Suc.prems(4) obtain h where h: "create k = Some h" by fastforce
  let ?q = "p\<lparr>pool_conns := (pool_conns p)[k := new_conn h now False], num_connections := num_connections p + 1,
       pool_stats := (pool_stats p)\<lparr>total_created := total_created (pool_stats p) + 1,
                                   idle_connections := idle_connections (pool_stats p) + 1\<rparr>\<rparr>"
  have "init_conns create now [Suc k..<n] ?q = Undefined"
    using Suc.hyps(1) [of "Suc k" ?q] Suc.hyps(2) Suc.prems by simp
  with h Suc.hyps(2) Suc.prems show ?case by (simp add: upt_conv_Cons)
qed

section \<open>Properties\<close>

text \<open>
  C15. Users of a fresh buffer pool, in any interleaving of acquire and release, never hold the
  same buffer twice; the buffers marked in use are exactly the ones held, the available count is
  exact, and an acquire fails only when every buffer is held.
\<close>

theorem buffer_pool_exclusive:
  assumes "buffer_pool_create True True alloc (Some c) = Some pool"
    "use_pool (\<lambda>_ :: unit. buffer_pool_acquire) (\<lambda>_ :: unit. buffer_pool_release) ops [] pool = (out, pool')"
  shows "distinct out \<and> set out = buffer_held pool' \<and> available pool' + length out = cfg_pool_size c \<and>
    (fst (buffer_pool_acquire pool') = None \<longleftrightarrow> length out = cfg_pool_size c)"
proof -
  note c = buffer_pool_create_inv [OF assms(1)]
  have out: "distinct out" "set out = buffer_held pool'" "buffer_pool_inv pool'" "pool_size pool' = cfg_pool_size c"
    using buffers.outstanding_exact [of pool "cfg_pool_size c" "[]" ops out pool'] assms(2) c by auto
  have av: "available pool' + length out = cfg_pool_size c"
    using buffer_available [OF out(3)] out(1,2,4) distinct_card by metis
  moreover have "fst (buffer_pool_acquire pool') = None \<longleftrightarrow> available pool' = 0"
    using buffer_acquire_None(3) [OF out(3)] buffer_acquire_Some(4) [OF out(3)]
    by (cases "buffer_pool_acquire pool'"; cases "fst (buffer_pool_acquire pool')") auto
  moreover have "available pool' = 0 \<longleftrightarrow> length out = cfg_pool_size c" using av by presburger
  ultimately show ?thesis using out(1,2) by simp
qed

text \<open>
  C16. As long as no health check runs and the pool is not destroyed, the connection pool never hands a
  connection to two users: from \<open>nats_pool_init\<close> on, over any interleaving of calls of \<open>nats_pool_acquire\<close>
  with any timeouts, of wake-ups and expiries of the waiting threads, and of releases, the connections
  held are distinct, are exactly the ones marked in use, and their number stays within the configured
  maximum.
\<close>

theorem nats_pool_exclusive:
  assumes "nats_pool_init alloc create now (Some c) = Finished (Some p)"
    "use_pool nats_pool_thread (\<lambda>now i s. (nats_pool_release now i (fst s), snd s)) ops [] (p, Map.empty) = (out, p', w')"
  shows "distinct out \<and> set out = nats_held p' \<and> length out \<le> cfg_max_connections c"
proof -
  note c = nats_pool_init_inv [OF assms(1)]
  have out: "distinct out" "set out = nats_held p'" "nats_pool_inv p'" "max_connections p' = cfg_max_connections c"
    using nats_conns.outstanding_exact [of "(p, Map.empty)" "cfg_max_connections c" "[]" ops out "(p', w')"] c assms(2) by auto
  have "nats_held p' \<subseteq> {..<max_connections p'}" using out(3) by (auto simp: nats_held_def nats_pool_inv_def)
  then have "card (set out) \<le> max_connections p'"
    using out(2) card_mono [of "{..<max_connections p'}"] by simp
  with out show ?thesis by (metis distinct_card)
qed

text \<open>
  A health check that removes an idle connection moves the connections in use to other slots,
  while their users keep the old pointers: releasing one then frees the connection of another
  user, and the next acquire hands that connection out a second time.
\<close>

theorem nats_pool_health_check_breaks_exclusivity:
  "nats_held demo_pool = {1, 2} \<and> nats_handle (pool_conns demo_pool ! 2) = Some 12 \<and>
   (\<exists>p1 p2 p3. nats_pool_health_check (\<lambda>_. True) 1000 demo_pool = (1, p1) \<and>
      p2 = nats_pool_release 1001 1 p1 \<and> nats_pool_acquire 0 1002 None [] p2 = Some (Some 1, p3) \<and>
      nats_handle (pool_conns p3 ! 1) = Some 12)"
proof -
  have held: "nats_held demo_pool = {1, 2}"
    by (auto simp: nats_held_def demo_pool_def new_conn_def less_Suc_eq numeral_3_eq_3)
  show ?thesis
    using held
    by (simp add: demo_pool_def new_conn_def nats_pool_health_check_def check_conn_def compact_def Let_def
        nats_pool_release_def nats_pool_acquire_def note_acquire_def acquire_turn_def acquire_pass_def eval_nat_numeral)
qed

text \<open>
  With a minimum above the maximum the pool corrects its copy of the configuration, but sizes
  the array by the caller's maximum: filling it writes past its end.
\<close>

theorem nats_pool_init_overflow:
  assumes "pool_url c \<noteq> None" "cfg_max_connections c < max 1 (min_connections c)" "\<forall>i. create i \<noteq> None"
  shows "nats_pool_init True create now (Some c) = Undefined"
proof -
  have "init_conns create now [0..<max 1 (min_connections c)] p = Undefined"
    if "length (pool_conns p) = cfg_max_connections c" for p
    using init_conns_overflow [OF assms(2) _ that assms(3), of 0] by simp
  moreover have "min_connections (validate_pool_config c) = max 1 (min_connections c)"
    by (simp add: validate_pool_config_def Let_def max_def)
  ultimately show ?thesis
    using assms(1) by (simp add: nats_pool_init_def slots_def Let_def)
qed

theorem buffer_pool_exclusive_witness:
  "\<exists>pool out pool'. buffer_pool_create True True (\<lambda>_. True)
      (Some \<lparr>cfg_buffer_size = 64, cfg_pool_size = 2, cfg_thread_safe = False\<rparr>) = Some pool \<and>
    use_pool (\<lambda>_ :: unit. buffer_pool_acquire) (\<lambda>_ :: unit. buffer_pool_release)
      [Acquire (), Acquire (), Acquire (), Release () 1] [] pool = (out, pool') \<and>
    distinct out \<and> available pool' + length out = 2"
proof -
  let ?c = "\<lparr>cfg_buffer_size = 64, cfg_pool_size = 2, cfg_thread_safe = False\<rparr>"
  obtain pool where p: "buffer_pool_create True True (\<lambda>_. True) (Some ?c) = Some pool"
    by (simp add: buffer_pool_create_def slots_def upt_rec)
  obtain out pool' where u: "use_pool (\<lambda>_ :: unit. buffer_pool_acquire) (\<lambda>_ :: unit. buffer_pool_release)
      [Acquire (), Acquire (), Acquire (), Release () 1] [] pool = (out, pool')" by (metis surj_pair)
  show ?thesis
    using buffer_pool_exclusive [OF p u] p u by (intro exI [of _ pool] exI [of _ out] exI [of _ pool']) simp
qed

text \<open>A pool of one connection: the second thread waits, and is woken after the release.\<close>

definition single_config :: nats_pool_config_t where
  "single_config = \<lparr>min_connections = 1, cfg_max_connections = 1, connection_timeout_ms = 100, idle_timeout_sec = 60,
     max_reconnect_attempts = 1, pool_url = Some ''nats://localhost''\<rparr>"

theorem nats_pool_exclusive_witness:
  "\<exists>p out p' w'. nats_pool_init True Some 0 (Some single_config) = Finished (Some p) \<and>
     use_pool nats_pool_thread (\<lambda>now i s. (nats_pool_release now i (fst s), snd s))
       [Acquire (Call 1 0 5 None), Acquire (Call 2 (-1) 6 None), Release 7 0, Acquire (Wake 2 None)] [] (p, Map.empty) = (out, p', w') \<and>
     out = [0] \<and> nats_held p' = {0} \<and> length out \<le> 1"
proof -
  obtain p where p: "nats_pool_init True Some 0 (Some single_config) = Finished (Some p)"
      "p = \<lparr>pool_config = single_config, pool_conns = [new_conn 0 0 False], num_connections = 1, max_connections = 1,
        pool_stats = zero_stats\<lparr>total_created := 1, idle_connections := 1\<rparr>, shutdown = False\<rparr>"
    by (simp add: nats_pool_init_def single_config_def validate_pool_config_def slots_def zero_stats_def Let_def)
  obtain out p' w' where u: "use_pool nats_pool_thread (\<lambda>now i s. (nats_pool_release now i (fst s), snd s))
      [Acquire (Call 1 0 5 None), Acquire (Call 2 (-1) 6 None), Release 7 0, Acquire (Wake 2 None)] [] (p, Map.empty) = (out, p', w')"
    by (rule prod_cases3)
  have "out = [0]"
    using u by (simp add: p(2) after_turn_def acquire_turn_def acquire_pass_def note_acquire_def nats_pool_release_def new_conn_def)
  then show ?thesis using nats_pool_exclusive [OF p(1) u] p(1) u by (auto simp: single_config_def)
qed

theorem nats_pool_init_overflow_witness:
  "nats_pool_init True Some 0 (Some \<lparr>min_connections = 3, cfg_max_connections = 2, connection_timeout_ms = 100,
     idle_timeout_sec = 60, max_reconnect_attempts = 1, pool_url = Some ''nats://localhost''\<rparr>) = Undefined"
  by (rule nats_pool_init_overflow) simp_all

end
