(* ===== verification/IPC_Streaming.thy ===== *)
theory IPC_Streaming
  imports Gateway_Prelude
begin

text \<open>
  The streaming sessions of \<open>src/src/ipc_streaming.c\<close>: a table of 64 sessions found by linear
  search. A session identifier is copied into a 64 byte field, so 63 characters of it are kept.
\<close>

datatype stream_state_t = STREAM_STATE_IDLE | STREAM_STATE_ACTIVE | STREAM_STATE_COMPLETE | STREAM_STATE_ERROR

record stream_session_t =
  session_id :: string
  stream_state :: stream_state_t
  chunks_received :: size_t
  total_bytes :: size_t

record ipc_streaming_t =
  sessions :: "stream_session_t list"
  active_count :: int
  total_chunks :: size_t

section \<open>Operations\<close>

definition idle_session :: stream_session_t where
  "idle_session = \<lparr>session_id = [], stream_state = STREAM_STATE_IDLE, chunks_received = 0, total_bytes = 0\<rparr>"

definition ipc_streaming_init :: ipc_streaming_t where
  "ipc_streaming_init = \<lparr>sessions = replicate 64 idle_session, active_count = 0, total_chunks = 0\<rparr>"

definition find_session :: "string \<Rightarrow> ipc_streaming_t \<Rightarrow> nat option" where
  "find_session sid mgr = first_index (\<lambda>s. session_id s = sid) (sessions mgr)"

definition alloc_session :: "ipc_streaming_t \<Rightarrow> nat option" where
  "alloc_session mgr = first_index (\<lambda>s. stream_state s = STREAM_STATE_IDLE) (sessions mgr)"

definition ipc_streaming_start :: "string \<Rightarrow> ipc_streaming_t \<Rightarrow> int \<times> ipc_streaming_t" where
  "ipc_streaming_start sid mgr =
     (case alloc_session mgr of
        None \<Rightarrow> (-1, mgr)
      | Some i \<Rightarrow>
          (0, mgr\<lparr>sessions := (sessions mgr)[i := \<lparr>session_id = c_copy 64 sid, stream_state = STREAM_STATE_ACTIVE,
                                                  chunks_received = 0, total_bytes = 0\<rparr>],
                  active_count := active_count mgr + 1\<rparr>))"

definition ipc_streaming_chunk :: "string \<Rightarrow> size_t \<Rightarrow> ipc_streaming_t \<Rightarrow> int \<times> ipc_streaming_t" where
  "ipc_streaming_chunk sid chunk_size mgr =
     (case find_session sid mgr of
        None \<Rightarrow> (-1, mgr)
      | Some i \<Rightarrow>
          (let s = sessions mgr ! i in
           if stream_state s \<noteq> STREAM_STATE_ACTIVE then (-1, mgr)
           else (0, mgr\<lparr>sessions := (sessions mgr)[i := s\<lparr>chunks_received := chunks_received s + 1,
                                                        total_bytes := total_bytes s + chunk_size\<rparr>],
                        total_chunks := total_chunks mgr + 1\<rparr>)))"

definition ipc_streaming_complete :: "string \<Rightarrow> ipc_streaming_t \<Rightarrow> int \<times> ipc_streaming_t" where
  "ipc_streaming_complete sid mgr =
     (case find_session sid mgr of
        None \<Rightarrow> (-1, mgr)
      | Some i \<Rightarrow>
          (0, mgr\<lparr>sessions := (sessions mgr)[i := (sessions mgr ! i)\<lparr>stream_state := STREAM_STATE_COMPLETE\<rparr>],
                  active_count := active_count mgr - 1\<rparr>))"

definition ipc_streaming_error :: "string \<Rightarrow> ipc_streaming_t \<Rightarrow> int \<times> ipc_streaming_t" where
  "ipc_streaming_error sid mgr =
     (case find_session sid mgr of
        None \<Rightarrow> (-1, mgr)
      | Some i \<Rightarrow>
          (0, mgr\<lparr>sessions := (sessions mgr)[i := (sessions mgr ! i)\<lparr>stream_state := STREAM_STATE_ERROR\<rparr>],
                  active_count := active_count mgr - 1\<rparr>))"

definition ipc_streaming_get_stats :: "ipc_streaming_t \<Rightarrow> int \<times> size_t" where
  "ipc_streaming_get_stats mgr = (active_count mgr, total_chunks mgr)"

section \<open>Specification\<close>

datatype stream_op = Str_Start string | Str_Chunk string size_t | Str_Complete string | Str_Error string

fun stream_apply :: "stream_op \<Rightarrow> ipc_streaming_t \<Rightarrow> int \<times> ipc_streaming_t" where
  "stream_apply (Str_Start s) m = ipc_streaming_start s m"
| "stream_apply (Str_Chunk s n) m = ipc_streaming_chunk s n m"
| "stream_apply (Str_Complete s) m = ipc_streaming_complete s m"
| "stream_apply (Str_Error s) m = ipc_streaming_error s m"

definition is_active :: "stream_session_t \<Rightarrow> bool" where
  "is_active s = (stream_state s = STREAM_STATE_ACTIVE)"

definition is_idle :: "stream_session_t \<Rightarrow> bool" where
  "is_idle s = (stream_state s = STREAM_STATE_IDLE)"

text \<open>A caller that ends only sessions that are active.\<close>

definition ends_active :: "stream_op \<Rightarrow> ipc_streaming_t \<Rightarrow> bool" where
  "ends_active x m =
     (case x of
        Str_Complete s \<Rightarrow> (case find_session s m of Some i \<Rightarrow> is_active (sessions m ! i) | None \<Rightarrow> True)
      | Str_Error s \<Rightarrow> (case find_session s m of Some i \<Rightarrow> is_active (sessions m ! i) | None \<Rightarrow> True)
      | _ \<Rightarrow> True)"

definition stream_run :: "stream_op list \<Rightarrow> ipc_streaming_t \<Rightarrow> ipc_streaming_t" where
  "stream_run ops m = fold (\<lambda>x m. snd (stream_apply x m)) ops m"

fun is_start :: "stream_op \<Rightarrow> bool" where
  "is_start (Str_Start _) = True"
| "is_start _ = False"

text \<open>A session is not ended under the empty identifier, which is that of the slots never used.\<close>

fun names_session :: "stream_op \<Rightarrow> bool" where
  "names_session (Str_Complete s) = (s \<noteq> [])"
| "names_session (Str_Error s) = (s \<noteq> [])"
| "names_session _ = True"

inductive stream_reach :: "ipc_streaming_t \<Rightarrow> bool" where
  stream_new: "stream_reach ipc_streaming_init"
| stream_step: "stream_reach m \<Longrightarrow> ends_active x m \<Longrightarrow> stream_reach (snd (stream_apply x m))"

section \<open>Lemmas\<close>

lemmas stream_defs = ipc_streaming_start_def ipc_streaming_chunk_def ipc_streaming_complete_def ipc_streaming_error_def

lemma find_session_less: "find_session sid m = Some i \<Longrightarrow> i < length (sessions m)"
  by (simp add: find_session_def first_index_less)

lemma alloc_session_idle:
  "alloc_session m = Some i \<Longrightarrow> i < length (sessions m) \<and> stream_state (sessions m ! i) = STREAM_STATE_IDLE"
  using first_index_Some by (fastforce simp: alloc_session_def)

lemma stream_length [simp]: "length (sessions (snd (stream_apply x m))) = length (sessions m)"
  by (cases x) (simp_all add: stream_defs Let_def split: option.split)

lemma is_active_new:
  "is_active \<lparr>session_id = sid, stream_state = st, chunks_received = a, total_bytes = b\<rparr> = (st = STREAM_STATE_ACTIVE)"
  by (simp add: is_active_def)

lemma stream_reach_count:
  "stream_reach m \<Longrightarrow> length (sessions m) = 64 \<and> active_count m = int (count_slots is_active (sessions m))"
proof (induction rule: stream_reach.induct)
  case stream_new
  show ?case by (simp add: ipc_streaming_init_def is_active_def idle_session_def)
next
  case (stream_step m x)
  have upd: "i < length (sessions m) \<Longrightarrow>
      int (count_slots is_active ((sessions m)[i := s])) =
      active_count m + (if is_active s then 1 else 0) - (if is_active (sessions m ! i) then 1 else 0)" for i s
    using count_slots_update [of i "sessions m" is_active s] stream_step.IH by (auto split: if_splits)
  have chunk: "is_active (s\<lparr>chunks_received := a, total_bytes := b\<rparr>) = is_active s" for s a b
    by (simp add: is_active_def)
  show ?case
  proof (cases x)
    case (Str_Start sid)
    then show ?thesis
    proof (cases "alloc_session m")
      case (Some i)
      then show ?thesis
        using Str_Start stream_step.IH upd [of i] alloc_session_idle [OF Some] is_active_def [of "sessions m ! i"]
        by (simp add: stream_defs is_active_new)
    qed (use stream_step.IH in \<open>simp add: stream_defs\<close>)
  next
    case (Str_Chunk sid n)
    then show ?thesis
      using stream_step.IH upd find_session_less [of sid m]
      by (auto simp: stream_defs Let_def chunk split: option.splits)
  next
    case (Str_Complete sid)
    then show ?thesis
      using stream_step.IH stream_step.hyps(2) upd find_session_less [of sid m]
      by (auto simp: stream_defs ends_active_def split: option.splits) (simp add: is_active_def)
  next
    case (Str_Error sid)
    then show ?thesis
      using stream_step.IH stream_step.hyps(2) upd find_session_less [of sid m]
      by (auto simp: stream_defs ends_active_def split: option.splits) (simp add: is_active_def)
  qed
qed

text \<open>The slots that have never been used: they have no identifier, and only a start takes one of them.\<close>

definition unused_ok :: "nat \<Rightarrow> ipc_streaming_t \<Rightarrow> bool" where
  "unused_ok n m \<longleftrightarrow> count_slots is_idle (sessions m) = n \<and> (\<forall>s\<in>set (sessions m). is_idle s \<longrightarrow> session_id s = [])"

lemma unused_update:
  assumes "unused_ok n m" "i < length (sessions m)" "\<not> is_idle s" "sessions m' = (sessions m)[i := s]"
  shows "unused_ok (n - (if is_idle (sessions m ! i) then 1 else 0)) m'"
proof -
  have "\<forall>t\<in>set (sessions m'). is_idle t \<longrightarrow> session_id t = []"
    using assms set_update_subset_insert [of "sessions m" i s] by (auto simp: unused_ok_def)
  moreover have "count_slots is_idle (sessions m') = n - (if is_idle (sessions m ! i) then 1 else 0)"
    using count_slots_update [OF assms(2), of is_idle s] assms(1,3,4) by (auto simp: unused_ok_def split: if_splits)
  ultimately show ?thesis by (simp add: unused_ok_def)
qed

lemma find_session_id: "find_session sid m = Some i \<Longrightarrow> session_id (sessions m ! i) = sid"
  using first_index_Some by (fastforce simp: find_session_def)

lemma session_used:
  assumes "unused_ok n m" "find_session sid m = Some i" "sid \<noteq> [] \<or> \<not> is_idle (sessions m ! i)" "\<not> is_idle s"
    "sessions m' = (sessions m)[i := s]"
  shows "unused_ok n m'"
proof -
  have i: "i < length (sessions m)" by (rule find_session_less [OF assms(2)])
  then have "\<not> is_idle (sessions m ! i)"
    using find_session_id [OF assms(2)] assms(1,3) nth_mem [of i "sessions m"] by (auto simp: unused_ok_def)
  then show ?thesis using unused_update [OF assms(1) i assms(4,5)] by simp
qed

lemma start_unused:
  assumes "unused_ok n m"
  shows "fst (ipc_streaming_start sid m) = (if n = 0 then - 1 else 0)" "unused_ok (n - 1) (snd (ipc_streaming_start sid m))"
proof -
  have none: "alloc_session m = None \<longleftrightarrow> n = 0"
    using assms by (auto simp: unused_ok_def alloc_session_def first_index_None is_idle_def count_slots_def filter_empty_conv)
  then show "fst (ipc_streaming_start sid m) = (if n = 0 then - 1 else 0)"
    by (auto simp: ipc_streaming_start_def split: option.split)
  show "unused_ok (n - 1) (snd (ipc_streaming_start sid m))"
  proof (cases "alloc_session m")
    case (Some i)
    note i = alloc_session_idle [OF Some]
    show ?thesis
      using unused_update [OF assms, of i "\<lparr>session_id = c_copy 64 sid, stream_state = STREAM_STATE_ACTIVE, chunks_received = 0, total_bytes = 0\<rparr>"] i Some
      by (simp add: ipc_streaming_start_def is_idle_def)
  qed (use assms none in \<open>simp add: ipc_streaming_start_def\<close>)
qed

lemma step_unused:
  assumes "unused_ok n m" "names_session x"
  shows "unused_ok (n - (if is_start x then 1 else 0)) (snd (stream_apply x m))"
proof -
  note used = session_used [OF assms(1)]
  show ?thesis
  proof (cases x)
    case (Str_Chunk s k)
    then show ?thesis using assms(1)
      by (auto simp: ipc_streaming_chunk_def Let_def split: option.split) (erule used, simp_all add: is_idle_def)
  next
    case (Str_Complete s)
    then show ?thesis using assms
      by (auto simp: ipc_streaming_complete_def split: option.split) (erule used, simp_all add: is_idle_def)
  next
    case (Str_Error s)
    then show ?thesis using assms
      by (auto simp: ipc_streaming_error_def split: option.split) (erule used, simp_all add: is_idle_def)
  qed (use start_unused [OF assms(1)] in simp)
qed

lemma run_unused:
  "unused_ok n m \<Longrightarrow> \<forall>x\<in>set ops. names_session x \<Longrightarrow> unused_ok (n - length (filter is_start ops)) (stream_run ops m)"
proof (induction ops arbitrary: n m)
  case (Cons x ops)
  then have "unused_ok (n - (if is_start x then 1 else 0)) (snd (stream_apply x m))" using step_unused by simp
  from Cons.IH [OF this] Cons.prems(2) show ?case by (cases "is_start x") (simp_all add: stream_run_def)
qed (simp add: stream_run_def)

lemma init_unused: "unused_ok 64 ipc_streaming_init"
  by (simp add: unused_ok_def ipc_streaming_init_def idle_session_def is_idle_def)

section \<open>Properties\<close>

text \<open>
  C17. When callers end only active sessions, the active count is exactly the number of active
  sessions, hence between 0 and 64, over every sequence of starts, chunks, completions and errors.
\<close>

theorem streaming_active_exact:
  assumes "stream_reach m"
  shows "active_count m = int (count_slots is_active (sessions m)) \<and> 0 \<le> active_count m \<and> active_count m \<le> 64"
  using stream_reach_count [OF assms] count_slots_le [of is_active "sessions m"] by simp

text \<open>
  C18. No operation ever returns a slot to the idle state: from the initialisation on, over any sequence
  of starts, chunks, completions and errors, the first 64 starts succeed and every later one fails, although
  all sessions may have ended. The completions and errors name a session, that is, not the empty
  identifier.
\<close>

theorem streaming_exhausted:
  assumes "\<forall>x\<in>set ops. names_session x"
  shows "fst (ipc_streaming_start sid (stream_run ops ipc_streaming_init)) = (if length (filter is_start ops) < 64 then 0 else - 1)"
  using start_unused(1) [OF run_unused [OF init_unused assms], of sid] by simp

text \<open>
  Completing a session twice is accepted and counted twice: the number of active streams
  becomes negative.
\<close>

theorem streaming_double_complete:
  "\<exists>m1 m2 m3. ipc_streaming_start ''s1'' ipc_streaming_init = (0, m1) \<and>
     ipc_streaming_complete ''s1'' m1 = (0, m2) \<and> ipc_streaming_complete ''s1'' m2 = (0, m3) \<and>
     ipc_streaming_get_stats m3 = (-1, 0)"
proof -
  define rest where "rest = replicate 63 idle_session"
  have r: "ipc_streaming_init = \<lparr>sessions = idle_session # rest, active_count = 0, total_chunks = 0\<rparr>"
    by (simp add: ipc_streaming_init_def rest_def numeral_eq_Suc)
  show ?thesis
    by (simp add: stream_defs r alloc_session_def find_session_def idle_session_def ipc_streaming_get_stats_def c_copy_def)
qed

theorem streaming_active_exact_witness:
  "\<exists>m. stream_reach m \<and> active_count m = 1 \<and> count_slots is_active (sessions m) = 1"
proof -
  let ?m = "snd (stream_apply (Str_Start ''a'') ipc_streaming_init)"
  have r: "stream_reach ?m" by (intro stream_reach.intros) (simp add: ends_active_def)
  moreover have "active_count ?m = 1"
    by (simp add: ipc_streaming_start_def alloc_session_def ipc_streaming_init_def idle_session_def numeral_eq_Suc)
  ultimately show ?thesis using streaming_active_exact [OF r] by (intro exI [of _ ?m]) simp
qed

theorem streaming_exhausted_witness:
  "fst (ipc_streaming_start ''b'' (stream_run (concat (replicate 64 [Str_Start ''a'', Str_Complete ''a''])) ipc_streaming_init)) = - 1"
proof -
  let ?ops = "concat (replicate 64 [Str_Start ''a'', Str_Complete ''a''])"
  have "length (filter is_start (concat (replicate n [Str_Start ''a'', Str_Complete ''a'']))) = n" for n by (induction n) auto
  moreover have "\<forall>x\<in>set ?ops. names_session x" by auto
  ultimately show ?thesis using streaming_exhausted [of ?ops "''b''"] by simp
qed

end
