(* ===== verification/Rate_Limiter.thy ===== *)
theory Rate_Limiter
  imports Gateway_Prelude
begin

text \<open>
  The request rate limiter behind \<open>struct rate_limiter\<close> (\<open>src/src/rate_limiter.h\<close>): the factory
  and its configuration (\<open>rate_limiter.c\<close>), the in-memory fixed window (\<open>rate_limiter_memory.c\<close>)
  and the Redis fixed window with its fallback (\<open>rate_limiter_redis.c\<close>, built with hiredis, and
  the build without it). The Redis server is a parameter: \<open>incr\<close> and \<open>expire\<close> are the two
  commands sent. The locale \<open>limiter\<close> is the function table both back ends fill in. An endpoint
  is the number of its enumerator; 3 and above are out of range.
\<close>

section \<open>Types\<close>

datatype rl_result_t = RL_ALLOWED | RL_EXCEEDED | RL_ERROR

abbreviation (input) RL_ENDPOINT_MAX :: nat where "RL_ENDPOINT_MAX \<equiv> 3"

record distributed_rl_config_t =
  rl_enabled :: bool
  rl_backend :: string
  redis_host :: string
  redis_port :: int
  redis_timeout_ms :: int
  local_cache_ttl_seconds :: int
  sync_interval_seconds :: int
  fallback_to_local :: bool

section \<open>Configuration\<close>

definition rate_limiter_get_default_config :: distributed_rl_config_t where
  "rate_limiter_get_default_config =
     \<lparr>rl_enabled = False, rl_backend = ''memory'', redis_host = ''localhost'', redis_port = 6379,
      redis_timeout_ms = 1000, local_cache_ttl_seconds = 10, sync_interval_seconds = 5, fallback_to_local = True\<rparr>"

text \<open>A positive number from the environment, or the value so far.\<close>

definition env_positive :: "getenv \<Rightarrow> string \<Rightarrow> int \<Rightarrow> int" where
  "env_positive env name dflt =
     (case env name of None \<Rightarrow> dflt | Some v \<Rightarrow> if atoi v > 0 then atoi v else dflt)"

definition backend_setting :: "getenv \<Rightarrow> string option" where
  "backend_setting env =
     (case env ''GATEWAY_RATE_LIMIT_MODE'' of
        Some mode \<Rightarrow>
          if mode = ''local'' then Some ''memory''
          else if mode = ''redis'' then Some ''redis''
          else if mode = ''hybrid'' then Some ''redis''
          else env ''GATEWAY_RATE_LIMIT_BACKEND''
      | None \<Rightarrow> env ''GATEWAY_RATE_LIMIT_BACKEND'')"

text \<open>Host and port of a URI \<open>redis://[:password@]host[:port]\<close>.\<close>

definition parse_redis_uri :: "string \<Rightarrow> distributed_rl_config_t \<Rightarrow> distributed_rl_config_t" where
  "parse_redis_uri uri c =
     (if starts_with uri ''redis://'' then
        (let rest = drop 8 uri;
             host_start = (case strchr rest (CHR ''@'') of Some s \<Rightarrow> tl s | None \<Rightarrow> rest) in
         case strchr host_start (CHR '':'') of
           Some colon \<Rightarrow>
             (let host_len = length host_start - length colon;
                  c1 = (if host_len < 64 then c\<lparr>redis_host := take host_len host_start\<rparr> else c);
                  port = atoi (tl colon) in
              if port > 0 then c1\<lparr>redis_port := port\<rparr> else c1)
         | None \<Rightarrow> c\<lparr>redis_host := c_copy 64 host_start\<rparr>)
      else c)"

definition rate_limiter_parse_config :: "getenv \<Rightarrow> distributed_rl_config_t" where
  "rate_limiter_parse_config env =
     (let c0 = rate_limiter_get_default_config;
          c1 = (case env ''GATEWAY_DISTRIBUTED_RATE_LIMIT_ENABLED'' of
                  Some v \<Rightarrow> if v = ''true'' \<or> v = ''1'' then c0\<lparr>rl_enabled := True\<rparr> else c0
                | None \<Rightarrow> c0);
          c2 = (case backend_setting env of Some b \<Rightarrow> c1\<lparr>rl_backend := c_copy 32 b\<rparr> | None \<Rightarrow> c1);
          c3 = (case env ''GATEWAY_RATE_LIMIT_REDIS_URI'' of
                  Some (u # us) \<Rightarrow> parse_redis_uri (u # us) c2
                | _ \<Rightarrow>
                    (let d = (case env ''GATEWAY_RATE_LIMIT_REDIS_HOST'' of
                                Some h \<Rightarrow> c2\<lparr>redis_host := c_copy 64 h\<rparr> | None \<Rightarrow> c2) in
                     d\<lparr>redis_port := env_positive env ''GATEWAY_RATE_LIMIT_REDIS_PORT'' (redis_port d)\<rparr>));
          c4 = c3\<lparr>redis_timeout_ms := env_positive env ''GATEWAY_RATE_LIMIT_REDIS_TIMEOUT_MS'' (redis_timeout_ms c3)\<rparr>;
          c5 = c4\<lparr>local_cache_ttl_seconds :=
                   env_positive env ''GATEWAY_RATE_LIMIT_LOCAL_CACHE_TTL_SECONDS'' (local_cache_ttl_seconds c4)\<rparr>;
          c6 = c5\<lparr>sync_interval_seconds :=
                   env_positive env ''GATEWAY_RATE_LIMIT_SYNC_INTERVAL_SECONDS'' (sync_interval_seconds c5)\<rparr> in
      case env ''GATEWAY_RATE_LIMIT_FALLBACK_TO_LOCAL'' of
        Some v \<Rightarrow> c6\<lparr>fallback_to_local := \<not> (v = ''false'' \<or> v = ''0'')\<rparr>
      | None \<Rightarrow> c6)"

definition get_endpoint_limit :: "getenv \<Rightarrow> nat \<Rightarrow> int" where
  "get_endpoint_limit env endpoint =
     (if endpoint = 0 then env_positive env ''GATEWAY_RATE_LIMIT_ROUTES_DECIDE_LIMIT'' 50
      else if endpoint = 1 then env_positive env ''GATEWAY_RATE_LIMIT_MESSAGES'' 100
      else if endpoint = 2 then env_positive env ''GATEWAY_RATE_LIMIT_REGISTRY_BLOCKS'' 200
      else 0)"

definition get_ttl_seconds :: "getenv \<Rightarrow> int" where
  "get_ttl_seconds env = env_positive env ''GATEWAY_RATE_LIMIT_TTL_SECONDS'' 60"

section \<open>The in-memory back end\<close>

record memory_rl_state_t =
  counters :: "u32 list"
  window_started_at :: int
  ttl_seconds :: int
  limits :: "int list"
  total_hits :: u64
  total_exceeded :: u64

text \<open>\<open>alloc\<close> says whether the allocation succeeds.\<close>

definition memory_rl_init :: "bool \<Rightarrow> getenv \<Rightarrow> memory_rl_state_t option" where
  "memory_rl_init alloc env =
     (if \<not> alloc then None
      else Some \<lparr>counters = replicate RL_ENDPOINT_MAX 0, window_started_at = 0, ttl_seconds = get_ttl_seconds env,
                 limits = map (get_endpoint_limit env) (slots RL_ENDPOINT_MAX), total_hits = 0, total_exceeded = 0\<rparr>)"

text \<open>The reset at the head of a check, when no window is open or the open one has run out.\<close>

definition roll_window :: "int \<Rightarrow> memory_rl_state_t \<Rightarrow> memory_rl_state_t" where
  "roll_window now st =
     (if window_started_at st = 0 \<or> now - window_started_at st \<ge> ttl_seconds st
      then st\<lparr>window_started_at := now, counters := replicate RL_ENDPOINT_MAX 0\<rparr> else st)"

text \<open>The result, the value written to \<open>remaining_out\<close> if any, and the state.\<close>

definition memory_rl_check :: "int \<Rightarrow> nat \<Rightarrow> memory_rl_state_t \<Rightarrow> rl_result_t \<times> u32 option \<times> memory_rl_state_t" where
  "memory_rl_check now endpoint st0 =
     (let st = roll_window now st0 in
      if endpoint \<ge> RL_ENDPOINT_MAX then (RL_ERROR, None, st)
      else (let limit = limits st ! endpoint; current = counters st ! endpoint;
                st1 = st\<lparr>total_hits := total_hits st + 1\<rparr> in
            if current \<ge> of_int limit
            then (RL_EXCEEDED, Some 0, st1\<lparr>total_exceeded := total_exceeded st1 + 1\<rparr>)
            else (RL_ALLOWED, Some (of_int limit - (current + 1)),
                  st1\<lparr>counters := (counters st1)[endpoint := current + 1]\<rparr>)))"

section \<open>The Redis back end\<close>

text \<open>The reply to INCR: an integer or something else; no reply when the connection fails.\<close>

datatype redis_reply = Redis_Integer int | Redis_Other

text \<open>A connection attempt: no context, a context that carries an error, or a usable one.\<close>

datatype redis_connection = Ctx_Null | Ctx_Err | Ctx_Ok

record 'r redis_api =
  redis_connect :: "string \<Rightarrow> int \<Rightarrow> int \<Rightarrow> 'r \<Rightarrow> redis_connection \<times> 'r"
  redis_incr :: "string \<Rightarrow> 'r \<Rightarrow> redis_reply option \<times> 'r"
  redis_expire :: "string \<Rightarrow> int \<Rightarrow> 'r \<Rightarrow> 'r"

text \<open>\<open>redis_ctx\<close>: the context pointer is not null.\<close>

record redis_rl_state_t =
  redis_ctx :: bool
  rs_host :: string
  rs_port :: int
  rs_timeout_ms :: int
  rs_ttl_seconds :: int
  rs_limits :: "int list"
  rs_fallback_to_local :: bool
  fallback_limiter :: "memory_rl_state_t option"
  redis_queries :: u64
  redis_errors :: u64
  fallback_used :: u64

definition endpoint_str :: "nat \<Rightarrow> string option" where
  "endpoint_str endpoint =
     (if endpoint = 0 then Some ''routes_decide'' else if endpoint = 1 then Some ''messages''
      else if endpoint = 2 then Some ''registry_blocks'' else None)"

text \<open>A missing tenant or key is the empty text. The key must fit 256 bytes with its terminator.\<close>

definition build_redis_key :: "nat \<Rightarrow> string option \<Rightarrow> string option \<Rightarrow> int \<Rightarrow> string option" where
  "build_redis_key endpoint tenant_id api_key window_start =
     (case endpoint_str endpoint of
        None \<Rightarrow> None
      | Some e \<Rightarrow>
          (let k = ''rate_limit:'' @ e @ '':'' @ (case tenant_id of Some t \<Rightarrow> t | None \<Rightarrow> []) @ '':'' @
                   (case api_key of Some a \<Rightarrow> a | None \<Rightarrow> []) @ '':'' @ dec_int window_start in
           if length k \<ge> 256 then None else Some k))"

text \<open>C division truncates; the clock and the period are positive, where it is \<open>div\<close>.\<close>

definition get_window_start :: "int \<Rightarrow> int \<Rightarrow> int" where
  "get_window_start now ttl = (now div ttl) * ttl"

text \<open>The fallback limiter is a memory limiter: two allocations, the table and its state.\<close>

definition new_fallback :: "(nat \<Rightarrow> bool) \<Rightarrow> getenv \<Rightarrow> memory_rl_state_t option" where
  "new_fallback alloc env = (if \<not> alloc 0 then None else memory_rl_init (alloc 1) env)"

text \<open>
  \<open>hiredis\<close> says which of the two builds it is; \<open>alloc i\<close> whether the \<open>i\<close>-th allocation succeeds.
  A context that carries an error is kept beside the fallback.
\<close>

definition redis_rl_init ::
    "bool \<Rightarrow> (nat \<Rightarrow> bool) \<Rightarrow> 'r redis_api \<Rightarrow> getenv \<Rightarrow> distributed_rl_config_t \<Rightarrow> 'r \<Rightarrow>
      redis_rl_state_t option \<times> 'r" where
  "redis_rl_init hiredis alloc api env config r =
     (if \<not> alloc 0 then (None, r)
      else (let st = \<lparr>redis_ctx = False, rs_host = c_copy 64 (redis_host config),
                      rs_port = (if redis_port config > 0 then redis_port config else 6379),
                      rs_timeout_ms = (if redis_timeout_ms config > 0 then redis_timeout_ms config else 1000),
                      rs_ttl_seconds = get_ttl_seconds env,
                      rs_limits = map (get_endpoint_limit env) (slots RL_ENDPOINT_MAX),
                      rs_fallback_to_local = fallback_to_local config, fallback_limiter = None,
                      redis_queries = 0, redis_errors = 0, fallback_used = 0\<rparr>;
                (conn, r1) = (if hiredis then redis_connect api (rs_host st) (rs_port st) (rs_timeout_ms st) r
                              else (Ctx_Null, r)) in
            if conn = Ctx_Ok then (Some (st\<lparr>redis_ctx := True\<rparr>), r1)
            else if rs_fallback_to_local st then
              (case new_fallback (\<lambda>i. alloc (i + 1)) env of
                 None \<Rightarrow> (None, r1)
               | Some m \<Rightarrow> (Some (st\<lparr>redis_ctx := conn = Ctx_Err, fallback_limiter := Some m\<rparr>), r1))
            else (None, r1)))"

definition use_fallback ::
    "int \<Rightarrow> nat \<Rightarrow> memory_rl_state_t \<Rightarrow> redis_rl_state_t \<Rightarrow> rl_result_t \<times> u32 option \<times> redis_rl_state_t" where
  "use_fallback now endpoint m st =
     (let (res, rem, m') = memory_rl_check now endpoint m in
      (res, rem, st\<lparr>fallback_used := fallback_used st + 1, fallback_limiter := Some m'\<rparr>))"

definition redis_rl_check ::
    "bool \<Rightarrow> 'r redis_api \<Rightarrow> int \<Rightarrow> nat \<Rightarrow> string option \<Rightarrow> string option \<Rightarrow> redis_rl_state_t \<Rightarrow> 'r \<Rightarrow>
      (rl_result_t \<times> u32 option \<times> redis_rl_state_t) \<times> 'r" where
  "redis_rl_check hiredis api now endpoint tenant_id api_key st r =
     (case (redis_ctx st, fallback_limiter st) of
        (False, Some m) \<Rightarrow> (use_fallback now endpoint m st, r)
      | (ctx, fb) \<Rightarrow>
          if \<not> hiredis then
            (case fb of Some m \<Rightarrow> (use_fallback now endpoint m st, r) | None \<Rightarrow> ((RL_ERROR, None, st), r))
          else if \<not> ctx then ((RL_ERROR, None, st), r)
          else (case build_redis_key endpoint tenant_id api_key (get_window_start now (rs_ttl_seconds st)) of
              None \<Rightarrow> ((RL_ERROR, None, st), r)
            | Some key \<Rightarrow>
                (let (reply, r1) = redis_incr api key r in
                 case reply of
                   None \<Rightarrow>
                     (let st1 = st\<lparr>redis_errors := redis_errors st + 1\<rparr> in
                      case (rs_fallback_to_local st1, fb) of
                        (True, Some m) \<Rightarrow> (use_fallback now endpoint m st1, r1)
                      | _ \<Rightarrow> ((RL_ERROR, None, st1), r1))
                 | Some rep \<Rightarrow>
                     (let st1 = st\<lparr>redis_queries := redis_queries st + 1\<rparr> in
                      case rep of
                        Redis_Integer count \<Rightarrow>
                          (let r2 = (if count = 1 then redis_expire api key (rs_ttl_seconds st + 10) r1 else r1);
                               limit = rs_limits st ! endpoint in
                           if count > limit then ((RL_EXCEEDED, Some 0, st1), r2)
                           else ((RL_ALLOWED, Some (of_int (limit - count)), st1), r2))
                      | Redis_Other \<Rightarrow> ((RL_ERROR, None, st1), r1)))))"

section \<open>The factory and its function table\<close>

datatype rate_limiter_t = Memory_Limiter memory_rl_state_t | Redis_Limiter redis_rl_state_t

definition rate_limiter_memory_create :: "(nat \<Rightarrow> bool) \<Rightarrow> getenv \<Rightarrow> rate_limiter_t option" where
  "rate_limiter_memory_create alloc env =
     (if \<not> alloc 0 then None else map_option Memory_Limiter (memory_rl_init (alloc 1) env))"

definition rate_limiter_redis_create ::
    "bool \<Rightarrow> (nat \<Rightarrow> bool) \<Rightarrow> 'r redis_api \<Rightarrow> getenv \<Rightarrow> distributed_rl_config_t \<Rightarrow> 'r \<Rightarrow>
      rate_limiter_t option \<times> 'r" where
  "rate_limiter_redis_create hiredis alloc api env config r =
     (if \<not> alloc 0 then (None, r)
      else (let (st, r1) = redis_rl_init hiredis (\<lambda>i. alloc (i + 1)) api env config r in
            (map_option Redis_Limiter st, r1)))"

definition rate_limiter_create ::
    "bool \<Rightarrow> (nat \<Rightarrow> bool) \<Rightarrow> 'r redis_api \<Rightarrow> getenv \<Rightarrow> distributed_rl_config_t option \<Rightarrow> 'r \<Rightarrow>
      rate_limiter_t option \<times> 'r" where
  "rate_limiter_create hiredis alloc api env config r =
     (case config of
        None \<Rightarrow> (rate_limiter_memory_create alloc env, r)
      | Some c \<Rightarrow>
          if rl_enabled c \<and> rl_backend c = ''redis''
          then rate_limiter_redis_create hiredis alloc api env c r
          else (rate_limiter_memory_create alloc env, r))"

text \<open>The call through the table's \<open>check\<close> entry.\<close>

fun rate_limiter_check ::
    "bool \<Rightarrow> 'r redis_api \<Rightarrow> int \<Rightarrow> nat \<Rightarrow> string option \<Rightarrow> string option \<Rightarrow> rate_limiter_t \<times> 'r \<Rightarrow>
      rl_result_t \<times> u32 option \<times> (rate_limiter_t \<times> 'r)" where
  "rate_limiter_check hiredis api now endpoint t k (Memory_Limiter m, r) =
     (let (res, rem, m') = memory_rl_check now endpoint m in (res, rem, (Memory_Limiter m', r)))"
| "rate_limiter_check hiredis api now endpoint t k (Redis_Limiter st, r) =
     (let ((res, rem, st'), r') = redis_rl_check hiredis api now endpoint t k st r in (res, rem, (Redis_Limiter st', r')))"

section \<open>Specifications\<close>

definition memory_rl_inv :: "memory_rl_state_t \<Rightarrow> bool" where
  "memory_rl_inv s \<longleftrightarrow> length (counters s) = RL_ENDPOINT_MAX \<and> length (limits s) = RL_ENDPOINT_MAX \<and> 0 < ttl_seconds s \<and>
     (\<forall>e < RL_ENDPOINT_MAX. 0 < limits s ! e \<and> limits s ! e \<le> INT_MAX \<and> unat (counters s ! e) \<le> nat (limits s ! e))"

definition redis_rl_inv :: "redis_rl_state_t \<Rightarrow> bool" where
  "redis_rl_inv s \<longleftrightarrow> length (rs_limits s) = RL_ENDPOINT_MAX \<and> 0 < rs_ttl_seconds s \<and>
     (\<forall>e < RL_ENDPOINT_MAX. 0 < rs_limits s ! e \<and> rs_limits s ! e \<le> INT_MAX) \<and>
     (case fallback_limiter s of None \<Rightarrow> True | Some m \<Rightarrow> memory_rl_inv m \<and> limits m = rs_limits s)"

fun limiter_inv :: "rate_limiter_t \<Rightarrow> bool" where
  "limiter_inv (Memory_Limiter m) = memory_rl_inv m"
| "limiter_inv (Redis_Limiter s) = redis_rl_inv s"

fun limiter_quota :: "rate_limiter_t \<Rightarrow> nat \<Rightarrow> nat" where
  "limiter_quota (Memory_Limiter m) e = nat (limits m ! e)"
| "limiter_quota (Redis_Limiter s) e = nat (rs_limits s ! e)"

text \<open>
  What INCR and EXPIRE are documented to do, for a view \<open>val\<close> of the server's counters: INCR adds
  one to its key and returns the new value, EXPIRE changes no value.
\<close>

definition redis_counts :: "'r redis_api \<Rightarrow> ('r \<Rightarrow> string \<Rightarrow> nat) \<Rightarrow> bool" where
  "redis_counts api val \<longleftrightarrow>
     (\<forall>k r. fst (redis_incr api k r) = Some (Redis_Integer (int (val r k) + 1)) \<and>
            val (snd (redis_incr api k r)) = (val r)(k := val r k + 1)) \<and>
     (\<forall>k n r. val (redis_expire api k n r) = val r)"

text \<open>A counter never starts below zero: what INCR returns is positive.\<close>

definition redis_positive :: "'r redis_api \<Rightarrow> bool" where
  "redis_positive api \<longleftrightarrow> (\<forall>k r n. fst (redis_incr api k r) = Some (Redis_Integer n) \<longrightarrow> 1 \<le> n)"

text \<open>A sequence of requests at one memory limiter, and at several gateways that share a server.\<close>

fun memory_serve :: "(int \<times> nat) list \<Rightarrow> memory_rl_state_t \<Rightarrow> rl_result_t list" where
  "memory_serve [] s = []"
| "memory_serve ((now, e) # reqs) s = (let (res, _, s') = memory_rl_check now e s in res # memory_serve reqs s')"

fun memory_run :: "(int \<times> nat) list \<Rightarrow> memory_rl_state_t \<Rightarrow> memory_rl_state_t" where
  "memory_run [] s = s"
| "memory_run ((now, e) # reqs) s = (let (_, _, s') = memory_rl_check now e s in memory_run reqs s')"

record rl_request =
  rq_gateway :: nat
  rq_now :: int
  rq_endpoint :: nat
  rq_tenant :: "string option"
  rq_api_key :: "string option"

fun redis_serve :: "bool \<Rightarrow> 'r redis_api \<Rightarrow> rl_request list \<Rightarrow> redis_rl_state_t list \<Rightarrow> 'r \<Rightarrow> rl_result_t list" where
  "redis_serve hiredis api [] sts r = []"
| "redis_serve hiredis api (q # reqs) sts r =
     (let ((res, _, st'), r') = redis_rl_check hiredis api (rq_now q) (rq_endpoint q) (rq_tenant q) (rq_api_key q)
                                  (sts ! rq_gateway q) r in
      res # redis_serve hiredis api reqs (sts[rq_gateway q := st']) r')"

text \<open>The number of requests of a sequence that are admitted among those a predicate selects.\<close>

definition admitted :: "('q \<Rightarrow> bool) \<Rightarrow> 'q list \<Rightarrow> rl_result_t list \<Rightarrow> nat" where
  "admitted P reqs results = length (filter (\<lambda>(q, res). P q \<and> res = RL_ALLOWED) (zip reqs results))"

text \<open>The window a request opens: none is open at \<open>t\<close>, or the open one has run out.\<close>

definition opens_window :: "int \<Rightarrow> memory_rl_state_t \<Rightarrow> bool" where
  "opens_window t s \<longleftrightarrow> window_started_at s = 0 \<or> t - window_started_at s \<ge> ttl_seconds s"

text \<open>The Redis key of a request, for a period of \<open>ttl\<close> seconds.\<close>

definition request_key :: "int \<Rightarrow> rl_request \<Rightarrow> string option" where
  "request_key ttl q =
     build_redis_key (rq_endpoint q) (rq_tenant q) (rq_api_key q) (get_window_start (rq_now q) ttl)"

text \<open>
  A sequence of calls through a function table: each call's argument, endpoint, result and what it
  writes to \<open>remaining_out\<close>.
\<close>

fun limiter_run :: "('x \<Rightarrow> nat \<Rightarrow> 's \<Rightarrow> rl_result_t \<times> u32 option \<times> 's) \<Rightarrow> ('x \<times> nat) list \<Rightarrow> 's \<Rightarrow>
    (nat \<times> rl_result_t \<times> u32 option) list" where
  "limiter_run check [] s = []"
| "limiter_run check ((x, e) # calls) s = (let (res, rem, s') = check x e s in (e, res, rem) # limiter_run check calls s')"

text \<open>\<open>check\<close> of the factory's limiter, with the time and the identity of the caller as one argument.\<close>

definition table_check ::
    "bool \<Rightarrow> 'r redis_api \<Rightarrow> int \<times> string option \<times> string option \<Rightarrow> nat \<Rightarrow> rate_limiter_t \<times> 'r \<Rightarrow>
      rl_result_t \<times> u32 option \<times> (rate_limiter_t \<times> 'r)" where
  "table_check hiredis api x e s = (case x of (now, t, k) \<Rightarrow> rate_limiter_check hiredis api now e t k s)"

text \<open>A configuration that can be used.\<close>

definition config_usable :: "distributed_rl_config_t \<Rightarrow> bool" where
  "config_usable c \<longleftrightarrow> 0 < redis_port c \<and> redis_port c \<le> INT_MAX \<and>
     0 < redis_timeout_ms c \<and> redis_timeout_ms c \<le> INT_MAX \<and>
     0 < local_cache_ttl_seconds c \<and> local_cache_ttl_seconds c \<le> INT_MAX \<and>
     0 < sync_interval_seconds c \<and> sync_interval_seconds c \<le> INT_MAX \<and>
     length (rl_backend c) < 32 \<and> length (redis_host c) < 64"

text \<open>Gateways that are connected and configured alike.\<close>

definition same_gateways :: "int list \<Rightarrow> int \<Rightarrow> redis_rl_state_t list \<Rightarrow> bool" where
  "same_gateways L ttl sts \<longleftrightarrow> (\<forall>st\<in>set sts. redis_ctx st \<and> rs_limits st = L \<and> rs_ttl_seconds st = ttl)"

text \<open>A server that does what is documented, and clients of it.\<close>

definition demo_redis :: "(string \<Rightarrow> nat) redis_api" where
  "demo_redis = \<lparr>redis_connect = \<lambda>_ _ _ r. (Ctx_Ok, r),
                 redis_incr = \<lambda>k r. (Some (Redis_Integer (int (r k) + 1)), r(k := r k + 1)),
                 redis_expire = \<lambda>_ _ r. r\<rparr>"

definition dead_redis :: "(string \<Rightarrow> nat) redis_api" where
  "dead_redis = \<lparr>redis_connect = \<lambda>_ _ _ r. (Ctx_Ok, r), redis_incr = \<lambda>k r. (None, r), redis_expire = \<lambda>_ _ r. r\<rparr>"

definition demo_rl_config :: distributed_rl_config_t where
  "demo_rl_config = rate_limiter_get_default_config\<lparr>rl_enabled := True, rl_backend := ''redis''\<rparr>"

definition demo_gateway :: redis_rl_state_t where
  "demo_gateway = \<lparr>redis_ctx = True, rs_host = ''localhost'', rs_port = 6379, rs_timeout_ms = 1000, rs_ttl_seconds = 60,
                   rs_limits = [2, 100, 200], rs_fallback_to_local = True, fallback_limiter = None,
                   redis_queries = 0, redis_errors = 0, fallback_used = 0\<rparr>"

section \<open>The memory window\<close>

lemma unat_of_limit: "0 < l \<Longrightarrow> l \<le> INT_MAX \<Longrightarrow> unat (of_int l :: u32) = nat l"
  using unat_of_nat_small [of "nat l", where 'a = 32] by simp

lemma limit_le_iff: "0 < l \<Longrightarrow> l \<le> INT_MAX \<Longrightarrow> (of_int l \<le> (c :: u32)) = (nat l \<le> unat c)"
  by (simp add: word_le_nat_alt unat_of_limit)

lemma unat_Suc_below: "0 < l \<Longrightarrow> l \<le> INT_MAX \<Longrightarrow> unat (c :: u32) < nat l \<Longrightarrow> unat (c + 1) = unat c + 1"
  by (simp add: unat_word_ariths)

lemmas limit_arith = limit_le_iff unat_of_limit unat_Suc_below

lemma roll_window_inv [gw_inv]: "memory_rl_inv s \<Longrightarrow> memory_rl_inv (roll_window t s)"
  by (auto simp: roll_window_def memory_rl_inv_def)

lemma roll_window_fields [simp]:
  "limits (roll_window t s) = limits s" "ttl_seconds (roll_window t s) = ttl_seconds s"
  by (simp_all add: roll_window_def)

text \<open>What a check does to the counters, on every branch.\<close>

lemma memory_rl_check_cases:
  assumes "memory_rl_inv s"
  obtains (bad) "e \<ge> 3" "memory_rl_check t e s = (RL_ERROR, None, roll_window t s)"
  | (full) s' where "e < 3" "nat (limits s ! e) \<le> unat (counters (roll_window t s) ! e)"
      "memory_rl_check t e s = (RL_EXCEEDED, Some 0, s')" "counters s' = counters (roll_window t s)"
      "window_started_at s' = window_started_at (roll_window t s)" "ttl_seconds s' = ttl_seconds s" "limits s' = limits s"
  | (room) s' k where "e < 3" "unat (counters (roll_window t s) ! e) < nat (limits s ! e)"
      "memory_rl_check t e s = (RL_ALLOWED, Some k, s')"
      "unat k = nat (limits s ! e) - (unat (counters (roll_window t s) ! e) + 1)"
      "counters s' = (counters (roll_window t s))[e := counters (roll_window t s) ! e + 1]"
      "unat (counters s' ! e) = unat (counters (roll_window t s) ! e) + 1"
      "window_started_at s' = window_started_at (roll_window t s)" "ttl_seconds s' = ttl_seconds s" "limits s' = limits s"
proof -
  let ?w = "roll_window t s" and ?l = "limits s ! e"
  let ?c = "counters ?w ! e"
  note w = roll_window_inv [OF assms, of t, unfolded memory_rl_inv_def]
  consider "e \<ge> 3" | "e < 3" "nat ?l \<le> unat ?c" | "e < 3" "unat ?c < nat ?l" by linarith
  then show thesis
  proof cases
    case 1 then show ?thesis by (intro bad) (simp_all add: memory_rl_check_def Let_def)
  next
    case 2
    then have "of_int ?l \<le> ?c" using w limit_le_iff [of ?l ?c] by simp
    with 2 show ?thesis
      by (intro full [of "?w\<lparr>total_hits := total_hits ?w + 1, total_exceeded := total_exceeded ?w + 1\<rparr>"])
        (simp_all add: memory_rl_check_def Let_def)
  next
    case 3
    have l: "0 < ?l" "?l \<le> INT_MAX" using w 3 by auto
    have le: "\<not> of_int ?l \<le> ?c" using 3 limit_le_iff [OF l, of ?c] by simp
    have s: "unat (?c + 1) = unat ?c + 1" by (rule unat_Suc_below [OF l 3(2)])
    have "unat (of_int ?l - (?c + 1)) = nat ?l - (unat ?c + 1)"
      using 3 s unat_of_limit [OF l] by (subst unat_sub) (simp_all add: word_le_nat_alt)
    with 3 w le s show ?thesis
      by (intro room [of "of_int ?l - (?c + 1)" "?w\<lparr>total_hits := total_hits ?w + 1, counters := (counters ?w)[e := ?c + 1]\<rparr>"])
        (simp_all add: memory_rl_check_def Let_def)
  qed
qed

lemma memory_rl_check_inv [gw_inv]:
  assumes "memory_rl_inv s" and "memory_rl_check t e s = (res, rem, s')"
  shows "memory_rl_inv s'"
proof -
  note w = roll_window_inv [OF assms(1), of t]
  show ?thesis
    by (rule memory_rl_check_cases [OF assms(1), of e t])
      (use assms(2) w in \<open>auto simp: memory_rl_inv_def nth_list_update\<close>)
qed

lemma int32_le: "int32 x \<le> INT_MAX"
  unfolding int32_def using pos_mod_bound [of "2 ^ 32" "x + 2 ^ 31"] by simp

lemma env_positive_bounds:
  assumes "0 < d" and "d \<le> INT_MAX"
  shows "0 < env_positive env n d" and "env_positive env n d \<le> INT_MAX"
  using assms int32_le by (auto simp: env_positive_def atoi_def split: option.splits)

lemma get_endpoint_limit_bounds:
  assumes "e < 3"
  shows "0 < get_endpoint_limit env e" and "get_endpoint_limit env e \<le> INT_MAX"
  using assms by (auto simp: get_endpoint_limit_def intro!: env_positive_bounds)

lemma get_ttl_seconds_pos: "0 < get_ttl_seconds env"
  unfolding get_ttl_seconds_def by (rule env_positive_bounds) simp_all

lemma memory_rl_init_inv: "memory_rl_init alloc env = Some s \<Longrightarrow> memory_rl_inv s"
  by (auto simp: memory_rl_init_def memory_rl_inv_def slots_def get_ttl_seconds_pos get_endpoint_limit_bounds
      split: if_splits)

lemma memory_run_inv:
  assumes "memory_rl_inv s"
  shows "memory_rl_inv (memory_run reqs s) \<and> limits (memory_run reqs s) = limits s \<and>
         ttl_seconds (memory_run reqs s) = ttl_seconds s"
  using assms
proof (induction reqs arbitrary: s)
  case Nil then show ?case by simp
next
  case (Cons q reqs)
  obtain t e where q: "q = (t, e)" by (cases q)
  obtain res rem s' where c: "memory_rl_check t e s = (res, rem, s')" by (cases "memory_rl_check t e s")
  have "limits s' = limits s \<and> ttl_seconds s' = ttl_seconds s"
    by (rule memory_rl_check_cases [OF Cons.prems, of e t]) (use c in auto)
  with Cons.IH [OF memory_rl_check_inv [OF Cons.prems c]] show ?case by (simp add: q c)
qed

text \<open>Inside one window the limiter admits a request exactly while its counter is below the limit.\<close>

lemma memory_serve_admits:
  assumes "memory_rl_inv s" and "window_started_at s \<noteq> 0" and "e < 3"
    and "\<forall>(t, _)\<in>set reqs. t - window_started_at s < ttl_seconds s"
  shows "admitted (\<lambda>q. snd q = e) reqs (memory_serve reqs s) =
           min (nat (limits s ! e) - unat (counters s ! e)) (length (filter (\<lambda>q. snd q = e) reqs))"
  using assms
proof (induction reqs arbitrary: s)
  case Nil then show ?case by (simp add: admitted_def)
next
  case (Cons q reqs)
  obtain t e' where q: "q = (t, e')" by (cases q)
  have roll: "roll_window t s = s" using Cons.prems by (auto simp: roll_window_def q)
  obtain res rem s' where c: "memory_rl_check t e' s = (res, rem, s')" by (cases "memory_rl_check t e' s")
  have inv: "memory_rl_inv s'" using memory_rl_check_inv [OF Cons.prems(1) c] .
  have len: "e < length (counters s)" using Cons.prems by (simp add: memory_rl_inv_def)
  show ?case
    by (rule memory_rl_check_cases [OF Cons.prems(1), of e' t])
      (use Cons.prems inv len c in \<open>auto simp: q roll admitted_def Cons.IH [unfolded admitted_def]\<close>)
qed


lemma memory_serve_roll:
  assumes "memory_rl_inv s" and "t \<noteq> 0"
  shows "memory_serve ((t, e) # reqs) s = memory_serve ((t, e) # reqs) (roll_window t s)"
proof -
  have "0 < ttl_seconds s" using assms by (simp add: memory_rl_inv_def)
  then have "roll_window t (roll_window t s) = roll_window t s" using assms(2) by (simp add: roll_window_def)
  then show ?thesis by (simp add: memory_rl_check_def)
qed

text \<open>
  C19. The memory limiter enforces its limit exactly. Take a limiter created from the environment, in
  the state any earlier requests left it in, and a request at a time when no window is open. Of it and
  of all requests that follow inside the new window, an endpoint is granted exactly the first ones up
  to its configured limit: the number admitted is the smaller of the limit and the number asked.
\<close>

theorem memory_rl_window:
  assumes "memory_rl_init True env = Some s0" and "s = memory_run earlier s0"
    and "opens_window t s" and "t \<noteq> 0" and "e < 3"
    and "\<forall>(t', _)\<in>set reqs. t' < t + ttl_seconds s"
  shows "admitted (\<lambda>q. snd q = e) ((t, e0) # reqs) (memory_serve ((t, e0) # reqs) s) =
           min (nat (get_endpoint_limit env e)) (length (filter (\<lambda>q. snd q = e) ((t, e0) # reqs)))"
proof -
  have inv: "memory_rl_inv s" and lim: "limits s = limits s0"
    using memory_run_inv [OF memory_rl_init_inv [OF assms(1)]] assms(2) by simp_all
  let ?w = "roll_window t s"
  have w: "window_started_at ?w = t" "counters ?w = replicate 3 0"
    using assms(3) by (simp_all add: roll_window_def opens_window_def)
  have l: "limits s0 ! e = get_endpoint_limit env e"
    using assms(1,5) by (auto simp: memory_rl_init_def slots_def)
  have "0 < ttl_seconds s" using inv by (simp add: memory_rl_inv_def)
  then have "\<forall>(t', _)\<in>set ((t, e0) # reqs). t' - window_started_at ?w < ttl_seconds ?w"
    using assms(6) by (auto simp: w)
  from memory_serve_admits [OF roll_window_inv [OF inv] _ assms(5) this]
  show ?thesis using assms(4,5) by (simp add: w l lim memory_serve_roll [OF inv assms(4)] del: memory_serve.simps)
qed

section \<open>The shared Redis window\<close>

lemma build_redis_key_endpoint:
  "build_redis_key e t k w = Some key \<Longrightarrow> build_redis_key e' t' k' w' = Some key \<Longrightarrow> e = e' \<and> e < 3"
  by (auto simp: build_redis_key_def endpoint_str_def Let_def split: if_splits option.splits)

lemma redis_rl_check_no_key:
  "redis_ctx st \<Longrightarrow> build_redis_key e t k (get_window_start now (rs_ttl_seconds st)) = None \<Longrightarrow>
     redis_rl_check True api now e t k st r = ((RL_ERROR, None, st), r)"
  by (simp add: redis_rl_check_def)

lemma redis_rl_check_counts:
  assumes "redis_ctx st" and "redis_counts api val"
    and "build_redis_key e t k (get_window_start now (rs_ttl_seconds st)) = Some key"
  obtains r' rem where
    "redis_rl_check True api now e t k st r =
       ((if int (val r key) < rs_limits st ! e then RL_ALLOWED else RL_EXCEEDED, rem,
         st\<lparr>redis_queries := redis_queries st + 1\<rparr>), r')"
    "val r' = (val r)(key := val r key + 1)"
proof -
  obtain r1 where i: "redis_incr api key r = (Some (Redis_Integer (int (val r key) + 1)), r1)"
      "val r1 = (val r)(key := val r key + 1)"
    using assms(2) unfolding redis_counts_def by (metis prod.collapse)
  have x: "val (redis_expire api key n r1) = val r1" for n using assms(2) by (simp add: redis_counts_def)
  show thesis
    by (rule that [of "if int (val r key) < rs_limits st ! e
                       then Some (of_int (rs_limits st ! e - (int (val r key) + 1))) else Some 0"
          "if val r key = 0 then redis_expire api key (rs_ttl_seconds st + 10) r1 else r1"])
      (use assms i x in \<open>auto simp: redis_rl_check_def Let_def\<close>)
qed

lemma same_gateways_nth:
  "same_gateways L ttl sts \<Longrightarrow> i < length sts \<Longrightarrow>
     redis_ctx (sts ! i) \<and> rs_limits (sts ! i) = L \<and> rs_ttl_seconds (sts ! i) = ttl"
  by (simp add: same_gateways_def)

lemma same_gateways_update:
  "same_gateways L ttl sts \<Longrightarrow> redis_ctx st \<Longrightarrow> rs_limits st = L \<Longrightarrow> rs_ttl_seconds st = ttl \<Longrightarrow>
     same_gateways L ttl (sts[i := st])"
  unfolding same_gateways_def using set_update_subset_insert [of sts i st] by blast

text \<open>
  C20. The Redis limiter enforces one limit for all gateways that share the server. Let them be
  connected, with the same limits and period, and let the server count as documented. Of the requests
  the gateways receive, in any interleaving, those that fall on one key (endpoint, tenant, API key and
  window) are admitted exactly up to what the key's counter leaves of the limit.
\<close>

theorem redis_rl_global_window:
  assumes "redis_counts api val" and "same_gateways L ttl sts"
    and "\<forall>q\<in>set reqs. rq_gateway q < length sts"
    and "build_redis_key e t k w = Some key"
  shows "admitted (\<lambda>q. request_key ttl q = Some key) reqs (redis_serve True api reqs sts r) =
           min (nat (L ! e - int (val r key))) (length (filter (\<lambda>q. request_key ttl q = Some key) reqs))"
  using assms(2,3)
proof (induction reqs arbitrary: sts r)
  case Nil then show ?case by (simp add: admitted_def)
next
  case (Cons q reqs)
  let ?st = "sts ! rq_gateway q"
  have st: "redis_ctx ?st" "rs_limits ?st = L" "rs_ttl_seconds ?st = ttl"
    using same_gateways_nth [OF Cons.prems(1)] Cons.prems(2) by auto
  show ?case
  proof (cases "request_key ttl q")
    case None
    with st have c: "redis_rl_check True api (rq_now q) (rq_endpoint q) (rq_tenant q) (rq_api_key q) ?st r =
        ((RL_ERROR, None, ?st), r)"
      by (intro redis_rl_check_no_key) (simp_all add: request_key_def)
    show ?thesis using Cons.IH [OF Cons.prems(1)] Cons.prems(2) by (simp add: c None admitted_def)
  next
    case (Some key')
    then obtain r' rem where c: "redis_rl_check True api (rq_now q) (rq_endpoint q) (rq_tenant q) (rq_api_key q) ?st r =
        ((if int (val r key') < rs_limits ?st ! rq_endpoint q then RL_ALLOWED else RL_EXCEEDED, rem,
          ?st\<lparr>redis_queries := redis_queries ?st + 1\<rparr>), r')"
      and v: "val r' = (val r)(key' := val r key' + 1)"
      using redis_rl_check_counts [OF st(1) assms(1), of "rq_endpoint q" "rq_tenant q" "rq_api_key q" "rq_now q" key' r]
      unfolding request_key_def st by metis
    have e: "key' = key \<Longrightarrow> rq_endpoint q = e"
      using build_redis_key_endpoint [OF assms(4)] Some by (auto simp: request_key_def)
    have "same_gateways L ttl (sts[rq_gateway q := ?st\<lparr>redis_queries := redis_queries ?st + 1\<rparr>])"
      by (rule same_gateways_update [OF Cons.prems(1)]) (simp_all add: st)
    from Cons.IH [OF this, of r'] Cons.prems(2) e show ?thesis
      by (auto simp: c Some admitted_def v st)
  qed
qed


section \<open>Keys\<close>

lemma split_first:
  assumes "a @ c # x = b @ c # y" and "c \<notin> set a" and "c \<notin> set b"
  shows "a = b \<and> x = y"
proof -
  have "takeWhile (\<lambda>z. z \<noteq> c) (a @ c # x) = a" "takeWhile (\<lambda>z. z \<noteq> c) (b @ c # y) = b"
    using assms(2,3) by (simp_all add: takeWhile_tail takeWhile_eq_all_conv)
      (metis (mono_tags, lifting) append_Nil2 takeWhile_append2 takeWhile.simps(2))+
  with assms(1) show ?thesis by simp
qed

lemma split_last:
  assumes "x @ c # a = y @ c # b" and "c \<notin> set a" and "c \<notin> set b"
  shows "x = y \<and> a = b"
proof -
  have "rev a @ c # rev x = rev b @ c # rev y" using arg_cong [OF assms(1), of rev] by simp
  from split_first [OF this] assms(2,3) show ?thesis by simp
qed

lemma dec_nat_inject [simp]: "dec_nat m = dec_nat n \<longleftrightarrow> m = n"
  by (metis read_digits_dec_nat)

lemma dec_int_no_colon: "CHR '':'' \<notin> set (dec_int i)"
proof -
  have "CHR '':'' \<notin> set (dec_nat n)" for n using dec_nat_digits [of "CHR '':''" n] by (auto simp: is_digit_def)
  then show ?thesis by (simp add: dec_int_def)
qed

lemma dec_int_inject: "dec_int i = dec_int j \<Longrightarrow> i = j"
proof -
  have "dec_nat m \<noteq> CHR ''-'' # s" for m s
    using dec_nat_digits [of "CHR ''-''" m] by (auto simp: is_digit_def)
  then show "dec_int i = dec_int j \<Longrightarrow> i = j"
    by (auto simp: dec_int_def split: if_splits) (metis)+
qed

text \<open>
  Distinct clients have distinct counters: when tenant ids contain no colon, two requests share a
  Redis key only if they agree in endpoint, tenant, API key and window.
\<close>

theorem redis_key_separates:
  assumes "build_redis_key e (Some t) (Some k) w = Some key" and "build_redis_key e' (Some t') (Some k') w' = Some key"
    and "CHR '':'' \<notin> set t" and "CHR '':'' \<notin> set t'"
  shows "e = e' \<and> t = t' \<and> k = k' \<and> w = w'"
proof -
  have e: "e = e'" using build_redis_key_endpoint [OF assms(1,2)] by simp
  then have eq: "t @ CHR '':'' # (k @ CHR '':'' # dec_int w) = t' @ CHR '':'' # (k' @ CHR '':'' # dec_int w')"
    using assms(1,2) by (auto simp: build_redis_key_def Let_def split: option.splits if_splits)
  from split_first [OF this assms(3,4)] have "t = t'" "k @ CHR '':'' # dec_int w = k' @ CHR '':'' # dec_int w'"
    by simp_all
  with split_last [OF this(2) dec_int_no_colon dec_int_no_colon] e show ?thesis by (simp add: dec_int_inject)
qed

theorem redis_key_separates_witness:
  "build_redis_key 1 (Some ''acme'') (Some ''k:1'') 60 = Some ''rate_limit:messages:acme:k:1:60'' \<and>
   (build_redis_key 1 (Some ''acme'') (Some ''k:1'') 60 = build_redis_key 1 (Some ''other'') (Some ''k:1'') 60) = False"
proof -
  have k: "build_redis_key 1 (Some ''acme'') (Some ''k:1'') 60 = Some ''rate_limit:messages:acme:k:1:60''"
    by (simp add: build_redis_key_def endpoint_str_def dec_int_def dec_nat.simps)
  show ?thesis using redis_key_separates [of 1 "''acme''" "''k:1''" 60 _ 1 "''acme''" "''k:1''" 60, OF k k]
      redis_key_separates [of 1 "''acme''" "''k:1''" 60 _ 1 "''other''" "''k:1''" 60, OF k] k by auto
qed

text \<open>A colon in a tenant id makes two clients share one counter.\<close>

lemma redis_key_collision:
  "build_redis_key e (Some ''acme:eu'') (Some ''k1'') w = build_redis_key e (Some ''acme'') (Some ''eu:k1'') w"
  by (cases "endpoint_str e") (simp_all add: build_redis_key_def Let_def)

section \<open>The fallback\<close>

lemma use_fallback_eq:
  "memory_rl_check now e m = (res, rem, m') \<Longrightarrow>
     use_fallback now e m st = (res, rem, st\<lparr>fallback_used := fallback_used st + 1, fallback_limiter := Some m'\<rparr>)"
  by (simp add: use_fallback_def)

text \<open>
  Local limiting: the requests that are refused get \<open>RL_ERROR\<close> and the others are a sequence for the
  memory limiter.
\<close>

fun local_serve :: "(rl_request \<Rightarrow> bool) \<Rightarrow> rl_request list \<Rightarrow> memory_rl_state_t \<Rightarrow> rl_result_t list" where
  "local_serve refuses [] m = []"
| "local_serve refuses (q # reqs) m =
     (if refuses q then RL_ERROR # local_serve refuses reqs m
      else (let (res, _, m') = memory_rl_check (rq_now q) (rq_endpoint q) m in res # local_serve refuses reqs m'))"

lemma local_serve_all: "local_serve (\<lambda>_. False) reqs m = memory_serve (map (\<lambda>q. (rq_now q, rq_endpoint q)) reqs) m"
  by (induction reqs arbitrary: m) (simp_all add: case_prod_beta)

lemma redis_serve_fallback:
  assumes "\<not> redis_ctx st" and "fallback_limiter st = Some m" and "\<forall>q\<in>set reqs. rq_gateway q = 0"
  shows "redis_serve hiredis api reqs [st] r = local_serve (\<lambda>_. False) reqs m"
  using assms
proof (induction reqs arbitrary: st m r)
  case Nil then show ?case by simp
next
  case (Cons q reqs)
  obtain res rem m' where c: "memory_rl_check (rq_now q) (rq_endpoint q) m = (res, rem, m')"
    by (cases "memory_rl_check (rq_now q) (rq_endpoint q) m")
  show ?case using Cons.prems by (simp add: redis_rl_check_def use_fallback_eq [OF c] c Cons.IH)
qed

text \<open>With a context that carries an error every command fails, and the key is built before that.\<close>

lemma redis_serve_error:
  assumes "redis_ctx st" "fallback_limiter st = Some m" "rs_fallback_to_local st" "\<forall>k s. fst (redis_incr api k s) = None"
    "\<forall>q\<in>set reqs. rq_gateway q = 0"
  shows "redis_serve True api reqs [st] r = local_serve (\<lambda>q. request_key (rs_ttl_seconds st) q = None) reqs m"
  using assms
proof (induction reqs arbitrary: st m r)
  case Nil then show ?case by simp
next
  case (Cons q reqs)
  have q: "rq_gateway q = 0" "\<forall>q\<in>set reqs. rq_gateway q = 0" using Cons.prems(5) by simp_all
  show ?case
  proof (cases "request_key (rs_ttl_seconds st) q")
    case None
    then show ?thesis using Cons.IH [OF Cons.prems(1-4) q(2)] Cons.prems q by (simp add: redis_rl_check_def request_key_def)
  next
    case (Some key)
    obtain r1 where i: "redis_incr api key r = (None, r1)" using Cons.prems(4) by (metis prod.collapse)
    obtain res rem m' where c: "memory_rl_check (rq_now q) (rq_endpoint q) m = (res, rem, m')"
      by (cases "memory_rl_check (rq_now q) (rq_endpoint q) m")
    let ?st = "st\<lparr>redis_errors := redis_errors st + 1, fallback_used := fallback_used st + 1, fallback_limiter := Some m'\<rparr>"
    have "redis_rl_check True api (rq_now q) (rq_endpoint q) (rq_tenant q) (rq_api_key q) st r = ((res, rem, ?st), r1)"
      using Cons.prems Some i by (simp add: redis_rl_check_def request_key_def use_fallback_eq [OF c])
    then show ?thesis using Cons.IH [of ?st m' r1] Cons.prems q Some c by simp
  qed
qed

lemma new_fallback_eq: "new_fallback alloc env = Some m \<Longrightarrow> memory_rl_init True env = Some m"
  by (auto simp: new_fallback_def memory_rl_init_def split: if_splits)

text \<open>
  C21. A Redis limiter that could not connect limits locally. Created in the build without hiredis, or
  when the connection attempt failed, it answers every sequence of requests as a memory limiter created
  from the same environment, whatever the tenants and keys and whatever the server does. Only after a
  refused connection, for which hiredis returns a context that carries an error and fails every command,
  a request whose key is too long gets \<open>RL_ERROR\<close>, and the memory limiter does not see it.
\<close>

theorem redis_rl_fallback_refines:
  assumes "redis_rl_init hiredis alloc api env config r = (Some st, r')"
    and "hiredis \<longrightarrow> conn = fst (redis_connect api (rs_host st) (rs_port st) (rs_timeout_ms st) r) \<and> conn \<noteq> Ctx_Ok"
    and "hiredis \<and> conn = Ctx_Err \<longrightarrow> (\<forall>k s. fst (redis_incr api k s) = None)"
    and "memory_rl_init True env = Some m" and "\<forall>q\<in>set reqs. rq_gateway q = 0"
  shows "redis_serve hiredis api reqs [st] r' =
    (if hiredis \<and> conn = Ctx_Err then local_serve (\<lambda>q. request_key (rs_ttl_seconds st) q = None) reqs m
     else memory_serve (map (\<lambda>q. (rq_now q, rq_endpoint q)) reqs) m)"
proof -
  have "fallback_limiter st = Some m" "rs_fallback_to_local st" "redis_ctx st \<longleftrightarrow> hiredis \<and> conn = Ctx_Err"
    using assms(1,2,4) by (auto simp: redis_rl_init_def Let_def dest!: new_fallback_eq split: if_splits prod.splits option.splits)
  then show ?thesis
    using redis_serve_fallback [of st m reqs hiredis api r'] redis_serve_error [of st m api reqs r'] assms(3,5)
    by (auto simp: local_serve_all simp del: redis_serve.simps local_serve.simps memory_serve.simps)
qed

lemma redis_rl_check_silent:
  assumes "redis_ctx st \<and> fallback_limiter st = None" and "\<forall>k s. fst (redis_incr api k s) = None"
  obtains st' r' where "redis_rl_check True api now e t k st r = ((RL_ERROR, None, st'), r')"
    "redis_ctx st' \<and> fallback_limiter st' = None"
proof (cases "build_redis_key e t k (get_window_start now (rs_ttl_seconds st))")
  case None
  with assms show thesis by (intro that) (simp_all add: redis_rl_check_def)
next
  case (Some key)
  obtain r1 where i: "redis_incr api key r = (None, r1)" using assms(2) by (metis prod.collapse)
  show thesis
    by (rule that [of "st\<lparr>redis_errors := redis_errors st + 1\<rparr>" r1])
      (use assms(1) in \<open>simp_all add: redis_rl_check_def Some i Let_def split: bool.splits\<close>)
qed

text \<open>
  C22. A limiter that did connect has no fallback. Once Redis stops answering, every later request gets
  \<open>RL_ERROR\<close>, also when falling back to local limiting is configured.
\<close>

theorem redis_rl_connected_no_fallback:
  assumes "redis_rl_init True alloc api env config r = (Some st, r')"
    and "fst (redis_connect api (rs_host st) (rs_port st) (rs_timeout_ms st) r) = Ctx_Ok"
    and "\<forall>k s. fst (redis_incr api' k s) = None" and "\<forall>q\<in>set reqs. rq_gateway q = 0"
  shows "redis_serve True api' reqs [st] r'' = replicate (length reqs) RL_ERROR"
proof -
  have "redis_ctx st \<and> fallback_limiter st = None"
    using assms(1,2) by (auto simp: redis_rl_init_def Let_def split: if_splits prod.splits option.splits)
  then show ?thesis using assms(4)
  proof (induction reqs arbitrary: st r'')
    case Nil then show ?case by simp
  next
    case (Cons q reqs)
    obtain st' r3 where c: "redis_rl_check True api' (rq_now q) (rq_endpoint q) (rq_tenant q) (rq_api_key q) st r'' =
        ((RL_ERROR, None, st'), r3)" "redis_ctx st' \<and> fallback_limiter st' = None"
      by (rule redis_rl_check_silent [OF Cons.prems(1) assms(3)])
    with Cons.IH [OF c(2)] Cons.prems show ?case by simp
  qed
qed


section \<open>The contract of the function table\<close>

text \<open>
  What a caller of \<open>check\<close> relies on: the limits stay, an admitted request names an endpoint in range
  and leaves fewer than its limit, a refused one leaves none.
\<close>

locale limiter =
  fixes check :: "'x \<Rightarrow> nat \<Rightarrow> 's \<Rightarrow> rl_result_t \<times> u32 option \<times> 's"
    and quota :: "'s \<Rightarrow> nat \<Rightarrow> nat"
    and ok :: "'s \<Rightarrow> bool"
  assumes keeps: "ok s \<Longrightarrow> check x e s = (res, rem, s') \<Longrightarrow> ok s' \<and> quota s' = quota s"
    and allows: "ok s \<Longrightarrow> check x e s = (RL_ALLOWED, rem, s') \<Longrightarrow> e < RL_ENDPOINT_MAX \<and> (\<exists>k. rem = Some k \<and> unat k < quota s e)"
    and refuses: "ok s \<Longrightarrow> check x e s = (RL_EXCEEDED, rem, s') \<Longrightarrow> rem = Some 0"
begin

lemma run_remaining:
  assumes "ok s" and "(e, res, rem) \<in> set (limiter_run check calls s)"
  shows "(res = RL_ALLOWED \<longrightarrow> e < RL_ENDPOINT_MAX \<and> (\<exists>k. rem = Some k \<and> unat k < quota s e)) \<and>
         (res = RL_EXCEEDED \<longrightarrow> rem = Some 0)"
  using assms
proof (induction calls arbitrary: s)
  case Nil then show ?case by simp
next
  case (Cons c calls)
  obtain x e1 where c: "c = (x, e1)" by (cases c)
  obtain res1 rem1 s1 where s1: "check x e1 s = (res1, rem1, s1)" by (cases "check x e1 s")
  note k = keeps [OF Cons.prems(1) s1]
  from Cons.prems(2) consider "(e, res, rem) = (e1, res1, rem1)" | "(e, res, rem) \<in> set (limiter_run check calls s1)"
    by (auto simp: c s1)
  then show ?case
  proof cases
    case 1 then show ?thesis using allows [OF Cons.prems(1)] refuses [OF Cons.prems(1)] s1 by blast
  next
    case 2 then show ?thesis using Cons.IH [of s1] k by simp
  qed
qed

end

lemma memory_rl_check_contract:
  assumes "memory_rl_inv m" and "memory_rl_check t e m = (res, rem, m')"
  shows "memory_rl_inv m' \<and> limits m' = limits m"
    and "res = RL_ALLOWED \<Longrightarrow> e < 3 \<and> (\<exists>k. rem = Some k \<and> unat k < nat (limits m ! e))"
    and "res = RL_EXCEEDED \<Longrightarrow> rem = Some 0"
proof -
  have "limits m' = limits m" by (rule memory_rl_check_cases [OF assms(1), of e t]) (use assms(2) in auto)
  then show "memory_rl_inv m' \<and> limits m' = limits m" using memory_rl_check_inv [OF assms] by simp
  show "res = RL_ALLOWED \<Longrightarrow> e < 3 \<and> (\<exists>k. rem = Some k \<and> unat k < nat (limits m ! e))"
    by (rule memory_rl_check_cases [OF assms(1), of e t]) (use assms(2) in auto)
  show "res = RL_EXCEEDED \<Longrightarrow> rem = Some 0"
    by (rule memory_rl_check_cases [OF assms(1), of e t]) (use assms(2) in auto)
qed

interpretation memory_table: limiter memory_rl_check "\<lambda>m e. nat (limits m ! e)" memory_rl_inv
  by unfold_locales (use memory_rl_check_contract in \<open>fastforce+\<close>)

text \<open>The Redis check, reduced to its four outcomes.\<close>

lemma redis_rl_check_cases:
  assumes "redis_rl_check hiredis api now e t k st r = ((res, rem, st'), r')"
  obtains (fallback) m m' where "fallback_limiter st = Some m" "memory_rl_check now e m = (res, rem, m')"
      "fallback_limiter st' = Some m'" "rs_limits st' = rs_limits st" "rs_ttl_seconds st' = rs_ttl_seconds st"
  | (error) "res = RL_ERROR" "fallback_limiter st' = fallback_limiter st"
      "rs_limits st' = rs_limits st" "rs_ttl_seconds st' = rs_ttl_seconds st"
  | (count) key n where "e < 3" "fst (redis_incr api key r) = Some (Redis_Integer n)"
      "res = (if n > rs_limits st ! e then RL_EXCEEDED else RL_ALLOWED)"
      "rem = Some (if n > rs_limits st ! e then 0 else of_int (rs_limits st ! e - n))"
      "fallback_limiter st' = fallback_limiter st" "rs_limits st' = rs_limits st" "rs_ttl_seconds st' = rs_ttl_seconds st"
proof (cases "redis_ctx st")
  case False
  show thesis
  proof (cases "fallback_limiter st")
    case None
    with False assms show thesis by (intro error) (auto simp: redis_rl_check_def split: if_splits)
  next
    case (Some m)
    obtain res1 rem1 m' where m: "memory_rl_check now e m = (res1, rem1, m')" by (cases "memory_rl_check now e m")
    with False Some assms show thesis
      by (intro fallback [of m m']) (auto simp: redis_rl_check_def use_fallback_eq [OF m])
  qed
next
  case True
  note redis_rl_check_def [simp] and ctx = True
  show thesis
  proof (cases "hiredis \<and> build_redis_key e t k (get_window_start now (rs_ttl_seconds st)) \<noteq> None")
    case False
    with True assms fallback error show thesis
      by (auto simp: use_fallback_def split: option.splits if_splits prod.splits)
  next
    case True
    then obtain key where h: "hiredis" "build_redis_key e t k (get_window_start now (rs_ttl_seconds st)) = Some key"
      by auto
    have e: "e < 3" using build_redis_key_endpoint [OF h(2) h(2)] by simp
    obtain reply r1 where i: "redis_incr api key r = (reply, r1)" by (cases "redis_incr api key r")
    show thesis
    proof (cases reply)
      case None
      with ctx h i assms fallback error show thesis
        by (auto simp: use_fallback_def Let_def split: option.splits if_splits prod.splits bool.splits)
    next
      case (Some rep)
      with ctx h i assms error count [OF e, of key] show thesis
        by (cases rep) (auto simp: Let_def split: if_splits)
    qed
  qed
qed

lemma redis_rl_check_contract:
  assumes "redis_rl_inv st" and "redis_positive api" and "redis_rl_check hiredis api now e t k st r = ((res, rem, st'), r')"
  shows "redis_rl_inv st' \<and> rs_limits st' = rs_limits st"
    and "res = RL_ALLOWED \<Longrightarrow> e < 3 \<and> (\<exists>x. rem = Some x \<and> unat x < nat (rs_limits st ! e))"
    and "res = RL_EXCEEDED \<Longrightarrow> rem = Some 0"
proof -
  have lim: "e < 3 \<Longrightarrow> 0 < rs_limits st ! e \<and> rs_limits st ! e \<le> INT_MAX"
    using assms(1) by (simp add: redis_rl_inv_def)
  have u: "unat (of_int (rs_limits st ! e - n) :: u32) < nat (rs_limits st ! e)"
    if "e < 3" "1 \<le> n" "n \<le> rs_limits st ! e" for n
  proof (cases "n = rs_limits st ! e")
    case True then show ?thesis using lim [OF that(1)] by simp
  next
    case False then show ?thesis using that lim [OF that(1)] by (subst unat_of_limit) auto
  qed
  have m: "memory_rl_inv m \<and> limits m = rs_limits st" if "fallback_limiter st = Some m" for m
    using assms(1) that by (simp add: redis_rl_inv_def)
  have pos: "1 \<le> n" if "fst (redis_incr api key r) = Some (Redis_Integer n)" for key n
    using assms(2) that by (auto simp: redis_positive_def)
  have c: "redis_rl_inv st' \<and> rs_limits st' = rs_limits st \<and>
    (res = RL_ALLOWED \<longrightarrow> e < 3 \<and> (\<exists>x. rem = Some x \<and> unat x < nat (rs_limits st ! e))) \<and>
    (res = RL_EXCEEDED \<longrightarrow> rem = Some 0)"
    using assms(3)
  proof (cases rule: redis_rl_check_cases)
    case (fallback m1 m2)
    note k = memory_rl_check_contract [OF conjunct1 [OF m [OF fallback(1)]] fallback(2)]
    show ?thesis using k fallback m [OF fallback(1)] assms(1) by (auto simp: redis_rl_inv_def)
  next
    case error then show ?thesis using assms(1) by (auto simp: redis_rl_inv_def split: option.splits)
  next
    case (count key n) then show ?thesis using u [OF count(1) pos [OF count(2)]] assms(1)
      by (auto simp: redis_rl_inv_def split: option.splits)
  qed
  then show "redis_rl_inv st' \<and> rs_limits st' = rs_limits st" by blast
  show "res = RL_ALLOWED \<Longrightarrow> e < 3 \<and> (\<exists>x. rem = Some x \<and> unat x < nat (rs_limits st ! e))" using c by blast
  show "res = RL_EXCEEDED \<Longrightarrow> rem = Some 0" using c by blast
qed

lemma table_contract:
  assumes "limiter_inv l" and "redis_positive api" and "rate_limiter_check hiredis api now e t k (l, r) = (res, rem, s')"
  shows "limiter_inv (fst s') \<and> limiter_quota (fst s') = limiter_quota l"
    and "res = RL_ALLOWED \<Longrightarrow> e < 3 \<and> (\<exists>x. rem = Some x \<and> unat x < limiter_quota l e)"
    and "res = RL_EXCEEDED \<Longrightarrow> rem = Some 0"
proof -
  have c: "limiter_inv (fst s') \<and> limiter_quota (fst s') = limiter_quota l \<and>
    (res = RL_ALLOWED \<longrightarrow> e < 3 \<and> (\<exists>x. rem = Some x \<and> unat x < limiter_quota l e)) \<and> (res = RL_EXCEEDED \<longrightarrow> rem = Some 0)"
  proof (cases l)
    case (Memory_Limiter m)
    obtain m' where m: "memory_rl_check now e m = (res, rem, m')" "s' = (Memory_Limiter m', r)"
      using assms(3) by (auto simp: Memory_Limiter split: prod.splits)
    have "memory_rl_inv m" using assms(1) Memory_Limiter by simp
    from memory_rl_check_contract [OF this m(1)] show ?thesis by (auto simp: Memory_Limiter m fun_eq_iff)
  next
    case (Redis_Limiter st)
    obtain st' r' where m: "redis_rl_check hiredis api now e t k st r = ((res, rem, st'), r')" "s' = (Redis_Limiter st', r')"
      using assms(3) by (auto simp: Redis_Limiter split: prod.splits)
    have "redis_rl_inv st" using assms(1) Redis_Limiter by simp
    from redis_rl_check_contract [OF this assms(2) m(1)] show ?thesis by (auto simp: Redis_Limiter m fun_eq_iff)
  qed
  then show "limiter_inv (fst s') \<and> limiter_quota (fst s') = limiter_quota l" by blast
  show "res = RL_ALLOWED \<Longrightarrow> e < 3 \<and> (\<exists>x. rem = Some x \<and> unat x < limiter_quota l e)" using c by blast
  show "res = RL_EXCEEDED \<Longrightarrow> rem = Some 0" using c by blast
qed

interpretation table: limiter "table_check hiredis api" "\<lambda>s. limiter_quota (fst s)"
  "\<lambda>s. limiter_inv (fst s) \<and> redis_positive api" for hiredis and api :: "'r redis_api"
proof
  fix s s' :: "rate_limiter_t \<times> 'r" and x :: "int \<times> string option \<times> string option" and e res rem
  assume ok: "limiter_inv (fst s) \<and> redis_positive api" and c: "table_check hiredis api x e s = (res, rem, s')"
  obtain l r where s: "s = (l, r)" by (cases s)
  obtain now t k where x: "x = (now, t, k)" by (cases x)
  show "(limiter_inv (fst s') \<and> redis_positive api) \<and> limiter_quota (fst s') = limiter_quota (fst s)"
    using ok c table_contract(1) [of l api hiredis now e t k r res rem s'] by (simp add: s x table_check_def)
next
  fix s s' :: "rate_limiter_t \<times> 'r" and x :: "int \<times> string option \<times> string option" and e rem
  assume ok: "limiter_inv (fst s) \<and> redis_positive api"
  obtain l r where s: "s = (l, r)" by (cases s)
  obtain now t k where x: "x = (now, t, k)" by (cases x)
  show "table_check hiredis api x e s = (RL_ALLOWED, rem, s') \<Longrightarrow>
      e < 3 \<and> (\<exists>k. rem = Some k \<and> unat k < limiter_quota (fst s) e)"
    using ok table_contract(2) [of l api hiredis now e t k r _ rem s'] by (simp add: s x table_check_def)
  show "table_check hiredis api x e s = (RL_EXCEEDED, rem, s') \<Longrightarrow> rem = Some 0"
    using ok table_contract(3) [of l api hiredis now e t k r _ rem s'] by (simp add: s x table_check_def)
qed

lemma rate_limiter_create_inv:
  assumes "rate_limiter_create hiredis alloc api env config r = (Some l, r')"
  shows "limiter_inv l \<and> (\<forall>e < 3. limiter_quota l e = nat (get_endpoint_limit env e))"
proof -
  have m: "memory_rl_inv m \<and> limits m = map (get_endpoint_limit env) (slots 3)" if "memory_rl_init a env = Some m" for m a
    using memory_rl_init_inv [OF that] that by (auto simp: memory_rl_init_def split: if_splits)
  have q: "e < 3 \<Longrightarrow> map (get_endpoint_limit env) (slots 3) ! e = get_endpoint_limit env e" for e by (simp add: slots_def)
  have st: "redis_rl_inv st \<and> rs_limits st = map (get_endpoint_limit env) (slots 3)"
    if "redis_rl_init hiredis a api env c r = (Some st, r1)" for a c st r1
    using that m [OF new_fallback_eq] get_ttl_seconds_pos [of env] get_endpoint_limit_bounds q
    by (auto simp: redis_rl_init_def redis_rl_inv_def Let_def slots_def split: if_splits prod.splits option.splits)
  show ?thesis
    using assms q
    by (auto simp: rate_limiter_create_def rate_limiter_memory_create_def rate_limiter_redis_create_def
        dest!: m st split: option.splits if_splits prod.splits)
qed

text \<open>
  Every limiter the factory creates, whatever the configuration, the build and the environment,
  reports a correct remaining count over every sequence of calls: an admitted call is for an endpoint
  in range and leaves fewer calls than the endpoint's configured limit, a refused call leaves zero.
  INCR is taken to return positive counts.
\<close>

theorem rate_limiter_remaining:
  assumes "rate_limiter_create hiredis alloc api env config r = (Some l, r')" and "redis_positive api"
    and "(e, res, rem) \<in> set (limiter_run (table_check hiredis api) calls (l, r'))"
  shows "(res = RL_ALLOWED \<longrightarrow> e < 3 \<and> (\<exists>k. rem = Some k \<and> int (unat k) < get_endpoint_limit env e)) \<and>
         (res = RL_EXCEEDED \<longrightarrow> rem = Some 0)"
proof -
  note c = rate_limiter_create_inv [OF assms(1)]
  have "limiter_inv (fst (l, r')) \<and> redis_positive api" using c assms(2) by simp
  from table.run_remaining [OF this assms(3)] c show ?thesis by (auto simp: zless_nat_eq_int_zless)
qed

lemma config_usable_default: "config_usable rate_limiter_get_default_config"
  by (simp add: config_usable_def rate_limiter_get_default_config_def)

lemma config_usable_updates [gw_inv]:
  assumes "config_usable c"
  shows "config_usable (c\<lparr>rl_enabled := b\<rparr>)" "config_usable (c\<lparr>fallback_to_local := b\<rparr>)"
    "config_usable (c\<lparr>rl_backend := c_copy 32 s\<rparr>)" "config_usable (c\<lparr>redis_host := c_copy 64 s\<rparr>)"
    "length s < 64 \<Longrightarrow> config_usable (c\<lparr>redis_host := s\<rparr>)"
    "0 < n \<Longrightarrow> n \<le> INT_MAX \<Longrightarrow> config_usable (c\<lparr>redis_port := n\<rparr>)"
    "config_usable (c\<lparr>redis_port := env_positive env v (redis_port c)\<rparr>)"
    "config_usable (c\<lparr>redis_timeout_ms := env_positive env v (redis_timeout_ms c)\<rparr>)"
    "config_usable (c\<lparr>local_cache_ttl_seconds := env_positive env v (local_cache_ttl_seconds c)\<rparr>)"
    "config_usable (c\<lparr>sync_interval_seconds := env_positive env v (sync_interval_seconds c)\<rparr>)"
  using assms by (simp_all add: config_usable_def env_positive_bounds length_c_copy)

lemma config_usable_cases:
  shows "(b \<Longrightarrow> config_usable x) \<Longrightarrow> (\<not> b \<Longrightarrow> config_usable y) \<Longrightarrow> config_usable (if b then x else y)"
    and "config_usable x \<Longrightarrow> (\<And>v. config_usable (f v)) \<Longrightarrow> config_usable (case ov of None \<Rightarrow> x | Some v \<Rightarrow> f v)"
    and "config_usable x \<Longrightarrow> (\<And>v w. config_usable (g v w)) \<Longrightarrow> config_usable (case xs of [] \<Rightarrow> x | v # w \<Rightarrow> g v w)"
  by (simp_all split: option.split list.split)

lemma atoi_le: "atoi s \<le> INT_MAX"
  by (simp add: atoi_def int32_le)

lemma config_usable_uri [gw_inv]: "config_usable c \<Longrightarrow> config_usable (parse_redis_uri uri c)"
  unfolding parse_redis_uri_def Let_def
  by (auto intro!: config_usable_updates atoi_le split: option.split)

text \<open>
  Whatever the environment, the parsed configuration can be used: the port, the timeout and both
  periods are positive and fit an \<open>int\<close>, the back end's name and the host fit their buffers.
\<close>

theorem rate_limiter_config_bounds: "config_usable (rate_limiter_parse_config env)"
  unfolding rate_limiter_parse_config_def Let_def
  by (intro config_usable_cases config_usable_updates config_usable_uri config_usable_default)


section \<open>Concrete runs\<close>

lemma demo_redis_counts: "redis_counts demo_redis (\<lambda>r. r)"
  by (simp add: redis_counts_def demo_redis_def)

lemma demo_redis_positive: "redis_positive demo_redis"
  by (simp add: redis_positive_def demo_redis_def)

lemma memory_init_default:
  "memory_rl_init True (\<lambda>_. None) =
     Some \<lparr>counters = [0, 0, 0], window_started_at = 0, ttl_seconds = 60, limits = [50, 100, 200],
           total_hits = 0, total_exceeded = 0\<rparr>"
  by (simp add: memory_rl_init_def slots_def get_endpoint_limit_def env_positive_def get_ttl_seconds_def
      numeral_3_eq_3)

theorem memory_rl_window_witness:
  "admitted (\<lambda>q. snd q = 0) (replicate 60 (1000 :: int, 0 :: nat))
     (memory_serve (replicate 60 (1000, 0)) (the (memory_rl_init True (\<lambda>_. None)))) = 50"
proof -
  let ?reqs = "replicate 59 (1000 :: int, 0 :: nat)"
  have r: "replicate 60 (1000 :: int, 0 :: nat) = (1000, 0) # ?reqs" by (simp add: numeral_eq_Suc)
  have "admitted (\<lambda>q. snd q = 0) ((1000, 0) # ?reqs) (memory_serve ((1000, 0) # ?reqs) (the (memory_rl_init True (\<lambda>_. None)))) =
      min (nat (get_endpoint_limit (\<lambda>_. None) 0)) (length (filter (\<lambda>q. snd q = 0) ((1000, 0) # ?reqs)))"
    by (rule memory_rl_window [OF memory_init_default, where earlier = "[]"])
      (simp_all add: memory_init_default opens_window_def)
  then show ?thesis unfolding r by (simp add: get_endpoint_limit_def env_positive_def del: memory_serve.simps)
qed

theorem redis_rl_global_window_witness:
  "admitted (\<lambda>q. request_key 60 q = Some ''rate_limit:routes_decide:t:k:60'')
     (map (\<lambda>g. \<lparr>rq_gateway = g, rq_now = 65, rq_endpoint = 0, rq_tenant = Some ''t'', rq_api_key = Some ''k''\<rparr>) [0, 1, 0])
     (redis_serve True demo_redis
       (map (\<lambda>g. \<lparr>rq_gateway = g, rq_now = 65, rq_endpoint = 0, rq_tenant = Some ''t'', rq_api_key = Some ''k''\<rparr>) [0, 1, 0])
       [demo_gateway, demo_gateway] (\<lambda>_. 0)) = 2"
proof -
  have k: "build_redis_key 0 (Some ''t'') (Some ''k'') 60 = Some ''rate_limit:routes_decide:t:k:60''"
    by (simp add: build_redis_key_def endpoint_str_def dec_int_def dec_nat.simps)
  have "same_gateways [2, 100, 200] 60 [demo_gateway, demo_gateway]" by (simp add: same_gateways_def demo_gateway_def)
  from redis_rl_global_window [OF demo_redis_counts this _ k] show ?thesis
    by (simp add: request_key_def get_window_start_def k del: redis_serve.simps)
qed

definition refused_redis :: "(string \<Rightarrow> nat) redis_api" where
  "refused_redis = \<lparr>redis_connect = \<lambda>_ _ _ r. (Ctx_Err, r), redis_incr = \<lambda>k r. (None, r), redis_expire = \<lambda>_ _ r. r\<rparr>"

theorem redis_rl_fallback_refines_witness:
  "(let req = \<lparr>rq_gateway = 0, rq_now = 65, rq_endpoint = 0, rq_tenant = Some ''t'', rq_api_key = Some ''k''\<rparr>;
        long = req\<lparr>rq_tenant := Some (replicate 300 (CHR ''x''))\<rparr>;
        st = the (fst (redis_rl_init True (\<lambda>_. True) refused_redis (\<lambda>_. None) demo_rl_config (\<lambda>_. 0))) in
    redis_serve True refused_redis [long, req] [st] (\<lambda>_. 0) = [RL_ERROR, RL_ALLOWED])"
proof -
  let ?req = "\<lparr>rq_gateway = 0, rq_now = 65, rq_endpoint = 0, rq_tenant = Some ''t'', rq_api_key = Some ''k''\<rparr>"
  let ?long = "?req\<lparr>rq_tenant := Some (replicate 300 (CHR ''x''))\<rparr>"
  obtain st where st: "redis_rl_init True (\<lambda>_. True) refused_redis (\<lambda>_. None) demo_rl_config (\<lambda>_. 0) = (Some st, \<lambda>_. 0)" "rs_ttl_seconds st = 60"
    by (simp add: redis_rl_init_def demo_rl_config_def rate_limiter_get_default_config_def new_fallback_def memory_init_default refused_redis_def
        get_ttl_seconds_def env_positive_def)
  obtain m where m: "memory_rl_init True (\<lambda>_. None) = Some m" "fst (memory_rl_check 65 0 m) = RL_ALLOWED"
    by (simp add: memory_init_default memory_rl_check_def roll_window_def Let_def)
  have k: "request_key 60 ?req \<noteq> None" "request_key 60 ?long = None"
    by (simp_all add: request_key_def build_redis_key_def endpoint_str_def get_window_start_def dec_int_def dec_nat.simps)
  have "redis_serve True refused_redis [?long, ?req] [st] (\<lambda>_. 0) = local_serve (\<lambda>q. request_key 60 q = None) [?long, ?req] m"
    using redis_rl_fallback_refines [OF st(1) _ _ m(1), of Ctx_Err "[?long, ?req]"] st(2)
    by (simp add: refused_redis_def del: redis_serve.simps local_serve.simps)
  then show ?thesis using k m(2) st(1) by (cases "memory_rl_check 65 0 m") (simp add: Let_def del: redis_serve.simps)
qed

theorem redis_rl_connected_no_fallback_witness:
  "rs_fallback_to_local (the (fst (redis_rl_init True (\<lambda>_. True) demo_redis (\<lambda>_. None) demo_rl_config (\<lambda>_. 0)))) \<and>
   redis_serve True dead_redis [\<lparr>rq_gateway = 0, rq_now = 65, rq_endpoint = 0, rq_tenant = None, rq_api_key = None\<rparr>]
     [the (fst (redis_rl_init True (\<lambda>_. True) demo_redis (\<lambda>_. None) demo_rl_config (\<lambda>_. 0)))] (\<lambda>_. 0) = [RL_ERROR]"
proof -
  obtain st where i: "redis_rl_init True (\<lambda>_. True) demo_redis (\<lambda>_. None) demo_rl_config (\<lambda>_. 0) = (Some st, \<lambda>_. 0)"
      "rs_fallback_to_local st"
    by (simp add: redis_rl_init_def demo_rl_config_def rate_limiter_get_default_config_def demo_redis_def)
  have d: "fst (redis_connect demo_redis (rs_host st) (rs_port st) (rs_timeout_ms st) (\<lambda>_. 0)) = Ctx_Ok"
    by (simp add: demo_redis_def)
  have n: "\<forall>k s. fst (redis_incr dead_redis k s) = None" by (simp add: dead_redis_def)
  from redis_rl_connected_no_fallback [OF i(1) d n] i show ?thesis by (simp del: redis_serve.simps)
qed

theorem rate_limiter_remaining_witness:
  "limiter_run (table_check True demo_redis) [((65, Some ''t'', None), 1)]
     (the (fst (rate_limiter_create True (\<lambda>_. True) demo_redis (\<lambda>_. None) (Some demo_rl_config) (\<lambda>_. 0))), \<lambda>_. 0) =
   [(1, RL_ALLOWED, Some 99)] \<and> unat (99 :: u32) < 100"
proof -
  obtain st where i: "rate_limiter_create True (\<lambda>_. True) demo_redis (\<lambda>_. None) (Some demo_rl_config) (\<lambda>_. 0) =
      (Some (Redis_Limiter st), \<lambda>_. 0)" "redis_ctx st" "rs_limits st = [50, 100, 200]" "rs_ttl_seconds st = 60"
    by (simp add: rate_limiter_create_def rate_limiter_redis_create_def redis_rl_init_def demo_rl_config_def
        rate_limiter_get_default_config_def demo_redis_def slots_def get_endpoint_limit_def env_positive_def
        get_ttl_seconds_def numeral_3_eq_3)
  have r: "limiter_run (table_check True demo_redis) [((65, Some ''t'', None), 1)] (Redis_Limiter st, \<lambda>_. 0) =
      [(1, RL_ALLOWED, Some 99)]"
    using i by (simp add: table_check_def redis_rl_check_def build_redis_key_def endpoint_str_def
        get_window_start_def dec_int_def dec_nat.simps demo_redis_def Let_def)
  have "int (unat (99 :: u32)) < get_endpoint_limit (\<lambda>_. None) 1"
    using rate_limiter_remaining [OF i(1) demo_redis_positive, of 1 RL_ALLOWED "Some 99" "[((65, Some ''t'', None), 1)]"]
    unfolding r by simp
  then show ?thesis using i(1) r by (simp add: get_endpoint_limit_def env_positive_def)
qed

end
