(* ===== verification/JSON_Values.thy ===== *)
theory JSON_Values
  imports Gateway_Prelude "HOL-Library.AList"
begin

text \<open>
  What the HTTP server does with parsed JSON on its own (\<open>src/src/http_server.c\<close>): the redaction of
  sensitive fields before logging (\<open>filter_pii\<close>, \<open>filter_pii_json\<close>) and the strict validator for
  JSON schemas (\<open>validate_jsonschema_node\<close>). Jansson's values are a datatype: an object is the
  list of its fields in insertion order, and \<open>json_object_get\<close>, \<open>json_object_set\<close> are lookup and
  update of that list. Parsing and printing are not here.
\<close>

section \<open>Values\<close>

datatype json =
    JObject "(string \<times> json) list"
  | JArray "json list"
  | JString string
  | JInteger int
  | JReal string
  | JBool bool
  | JNull

fun json_object_get :: "json \<Rightarrow> string \<Rightarrow> json option" where
  "json_object_get (JObject kvs) k = map_of kvs k"
| "json_object_get _ k = None"

fun json_is_object :: "json \<Rightarrow> bool" where
  "json_is_object (JObject _) = True"
| "json_is_object _ = False"

fun json_is_array :: "json \<Rightarrow> bool" where
  "json_is_array (JArray _) = True"
| "json_is_array _ = False"

fun json_is_string :: "json \<Rightarrow> bool" where
  "json_is_string (JString _) = True"
| "json_is_string _ = False"

fun json_is_boolean :: "json \<Rightarrow> bool" where
  "json_is_boolean (JBool _) = True"
| "json_is_boolean _ = False"

fun json_is_integer :: "json \<Rightarrow> bool" where
  "json_is_integer (JInteger _) = True"
| "json_is_integer _ = False"

fun json_is_number :: "json \<Rightarrow> bool" where
  "json_is_number (JInteger _) = True"
| "json_is_number (JReal _) = True"
| "json_is_number _ = False"

fun json_string_value :: "json \<Rightarrow> string option" where
  "json_string_value (JString s) = Some s"
| "json_string_value _ = None"

text \<open>A field that is absent passes; one that is present must satisfy the test.\<close>

definition optional_field :: "json \<Rightarrow> string \<Rightarrow> (json \<Rightarrow> bool) \<Rightarrow> bool" where
  "optional_field node k P = (case json_object_get node k of None \<Rightarrow> True | Some v \<Rightarrow> P v)"

section \<open>Redaction\<close>

definition sensitive_fields :: "string list" where
  "sensitive_fields = [''password'', ''api_key'', ''secret'', ''token'', ''access_token'',
     ''refresh_token'', ''authorization'', ''credit_card'', ''ssn'', ''email'', ''phone'',
     ''bearer'', ''x-api-key'', ''x-auth-token'', ''x-authorization'']"

definition is_sensitive_field :: "string \<Rightarrow> bool" where
  "is_sensitive_field name = list_ex (strcasecmp_eq name) sensitive_fields"

definition sensitive_keywords :: "string list" where
  "sensitive_keywords = [''password'', ''api_key'', ''secret'', ''token'', ''access_token'',
     ''refresh_token'', ''authorization'', ''credit_card'', ''ssn'', ''email'', ''phone'']"

text \<open>The text written to a buffer of \<open>outlen\<close> bytes.\<close>

definition filter_pii :: "string option \<Rightarrow> nat \<Rightarrow> string" where
  "filter_pii input outlen =
     (case input of
        None \<Rightarrow> []
      | Some s \<Rightarrow>
          if list_ex (\<lambda>k. strstr s k \<noteq> None) sensitive_keywords
          then c_copy outlen ''[REDACTED]'' else c_copy outlen s)"

definition redacted :: json where
  "redacted = JString ''[REDACTED]''"

lemma size_field: "(k, v) \<in> set kvs \<Longrightarrow> size v < size (JObject kvs)"
  by (induction kvs) auto

lemma size_element: "v \<in> set xs \<Longrightarrow> size v < size (JArray xs)"
  by (induction xs) auto

text \<open>
  The two recursive filters; each builds a new value, field by field or element by element. \<open>alloc n\<close> is
  the outcome of the \<open>n\<close>-th allocation inside jansson; the filters return the number of the next one. A
  filter that gets no container returns its argument, and a field or element that cannot be stored is
  left out.
\<close>

definition set_field :: "(nat \<Rightarrow> bool) \<Rightarrow> string \<Rightarrow> json option \<times> nat \<Rightarrow> (string \<times> json) list \<Rightarrow> (string \<times> json) list \<times> nat" where
  "set_field alloc k r acc =
     (case r of
        (None, n) \<Rightarrow> (acc, n)
      | (Some v, n) \<Rightarrow> (if alloc n then AList.update k v acc else acc, Suc n))"

definition append_element :: "(nat \<Rightarrow> bool) \<Rightarrow> json \<times> nat \<Rightarrow> json list \<Rightarrow> json list \<times> nat" where
  "append_element alloc r acc = (case r of (v, n) \<Rightarrow> (if alloc n then acc @ [v] else acc, Suc n))"

function (sequential) filter_pii_json :: "(nat \<Rightarrow> bool) \<Rightarrow> json \<Rightarrow> nat \<Rightarrow> json \<times> nat"
  and filter_pii_json_array :: "(nat \<Rightarrow> bool) \<Rightarrow> json \<Rightarrow> nat \<Rightarrow> json \<times> nat" where
  "filter_pii_json alloc (JObject kvs) n =
     (if \<not> alloc n then (JObject kvs, Suc n)
      else apfst JObject (foldl (\<lambda>st (k, v). case st of (acc, n) \<Rightarrow>
        set_field alloc k
          (if is_sensitive_field k then (if alloc n then Some redacted else None, Suc n)
           else if json_is_object v then apfst Some (filter_pii_json alloc v n)
           else if json_is_array v then apfst Some (filter_pii_json_array alloc v n)
           else (Some v, n)) acc) ([], Suc n) kvs))"
| "filter_pii_json alloc (JArray xs) n = filter_pii_json_array alloc (JArray xs) n"
| "filter_pii_json alloc j n = (j, n)"
| "filter_pii_json_array alloc (JArray xs) n =
     (if \<not> alloc n then (JArray xs, Suc n)
      else apfst JArray (foldl (\<lambda>st v. case st of (acc, n) \<Rightarrow>
        append_element alloc
          (if json_is_object v then filter_pii_json alloc v n
           else if json_is_array v then filter_pii_json_array alloc v n
           else (v, n)) acc) ([], Suc n) xs))"
| "filter_pii_json_array alloc j n = (j, n)"
  by pat_completeness auto
termination
  by (relation "measure (\<lambda>x. case x of Inl (_, j, _) \<Rightarrow> Suc (2 * size j) | Inr (_, j, _) \<Rightarrow> 2 * size j)")
    (auto dest: size_field size_element)

text \<open>The specification: what the filters return when every allocation succeeds.\<close>

function (sequential) redact_json :: "json \<Rightarrow> json" and redact_array :: "json \<Rightarrow> json" where
  "redact_json (JObject kvs) =
     JObject (foldl (\<lambda>acc (k, v).
       AList.update k
         (if is_sensitive_field k then redacted
          else if json_is_object v then redact_json v
          else if json_is_array v then redact_array v
          else v) acc) [] kvs)"
| "redact_json (JArray xs) = redact_array (JArray xs)"
| "redact_json j = j"
| "redact_array (JArray xs) =
     JArray (map (\<lambda>v.
       if json_is_object v then redact_json v
       else if json_is_array v then redact_array v
       else v) xs)"
| "redact_array j = j"
  by pat_completeness auto
termination
  by (relation "measure (\<lambda>x. case x of Inl j \<Rightarrow> Suc (2 * size j) | Inr j \<Rightarrow> 2 * size j)")
    (auto dest: size_field size_element)

section \<open>JSON schema validation\<close>

definition is_valid_type_string :: "string \<Rightarrow> bool" where
  "is_valid_type_string s =
     (s \<in> set [''object'', ''array'', ''string'', ''number'', ''integer'', ''boolean'', ''null''])"

fun validate_string_array :: "json \<Rightarrow> bool" where
  "validate_string_array (JArray xs) = list_all json_is_string xs"
| "validate_string_array _ = False"

fun validate_type :: "json \<Rightarrow> bool" where
  "validate_type (JString s) = is_valid_type_string s"
| "validate_type (JArray xs) =
     (xs \<noteq> [] \<and> list_all (\<lambda>v. case json_string_value v of None \<Rightarrow> False | Some s \<Rightarrow> is_valid_type_string s) xs)"
| "validate_type _ = False"

text \<open>
  \<open>validate_properties\<close> and \<open>validate_composition_array\<close> call back the node validator at the next
  depth, here their first argument.
\<close>

fun validate_properties :: "(json \<Rightarrow> bool) \<Rightarrow> json \<Rightarrow> bool" where
  "validate_properties node_ok (JObject kvs) = list_all (\<lambda>v. json_is_object v \<and> node_ok v) (map snd kvs)"
| "validate_properties node_ok _ = False"

fun validate_composition_array :: "(json \<Rightarrow> bool) \<Rightarrow> json \<Rightarrow> bool" where
  "validate_composition_array node_ok (JArray xs) = (xs \<noteq> [] \<and> list_all (\<lambda>v. json_is_object v \<and> node_ok v) xs)"
| "validate_composition_array node_ok _ = False"

text \<open>The conditions on one node, with the validator for the nodes below it as an argument.\<close>

definition schema_node :: "(json \<Rightarrow> bool) \<Rightarrow> json \<Rightarrow> bool" where
  "schema_node below node \<longleftrightarrow>
     json_is_object node \<and>
     optional_field node ''$schema'' (\<lambda>v. case json_string_value v of None \<Rightarrow> False | Some s \<Rightarrow> strstr s ''draft-07'' \<noteq> None) \<and>
     optional_field node ''type'' validate_type \<and>
     optional_field node ''properties'' (validate_properties below) \<and>
     optional_field node ''required'' validate_string_array \<and>
     optional_field node ''items'' (\<lambda>v. json_is_object v \<and> below v) \<and>
     optional_field node ''additionalProperties'' (\<lambda>v. json_is_boolean v \<or> json_is_object v \<and> below v) \<and>
     optional_field node ''enum'' json_is_array \<and>
     optional_field node ''oneOf'' (validate_composition_array below) \<and>
     optional_field node ''anyOf'' (validate_composition_array below) \<and>
     optional_field node ''allOf'' (validate_composition_array below) \<and>
     optional_field node ''minimum'' json_is_number \<and>
     optional_field node ''maximum'' json_is_number \<and>
     optional_field node ''minLength'' json_is_integer \<and>
     optional_field node ''maxLength'' json_is_integer \<and>
     optional_field node ''format'' json_is_string \<and>
     optional_field node ''$ref'' json_is_string \<and>
     optional_field node ''definitions'' json_is_object \<and>
     optional_field node ''$defs'' json_is_object"

function validate_jsonschema_node :: "json \<Rightarrow> nat \<Rightarrow> bool" where
  "validate_jsonschema_node node depth =
     (if depth > 64 then False else schema_node (\<lambda>v. validate_jsonschema_node v (depth + 1)) node)"
  by auto
termination
  by (relation "measure (\<lambda>(_, depth). 65 - depth)") auto

declare validate_jsonschema_node.simps [simp del]

text \<open>0 and -1 of the code are True and False; an absent schema is None.\<close>

definition validate_jsonschemas_strict :: "json option \<Rightarrow> json option \<Rightarrow> bool" where
  "validate_jsonschemas_strict schema_input schema_output =
     (case (schema_input, schema_output) of
        (Some i, Some out) \<Rightarrow>
          json_is_object i \<and> json_is_object out \<and> validate_jsonschema_node i 0 \<and> validate_jsonschema_node out 0
      | _ \<Rightarrow> False)"

section \<open>Specifications\<close>

text \<open>A field of a value at any depth.\<close>

inductive field_in :: "string \<Rightarrow> json \<Rightarrow> json \<Rightarrow> bool" where
  here: "(k, v) \<in> set kvs \<Longrightarrow> field_in k v (JObject kvs)"
| in_field: "(k', w) \<in> set kvs \<Longrightarrow> field_in k v w \<Longrightarrow> field_in k v (JObject kvs)"
| in_element: "w \<in> set xs \<Longrightarrow> field_in k v w \<Longrightarrow> field_in k v (JArray xs)"

inductive_simps field_in_simps:
  "field_in k v (JObject kvs)" "field_in k v (JArray xs)" "field_in k v (JString s)"
  "field_in k v (JInteger i)" "field_in k v (JReal r)" "field_in k v (JBool b)" "field_in k v JNull"

text \<open>Objects have each field once, as Jansson's tables do.\<close>

fun json_wf :: "json \<Rightarrow> bool" where
  "json_wf (JObject kvs) = (distinct (map fst kvs) \<and> list_all json_wf (map snd kvs))"
| "json_wf (JArray xs) = list_all json_wf xs"
| "json_wf _ = True"

text \<open>Every sensitive field's value replaced by what \<open>f\<close> makes of it.\<close>

fun replace_sensitive :: "(json \<Rightarrow> json) \<Rightarrow> json \<Rightarrow> json" where
  "replace_sensitive f (JObject kvs) =
     JObject (map (\<lambda>(k, v). (k, if is_sensitive_field k then f v else replace_sensitive f v)) kvs)"
| "replace_sensitive f (JArray xs) = JArray (map (replace_sensitive f) xs)"
| "replace_sensitive f j = j"

text \<open>One round of the loop over the fields.\<close>

definition filter_field :: "(string \<times> json) list \<Rightarrow> string \<times> json \<Rightarrow> (string \<times> json) list" where
  "filter_field acc = (\<lambda>(k, v). AList.update k (if is_sensitive_field k then redacted else redact_json v) acc)"

text \<open>The schemas directly below a schema.\<close>

fun array_items :: "json \<Rightarrow> json list" where
  "array_items (JArray xs) = xs"
| "array_items _ = []"

fun object_values :: "json \<Rightarrow> json list" where
  "object_values (JObject kvs) = map snd kvs"
| "object_values _ = []"

definition field_list :: "json \<Rightarrow> string \<Rightarrow> (json \<Rightarrow> json list) \<Rightarrow> json list" where
  "field_list node k f = (case json_object_get node k of None \<Rightarrow> [] | Some v \<Rightarrow> f v)"

definition subschemas :: "json \<Rightarrow> json list" where
  "subschemas node =
     field_list node ''properties'' object_values @ field_list node ''items'' (\<lambda>v. [v]) @
     field_list node ''additionalProperties'' (\<lambda>v. if json_is_object v then [v] else []) @
     field_list node ''oneOf'' array_items @ field_list node ''anyOf'' array_items @ field_list node ''allOf'' array_items"

inductive schema_path :: "json \<Rightarrow> nat \<Rightarrow> json \<Rightarrow> bool" where
  root: "schema_path j 0 j"
| step: "s \<in> set (subschemas j) \<Longrightarrow> schema_path s n t \<Longrightarrow> schema_path j (Suc n) t"

section \<open>Redaction lemmas\<close>

lemma json_induct [case_names Object Array Atom]:
  assumes "\<And>kvs. (\<And>k v. (k, v) \<in> set kvs \<Longrightarrow> P v) \<Longrightarrow> P (JObject kvs)"
    and "\<And>xs. (\<And>v. v \<in> set xs \<Longrightarrow> P v) \<Longrightarrow> P (JArray xs)"
    and "\<And>j. \<not> json_is_object j \<Longrightarrow> \<not> json_is_array j \<Longrightarrow> P j"
  shows "P j"
proof (induction j rule: measure_induct_rule [of size])
  case (less j)
  show ?case
  proof (cases "\<exists>kvs. j = JObject kvs")
    case True
    then obtain kvs where j: "j = JObject kvs" by blast
    have "P v" if "(k, v) \<in> set kvs" for k v using less [of v] size_field [OF that] by (simp add: j)
    then show ?thesis unfolding j by (rule assms(1))
  next
    case object: False
    show ?thesis
    proof (cases "\<exists>xs. j = JArray xs")
      case True
      then obtain xs where j: "j = JArray xs" by blast
      have "P v" if "v \<in> set xs" for v using less [of v] size_element [OF that] by (simp add: j)
      then show ?thesis unfolding j by (rule assms(2))
    next
      case False
      with object have "\<not> json_is_object j" "\<not> json_is_array j" by (cases j; simp)+
      then show ?thesis by (rule assms(3))
    qed
  qed
qed

lemma filter_value:
  "(if json_is_object v then redact_json v else if json_is_array v then redact_array v else v) =
   redact_json v"
  by (cases v) simp_all

lemma filter_atom: "\<not> json_is_object j \<Longrightarrow> \<not> json_is_array j \<Longrightarrow> redact_json j = j"
  by (cases j) simp_all

lemma redact_json_eqs:
  "redact_json (JObject kvs) = JObject (foldl filter_field [] kvs)"
  "redact_json (JArray xs) = JArray (map redact_json xs)"
  unfolding redact_json.simps redact_array.simps filter_value filter_field_def by (rule refl)+

declare redact_json.simps [simp del] redact_array.simps [simp del]

lemma set_alist_update: "set (AList.update k v al) \<subseteq> insert (k, v) (set al)"
  by (induction al) auto

lemma foldl_filter_field_set:
  "set (foldl filter_field acc kvs) \<subseteq>
     set acc \<union> (\<lambda>(k, v). (k, if is_sensitive_field k then redacted else redact_json v)) ` set kvs"
proof (induction kvs arbitrary: acc)
  case Nil then show ?case by simp
next
  case (Cons kv kvs)
  have "set (filter_field acc kv) \<subseteq>
      insert ((\<lambda>(k, v). (k, if is_sensitive_field k then redacted else redact_json v)) kv) (set acc)"
    unfolding filter_field_def by (cases kv) (simp only: prod.case set_alist_update)
  then show ?case using Cons.IH [of "filter_field acc kv"] by auto
qed

lemma field_in_atom: "\<not> json_is_object j \<Longrightarrow> \<not> json_is_array j \<Longrightarrow> \<not> field_in k v j"
  by (cases j) (simp_all add: field_in_simps)

lemma redacted_no_fields: "\<not> field_in k v redacted"
  by (simp add: redacted_def field_in_simps)

lemma filter_field_fresh:
  "distinct (map fst (acc @ kvs)) \<Longrightarrow>
     foldl filter_field acc kvs =
     acc @ map (\<lambda>(k, v). (k, if is_sensitive_field k then redacted else redact_json v)) kvs"
proof (induction kvs arbitrary: acc)
  case Nil then show ?case by simp
next
  case (Cons kv kvs)
  obtain k v where kv: "kv = (k, v)" by (cases kv)
  have "k \<notin> fst ` set acc" using Cons.prems by (auto simp: kv)
  then have u: "AList.update k x acc = acc @ [(k, x)]" for x by (induction acc) auto
  show ?case using Cons.prems by (simp add: kv filter_field_def [of acc] u Cons.IH)
qed

lemma foldl_filter_replace:
  assumes "\<And>k v. (k, v) \<in> set kvs \<Longrightarrow> redact_json (g v) = redact_json v"
  shows "foldl filter_field acc (map (\<lambda>(k, v). (k, if is_sensitive_field k then f v else g v)) kvs) =
         foldl filter_field acc kvs"
  using assms
proof (induction kvs arbitrary: acc)
  case Nil then show ?case by simp
next
  case (Cons kv kvs)
  obtain k v where kv: "kv = (k, v)" by (cases kv)
  have g: "redact_json (g v) = redact_json v" using Cons.prems by (auto simp: kv)
  have "foldl filter_field a (map (\<lambda>(k, v). (k, if is_sensitive_field k then f v else g v)) kvs) =
      foldl filter_field a kvs" for a
    by (rule Cons.IH) (use Cons.prems in auto)
  then show ?case by (simp add: kv filter_field_def [of acc] g)
qed

lemma fst_foldl:
  "(\<And>acc n x. x \<in> set xs \<Longrightarrow> fst (F (acc, n) x) = G acc x) \<Longrightarrow> fst (foldl F (acc, n) xs) = foldl G acc xs"
proof (induction xs arbitrary: acc n)
  case (Cons x xs)
  have "foldl F (acc, n) (x # xs) = foldl F (G acc x, snd (F (acc, n) x)) xs"
    using Cons.prems [of x acc n] by (metis foldl_Cons list.set_intros(1) prod.collapse)
  then show ?case using Cons by simp
qed simp

lemma foldl_append_map: "foldl (\<lambda>acc v. acc @ [f v]) acc xs = acc @ map f xs"
  by (induction xs arbitrary: acc) simp_all

lemma filter_value_alloc:
  "(if json_is_object v then filter_pii_json alloc v n else if json_is_array v then filter_pii_json_array alloc v n else (v, n)) =
   filter_pii_json alloc v n"
  "(if json_is_object v then apfst Some (filter_pii_json alloc v n)
    else if json_is_array v then apfst Some (filter_pii_json_array alloc v n) else (Some v, n)) =
   apfst Some (filter_pii_json alloc v n)"
  by (cases v; simp)+

lemma filter_pii_json_redacts:
  assumes "\<And>n. alloc n"
  shows "fst (filter_pii_json alloc j n) = redact_json j"
proof (induction j arbitrary: n rule: json_induct)
  case (Object kvs)
  have "fst (foldl (\<lambda>st (k, v). case st of (acc, n) \<Rightarrow> set_field alloc k (if is_sensitive_field k then (if alloc n then Some redacted else None, Suc n)
      else apfst Some (filter_pii_json alloc v n)) acc) ([], Suc n) kvs) = foldl filter_field [] kvs"
    by (rule fst_foldl) (auto simp: set_field_def filter_field_def assms Object case_prod_beta)
  then show ?case unfolding redact_json_eqs filter_pii_json.simps filter_value_alloc by (simp add: assms)
next
  case (Array xs)
  have "fst (foldl (\<lambda>st v. case st of (acc, n) \<Rightarrow> append_element alloc (filter_pii_json alloc v n) acc) ([], Suc n) xs) = foldl (\<lambda>acc v. acc @ [redact_json v]) [] xs"
    by (rule fst_foldl) (auto simp: append_element_def assms Array case_prod_beta)
  then show ?case
    unfolding redact_json_eqs filter_pii_json.simps filter_pii_json_array.simps filter_value_alloc by (simp add: assms foldl_append_map)
next
  case (Atom j)
  then show ?case by (cases j) (simp_all add: filter_atom)
qed

declare filter_pii_json.simps [simp del] filter_pii_json_array.simps [simp del]

text \<open>
  C23. As long as jansson's allocations succeed, the redaction filter lets no sensitive value through. In the filtered value every field with a
  sensitive name, at any depth, holds the redaction text; and the filtered value is the same whatever
  the sensitive fields held, so nothing about their values can be read off it.
\<close>

theorem filter_pii_noninterference:
  assumes "\<forall>i. alloc i" and "is_sensitive_field k" and "field_in k v (fst (filter_pii_json alloc j n))"
  shows "v = redacted \<and> fst (filter_pii_json alloc (replace_sensitive f j) n) = fst (filter_pii_json alloc j n)"
proof
  have r: "fst (filter_pii_json alloc x n) = redact_json x" for x using filter_pii_json_redacts [of alloc x n] assms(1) by blast
  show "v = redacted" using assms(3) unfolding r
  proof (induction j rule: json_induct)
    case (Object kvs)
    from Object.prems foldl_filter_field_set [of "[]" kvs] assms(2) redacted_no_fields Object.IH
    show ?case by (fastforce simp: redact_json_eqs field_in_simps split: if_splits)
  next
    case (Array xs) then show ?case by (auto simp: redact_json_eqs field_in_simps)
  next
    case (Atom j) then show ?case using field_in_atom by (simp add: filter_atom)
  qed
  have "redact_json (replace_sensitive f j) = redact_json j"
  proof (induction j rule: json_induct)
    case (Object kvs) then show ?case by (simp add: redact_json_eqs foldl_filter_replace)
  next
    case (Array xs) then show ?case by (simp add: redact_json_eqs)
  next
    case (Atom j) then show ?case by (cases j) simp_all
  qed
  then show "fst (filter_pii_json alloc (replace_sensitive f j) n) = fst (filter_pii_json alloc j n)" unfolding r .
qed

text \<open>Without memory for the copy the filter returns the document as it is.\<close>

lemma filter_fails_open: "\<not> alloc n \<Longrightarrow> json_is_object j \<or> json_is_array j \<Longrightarrow> filter_pii_json alloc j n = (j, Suc n)"
  by (cases j) (simp_all add: filter_pii_json.simps filter_pii_json_array.simps)

text \<open>
  The filter changes nothing else: on a value whose objects have each field once it is exactly the
  replacement of every sensitive field's value by the redaction text, with all other fields and
  elements kept in order.
\<close>

lemma redact_exact:
  assumes "json_wf j"
  shows "redact_json j = replace_sensitive (\<lambda>_. redacted) j"
  using assms
proof (induction j rule: json_induct)
  case (Object kvs)
  then have "map (\<lambda>(k, v). (k, if is_sensitive_field k then redacted else redact_json v)) kvs =
      map (\<lambda>(k, v). (k, if is_sensitive_field k then redacted else replace_sensitive (\<lambda>_. redacted) v)) kvs"
    by (fastforce simp: list_all_iff)
  then show ?case using Object.prems by (simp add: redact_json_eqs filter_field_fresh)
next
  case (Array xs) then show ?case by (simp add: redact_json_eqs list_all_iff)
next
  case (Atom j) then show ?case by (cases j) (simp_all add: filter_atom)
qed

theorem filter_pii_exact:
  assumes "\<forall>i. alloc i" "json_wf j"
  shows "fst (filter_pii_json alloc j n) = replace_sensitive (\<lambda>_. redacted) j"
  using filter_pii_json_redacts [of alloc j n] redact_exact [OF assms(2)] assms(1) by simp

section \<open>Schema lemmas\<close>

lemma optional_field_below:
  "(\<And>v. P v \<longleftrightarrow> Q v \<and> (\<forall>s\<in>set (f v). R s)) \<Longrightarrow>
     optional_field node k P \<longleftrightarrow> optional_field node k Q \<and> (\<forall>s\<in>set (field_list node k f). R s)"
  by (auto simp: optional_field_def field_list_def split: option.splits)

lemma validate_properties_below:
  "validate_properties R v \<longleftrightarrow> validate_properties (\<lambda>_. True) v \<and> (\<forall>s\<in>set (object_values v). R s)"
  by (cases v) (auto simp: list_all_iff)

lemma validate_composition_below:
  "validate_composition_array R v \<longleftrightarrow> validate_composition_array (\<lambda>_. True) v \<and> (\<forall>s\<in>set (array_items v). R s)"
  by (cases v) (auto simp: list_all_iff)

lemma schema_node_below:
  "schema_node R j \<longleftrightarrow> schema_node (\<lambda>_. True) j \<and> (\<forall>s\<in>set (subschemas j). R s)"
proof -
  note below = optional_field_below [OF validate_properties_below, of j _ R]
    optional_field_below [OF validate_composition_below, of j _ R]
  have items: "optional_field j ''items'' (\<lambda>v. json_is_object v \<and> R v) \<longleftrightarrow>
      optional_field j ''items'' (\<lambda>v. json_is_object v \<and> True) \<and> (\<forall>s\<in>set (field_list j ''items'' (\<lambda>v. [v])). R s)"
    by (rule optional_field_below) simp
  have add: "optional_field j ''additionalProperties'' (\<lambda>v. json_is_boolean v \<or> json_is_object v \<and> R v) \<longleftrightarrow>
      optional_field j ''additionalProperties'' (\<lambda>v. json_is_boolean v \<or> json_is_object v \<and> True) \<and>
      (\<forall>s\<in>set (field_list j ''additionalProperties'' (\<lambda>v. if json_is_object v then [v] else [])). R s)"
    by (rule optional_field_below) (auto elim: json_is_boolean.elims)
  show ?thesis
    unfolding schema_node_def [of R] schema_node_def [of "\<lambda>_. True"] below items add subschemas_def set_append ball_Un
    by (rule iffI; elim conjE; intro conjI; assumption)
qed

lemma schema_path_0 [simp]: "schema_path j 0 t \<longleftrightarrow> t = j"
  by (auto elim: schema_path.cases intro: schema_path.root)

lemma schema_path_Suc [simp]: "schema_path j (Suc n) t \<longleftrightarrow> (\<exists>s\<in>set (subschemas j). schema_path s n t)"
  by (auto elim: schema_path.cases intro: schema_path.step)

lemma all_nat_cases: "(\<forall>n. P n) \<longleftrightarrow> P 0 \<and> (\<forall>m. P (Suc m))"
  by (metis not0_implies_Suc)

lemma validate_node_paths:
  "validate_jsonschema_node j d \<longleftrightarrow> (\<forall>n s. schema_path j n s \<longrightarrow> d + n \<le> 64 \<and> schema_node (\<lambda>_. True) s)"
proof (induction j d rule: validate_jsonschema_node.induct)
  case (1 node depth)
  show ?case
  proof (cases "depth > 64")
    case True
    then show ?thesis using schema_path.root [of node] by (subst validate_jsonschema_node.simps) fastforce
  next
    case False
    have "validate_jsonschema_node node depth \<longleftrightarrow>
        schema_node (\<lambda>_. True) node \<and> (\<forall>s\<in>set (subschemas node). validate_jsonschema_node s (depth + 1))"
      using False by (subst validate_jsonschema_node.simps) (simp add: schema_node_below [symmetric])
    also have "\<dots> \<longleftrightarrow> schema_node (\<lambda>_. True) node \<and>
        (\<forall>s\<in>set (subschemas node). \<forall>n t. schema_path s n t \<longrightarrow> depth + Suc n \<le> 64 \<and> schema_node (\<lambda>_. True) t)"
      using "1.IH" False by simp
    also have "\<dots> \<longleftrightarrow> (\<forall>n t. schema_path node n t \<longrightarrow> depth + n \<le> 64 \<and> schema_node (\<lambda>_. True) t)"
      using False by (subst (2) all_nat_cases) auto
    finally show ?thesis .
  qed
qed

text \<open>
  C24. The schema validator, a recursion with a depth counter, accepts exactly the pairs of schemas in
  which every schema reachable through properties, items, additionalProperties, oneOf, anyOf and allOf
  satisfies the conditions on a single node and lies at most 64 levels deep. In particular it ends on
  every input and never follows a schema deeper than that.
\<close>

theorem validate_jsonschemas_exact:
  "validate_jsonschemas_strict a b \<longleftrightarrow>
     (\<exists>i out. a = Some i \<and> b = Some out \<and>
        (\<forall>root n s. root \<in> {i, out} \<and> schema_path root n s \<longrightarrow> n \<le> 64 \<and> schema_node (\<lambda>_. True) s))"
proof -
  have "validate_jsonschema_node j 0 \<Longrightarrow> json_is_object j" for j
    by (subst (asm) validate_jsonschema_node.simps) (simp add: schema_node_def)
  then show ?thesis
    by (auto simp: validate_jsonschemas_strict_def validate_node_paths split: option.splits)
qed

section \<open>Concrete values\<close>

theorem filter_pii_noninterference_witness:
  "is_sensitive_field ''Password'' \<and>
   fst (filter_pii_json (\<lambda>_. True) (JObject [(''user'', JArray [JObject [(''Password'', JString ''x''), (''id'', JInteger 7)]])]) 0) =
     JObject [(''user'', JArray [JObject [(''Password'', JString ''[REDACTED]''), (''id'', JInteger 7)]])] \<and>
   fst (filter_pii_json (\<lambda>_. True) (replace_sensitive (\<lambda>_. JNull)
     (JObject [(''user'', JArray [JObject [(''Password'', JString ''x''), (''id'', JInteger 7)]])])) 0) =
   fst (filter_pii_json (\<lambda>_. True) (JObject [(''user'', JArray [JObject [(''Password'', JString ''x''), (''id'', JInteger 7)]])]) 0)"
proof -
  let ?j = "JObject [(''user'', JArray [JObject [(''Password'', JString ''x''), (''id'', JInteger 7)]])]"
  have s: "is_sensitive_field ''Password''" "\<not> is_sensitive_field ''user''" "\<not> is_sensitive_field ''id''"
    by code_simp+
  have "redact_json ?j = JObject [(''user'', JArray [JObject [(''Password'', redacted), (''id'', JInteger 7)]])]"
    by (simp add: redact_json_eqs filter_field_def s filter_atom)
  then have f: "fst (filter_pii_json (\<lambda>_. True) ?j 0) = JObject [(''user'', JArray [JObject [(''Password'', redacted), (''id'', JInteger 7)]])]"
    by (simp add: filter_pii_json_redacts)
  have "field_in ''Password'' redacted (fst (filter_pii_json (\<lambda>_. True) ?j 0))"
    unfolding f by (simp add: field_in_simps)
  from filter_pii_noninterference [OF _ s(1) this]
  have "fst (filter_pii_json (\<lambda>_. True) (replace_sensitive (\<lambda>_. JNull) ?j) 0) = fst (filter_pii_json (\<lambda>_. True) ?j 0)"
    by blast
  then show ?thesis by (intro conjI s(1) f [unfolded redacted_def])
qed

theorem filter_pii_exact_witness:
  "json_wf (JObject [(''token'', JString ''x''), (''n'', JArray [JNull])]) \<and>
   fst (filter_pii_json (\<lambda>_. True) (JObject [(''token'', JString ''x''), (''n'', JArray [JNull])]) 0) =
     JObject [(''token'', JString ''[REDACTED]''), (''n'', JArray [JNull])]"
proof -
  have s: "is_sensitive_field ''token''" "\<not> is_sensitive_field ''n''" by code_simp+
  have "json_wf (JObject [(''token'', JString ''x''), (''n'', JArray [JNull])])" by simp
  from filter_pii_exact [OF _ this, of "\<lambda>_. True" 0] this show ?thesis by (simp add: s redacted_def)
qed

theorem validate_jsonschemas_exact_witness:
  "validate_jsonschemas_strict (Some (JObject [(''type'', JString ''object'')])) (Some (JObject []))"
proof -
  have n: "schema_node (\<lambda>_. True) (JObject [(''type'', JString ''object'')])" "schema_node (\<lambda>_. True) (JObject [])"
    by (simp_all add: schema_node_def optional_field_def is_valid_type_string_def)
  have e: "subschemas (JObject [(''type'', JString ''object'')]) = []" "subschemas (JObject []) = []"
    by (simp_all add: subschemas_def field_list_def)
  have "schema_path r m s \<Longrightarrow> subschemas r = [] \<Longrightarrow> m = 0 \<and> s = r" for r m s by (cases m) simp_all
  then show ?thesis unfolding validate_jsonschemas_exact using n e by auto
qed

end
