(* ===== verification/HTTP_Registry.thy ===== *)
theory HTTP_Registry
  imports Gateway_Prelude "HOL-Library.Multiset"
begin

text \<open>
  The extension registry of the HTTP server (\<open>src/src/http_server.c\<close>, \<open>registry_find\<close>,
  \<open>registry_upsert\<close>, \<open>registry_delete\<close>): an array of 64 entries keyed by type and version, kept
  compact by moving the last entry into a deleted one's place. The model is the list of its first
  \<open>registry_count\<close> entries. The locale \<open>bounded_store\<close> is what its users rely on: a partial map
  of bounded size; the registry implements it for keys that fit its fixed buffers.
\<close>

section \<open>Operations\<close>

record block_entry_t =
  be_type :: string
  be_version :: string
  be_manifest :: "string option"

abbreviation (input) REGISTRY_CAP :: nat where "REGISTRY_CAP \<equiv> 64"

type_synonym registry = "block_entry_t list"

definition registry_find :: "string \<Rightarrow> string \<Rightarrow> registry \<Rightarrow> nat option" where
  "registry_find type version r = first_index (\<lambda>e. be_type e = type \<and> be_version e = version) r"

text \<open>
  The return value 0 is True, -1 is False; the second result is what is written to \<open>created\<close>.
  \<open>dup\<close> says whether \<open>strdup\<close> succeeds: a failure leaves a null manifest.
\<close>

definition registry_upsert ::
    "bool \<Rightarrow> string \<Rightarrow> string \<Rightarrow> string \<Rightarrow> registry \<Rightarrow> bool \<times> bool option \<times> registry" where
  "registry_upsert dup type version manifest r =
     (let m = (if dup then Some manifest else None) in
      case registry_find type version r of
        Some idx \<Rightarrow> (True, Some False, r[idx := (r ! idx)\<lparr>be_manifest := m\<rparr>])
      | None \<Rightarrow>
          if length r \<ge> REGISTRY_CAP then (False, None, r)
          else (True, Some True,
                r @ [\<lparr>be_type = c_copy 128 type, be_version = c_copy 64 version, be_manifest = m\<rparr>]))"

definition registry_delete :: "string \<Rightarrow> string \<Rightarrow> registry \<Rightarrow> bool \<times> registry" where
  "registry_delete type version r =
     (case registry_find type version r of
        None \<Rightarrow> (False, r)
      | Some idx \<Rightarrow> (True, butlast (r[idx := last r])))"

section \<open>Specification\<close>

definition registry_key :: "block_entry_t \<Rightarrow> string \<times> string" where
  "registry_key e = (be_type e, be_version e)"

definition registry_map :: "registry \<Rightarrow> string \<times> string \<Rightarrow> string option option" where
  "registry_map r = map_of (map (\<lambda>e. (registry_key e, be_manifest e)) r)"

definition registry_inv :: "registry \<Rightarrow> bool" where
  "registry_inv r \<longleftrightarrow> length r \<le> REGISTRY_CAP \<and> distinct (map registry_key r)"

text \<open>The keys that fit the buffers of an entry; the value put is the manifest pointer stored, null if \<open>strdup\<close> fails.\<close>

definition key_fits :: "string \<times> string \<Rightarrow> bool" where
  "key_fits k \<longleftrightarrow> length (fst k) < 128 \<and> length (snd k) < 64"

definition registry_put :: "string \<times> string \<Rightarrow> string option \<Rightarrow> registry \<Rightarrow> bool \<times> registry" where
  "registry_put k m r =
     (let (rc, _, r') = registry_upsert (m \<noteq> None) (fst k) (snd k) (case m of Some s \<Rightarrow> s | None \<Rightarrow> []) r in (rc, r'))"

definition registry_del :: "string \<times> string \<Rightarrow> registry \<Rightarrow> bool \<times> registry" where
  "registry_del k r = registry_delete (fst k) (snd k) r"

text \<open>A bounded map, its operations, and a sequence of operations on it and on an implementation.\<close>

datatype ('k, 'v) store_op = Put 'k 'v | Del 'k

fun op_key :: "('k, 'v) store_op \<Rightarrow> 'k" where
  "op_key (Put k _) = k"
| "op_key (Del k) = k"

fun spec_step :: "nat \<Rightarrow> ('k, 'v) store_op \<Rightarrow> ('k \<Rightarrow> 'v option) \<Rightarrow> bool \<times> ('k \<Rightarrow> 'v option)" where
  "spec_step cap (Put k v) m = (if m k = None \<and> card (dom m) \<ge> cap then (False, m) else (True, m(k \<mapsto> v)))"
| "spec_step cap (Del k) m = (m k \<noteq> None, m(k := None))"

fun store_step :: "('k \<Rightarrow> 'v \<Rightarrow> 's \<Rightarrow> bool \<times> 's) \<Rightarrow> ('k \<Rightarrow> 's \<Rightarrow> bool \<times> 's) \<Rightarrow> ('k, 'v) store_op \<Rightarrow> 's \<Rightarrow> bool \<times> 's" where
  "store_step put del (Put k v) s = put k v s"
| "store_step put del (Del k) s = del k s"

fun run_ops :: "('o \<Rightarrow> 's \<Rightarrow> bool \<times> 's) \<Rightarrow> 'o list \<Rightarrow> 's \<Rightarrow> bool list \<times> 's" where
  "run_ops step [] s = ([], s)"
| "run_ops step (x # xs) s = (let (b, s') = step x s; (bs, s'') = run_ops step xs s' in (b # bs, s''))"

section \<open>The interface\<close>

locale bounded_store =
  fixes lookup :: "'s \<Rightarrow> 'k \<Rightarrow> 'v option"
    and put :: "'k \<Rightarrow> 'v \<Rightarrow> 's \<Rightarrow> bool \<times> 's"
    and del :: "'k \<Rightarrow> 's \<Rightarrow> bool \<times> 's"
    and ok :: "'s \<Rightarrow> bool"
    and valid :: "'k \<Rightarrow> bool"
    and cap :: nat
  assumes put_spec: "ok s \<Longrightarrow> valid k \<Longrightarrow> put k v s = (b, s') \<Longrightarrow>
        ok s' \<and> b = (lookup s k \<noteq> None \<or> card (dom (lookup s)) < cap) \<and>
        lookup s' = (if b then (lookup s)(k \<mapsto> v) else lookup s)"
    and del_spec: "ok s \<Longrightarrow> valid k \<Longrightarrow> del k s = (b, s') \<Longrightarrow>
        ok s' \<and> b = (lookup s k \<noteq> None) \<and> lookup s' = (lookup s)(k := None)"
begin

lemma step_refines:
  assumes "ok s" and "valid (op_key x)" and "store_step put del x s = (b, s')"
  shows "ok s' \<and> spec_step cap x (lookup s) = (b, lookup s')"
proof (cases x)
  case (Put k v)
  with assms put_spec [of s k v b s'] show ?thesis by (auto simp: not_less)
next
  case (Del k)
  with assms del_spec [of s k b s'] show ?thesis by auto
qed

lemma run_refines:
  assumes "ok s" and "list_all (\<lambda>x. valid (op_key x)) xs" and "run_ops (store_step put del) xs s = (bs, s')"
  shows "ok s' \<and> run_ops (spec_step cap) xs (lookup s) = (bs, lookup s')"
  using assms
proof (induction xs arbitrary: s bs)
  case Nil then show ?case by simp
next
  case (Cons x xs)
  obtain b s1 where s1: "store_step put del x s = (b, s1)" by fastforce
  obtain bs1 where r: "run_ops (store_step put del) xs s1 = (bs1, s')" "bs = b # bs1"
    using Cons.prems(3) by (auto simp: s1 split: prod.splits)
  note x = step_refines [OF Cons.prems(1) _ s1]
  show ?case using Cons.IH [OF _ _ r(1)] Cons.prems(2) x by (simp add: r(2))
qed

end

section \<open>The registry implements it\<close>

lemma registry_find_Some:
  "registry_find t v r = Some i \<Longrightarrow> i < length r \<and> registry_key (r ! i) = (t, v)"
  unfolding registry_find_def registry_key_def by (drule first_index_Some) auto

lemma registry_find_None: "registry_find t v r = None \<longleftrightarrow> (t, v) \<notin> registry_key ` set r"
  unfolding registry_find_def registry_key_def by (auto simp: first_index_None)

lemma registry_map_None: "registry_map r k = None \<longleftrightarrow> k \<notin> registry_key ` set r"
  by (simp add: registry_map_def map_of_eq_None_iff image_image)

lemma registry_map_nth:
  "distinct (map registry_key r) \<Longrightarrow> i < length r \<Longrightarrow> registry_map r (registry_key (r ! i)) = Some (be_manifest (r ! i))"
  unfolding registry_map_def by (subst map_of_eq_Some_iff) (auto simp: comp_def)

lemma dom_registry_map: "dom (registry_map r) = registry_key ` set r"
  by (simp add: registry_map_def dom_map_of_conv_image_fst image_image)

lemma card_registry_map: "distinct (map registry_key r) \<Longrightarrow> card (dom (registry_map r)) = length r"
  by (metis dom_registry_map distinct_card length_map set_map)


lemma registry_keys_update:
  assumes "i < length r" and "registry_key e = registry_key (r ! i)"
  shows "map registry_key (r[i := e]) = map registry_key r"
proof -
  have "map registry_key (r[i := e]) = (map registry_key r)[i := map registry_key r ! i]"
    using assms by (simp add: map_update)
  then show ?thesis by simp
qed

lemma registry_map_update:
  assumes "distinct (map registry_key r)" and "i < length r" and "registry_key e = registry_key (r ! i)"
  shows "registry_map (r[i := e]) = (registry_map r)(registry_key e \<mapsto> be_manifest e)"
proof
  fix k
  have keys: "map registry_key (r[i := e]) = map registry_key r"
    using assms(2,3) by (rule registry_keys_update)
  have d: "distinct (map registry_key (r[i := e]))" using assms(1) by (simp only: keys)
  show "registry_map (r[i := e]) k = ((registry_map r)(registry_key e \<mapsto> be_manifest e)) k"
  proof (cases "k \<in> registry_key ` set r")
    case False
    then have "k \<notin> registry_key ` set (r[i := e])" using keys by (metis set_map)
    with False show ?thesis using registry_map_None [of r] registry_map_None [of "r[i := e]"] assms(2,3)
      by (metis fun_upd_other image_eqI nth_mem)
  next
    case True
    then obtain j where j: "j < length r" "k = registry_key (r ! j)" by (metis imageE in_set_conv_nth)
    have k: "k = registry_key (r[i := e] ! j)" using j assms(2,3) by (simp add: nth_list_update)
    have "registry_map (r[i := e]) k = Some (be_manifest (r[i := e] ! j))"
      unfolding k by (rule registry_map_nth [OF d]) (simp add: j)
    moreover have "registry_map r k = Some (be_manifest (r ! j))"
      unfolding j(2) by (rule registry_map_nth [OF assms(1) j(1)])
    moreover have "(j = i) = (k = registry_key e)"
      using assms(1,2,3) j by (auto simp: distinct_conv_nth)
    ultimately show ?thesis using j by (auto simp: nth_list_update)
  qed
qed

text \<open>Deletion moves the last entry into the gap: as a set, one entry is gone.\<close>

lemma mset_swap_delete:
  assumes "i < length r"
  shows "mset (butlast (r[i := last r])) + {#r ! i#} = mset r"
proof (cases "i = length r - 1")
  case True
  have ne: "r \<noteq> []" using assms by auto
  with True have "butlast (r[i := last r]) = butlast r" and "r ! i = last r"
    using assms by (simp_all add: butlast_conv_take last_conv_nth)
  then show ?thesis using assms by (metis append_butlast_last_id length_0_conv mset.simps mset_append not_less_zero union_commute)
next
  case False
  then have i: "i < length (butlast r)" using assms by simp
  have r: "r = butlast r @ [last r]" using assms by (cases r rule: rev_cases) auto
  have "butlast (r[i := last r]) = (butlast r)[i := last r]"
    using i by (subst r) (simp add: list_update_append del: append_butlast_last_id)
  moreover have "mset ((butlast r)[i := last r]) = add_mset (last r) (mset (butlast r) - {#butlast r ! i#})"
    using i by (rule mset_update)
  moreover have "butlast r ! i = r ! i" using i by (simp add: nth_butlast)
  moreover have "butlast r ! i \<in># mset (butlast r)" using i by simp
  moreover have "mset r = add_mset (last r) (mset (butlast r))" by (subst r) (simp del: append_butlast_last_id)
  ultimately show ?thesis by simp
qed

lemma registry_map_mset:
  assumes "distinct (map registry_key r)" and "mset r' = mset r"
  shows "distinct (map registry_key r') \<and> registry_map r' = registry_map r"
proof -
  have m: "mset (map f r') = mset (map f r)" for f :: "block_entry_t \<Rightarrow> 'z" using assms(2) by simp
  have d: "distinct (map registry_key r')" using assms(1) mset_eq_imp_distinct_iff [OF m] by blast
  show ?thesis unfolding registry_map_def
    by (rule conjI [OF d], rule map_of_inject_set [THEN iffD2])
      (use d assms in \<open>auto simp: comp_def dest: mset_eq_setD\<close>)
qed

lemma registry_map_Cons: "registry_map (e # r) = (registry_map r)(registry_key e \<mapsto> be_manifest e)"
  by (simp add: registry_map_def)

lemma registry_map_append:
  assumes "distinct (map registry_key r)" and "registry_key e \<notin> registry_key ` set r"
  shows "registry_map (r @ [e]) = (registry_map r)(registry_key e \<mapsto> be_manifest e)"
proof -
  have "distinct (map registry_key (e # r))" using assms by simp
  from registry_map_mset [OF this, of "r @ [e]"] show ?thesis by (simp add: registry_map_Cons)
qed

lemma registry_delete_map:
  assumes "distinct (map registry_key r)" and "i < length r"
  shows "distinct (map registry_key (butlast (r[i := last r]))) \<and>
    registry_map (butlast (r[i := last r])) = (registry_map r)(registry_key (r ! i) := None)"
proof -
  let ?d = "butlast (r[i := last r])"
  have "mset (r ! i # ?d) = mset r" using mset_swap_delete [OF assms(2)] by simp
  from registry_map_mset [OF assms(1) this]
  have d: "distinct (map registry_key (r ! i # ?d))" and m: "registry_map (r ! i # ?d) = registry_map r" by simp_all
  have "registry_map ?d (registry_key (r ! i)) = None" using d by (simp add: registry_map_None)
  then show ?thesis using d unfolding m [symmetric] registry_map_Cons by auto
qed

lemma registry_put_spec:
  assumes "registry_inv r" and "key_fits k" and "registry_put k m r = (b, r')"
  shows "registry_inv r' \<and> b = (registry_map r k \<noteq> None \<or> card (dom (registry_map r)) < REGISTRY_CAP) \<and>
         registry_map r' = (if b then (registry_map r)(k \<mapsto> m) else registry_map r)"
proof -
  let ?s = "case m of Some s \<Rightarrow> s | None \<Rightarrow> []"
  obtain t v where k: "k = (t, v)" by (cases k)
  have d: "distinct (map registry_key r)" and len: "length r \<le> REGISTRY_CAP" using assms(1) by (simp_all add: registry_inv_def)
  have m: "(if m \<noteq> None then Some ?s else None) = m" by (cases m) simp_all
  show ?thesis
  proof (cases "registry_find t v r")
    case (Some i)
    let ?e = "(r ! i)\<lparr>be_manifest := m\<rparr>"
    note i = registry_find_Some [OF Some]
    have e: "registry_key ?e = registry_key (r ! i)" by (simp add: registry_key_def)
    have "map registry_key (r[i := ?e]) = map registry_key r"
      using i e by (intro registry_keys_update) simp_all
    moreover have "r' = r[i := ?e]" "b" using assms(3) m by (auto simp: registry_put_def registry_upsert_def k Some)
    moreover have "registry_map r k \<noteq> None" using i registry_map_nth [OF d, of i] by (simp add: k)
    moreover have "registry_key ?e = k" using e i by (simp only: k)
    then have "registry_map (r[i := ?e]) = (registry_map r)(k \<mapsto> m)"
      using registry_map_update [OF d conjunct1 [OF i] e] by simp
    ultimately show ?thesis using d len by (simp add: registry_inv_def)
  next
    case None
    let ?e = "\<lparr>be_type = t, be_version = v, be_manifest = m\<rparr>"
    have n: "k \<notin> registry_key ` set r" using None by (simp add: registry_find_None k)
    have e: "registry_key ?e = k" by (simp add: registry_key_def k)
    have c: "registry_upsert (m \<noteq> None) t v ?s r = (if length r \<ge> REGISTRY_CAP then (False, None, r) else (True, Some True, r @ [?e]))"
      using assms(2) m by (simp add: registry_upsert_def None key_fits_def k)
    have p: "registry_put k m r = (if length r \<ge> REGISTRY_CAP then (False, r) else (True, r @ [?e]))"
      unfolding registry_put_def k fst_conv snd_conv c by simp
    have a: "registry_map (r @ [?e]) = (registry_map r)(k \<mapsto> m)"
      using registry_map_append [OF d, of ?e] n e by simp
    have "registry_map r k = None" using n by (simp add: registry_map_None)
    then show ?thesis
      using assms(3) p a d len n e by (auto simp: registry_inv_def card_registry_map split: if_splits)
  qed
qed

lemma registry_del_spec:
  assumes "registry_inv r" and "registry_del k r = (b, r')"
  shows "registry_inv r' \<and> b = (registry_map r k \<noteq> None) \<and> registry_map r' = (registry_map r)(k := None)"
proof -
  obtain t v where k: "k = (t, v)" by (cases k)
  have d: "distinct (map registry_key r)" and len: "length r \<le> REGISTRY_CAP" using assms(1) by (simp_all add: registry_inv_def)
  show ?thesis
  proof (cases "registry_find t v r")
    case None
    then have "registry_map r k = None" by (simp add: registry_find_None registry_map_None k)
    with None assms show ?thesis by (auto simp: registry_del_def registry_delete_def k)
  next
    case (Some i)
    note i = registry_find_Some [OF Some]
    have "registry_map r k \<noteq> None" using i registry_map_nth [OF d, of i] by (simp add: k)
    moreover have "r' = butlast (r[i := last r])" "b" using assms(2) by (auto simp: registry_del_def registry_delete_def k Some)
    ultimately show ?thesis using registry_delete_map [OF d, of i] i len by (simp add: registry_inv_def k)
  qed
qed

interpretation registry: bounded_store registry_map registry_put registry_del registry_inv key_fits REGISTRY_CAP
  by unfold_locales (use registry_put_spec registry_del_spec in \<open>blast+\<close>)

lemma registry_inv_Nil: "registry_inv []"
  by (simp add: registry_inv_def)

text \<open>
  C25. The registry is a map of bounded size. Starting from the empty registry, every sequence of
  writes and deletions whose types and versions fit the entry's buffers gives the same successes and
  failures as on a partial map that holds at most 64 keys, and ends with the same contents.
\<close>

theorem registry_refines_map:
  assumes "list_all (\<lambda>x. key_fits (op_key x)) ops"
    and "run_ops (store_step registry_put registry_del) ops [] = (results, r)"
  shows "run_ops (spec_step 64) ops Map.empty = (results, registry_map r) \<and> length r \<le> 64"
proof -
  have "registry_map [] = Map.empty" by (simp add: registry_map_def)
  with registry.run_refines [OF registry_inv_Nil assms] show ?thesis by (auto simp: registry_inv_def)
qed

lemma registry_find_long:
  assumes "\<forall>e\<in>set r. length (be_version e) < 64" and "length version \<ge> 64"
  shows "registry_find type version r = None"
  using assms by (auto simp: registry_find_None registry_key_def)

lemma registry_put_long:
  assumes "\<forall>e\<in>set r. length (be_version e) < 64" and "length version \<ge> 64" and "length r < 64"
  obtains r' where "registry_put (type, version) m r = (True, r')"
    "\<forall>e\<in>set r'. length (be_version e) < 64" "length r' = length r + 1"
  using assms by (simp add: registry_put_def registry_upsert_def registry_find_long)

text \<open>
  A version of 64 characters or more is stored cut off and can never be found again: writing the
  same block \<open>n\<close> times takes \<open>n\<close> entries, each reported as created, and deleting it reports that it
  does not exist. 64 writes of one such block fill the registry.
\<close>

theorem registry_long_version:
  assumes "length version \<ge> 64" and "n \<le> 64"
  shows "\<exists>r. run_ops (store_step registry_put registry_del) (replicate n (Put (type, version) m)) [] = (replicate n True, r) \<and>
           length r = n \<and> registry_del (type, version) r = (False, r) \<and>
           fst (registry_put (type, version) m r) = (n < 64)"
proof -
  have "\<exists>r'. run_ops (store_step registry_put registry_del) (replicate k (Put (type, version) m)) r = (replicate k True, r') \<and>
      length r' = length r + k \<and> (\<forall>e\<in>set r'. length (be_version e) < 64)"
    if "\<forall>e\<in>set r. length (be_version e) < 64" "length r + k \<le> 64" for k r
    using that
  proof (induction k arbitrary: r)
    case 0 then show ?case by simp
  next
    case (Suc k)
    have "length r < 64" using Suc.prems(2) by simp
    then obtain r1 where r1: "registry_put (type, version) m r = (True, r1)"
      "\<forall>e\<in>set r1. length (be_version e) < 64" "length r1 = length r + 1"
      by (rule registry_put_long [OF Suc.prems(1) assms(1)])
    from Suc.IH [OF r1(2)] r1 Suc.prems(2) show ?case by fastforce
  qed
  from this [of "[]" n] assms(2) obtain r where
    r: "run_ops (store_step registry_put registry_del) (replicate n (Put (type, version) m)) [] = (replicate n True, r)"
      "length r = n" "\<forall>e\<in>set r. length (be_version e) < 64" by auto
  note f = registry_find_long [OF r(3) assms(1), of type]
  have "registry_del (type, version) r = (False, r)" by (simp add: registry_del_def registry_delete_def f)
  moreover have "fst (registry_put (type, version) m r) = (n < 64)"
    using r(2) by (simp add: registry_put_def registry_upsert_def f)
  ultimately show ?thesis using r(1,2) by blast
qed

section \<open>Concrete runs\<close>

theorem registry_refines_map_witness:
  "run_ops (store_step registry_put registry_del)
     [Put (''llm'', ''1'') (Some ''a''), Put (''llm'', ''2'') (Some ''b''), Put (''llm'', ''1'') (Some ''c''), Del (''llm'', ''1''), Del (''llm'', ''1'')] [] =
     ([True, True, True, True, False], [\<lparr>be_type = ''llm'', be_version = ''2'', be_manifest = Some ''b''\<rparr>]) \<and>
   fst (run_ops (spec_step 64)
     [Put (''llm'', ''1'') (Some ''a''), Put (''llm'', ''2'') (Some ''b''), Put (''llm'', ''1'') (Some ''c''), Del (''llm'', ''1''), Del (''llm'', ''1'')] Map.empty) =
     [True, True, True, True, False]"
proof -
  let ?ops = "[Put (''llm'', ''1'') (Some ''a''), Put (''llm'', ''2'') (Some ''b''), Put (''llm'', ''1'') (Some ''c''), Del (''llm'', ''1''), Del (''llm'', ''1'')]"
  have r: "run_ops (store_step registry_put registry_del) ?ops [] =
      ([True, True, True, True, False], [\<lparr>be_type = ''llm'', be_version = ''2'', be_manifest = Some ''b''\<rparr>])"
    by (simp add: registry_put_def registry_upsert_def registry_find_def registry_del_def registry_delete_def c_copy_def)
  have "list_all (\<lambda>x. key_fits (op_key x)) ?ops" by (simp add: key_fits_def)
  from registry_refines_map [OF this r] r show ?thesis by (metis fst_conv)
qed

theorem registry_long_version_witness:
  "\<exists>r. run_ops (store_step registry_put registry_del) (replicate 2 (Put (''llm'', replicate 64 CHR ''1'') (Some ''a''))) [] =
         ([True, True], r) \<and> length r = 2 \<and> registry_del (''llm'', replicate 64 CHR ''1'') r = (False, r)"
  using registry_long_version [of "replicate 64 CHR ''1''" 2 "''llm''" "Some ''a''"] by (auto simp: numeral_2_eq_2)

end
