(* ===== verification/HTTP_Events.thy ===== *)
theory HTTP_Events
  imports Gateway_Prelude "HOL-Library.Multiset"
begin

text \<open>
  Three small parts of the HTTP server (\<open>src/src/http_server.c\<close>): the pool of server-sent-event
  clients (\<open>sse_register_client\<close>, \<open>sse_broadcast_json\<close>, \<open>sse_unregister_fd\<close>), the ring of recent
  latencies with its percentiles (\<open>record_latency_ms\<close>, \<open>percentile_ms\<close>) and the query string
  lookup (\<open>query_get_param\<close>). Calls of \<open>write\<close> and \<open>close\<close> are recorded as events; which writes
  succeed is a parameter.
\<close>

section \<open>Event clients\<close>

abbreviation (input) SSE_MAX_CLIENTS :: nat where "SSE_MAX_CLIENTS \<equiv> 64"

record sse_client_t =
  sse_fd :: int
  sse_tenant :: string
  last_write :: int

type_synonym sse_pool = "sse_client_t list"

datatype http_event = Wrote int string | Closed_Fd int

definition free_slot :: sse_client_t where
  "free_slot = \<lparr>sse_fd = -1, sse_tenant = [], last_write = 0\<rparr>"

definition sse_init_pool :: sse_pool where
  "sse_init_pool = replicate SSE_MAX_CLIENTS free_slot"

definition sse_unregister_fd :: "int \<Rightarrow> sse_pool \<Rightarrow> http_event list \<times> sse_pool" where
  "sse_unregister_fd fd p =
     (case first_index (\<lambda>c. sse_fd c = fd) p of
        None \<Rightarrow> ([], p)
      | Some i \<Rightarrow> ([Closed_Fd (sse_fd (p ! i))], p[i := free_slot]))"

definition crlf :: string where
  "crlf = [CHR 0x0D, CHR 0x0A]"

definition lf :: string where
  "lf = [CHR 0x0A]"

definition sse_header :: string where
  "sse_header = ''HTTP/1.1 200 OK'' @ crlf @ ''Content-Type: text/event-stream'' @ crlf @
     ''Cache-Control: no-cache'' @ crlf @ ''Connection: keep-alive'' @ crlf @
     ''Access-Control-Allow-Origin: *'' @ crlf @ crlf"

definition sse_register_client :: "int \<Rightarrow> int \<Rightarrow> string \<Rightarrow> sse_pool \<Rightarrow> bool \<times> http_event list \<times> sse_pool" where
  "sse_register_client now client_fd tenant p =
     (let greeting = [Wrote client_fd sse_header, Wrote client_fd ('': connected'' @ lf @ lf)] in
      case first_index (\<lambda>c. sse_fd c = -1) p of
        Some i \<Rightarrow>
          (True, greeting, p[i := \<lparr>sse_fd = client_fd, sse_tenant = c_copy 64 tenant, last_write = now\<rparr>])
      | None \<Rightarrow> (False, greeting @ [Wrote client_fd ('':pool_full'' @ lf @ lf)], p))"

text \<open>The four writes of one event; the first that fails ends them.\<close>

fun sse_writes :: "(int \<Rightarrow> string \<Rightarrow> bool) \<Rightarrow> int \<Rightarrow> string list \<Rightarrow> http_event list \<times> bool" where
  "sse_writes ok fd [] = ([], True)"
| "sse_writes ok fd (d # ds) =
     (if ok fd d then (let (ev, done) = sse_writes ok fd ds in (Wrote fd d # ev, done)) else ([], False))"

text \<open>
  The first line is formatted into 128 bytes and as many bytes are written from there as the whole line
  has: a line of 128 characters ends in the terminator, and a longer one is read beyond the array.
\<close>

definition event_line :: "string \<Rightarrow> string" where
  "event_line event = ''event: '' @ event @ lf"

definition sse_parts :: "string \<Rightarrow> string \<Rightarrow> string list" where
  "sse_parts event json =
     [if length (event_line event) < 128 then event_line event else take 127 (event_line event) @ [CHR 0x00], ''data: '', json, lf @ lf]"

definition sse_wants :: "string option \<Rightarrow> sse_client_t \<Rightarrow> bool" where
  "sse_wants tenant c \<longleftrightarrow> sse_fd c \<noteq> -1 \<and> \<not> (case tenant of Some t \<Rightarrow> t \<noteq> [] \<and> t \<noteq> sse_tenant c | None \<Rightarrow> False)"

definition sse_send ::
    "(int \<Rightarrow> string \<Rightarrow> bool) \<Rightarrow> int \<Rightarrow> string option \<Rightarrow> string list \<Rightarrow> nat \<Rightarrow> sse_pool \<Rightarrow> http_event list \<times> sse_pool" where
  "sse_send ok now tenant parts i p =
     (let c = p ! i in
      if sse_fd c = -1 then ([], p)
      else if (case tenant of Some t \<Rightarrow> t \<noteq> [] \<and> t \<noteq> sse_tenant c | None \<Rightarrow> False) then ([], p)
      else (let fd = sse_fd c; (ev, done) = sse_writes ok fd parts in
            if done then (ev, p[i := c\<lparr>last_write := now\<rparr>])
            else (let (ev', p') = sse_unregister_fd fd p in (ev @ ev', p'))))"

fun sse_send_all ::
    "(int \<Rightarrow> string \<Rightarrow> bool) \<Rightarrow> int \<Rightarrow> string option \<Rightarrow> string list \<Rightarrow> nat list \<Rightarrow> sse_pool \<Rightarrow> http_event list \<times> sse_pool" where
  "sse_send_all ok now tenant parts [] p = ([], p)"
| "sse_send_all ok now tenant parts (i # is) p =
     (let (ev, p1) = sse_send ok now tenant parts i p; (ev', p2) = sse_send_all ok now tenant parts is p1 in (ev @ ev', p2))"

definition sse_broadcast_json ::
    "(int \<Rightarrow> string \<Rightarrow> bool) \<Rightarrow> int \<Rightarrow> string option \<Rightarrow> string \<Rightarrow> string \<Rightarrow> sse_pool \<Rightarrow> (http_event list \<times> sse_pool) outcome" where
  "sse_broadcast_json ok now tenant event json p =
     (if length (event_line event) > 128 \<and> list_ex (sse_wants tenant) p then Undefined
      else Finished (sse_send_all ok now tenant (sse_parts event json) (slots SSE_MAX_CLIENTS) p))"

fun sse_close_slots :: "nat list \<Rightarrow> sse_pool \<Rightarrow> http_event list \<times> sse_pool" where
  "sse_close_slots [] p = ([], p)"
| "sse_close_slots (i # is) p =
     (let (ev, p1) = (if sse_fd (p ! i) \<noteq> -1 then sse_unregister_fd (sse_fd (p ! i)) p else ([], p));
          (ev', p2) = sse_close_slots is p1 in (ev @ ev', p2))"

definition sse_shutdown :: "sse_pool \<Rightarrow> http_event list \<times> sse_pool" where
  "sse_shutdown p = sse_close_slots (slots SSE_MAX_CLIENTS) p"

section \<open>Latencies\<close>

abbreviation (input) LAT_BUF_SIZE :: nat where "LAT_BUF_SIZE \<equiv> 256"

record latency_ring =
  latency_buf :: "int list"
  latency_count :: nat
  latency_index :: nat

definition latency_init :: latency_ring where
  "latency_init = \<lparr>latency_buf = replicate LAT_BUF_SIZE 0, latency_count = 0, latency_index = 0\<rparr>"

definition record_latency_ms :: "int \<Rightarrow> latency_ring \<Rightarrow> latency_ring" where
  "record_latency_ms ms r =
     r\<lparr>latency_buf := (latency_buf r)[latency_index r := (if ms < 0 then 0 else ms)],
       latency_index := (latency_index r + 1) mod LAT_BUF_SIZE,
       latency_count := (if latency_count r < LAT_BUF_SIZE then latency_count r + 1 else latency_count r)\<rparr>"

definition percentile_ms :: "int \<Rightarrow> latency_ring \<Rightarrow> int" where
  "percentile_ms p r =
     (if latency_count r = 0 then -1
      else (let n = latency_count r; tmp = sort (take n (latency_buf r));
                idx = (p * (int n - 1)) div 100;
                idx1 = (if idx < 0 then 0 else idx);
                idx2 = (if idx1 \<ge> int n then int n - 1 else idx1) in
            tmp ! nat idx2))"

section \<open>Query strings\<close>

lemma strchr_length: "strchr s c = Some r \<Longrightarrow> r \<noteq> [] \<and> length r \<le> length s"
  by (induction s) (auto split: if_splits)

text \<open>
  The loop over the parameters. A value runs from behind the equals sign to the next ampersand; were
  that one in front of it, its length would wrap around to a huge number.
\<close>

function query_loop :: "string \<Rightarrow> nat \<Rightarrow> string \<Rightarrow> string option" where
  "query_loop key buflen q =
     (if q = [] then None
      else (case strchr q (CHR ''='') of
          None \<Rightarrow> None
        | Some eq \<Rightarrow>
            (let amp = (case strchr q (CHR ''&'') of None \<Rightarrow> [] | Some a \<Rightarrow> a) in
             if length q - length eq = length key \<and> starts_with q key then
               (let vlen = (if length amp \<le> length (tl eq) then length (tl eq) - length amp else buflen) in
                Some (take (if vlen \<ge> buflen then buflen - 1 else vlen) (tl eq)))
             else query_loop key buflen (if amp = [] then [] else tl amp))))"
  by auto
termination
proof (relation "measure (\<lambda>(_, _, q). length q)", goal_cases)
  case (2 key buflen q eq amp)
  then show ?case using strchr_length [of q "CHR ''&''"] by (cases amp) (auto split: option.splits simp: Suc_le_eq)
qed simp

declare query_loop.simps [simp del]

definition query_get_param :: "string \<Rightarrow> string \<Rightarrow> nat \<Rightarrow> string option" where
  "query_get_param path key buflen =
     (case strchr path (CHR ''?'') of None \<Rightarrow> None | Some q \<Rightarrow> query_loop key buflen (tl q))"

section \<open>Specifications\<close>

text \<open>
  The pools the server can reach, with the tenant each descriptor was last registered for. The
  operating system never hands out a descriptor that is still open.
\<close>

inductive sse_reach :: "sse_pool \<Rightarrow> (int \<Rightarrow> string option) \<Rightarrow> bool" where
  init: "sse_reach sse_init_pool (\<lambda>_. None)"
| register: "sse_reach p owner \<Longrightarrow> 0 \<le> fd \<Longrightarrow> fd \<notin> sse_fd ` set p \<Longrightarrow>
    sse_register_client now fd tenant p = (True, ev, p') \<Longrightarrow> sse_reach p' (owner(fd \<mapsto> tenant))"
| broadcast: "sse_reach p owner \<Longrightarrow> sse_broadcast_json ok now tenant event json p = Finished (ev, p') \<Longrightarrow> sse_reach p' owner"
| unregister: "sse_reach p owner \<Longrightarrow> sse_unregister_fd fd p = (ev, p') \<Longrightarrow> sse_reach p' owner"

definition sse_owned :: "(int \<Rightarrow> string option) \<Rightarrow> sse_client_t \<Rightarrow> bool" where
  "sse_owned owner c \<longleftrightarrow>
     sse_fd c = -1 \<or> (case owner (sse_fd c) of None \<Rightarrow> False | Some t \<Rightarrow> sse_tenant c = c_copy 64 t)"

text \<open>The open descriptors of a tenant's clients, in slot order.\<close>

definition tenant_fds :: "string \<Rightarrow> sse_pool \<Rightarrow> int list" where
  "tenant_fds t p = map sse_fd (filter (\<lambda>c. sse_fd c \<noteq> -1 \<and> sse_tenant c = t) p)"

text \<open>The last 256 latencies recorded, none below zero.\<close>

definition recent_latencies :: "int list \<Rightarrow> int list" where
  "recent_latencies xs = drop (length xs - LAT_BUF_SIZE) (map (max 0) xs)"

definition sse_inv :: "sse_pool \<Rightarrow> (int \<Rightarrow> string option) \<Rightarrow> bool" where
  "sse_inv p owner \<longleftrightarrow> length p = SSE_MAX_CLIENTS \<and> (\<forall>c\<in>set p. sse_owned owner c)"

text \<open>A ring that holds the window \<open>w\<close>, oldest first.\<close>

definition ring_holds :: "int list \<Rightarrow> latency_ring \<Rightarrow> bool" where
  "ring_holds w r \<longleftrightarrow> length (latency_buf r) = LAT_BUF_SIZE \<and> latency_count r = length w \<and> latency_index r < LAT_BUF_SIZE \<and>
     (if length w < LAT_BUF_SIZE then latency_index r = length w \<and> take (length w) (latency_buf r) = w
      else length w = LAT_BUF_SIZE \<and> drop (latency_index r) (latency_buf r) @ take (latency_index r) (latency_buf r) = w)"

text \<open>The parameters of a query string, and the value of the first one with a given name.\<close>

fun split_on :: "char \<Rightarrow> string \<Rightarrow> string list" where
  "split_on c [] = [[]]"
| "split_on c (x # xs) =
     (if x = c then [] # split_on c xs
      else (case split_on c xs of [] \<Rightarrow> [[x]] | w # ws \<Rightarrow> (x # w) # ws))"

fun param_value :: "string \<Rightarrow> string list \<Rightarrow> string option" where
  "param_value key [] = None"
| "param_value key (s # ss) =
     (if starts_with s (key @ ''='') then Some (drop (length key + 1) s) else param_value key ss)"

section \<open>Event client lemmas\<close>

lemma sse_writes_events: "Wrote fd' d \<in> set (fst (sse_writes ok fd ds)) \<Longrightarrow> fd' = fd"
  by (induction ds) (auto split: prod.splits if_splits)

lemma sse_writes_all: "(\<And>fd d. ok fd d) \<Longrightarrow> sse_writes ok fd ds = (map (Wrote fd) ds, True)"
  by (induction ds) simp_all

lemma sse_unregister_fd_pool:
  "sse_unregister_fd fd p = (ev, p') \<Longrightarrow>
     length p' = length p \<and> set p' \<subseteq> insert free_slot (set p) \<and> (\<forall>fd d. Wrote fd d \<notin> set ev)"
  using set_update_subset_insert [of p] by (fastforce simp: sse_unregister_fd_def split: option.splits)

lemma sse_send_pool:
  assumes "sse_send ok now tenant parts i p = (ev, p')" and "i < length p"
  shows "length p' = length p" and "set p' \<subseteq> insert free_slot (set p \<union> (\<lambda>c. c\<lparr>last_write := now\<rparr>) ` set p)"
    and "Wrote fd d \<in> set ev \<Longrightarrow> fd \<noteq> -1 \<and> sse_fd (p ! i) = fd \<and>
           (\<forall>t. tenant = Some t \<longrightarrow> t = [] \<or> sse_tenant (p ! i) = t)"
proof -
  note u = sse_unregister_fd_pool [of "sse_fd (p ! i)" p]
  have w: "set (p[i := (p ! i)\<lparr>last_write := now\<rparr>]) \<subseteq> insert ((p ! i)\<lparr>last_write := now\<rparr>) (set p)"
    by (rule set_update_subset_insert)
  have pi: "p ! i \<in> set p" using assms(2) by simp
  show "length p' = length p"
    using assms(1) u by (auto simp: sse_send_def Let_def split: if_splits prod.splits)
  show "set p' \<subseteq> insert free_slot (set p \<union> (\<lambda>c. c\<lparr>last_write := now\<rparr>) ` set p)"
    using assms(1) u w pi by (fastforce simp: sse_send_def Let_def split: if_splits prod.splits)
  show "fd \<noteq> -1 \<and> sse_fd (p ! i) = fd \<and> (\<forall>t. tenant = Some t \<longrightarrow> t = [] \<or> sse_tenant (p ! i) = t)"
    if "Wrote fd d \<in> set ev"
    using assms(1) that u sse_writes_events [of fd d ok "sse_fd (p ! i)" parts]
    by (auto simp: sse_send_def Let_def split: if_splits prod.splits option.splits)
qed

lemma sse_owned_free [simp]: "sse_owned owner free_slot"
  by (simp add: sse_owned_def free_slot_def)

lemma sse_owned_touch [simp]: "sse_owned owner (c\<lparr>last_write := now\<rparr>) = sse_owned owner c"
  by (simp add: sse_owned_def split: option.split)

lemma sse_inv_subset:
  "sse_inv p owner \<Longrightarrow> length p' = length p \<Longrightarrow>
     set p' \<subseteq> insert free_slot (set p \<union> (\<lambda>c. c\<lparr>last_write := now\<rparr>) ` set p) \<Longrightarrow> sse_inv p' owner"
  by (auto simp: sse_inv_def)

lemma sse_send_all_owned:
  assumes "sse_inv p owner" and "sse_send_all ok now tenant parts ids p = (ev, p')" and "set ids \<subseteq> {..<SSE_MAX_CLIENTS}"
  shows "sse_inv p' owner \<and>
    (\<forall>fd d t. Wrote fd d \<in> set ev \<and> tenant = Some t \<and> t \<noteq> [] \<longrightarrow> (\<exists>t'. owner fd = Some t' \<and> c_copy 64 t' = t))"
  using assms
proof (induction ids arbitrary: p ev)
  case Nil then show ?case by simp
next
  case (Cons i ids)
  obtain ev1 p1 where s: "sse_send ok now tenant parts i p = (ev1, p1)" by fastforce
  obtain ev2 where r: "sse_send_all ok now tenant parts ids p1 = (ev2, p')" "ev = ev1 @ ev2"
    using Cons.prems(2) by (auto simp: s split: prod.splits)
  have i: "i < length p" using Cons.prems(1,3) by (simp add: sse_inv_def)
  note p = sse_send_pool [OF s i]
  have "sse_inv p1 owner" by (rule sse_inv_subset [OF Cons.prems(1) p(1,2)])
  from Cons.IH [OF this r(1)] Cons.prems(3) have ih: "sse_inv p' owner"
      "\<forall>fd d t. Wrote fd d \<in> set ev2 \<and> tenant = Some t \<and> t \<noteq> [] \<longrightarrow> (\<exists>t'. owner fd = Some t' \<and> c_copy 64 t' = t)"
    by auto
  have "sse_owned owner (p ! i)" using Cons.prems(1) i by (simp add: sse_inv_def)
  then have "\<exists>t'. owner fd = Some t' \<and> c_copy 64 t' = t" if "Wrote fd d \<in> set ev1" "tenant = Some t" "t \<noteq> []" for fd d t
    using p(3) [OF that(1)] that(2,3) by (auto simp: sse_owned_def split: option.splits)
  with ih show ?case by (auto simp: r(2))
qed

lemma sse_register_client_inv:
  assumes "sse_inv p owner" and "fd \<notin> sse_fd ` set p" and "sse_register_client now fd tenant p = (True, ev, p')"
  shows "sse_inv p' (owner(fd \<mapsto> tenant))"
proof -
  obtain i where p': "p' = p[i := \<lparr>sse_fd = fd, sse_tenant = c_copy 64 tenant, last_write = now\<rparr>]"
    using assms(3) by (auto simp: sse_register_client_def Let_def split: option.splits)
  have "sse_owned (owner(fd \<mapsto> tenant)) c" if "c \<in> set p" for c
    using assms(1,2) that by (auto simp: sse_inv_def sse_owned_def)
  moreover have "sse_owned (owner(fd \<mapsto> tenant)) \<lparr>sse_fd = fd, sse_tenant = c_copy 64 tenant, last_write = now\<rparr>"
    by (simp add: sse_owned_def)
  ultimately show ?thesis using assms(1) set_update_subset_insert [of p i] by (auto simp: sse_inv_def p')
qed

lemma sse_reach_inv: "sse_reach p owner \<Longrightarrow> sse_inv p owner"
proof (induction rule: sse_reach.induct)
  case init show ?case by (simp add: sse_inv_def sse_init_pool_def)
next
  case (register p owner fd now tenant ev p') then show ?case by (intro sse_register_client_inv)
next
  case (broadcast p owner ok now tenant event json ev p')
  then have "sse_send_all ok now tenant (sse_parts event json) (slots SSE_MAX_CLIENTS) p = (ev, p')"
    by (simp add: sse_broadcast_json_def split: if_splits)
  from sse_send_all_owned [OF broadcast.IH this] show ?case by (simp add: set_slots)
next
  case (unregister p owner fd ev p')
  then show ?case using sse_unregister_fd_pool [of fd p ev p'] sse_inv_subset [of p owner p' 0] by auto
qed

text \<open>With every write succeeding a broadcast changes only the times, and writes each client's event.\<close>

lemma sse_send_all_ok:
  assumes "\<And>fd d. ok fd d" and "set ids \<subseteq> {..<length p}" and "distinct ids"
  shows "fst (sse_send_all ok now (Some t) parts ids p) =
    concat (map (\<lambda>i. if sse_fd (p ! i) \<noteq> -1 \<and> (t = [] \<or> sse_tenant (p ! i) = t)
                     then map (Wrote (sse_fd (p ! i))) parts else []) ids)"
  using assms(2,3)
proof (induction ids arbitrary: p)
  case Nil then show ?case by simp
next
  case (Cons i ids)
  let ?hit = "\<lambda>p i. sse_fd (p ! i) \<noteq> -1 \<and> (t = [] \<or> sse_tenant (p ! i) = t)"
  define p1 where "p1 = (if ?hit p i then p[i := (p ! i)\<lparr>last_write := now\<rparr>] else p)"
  have s: "sse_send ok now (Some t) parts i p = (if ?hit p i then map (Wrote (sse_fd (p ! i))) parts else [], p1)"
      "length p1 = length p" "\<forall>j. j \<noteq> i \<longrightarrow> p1 ! j = p ! j"
    using assms(1) by (auto simp: sse_send_def Let_def sse_writes_all [OF assms(1)] p1_def)
  have e: "p1 ! j = p ! j" if "j \<in> set ids" for j using s(3) Cons.prems(2) that by auto
  have "map (\<lambda>i. if ?hit p1 i then map (Wrote (sse_fd (p1 ! i))) parts else []) ids =
      map (\<lambda>i. if ?hit p i then map (Wrote (sse_fd (p ! i))) parts else []) ids"
    by (rule map_cong [OF refl]) (simp only: e)
  with Cons.IH [of p1] Cons.prems s(1,2) show ?case by (auto split: prod.splits)
qed

text \<open>
  C26. Events stay with their tenant. In every state the server can reach, a broadcast for a tenant of an
  event whose name has less than 120 characters comes to its end and writes only to descriptors registered
  for that tenant (tenant ids count up to 63 characters); and if all writes succeed, each of its open
  clients gets exactly the event line, the data and the empty line, in slot order, and nobody gets
  anything else.
\<close>

theorem sse_broadcast_isolated:
  assumes "sse_reach p owner" and "t \<noteq> []" and "length event < 120"
  shows "\<exists>ev p'. sse_broadcast_json ok now (Some t) event json p = Finished (ev, p') \<and>
    (\<forall>fd d. Wrote fd d \<in> set ev \<longrightarrow> (\<exists>t'. owner fd = Some t' \<and> c_copy 64 t' = t)) \<and>
    ((\<forall>fd d. ok fd d) \<longrightarrow>
       ev = concat (map (\<lambda>fd. map (Wrote fd) [''event: '' @ event @ lf, ''data: '', json, lf @ lf]) (tenant_fds t p)))"
proof -
  note inv = sse_reach_inv [OF assms(1)]
  have len: "length p = 64" using inv by (simp add: sse_inv_def)
  have parts: "sse_parts event json = [''event: '' @ event @ lf, ''data: '', json, lf @ lf]"
    using assms(3) by (simp add: sse_parts_def event_line_def lf_def)
  obtain ev p' where all: "sse_send_all ok now (Some t) (sse_parts event json) (slots 64) p = (ev, p')" by fastforce
  have run: "sse_broadcast_json ok now (Some t) event json p = Finished (ev, p')"
    using assms(3) all by (simp add: sse_broadcast_json_def event_line_def lf_def)
  have "ev = concat (map (\<lambda>fd. map (Wrote fd) (sse_parts event json)) (tenant_fds t p))" if "\<And>fd d. ok fd d"
  proof -
    let ?f = "\<lambda>c. if sse_fd c \<noteq> -1 \<and> (t = [] \<or> sse_tenant c = t) then map (Wrote (sse_fd c)) (sse_parts event json) else []"
    have sub: "set (slots 64) \<subseteq> {..<length p}" by (simp add: len)
    have "ev = concat (map (\<lambda>i. ?f (p ! i)) (slots 64))"
      using sse_send_all_ok [where ok = ok, OF that sub distinct_slots, of now t "sse_parts event json"] all by simp
    also have "map (\<lambda>i. ?f (p ! i)) (slots 64) = map ?f (map ((!) p) [0..<length p])" by (simp only: slots_def len map_map comp_def)
    also have "\<dots> = map ?f p" by (simp only: map_nth)
    also have "?f = (\<lambda>c. if sse_fd c \<noteq> -1 \<and> sse_tenant c = t then map (Wrote (sse_fd c)) (sse_parts event json) else [])"
      using assms(2) by simp
    also have "concat (map \<dots> p) = concat (map (\<lambda>fd. map (Wrote fd) (sse_parts event json)) (tenant_fds t p))"
      unfolding tenant_fds_def by (induction p) auto
    finally show ?thesis .
  qed
  moreover have "\<forall>fd d. Wrote fd d \<in> set ev \<longrightarrow> (\<exists>t'. owner fd = Some t' \<and> c_copy 64 t' = t)"
    using sse_send_all_owned [OF inv all] assms(2) by (auto simp: set_slots)
  ultimately show ?thesis using run unfolding parts by blast
qed

text \<open>A longer event name makes the server read beyond its array as soon as one client is to get the event.\<close>

lemma long_event_overreads:
  "length event > 120 \<Longrightarrow> c \<in> set p \<Longrightarrow> sse_wants tenant c \<Longrightarrow> sse_broadcast_json ok now tenant event json p = Undefined"
  by (auto simp: sse_broadcast_json_def event_line_def lf_def list_ex_iff)

section \<open>Latency lemmas\<close>

lemma record_latency_filling:
  assumes "ring_holds w r" and "length w < LAT_BUF_SIZE"
  shows "ring_holds (w @ [max 0 x]) (record_latency_ms x r)"
proof -
  let ?b = "(latency_buf r)[length w := max 0 x]"
  have r: "length (latency_buf r) = 256" "latency_count r = length w" "latency_index r = length w"
      "take (length w) (latency_buf r) = w"
    using assms by (simp_all add: ring_holds_def)
  have t: "take (Suc (length w)) ?b = w @ [max 0 x]"
    using r assms(2) by (simp add: take_Suc_conv_app_nth)
  have m: "(if x < 0 then 0 else x) = max 0 x" by simp
  show ?thesis
  proof (cases "length w = 255")
    case True
    then have "?b = w @ [max 0 x]" using t r(1) by simp
    then show ?thesis using r True by (simp add: ring_holds_def record_latency_ms_def m)
  next
    case False
    then show ?thesis using r t assms(2) by (simp add: ring_holds_def record_latency_ms_def m)
  qed
qed

lemma record_latency_full:
  assumes "ring_holds w r" and "length w = LAT_BUF_SIZE"
  shows "ring_holds (tl w @ [max 0 x]) (record_latency_ms x r)"
proof -
  define i where "i = latency_index r"
  define b where "b = latency_buf r"
  have r: "length b = 256" "latency_count r = 256" "i < 256" "w = drop i b @ take i b"
    using assms by (simp_all add: ring_holds_def i_def b_def)
  have m: "(if x < 0 then 0 else x) = max 0 x" by simp
  have tl: "tl w = drop (Suc i) b @ take i b" using r by (simp add: drop_Suc tl_drop tl_append2)
  have b': "take (Suc i) (b[i := max 0 x]) = take i b @ [max 0 x]" using r by (simp add: take_Suc_conv_app_nth)
  show ?thesis
  proof (cases "i = 255")
    case True
    then have "b[i := max 0 x] = take i b @ [max 0 x]" using b' r(1) by simp
    then show ?thesis using r True tl by (simp add: ring_holds_def record_latency_ms_def m i_def [symmetric] b_def [symmetric])
  next
    case False
    then show ?thesis using r tl b' by (simp add: ring_holds_def record_latency_ms_def m i_def [symmetric] b_def [symmetric])
  qed
qed

lemma recent_latencies_snoc:
  "recent_latencies (xs @ [x]) =
     (if length (recent_latencies xs) < LAT_BUF_SIZE then recent_latencies xs @ [max 0 x] else tl (recent_latencies xs) @ [max 0 x])"
proof (cases "length xs < 256")
  case True then show ?thesis by (simp add: recent_latencies_def)
next
  case False
  then have "Suc (length xs) - 256 = Suc (length xs - 256)" by simp
  with False show ?thesis by (simp add: recent_latencies_def drop_Suc tl_drop)
qed

lemma length_recent_latencies: "length (recent_latencies xs) = min (length xs) LAT_BUF_SIZE"
  by (simp add: recent_latencies_def)

lemma record_latencies: "ring_holds (recent_latencies xs) (fold record_latency_ms xs latency_init)"
proof (induction xs rule: rev_induct)
  case Nil show ?case by (simp add: ring_holds_def recent_latencies_def latency_init_def)
next
  case (snoc x xs)
  show ?case
  proof (cases "length (recent_latencies xs) < 256")
    case True then show ?thesis using record_latency_filling [OF snoc True] by (simp add: recent_latencies_snoc)
  next
    case False
    then have "length (recent_latencies xs) = 256" by (simp add: length_recent_latencies)
    from record_latency_full [OF snoc this] this show ?thesis by (simp add: recent_latencies_snoc)
  qed
qed

lemma ring_sorted: "ring_holds w r \<Longrightarrow> sort (take (latency_count r) (latency_buf r)) = sort w"
proof (cases "length w < 256")
  case True then show "ring_holds w r \<Longrightarrow> ?thesis" by (simp add: ring_holds_def)
next
  case False
  assume h: "ring_holds w r"
  let ?i = "latency_index r" and ?b = "latency_buf r"
  have "w = drop ?i ?b @ take ?i ?b" "latency_count r = length ?b" using h False by (simp_all add: ring_holds_def)
  then have "mset w = mset (take (latency_count r) ?b)"
    by (metis append_take_drop_id mset_append take_all_iff order_refl union_commute)
  then show ?thesis by (metis properties_for_sort sorted_sort mset_sort)
qed

text \<open>
  The percentiles are those of the last 256 requests. After any sequence of recorded latencies the
  \<open>p\<close>-th percentile is -1 if there were none, and otherwise the element of rank
  \<open>p * (n - 1) / 100\<close> of the sorted list of the last \<open>n\<close> latencies, at most 256, negative ones
  counted as zero; it never reads outside the ring.
\<close>

theorem percentile_recent:
  assumes "0 \<le> p" and "p \<le> 100" and "n = int (length (recent_latencies xs))"
  shows "percentile_ms p (fold record_latency_ms xs latency_init) =
      (if xs = [] then -1 else sort (recent_latencies xs) ! nat (p * (n - 1) div 100)) \<and>
    (xs = [] \<or> nat (p * (n - 1) div 100) < min (length xs) 256)"
proof (cases "xs = []")
  case True then show ?thesis by (simp add: percentile_ms_def latency_init_def)
next
  case False
  let ?r = "fold record_latency_ms xs latency_init"
  note h = record_latencies [of xs]
  have n: "int (latency_count ?r) = n" "0 < n" "n = int (min (length xs) 256)"
    using h False assms(3) by (simp_all add: ring_holds_def length_recent_latencies)
  have "p * (n - 1) \<le> 100 * (n - 1)" using assms(2) n(2) by (intro mult_right_mono) simp_all
  then have "p * (n - 1) div 100 \<le> 100 * (n - 1) div 100" by (rule zdiv_mono1) simp
  then have lt: "p * (n - 1) div 100 < n" by simp
  have ge: "0 \<le> p * (n - 1) div 100" using assms(1) n(2) by (simp add: pos_imp_zdiv_nonneg_iff)
  have "nat (p * (n - 1) div 100) < min (length xs) 256" using lt ge n(3) by linarith
  moreover have "percentile_ms p ?r = sort (recent_latencies xs) ! nat (p * (n - 1) div 100)"
    using n(2) lt ge ring_sorted [OF h] by (simp add: percentile_ms_def Let_def n(1) [symmetric] not_less [symmetric])
  ultimately show ?thesis using False by simp
qed

section \<open>Query string lemmas\<close>

lemma strchr_None: "strchr s c = None \<longleftrightarrow> c \<notin> set s"
  by (induction s) auto

lemma strchr_Some:
  "strchr s c = Some r \<longleftrightarrow> c \<in> set s \<and> r = dropWhile (\<lambda>x. x \<noteq> c) s"
  by (induction s) auto

lemma split_on_strchr:
  "split_on c s = (case strchr s c of None \<Rightarrow> [s] | Some a \<Rightarrow> takeWhile (\<lambda>x. x \<noteq> c) s # split_on c (tl a))"
  by (induction s) (auto split: option.splits)

lemma split_on_sets: "w \<in> set (split_on c s) \<Longrightarrow> set w \<subseteq> set s"
proof (induction s arbitrary: w)
  case (Cons x s)
  then have "\<forall>w\<in>set (split_on c s). set w \<subseteq> set s" by blast
  with Cons.prems show ?case by (cases "split_on c s") (auto split: if_splits)
qed simp

lemma param_value_None: "\<forall>w\<in>set ws. CHR ''='' \<notin> set w \<Longrightarrow> param_value key ws = None"
  by (induction ws) (auto simp: starts_with_iff)

lemma key_matches:
  assumes "CHR ''='' \<notin> set key" and "CHR ''&'' \<notin> set key" and "CHR ''='' \<in> set q"
  defines "eq \<equiv> dropWhile (\<lambda>x. x \<noteq> CHR ''='') q"
  shows "length q - length eq = length key \<and> starts_with q key \<longleftrightarrow>
         starts_with (takeWhile (\<lambda>x. x \<noteq> CHR ''&'') q) (key @ ''='')"
proof -
  define e where "e = takeWhile (\<lambda>x. x \<noteq> CHR ''='') q"
  have q: "q = e @ eq" by (simp add: e_def eq_def)
  then have len: "length q - length eq = length e" by (metis add_diff_cancel_right' length_append)
  have ne: "eq \<noteq> []" unfolding eq_def dropWhile_eq_Nil_conv using assms(3) by blast
  then have "hd eq = CHR ''=''" using hd_dropWhile [of "\<lambda>x. x \<noteq> CHR ''=''" q] unfolding eq_def by blast
  with ne have eq: "eq = CHR ''='' # tl eq" by (metis list.collapse)
  have "length e = length key \<and> starts_with q key \<longleftrightarrow> e = key"
    using q by (auto simp: starts_with_iff append_eq_append_conv)
  also have "\<dots> \<longleftrightarrow> starts_with (takeWhile (\<lambda>x. x \<noteq> CHR ''&'') q) (key @ ''='')"
  proof
    assume "e = key"
    then have "q = key @ CHR ''='' # tl eq" using q eq by simp
    moreover have "takeWhile (\<lambda>x. x \<noteq> CHR ''&'') (key @ CHR ''='' # tl eq) =
        key @ CHR ''='' # takeWhile (\<lambda>x. x \<noteq> CHR ''&'') (tl eq)"
      using assms(2) by (subst takeWhile_append2) auto
    ultimately show "starts_with (takeWhile (\<lambda>x. x \<noteq> CHR ''&'') q) (key @ ''='')" by (simp add: starts_with_iff)
  next
    assume "starts_with (takeWhile (\<lambda>x. x \<noteq> CHR ''&'') q) (key @ ''='')"
    then obtain r where "takeWhile (\<lambda>x. x \<noteq> CHR ''&'') q = key @ CHR ''='' # r" by (auto simp: starts_with_iff)
    then have "q = key @ CHR ''='' # (r @ dropWhile (\<lambda>x. x \<noteq> CHR ''&'') q)"
      by (metis append_Cons append_assoc takeWhile_dropWhile_id)
    moreover have "takeWhile (\<lambda>x. x \<noteq> CHR ''='') (key @ CHR ''='' # z) = key" for z
      using assms(1) by (subst takeWhile_append2) auto
    ultimately show "e = key" unfolding e_def by metis
  qed
  finally show ?thesis by (simp only: len)
qed

lemma query_loop_first:
  assumes "CHR ''='' \<notin> set key" and "CHR ''&'' \<notin> set key" and "0 < buflen"
  shows "query_loop key buflen q = map_option (take (buflen - 1)) (param_value key (split_on (CHR ''&'') q))"
proof (induction q rule: measure_induct_rule [of length])
  case (less q)
  let ?amp = "dropWhile (\<lambda>x. x \<noteq> CHR ''&'') q" and ?w = "takeWhile (\<lambda>x. x \<noteq> CHR ''&'') q"
  have none: "(?amp = []) = (CHR ''&'' \<notin> set q)" "CHR ''&'' \<notin> set q \<Longrightarrow> ?amp = []" "CHR ''&'' \<notin> set q \<Longrightarrow> ?w = q"
    by (auto simp: dropWhile_eq_Nil_conv takeWhile_eq_all_conv)
  have amp: "(case strchr q (CHR ''&'') of None \<Rightarrow> [] | Some a \<Rightarrow> a) = ?amp"
    by (cases "CHR ''&'' \<in> set q") (simp_all add: strchr_None [THEN iffD2] strchr_Some [THEN iffD2] none)
  have split: "split_on (CHR ''&'') q = ?w # (if ?amp = [] then [] else split_on (CHR ''&'') (tl ?amp))"
    by (cases "CHR ''&'' \<in> set q"; subst split_on_strchr)
      (auto simp: strchr_None [THEN iffD2] strchr_Some [THEN iffD2] none)
  show ?case
  proof (cases "CHR ''='' \<in> set q")
    case False
    then have "param_value key (split_on (CHR ''&'') q) = None"
      using split_on_sets [of _ "CHR ''&''" q] by (intro param_value_None) blast
    then show ?thesis using False by (subst query_loop.simps) (simp add: strchr_None [THEN iffD2])
  next
    case True
    define eq where "eq = dropWhile (\<lambda>x. x \<noteq> CHR ''='') q"
    have seq: "strchr q (CHR ''='') = Some eq" and ne: "q \<noteq> []" using True by (auto simp: strchr_Some eq_def)
    note match = key_matches [OF assms(1,2) True, folded eq_def]
    note loop = query_loop.simps [of key buflen q, unfolded seq option.case amp match Let_def, simplified ne if_False]
    show ?thesis
    proof (cases "starts_with ?w (key @ ''='')")
      case True
      then obtain v where w: "?w = key @ CHR ''='' # v" by (auto simp: starts_with_iff)
      then have q: "q = key @ CHR ''='' # (v @ ?amp)" by (metis append_Cons append_assoc takeWhile_dropWhile_id)
      have "eq = CHR ''='' # (v @ ?amp)" unfolding eq_def by (subst q, subst dropWhile_append3) (use assms(1) in auto)
      then have "tl eq = v @ ?amp" by simp
      then show ?thesis using True w loop split assms(3) by simp
    next
      case False
      then show ?thesis
      proof (cases ?amp)
        case Nil
        then show ?thesis using False loop split by (simp add: query_loop.simps [of _ _ "[]"])
      next
        case (Cons a r)
        have "length r < length q" using Cons by (metis length_dropWhile_le length_Cons Suc_le_eq)
        from less [OF this] show ?thesis using False loop split Cons by simp
      qed
    qed
  qed
qed


text \<open>
  The lookup in a query string, a pointer loop, finds what the parameters say: for a name without
  equals sign and ampersand it returns the value of the first parameter with that name, cut to the
  buffer, and nothing if there is no such parameter.
\<close>

theorem query_get_param_first:
  assumes "CHR ''='' \<notin> set key" and "CHR ''&'' \<notin> set key" and "0 < buflen"
  shows "query_get_param path key buflen =
    (case strchr path (CHR ''?'') of
       None \<Rightarrow> None
     | Some q \<Rightarrow> map_option (take (buflen - 1)) (param_value key (split_on (CHR ''&'') (tl q))))"
  by (simp add: query_get_param_def query_loop_first [OF assms] split: option.split)

section \<open>Concrete runs\<close>

theorem sse_broadcast_isolated_witness:
  "\<exists>p'. sse_broadcast_json (\<lambda>_ _. True) 9 (Some ''t'') ''e'' ''{}'' (snd (snd (sse_register_client 8 5 ''t'' sse_init_pool))) =
     Finished (map (Wrote 5) [''event: e'' @ lf, ''data: '', ''{}'', lf @ lf], p')"
proof -
  let ?p = "sse_init_pool[0 := \<lparr>sse_fd = 5, sse_tenant = ''t'', last_write = 8\<rparr>]"
  have f: "first_index (\<lambda>c. sse_fd c = -1) sse_init_pool = Some 0"
    by (simp add: sse_init_pool_def free_slot_def numeral_eq_Suc)
  have r: "sse_register_client 8 5 ''t'' sse_init_pool = (True, fst (snd (sse_register_client 8 5 ''t'' sse_init_pool)), ?p)"
    by (simp add: sse_register_client_def f)
  have "sse_reach ?p ((\<lambda>_. None)(5 \<mapsto> ''t''))"
    by (rule sse_reach.register [OF sse_reach.init _ _ r]) (auto simp: sse_init_pool_def free_slot_def)
  from sse_broadcast_isolated [OF this, of "''t''" "''e''" "\<lambda>_ _. True" 9 "''{}''"]
  obtain ev p' where "sse_broadcast_json (\<lambda>_ _. True) 9 (Some ''t'') ''e'' ''{}'' ?p = Finished (ev, p')"
      "ev = concat (map (\<lambda>fd. map (Wrote fd) [''event: '' @ ''e'' @ lf, ''data: '', ''{}'', lf @ lf]) (tenant_fds ''t'' ?p))"
    by auto
  moreover have "tenant_fds ''t'' ?p = [5]"
    by (simp add: tenant_fds_def sse_init_pool_def free_slot_def numeral_eq_Suc)
  moreover have "snd (snd (sse_register_client 8 5 ''t'' sse_init_pool)) = ?p" by (simp add: sse_register_client_def f)
  ultimately show ?thesis by simp
qed

theorem percentile_recent_witness:
  "percentile_ms 50 (fold record_latency_ms [30, -5, 10] latency_init) = 10"
  using percentile_recent [of 50 2 "[30, -5, 10]", simplified]
    percentile_recent [of 50 3 "[30, -5, 10]"] by (simp add: recent_latencies_def)

theorem query_get_param_first_witness:
  "query_get_param ''/s?a=1&tenant_id=t1'' ''tenant_id'' 64 = Some ''t1''"
  using query_get_param_first [of "''tenant_id''" 64 "''/s?a=1&tenant_id=t1''"] by (simp add: strchr_Some)

end
