(* ===== verification/Abuse_Detection.thy ===== *)
theory Abuse_Detection
  imports Rate_Limiter
begin

text \<open>
  Abuse detection (\<open>src/src/abuse_detection.c\<close>): per-tenant counters in a hash table of 10000 slots
  with linear probing, its periodic cleanup, and the pattern checks. The clock is an argument of each
  call; the calls of \<open>time\<close> within one operation read the same value. The counters keep their
  width of 32 bits. The configuration pointers of the defaults and of the parser are not null at any
  call. A window of a multiple of 2^32 seconds, at which the division of the rate check is undefined,
  is outside the model.
\<close>

section \<open>Types\<close>

datatype abuse_event_type_t =
    ABUSE_EMPTY_PAYLOAD
  | ABUSE_TARGETED_TENANT
  | ABUSE_RATE_LIMIT_EVASION
  | ABUSE_HEAVY_PAYLOAD
  | ABUSE_MULTI_TENANT_FLOOD

datatype abuse_response_action_t = ABUSE_RESPONSE_LOG_ONLY | ABUSE_RESPONSE_RATE_LIMIT | ABUSE_RESPONSE_TEMPORARY_BLOCK

record abuse_detection_config_t =
  ab_enabled :: bool
  min_payload_size :: int
  large_payload_threshold :: int
  large_payload_ratio_threshold :: int
  targeted_tenant_rate_threshold :: int
  evasion_api_keys_threshold :: int
  evasion_ips_threshold :: int
  multi_tenant_active_threshold :: int
  retention_window_seconds :: int

record abuse_tracking_entry_t =
  at_tenant :: string
  at_api_key :: string
  at_client_ip :: string
  first_seen :: int
  last_seen :: int
  request_count :: u32
  api_key_count :: u32
  ip_count :: u32
  large_payload_count :: u32
  total_payload_size :: u32

record abuse_state =
  g_config :: abuse_detection_config_t
  g_tracking_table :: "abuse_tracking_entry_t list"
  g_tracking_count :: int
  g_last_cleanup :: int
  g_initialized :: bool
  g_active_tenants_count :: u32
  g_multi_tenant_window_start :: int
  g_multi_tenant_total_requests :: u32

definition MAX_TRACKING_ENTRIES :: nat where
  "MAX_TRACKING_ENTRIES = 10000"

definition zero_tracking :: abuse_tracking_entry_t where
  "zero_tracking = \<lparr>at_tenant = [], at_api_key = [], at_client_ip = [], first_seen = 0, last_seen = 0, request_count = 0,
     api_key_count = 0, ip_count = 0, large_payload_count = 0, total_payload_size = 0\<rparr>"

text \<open>The values of the static variables when the program starts.\<close>

definition abuse_static :: abuse_state where
  "abuse_static =
     \<lparr>g_config = \<lparr>ab_enabled = False, min_payload_size = 0, large_payload_threshold = 0, large_payload_ratio_threshold = 0,
        targeted_tenant_rate_threshold = 0, evasion_api_keys_threshold = 0, evasion_ips_threshold = 0,
        multi_tenant_active_threshold = 0, retention_window_seconds = 0\<rparr>,
      g_tracking_table = replicate MAX_TRACKING_ENTRIES zero_tracking, g_tracking_count = 0, g_last_cleanup = 0,
      g_initialized = False, g_active_tenants_count = 0, g_multi_tenant_window_start = 0, g_multi_tenant_total_requests = 0\<rparr>"

section \<open>The table\<close>

text \<open>A character is a signed 8-bit integer, extended to 32 bits.\<close>

definition char_word :: "char \<Rightarrow> u32" where
  "char_word c = (let n = of_char c :: int in of_int (if n \<ge> 128 then n - 256 else n))"

definition hash_tenant :: "string \<Rightarrow> nat" where
  "hash_tenant t = unat (foldl (\<lambda>h c. (push_bit 5 h + h) + char_word c) (5381 :: u32) t) mod MAX_TRACKING_ENTRIES"

text \<open>The first slot from the hash on that is empty or holds the tenant; None if all were probed.\<close>

definition probe_slot :: "string \<Rightarrow> abuse_tracking_entry_t list \<Rightarrow> nat option" where
  "probe_slot t tab =
     map_option (\<lambda>k. (hash_tenant t + k) mod MAX_TRACKING_ENTRIES)
       (first_index (\<lambda>k. let e = tab ! ((hash_tenant t + k) mod MAX_TRACKING_ENTRIES) in at_tenant e = [] \<or> at_tenant e = t)
          (slots MAX_TRACKING_ENTRIES))"

text \<open>The index of the entry, a null pointer being None, and the table.\<close>

definition find_or_create_entry :: "int \<Rightarrow> string option \<Rightarrow> abuse_state \<Rightarrow> nat option \<times> abuse_state" where
  "find_or_create_entry now tenant s =
     (case tenant of
        None \<Rightarrow> (None, s)
      | Some t \<Rightarrow>
          if t = [] then (None, s)
          else (case probe_slot t (g_tracking_table s) of
              None \<Rightarrow> (Some (hash_tenant t), s)
            | Some i \<Rightarrow>
                if at_tenant (g_tracking_table s ! i) = [] then
                  (Some i, s\<lparr>g_tracking_table := (g_tracking_table s)
                       [i := zero_tracking\<lparr>at_tenant := c_copy 64 t, first_seen := now, last_seen := now\<rparr>],
                     g_tracking_count := (if g_tracking_count s < int MAX_TRACKING_ENTRIES
                       then g_tracking_count s + 1 else g_tracking_count s)\<rparr>)
                else (Some i, s\<lparr>g_tracking_table := (g_tracking_table s)[i := (g_tracking_table s ! i)\<lparr>last_seen := now\<rparr>]\<rparr>)))"

abbreviation (input) CLEANUP_INTERVAL_SECONDS :: int where "CLEANUP_INTERVAL_SECONDS \<equiv> 300"

definition expired_entry :: "int \<Rightarrow> abuse_state \<Rightarrow> abuse_tracking_entry_t \<Rightarrow> bool" where
  "expired_entry now s e \<longleftrightarrow> at_tenant e \<noteq> [] \<and> now - last_seen e > retention_window_seconds (g_config s)"

definition cleanup_old_entries :: "int \<Rightarrow> abuse_state \<Rightarrow> abuse_state" where
  "cleanup_old_entries now s =
     (if now - g_last_cleanup s < CLEANUP_INTERVAL_SECONDS then s
      else s\<lparr>g_tracking_table := map (\<lambda>e. if expired_entry now s e then zero_tracking else e) (g_tracking_table s),
             g_tracking_count := g_tracking_count s - int (count_slots (expired_entry now s) (g_tracking_table s)),
             g_last_cleanup := now\<rparr>)"

section \<open>Configuration and lifetime\<close>

definition abuse_detection_get_default_config :: abuse_detection_config_t where
  "abuse_detection_get_default_config =
     \<lparr>ab_enabled = False, min_payload_size = 10, large_payload_threshold = 524288, large_payload_ratio_threshold = 80,
      targeted_tenant_rate_threshold = 500, evasion_api_keys_threshold = 10, evasion_ips_threshold = 10,
      multi_tenant_active_threshold = 20, retention_window_seconds = 300\<rparr>"

definition abuse_detection_parse_config :: "getenv \<Rightarrow> abuse_detection_config_t" where
  "abuse_detection_parse_config env =
     (let c = abuse_detection_get_default_config in
      c\<lparr>ab_enabled := (case env ''GATEWAY_ABUSE_DETECTION_ENABLED'' of
                         Some v \<Rightarrow> v = ''true'' \<or> v = ''1'' | None \<Rightarrow> False),
        min_payload_size := env_positive env ''GATEWAY_ABUSE_MIN_PAYLOAD_SIZE'' (min_payload_size c),
        large_payload_threshold := env_positive env ''GATEWAY_ABUSE_LARGE_PAYLOAD_THRESHOLD'' (large_payload_threshold c),
        targeted_tenant_rate_threshold :=
          env_positive env ''GATEWAY_ABUSE_TARGETED_TENANT_THRESHOLD'' (targeted_tenant_rate_threshold c),
        evasion_api_keys_threshold :=
          env_positive env ''GATEWAY_ABUSE_EVASION_API_KEYS_THRESHOLD'' (evasion_api_keys_threshold c),
        retention_window_seconds :=
          env_positive env ''GATEWAY_ABUSE_RETENTION_WINDOW_SECONDS'' (retention_window_seconds c)\<rparr>)"

definition abuse_detection_init :: "int \<Rightarrow> abuse_detection_config_t option \<Rightarrow> abuse_state \<Rightarrow> abuse_state" where
  "abuse_detection_init now config s =
     (if g_initialized s then s
      else s\<lparr>g_config := (case config of Some c \<Rightarrow> c | None \<Rightarrow> abuse_detection_get_default_config),
             g_tracking_table := replicate MAX_TRACKING_ENTRIES zero_tracking, g_tracking_count := 0,
             g_last_cleanup := now, g_initialized := True\<rparr>)"

definition abuse_detection_cleanup :: "abuse_state \<Rightarrow> abuse_state" where
  "abuse_detection_cleanup s =
     (if \<not> g_initialized s then s
      else s\<lparr>g_tracking_table := replicate MAX_TRACKING_ENTRIES zero_tracking, g_tracking_count := 0, g_initialized := False\<rparr>)"

section \<open>Tracking\<close>

text \<open>A new value of a remembered key: the first is stored, a different one counted.\<close>

definition track_key :: "nat \<Rightarrow> string option \<Rightarrow> string \<times> u32 \<Rightarrow> string \<times> u32" where
  "track_key len v known =
     (case v of
        None \<Rightarrow> known
      | Some k \<Rightarrow>
          if k = [] then known
          else if fst known \<noteq> k then (if fst known = [] then (c_copy len k, snd known) else (fst known, snd known + 1))
          else known)"

definition track_entry ::
    "int \<Rightarrow> abuse_detection_config_t \<Rightarrow> string option \<Rightarrow> string option \<Rightarrow> int \<Rightarrow> abuse_tracking_entry_t \<Rightarrow> abuse_tracking_entry_t" where
  "track_entry now cfg api_key client_ip payload e =
     (let (ak, akc) = track_key 128 api_key (at_api_key e, api_key_count e);
          (ip, ipc) = track_key 64 client_ip (at_client_ip e, ip_count e) in
      e\<lparr>request_count := request_count e + 1, last_seen := now, total_payload_size := total_payload_size e + of_int payload,
        at_api_key := ak, api_key_count := akc, at_client_ip := ip, ip_count := ipc,
        large_payload_count := (if payload > large_payload_threshold cfg then large_payload_count e + 1 else large_payload_count e)\<rparr>)"

text \<open>The result is the code's 0 or -1.\<close>

definition abuse_detection_track_request ::
    "int \<Rightarrow> string option \<Rightarrow> string option \<Rightarrow> string option \<Rightarrow> int \<Rightarrow> abuse_state \<Rightarrow> int \<times> abuse_state" where
  "abuse_detection_track_request now tenant api_key client_ip payload s =
     (if \<not> g_initialized s \<or> \<not> ab_enabled (g_config s) then (0, s)
      else if (case tenant of None \<Rightarrow> True | Some t \<Rightarrow> t = []) then (0, s)
      else (case find_or_create_entry now tenant (cleanup_old_entries now s) of
          (None, s1) \<Rightarrow> (-1, s1)
        | (Some i, s1) \<Rightarrow>
            (0, s1\<lparr>g_tracking_table := (g_tracking_table s1)
                   [i := track_entry now (g_config s1) api_key client_ip payload (g_tracking_table s1 ! i)]\<rparr>)))"

section \<open>Patterns\<close>

text \<open>The checks on one entry; None if the scan goes on to the multi-tenant check.\<close>

definition entry_pattern :: "int \<Rightarrow> abuse_detection_config_t \<Rightarrow> int \<Rightarrow> abuse_tracking_entry_t \<Rightarrow> abuse_event_type_t option" where
  "entry_pattern now cfg payload e =
     (let window_duration = (if now - first_seen e \<le> 0 then 1 else now - first_seen e);
          request_rate = (request_count e * 60) div of_int window_duration in
      if request_rate > of_int (targeted_tenant_rate_threshold cfg) then Some ABUSE_TARGETED_TENANT
      else if api_key_count e > of_int (evasion_api_keys_threshold cfg) \<or> ip_count e > of_int (evasion_ips_threshold cfg)
      then Some ABUSE_RATE_LIMIT_EVASION
      else if request_count e > 10 \<and>
        (large_payload_count e * 100) div request_count e > of_int (large_payload_ratio_threshold cfg)
      then Some ABUSE_HEAVY_PAYLOAD
      else if payload < min_payload_size cfg then Some ABUSE_EMPTY_PAYLOAD
      else None)"

definition multi_tenant_check :: "int \<Rightarrow> abuse_tracking_entry_t \<Rightarrow> abuse_state \<Rightarrow> abuse_event_type_t \<times> abuse_state" where
  "multi_tenant_check now e s =
     (let s1 = (if g_multi_tenant_window_start s = 0 then s\<lparr>g_multi_tenant_window_start := now\<rparr> else s);
          s2 = (if now - g_multi_tenant_window_start s1 > 60
                then s1\<lparr>g_multi_tenant_window_start := now, g_multi_tenant_total_requests := 0,
                        g_active_tenants_count := of_int (g_tracking_count s1)\<rparr>
                else s1\<lparr>g_multi_tenant_total_requests := g_multi_tenant_total_requests s1 + 1\<rparr>);
          s3 = (if request_count e = 1 then s2\<lparr>g_active_tenants_count := g_active_tenants_count s2 + 1\<rparr> else s2) in
      (if g_active_tenants_count s3 > of_int (multi_tenant_active_threshold (g_config s3)) \<and>
          g_multi_tenant_total_requests s3 div (if g_active_tenants_count s3 > 0 then g_active_tenants_count s3 else 1) > 10
       then ABUSE_MULTI_TENANT_FLOOD else ABUSE_EMPTY_PAYLOAD, s3))"

definition abuse_detection_check_patterns ::
    "int \<Rightarrow> string option \<Rightarrow> int \<Rightarrow> abuse_state \<Rightarrow> abuse_event_type_t \<times> abuse_state" where
  "abuse_detection_check_patterns now tenant payload s =
     (if \<not> g_initialized s \<or> \<not> ab_enabled (g_config s) then (ABUSE_EMPTY_PAYLOAD, s)
      else if (case tenant of None \<Rightarrow> True | Some t \<Rightarrow> t = []) then (ABUSE_EMPTY_PAYLOAD, s)
      else (case find_or_create_entry now tenant s of
          (None, s1) \<Rightarrow> (ABUSE_EMPTY_PAYLOAD, s1)
        | (Some i, s1) \<Rightarrow>
            (let e = g_tracking_table s1 ! i in
             if request_count e = 0 then (ABUSE_EMPTY_PAYLOAD, s1)
             else (case entry_pattern now (g_config s1) payload e of
                 Some ev \<Rightarrow> (ev, s1)
               | None \<Rightarrow> multi_tenant_check now e s1))))"

section \<open>Responses\<close>

definition abuse_detection_block_tenant :: "string option \<Rightarrow> int \<Rightarrow> int" where
  "abuse_detection_block_tenant tenant duration = 0"

definition abuse_detection_is_tenant_blocked :: "string option \<Rightarrow> bool" where
  "abuse_detection_is_tenant_blocked tenant = False"

definition abuse_detection_get_response_action :: "abuse_event_type_t \<Rightarrow> abuse_response_action_t" where
  "abuse_detection_get_response_action ev = ABUSE_RESPONSE_LOG_ONLY"

fun abuse_event_str :: "abuse_event_type_t \<Rightarrow> string \<times> string" where
  "abuse_event_str ABUSE_EMPTY_PAYLOAD = (''abuse.empty_payload'', ''Abuse detected: empty payload request'')"
| "abuse_event_str ABUSE_TARGETED_TENANT = (''abuse.targeted_tenant'', ''Abuse detected: targeted tenant attack'')"
| "abuse_event_str ABUSE_RATE_LIMIT_EVASION = (''abuse.rate_limit_evasion'', ''Abuse detected: rate limit evasion attempt'')"
| "abuse_event_str ABUSE_HEAVY_PAYLOAD = (''abuse.heavy_payload'', ''Abuse detected: heavy payload pattern'')"
| "abuse_event_str ABUSE_MULTI_TENANT_FLOOD = (''abuse.multi_tenant_flood'', ''Abuse detected: multi-tenant flood'')"

definition quoted_field :: "string \<Rightarrow> string \<Rightarrow> string" where
  "quoted_field name v = [CHR 0x22] @ name @ [CHR 0x22] @ '':'' @ [CHR 0x22] @ v @ [CHR 0x22]"

definition given_field :: "string \<Rightarrow> string \<Rightarrow> string option \<Rightarrow> string" where
  "given_field before name v =
     (case v of None \<Rightarrow> [] | Some x \<Rightarrow> if x = [] then [] else before @ quoted_field name x)"

text \<open>
  The line written to the log, with the formatted time as an argument, and the event whose counter in
  the metrics registry is incremented. The switch's default branch is unreachable for a value of the
  enumeration.
\<close>

definition abuse_detection_log_event ::
    "string \<Rightarrow> abuse_event_type_t \<Rightarrow> string option \<Rightarrow> string option \<Rightarrow> string option \<Rightarrow> string option \<Rightarrow> string option \<Rightarrow>
     string \<times> abuse_event_type_t" where
  "abuse_detection_log_event timestamp ev tenant client_ip request_id trace_id endpoint =
     (''{'' @ quoted_field ''timestamp'' timestamp @ '','' @ quoted_field ''level'' ''WARN'' @ '','' @
      quoted_field ''component'' ''gateway'' @ '','' @ quoted_field ''message'' (snd (abuse_event_str ev)) @ '','' @
      quoted_field ''event_type'' (fst (abuse_event_str ev)) @
      given_field '','' ''tenant_id'' tenant @ given_field '','' ''request_id'' request_id @
      given_field '','' ''trace_id'' trace_id @
      '','' @ [CHR 0x22] @ ''context'' @ [CHR 0x22] @ '':'' @ ''{'' @ given_field [] ''client_ip'' client_ip @
      given_field '','' ''endpoint'' endpoint @ ''}}'' @ [CHR 0x0A], ev)"

section \<open>Specifications\<close>

text \<open>
  The invariant of the table: every entry sits behind a run of occupied slots that starts at its
  tenant's hash, and no tenant has two entries.
\<close>

definition chain_ok :: "abuse_tracking_entry_t list \<Rightarrow> bool" where
  "chain_ok tab \<longleftrightarrow> length tab = MAX_TRACKING_ENTRIES \<and>
     (\<forall>i < length tab. at_tenant (tab ! i) \<noteq> [] \<longrightarrow>
        (\<exists>d < MAX_TRACKING_ENTRIES. i = (hash_tenant (at_tenant (tab ! i)) + d) mod MAX_TRACKING_ENTRIES \<and>
           (\<forall>k < d. at_tenant (tab ! ((hash_tenant (at_tenant (tab ! i)) + k) mod MAX_TRACKING_ENTRIES)) \<noteq> []))) \<and>
     (\<forall>i j. i < length tab \<and> j < length tab \<and> at_tenant (tab ! i) \<noteq> [] \<and> at_tenant (tab ! i) = at_tenant (tab ! j) \<longrightarrow> i = j)"

definition tenant_entries :: "string \<Rightarrow> abuse_tracking_entry_t list \<Rightarrow> abuse_tracking_entry_t list" where
  "tenant_entries t tab = filter (\<lambda>e. at_tenant e = t) tab"

definition tracked_tenants :: "abuse_tracking_entry_t list \<Rightarrow> string set" where
  "tracked_tenants tab = at_tenant ` set tab - {[]}"

text \<open>A sequence of requests: time, tenant, key, client address and size.\<close>

fun track_all :: "(int \<times> string \<times> string option \<times> string option \<times> int) list \<Rightarrow> abuse_state \<Rightarrow> abuse_state" where
  "track_all [] s = s"
| "track_all ((now, t, key, ip, payload) # reqs) s =
     track_all reqs (snd (abuse_detection_track_request now (Some t) key ip payload s))"

definition requests_of :: "string \<Rightarrow> (int \<times> string \<times> string option \<times> string option \<times> int) list \<Rightarrow> nat" where
  "requests_of t reqs = length (filter (\<lambda>(_, t', _). t' = t) reqs)"

text \<open>A state that counts the requests of a time, no cleanup being due.\<close>

definition tracking :: "int \<Rightarrow> abuse_state \<Rightarrow> bool" where
  "tracking now s \<longleftrightarrow> g_initialized s \<and> ab_enabled (g_config s) \<and> now - g_last_cleanup s < CLEANUP_INTERVAL_SECONDS"

definition req_ok :: "int \<Rightarrow> int \<times> string \<times> string option \<times> string option \<times> int \<Rightarrow> bool" where
  "req_ok start = (\<lambda>(now, t, _). now - start < CLEANUP_INTERVAL_SECONDS \<and> t \<noteq> [] \<and> length t < 64)"

definition req_tenants :: "(int \<times> string \<times> string option \<times> string option \<times> int) list \<Rightarrow> string set" where
  "req_tenants reqs = (\<lambda>(_, t, _). t) ` set reqs"

section \<open>Lemmas\<close>

lemma MAX_TRACKING_pos [simp]: "0 < MAX_TRACKING_ENTRIES"
  by (simp add: MAX_TRACKING_ENTRIES_def)

lemma hash_tenant_less [simp]: "hash_tenant t < MAX_TRACKING_ENTRIES"
  by (simp add: hash_tenant_def)

lemma zero_tracking_tenant [simp]: "at_tenant zero_tracking = []" "request_count zero_tracking = 0"
  by (simp_all add: zero_tracking_def)

lemma probe_slot_Some:
  assumes "probe_slot t tab = Some i"
  obtains d where "d < MAX_TRACKING_ENTRIES" "i = (hash_tenant t + d) mod MAX_TRACKING_ENTRIES"
    "at_tenant (tab ! i) = [] \<or> at_tenant (tab ! i) = t"
    "\<And>k. k < d \<Longrightarrow> at_tenant (tab ! ((hash_tenant t + k) mod MAX_TRACKING_ENTRIES)) \<notin> {[], t}"
proof -
  obtain d where d: "first_index (\<lambda>k. let e = tab ! ((hash_tenant t + k) mod MAX_TRACKING_ENTRIES) in at_tenant e = [] \<or> at_tenant e = t)
      (slots MAX_TRACKING_ENTRIES) = Some d" and i: "i = (hash_tenant t + d) mod MAX_TRACKING_ENTRIES"
    using assms by (auto simp: probe_slot_def)
  show thesis
    using first_index_Some [OF d] i by (intro that [of d]) (auto simp: slots_def Let_def)
qed

lemma probe_slot_less: "probe_slot t tab = Some i \<Longrightarrow> i < MAX_TRACKING_ENTRIES"
  by (auto simp: probe_slot_def)

lemma offset_onto:
  fixes h i n :: nat
  assumes "i < n" "h < n"
  obtains d where "d < n" "i = (h + d) mod n"
proof (cases "h \<le> i")
  case True
  then show ?thesis using assms by (intro that [of "i - h"]) auto
next
  case False
  then show ?thesis using assms by (intro that [of "n + i - h"]) auto
qed

lemma probe_slot_ex:
  assumes "i < MAX_TRACKING_ENTRIES" "at_tenant (tab ! i) = [] \<or> at_tenant (tab ! i) = t"
  shows "probe_slot t tab \<noteq> None"
proof -
  obtain d where "d < MAX_TRACKING_ENTRIES" "i = (hash_tenant t + d) mod MAX_TRACKING_ENTRIES"
    using offset_onto [OF assms(1) hash_tenant_less] by blast
  then show ?thesis using assms(2) by (auto simp: probe_slot_def first_index_None Let_def)
qed

lemma chain_ok_length: "chain_ok tab \<Longrightarrow> length tab = MAX_TRACKING_ENTRIES"
  by (simp add: chain_ok_def)

lemma chain_ok_unique:
  "chain_ok tab \<Longrightarrow> i < length tab \<Longrightarrow> j < length tab \<Longrightarrow> at_tenant (tab ! i) \<noteq> [] \<Longrightarrow>
   at_tenant (tab ! i) = at_tenant (tab ! j) \<Longrightarrow> i = j"
  by (simp add: chain_ok_def)

lemma chain_ok_chain:
  assumes "chain_ok tab" "i < length tab" "at_tenant (tab ! i) \<noteq> []"
  obtains d where "d < MAX_TRACKING_ENTRIES" "i = (hash_tenant (at_tenant (tab ! i)) + d) mod MAX_TRACKING_ENTRIES"
    "\<And>k. k < d \<Longrightarrow> at_tenant (tab ! ((hash_tenant (at_tenant (tab ! i)) + k) mod MAX_TRACKING_ENTRIES)) \<noteq> []"
  using assms unfolding chain_ok_def by blast

text \<open>In a table with intact chains the probe finds the entry of a tracked tenant.\<close>

lemma probe_slot_tracked:
  assumes ok: "chain_ok tab" and j: "j < length tab" "at_tenant (tab ! j) = t" and t: "t \<noteq> []"
  shows "probe_slot t tab = Some j"
proof -
  have len: "length tab = MAX_TRACKING_ENTRIES" by (rule chain_ok_length [OF ok])
  obtain i where i: "probe_slot t tab = Some i" using probe_slot_ex [of j tab t] j len by fastforce
  obtain d where d: "d < MAX_TRACKING_ENTRIES" "i = (hash_tenant t + d) mod MAX_TRACKING_ENTRIES"
      "at_tenant (tab ! i) = [] \<or> at_tenant (tab ! i) = t"
      "\<And>k. k < d \<Longrightarrow> at_tenant (tab ! ((hash_tenant t + k) mod MAX_TRACKING_ENTRIES)) \<notin> {[], t}"
    using probe_slot_Some [OF i] by blast
  have "at_tenant (tab ! j) \<noteq> []" using j t by simp
  then obtain d' where d': "d' < MAX_TRACKING_ENTRIES" "j = (hash_tenant t + d') mod MAX_TRACKING_ENTRIES"
      "\<And>k. k < d' \<Longrightarrow> at_tenant (tab ! ((hash_tenant t + k) mod MAX_TRACKING_ENTRIES)) \<noteq> []"
    using chain_ok_chain [OF ok j(1)] j(2) by metis
  have "\<not> d' < d" using d(4) [of d'] d'(2) j(2) by auto
  moreover have "\<not> d < d'" if "at_tenant (tab ! i) = []" using d'(3) [of d] d(2) that by auto
  ultimately have "at_tenant (tab ! i) = t" using d d'(2) j(2) by (cases "d = d'") auto
  then have "i = j" using chain_ok_unique [OF ok, of i j] j t len probe_slot_less [OF i] by auto
  then show ?thesis using i by simp
qed

text \<open>Writing the tenant's entry into the probed slot keeps the chains.\<close>

lemma chain_ok_update:
  assumes ok: "chain_ok tab" and i: "probe_slot t tab = Some i" and t: "t \<noteq> []" and e: "at_tenant e = t"
  shows "chain_ok (tab[i := e])"
proof -
  let ?tab = "tab[i := e]"
  have len: "length tab = MAX_TRACKING_ENTRIES" by (rule chain_ok_length [OF ok])
  have il: "i < length tab" using probe_slot_less [OF i] len by simp
  have mono: "at_tenant (tab ! j) \<noteq> [] \<Longrightarrow> at_tenant (?tab ! j) \<noteq> []" for j
    using e t il by (cases "j = i") auto
  have uniq: "at_tenant (tab ! j) = t \<Longrightarrow> j < length tab \<Longrightarrow> j = i" for j
    using probe_slot_tracked [OF ok, of j t] i t by simp
  have chain: "\<exists>d < MAX_TRACKING_ENTRIES. j = (hash_tenant (at_tenant (?tab ! j)) + d) mod MAX_TRACKING_ENTRIES \<and>
      (\<forall>k < d. at_tenant (?tab ! ((hash_tenant (at_tenant (?tab ! j)) + k) mod MAX_TRACKING_ENTRIES)) \<noteq> [])"
    if j: "j < length tab" "at_tenant (?tab ! j) \<noteq> []" for j
  proof (cases "j = i")
    case True
    then have tj: "at_tenant (?tab ! j) = t" using il e by simp
    obtain d where "d < MAX_TRACKING_ENTRIES" "i = (hash_tenant t + d) mod MAX_TRACKING_ENTRIES"
        "\<And>k. k < d \<Longrightarrow> at_tenant (tab ! ((hash_tenant t + k) mod MAX_TRACKING_ENTRIES)) \<notin> {[], t}"
      using probe_slot_Some [OF i] by blast
    then show ?thesis unfolding tj using True mono by (intro exI [of _ d]) (metis insertCI)
  next
    case False
    then have tj: "at_tenant (?tab ! j) = at_tenant (tab ! j)" by simp
    obtain d where "d < MAX_TRACKING_ENTRIES" "j = (hash_tenant (at_tenant (tab ! j)) + d) mod MAX_TRACKING_ENTRIES"
        "\<And>k. k < d \<Longrightarrow> at_tenant (tab ! ((hash_tenant (at_tenant (tab ! j)) + k) mod MAX_TRACKING_ENTRIES)) \<noteq> []"
      using chain_ok_chain [OF ok j(1)] j(2) tj by metis
    then show ?thesis unfolding tj using mono by (intro exI [of _ d]) metis
  qed
  have upd: "at_tenant (?tab ! j) = (if j = i then t else at_tenant (tab ! j))" for j
    using e il by (cases "j = i") auto
  have "j = k" if l: "j < length tab" "k < length tab" and ne: "at_tenant (?tab ! j) \<noteq> []"
    and eq: "at_tenant (?tab ! j) = at_tenant (?tab ! k)" for j k
  proof (cases "j = i \<or> k = i")
    case True
    then show ?thesis using uniq l eq unfolding upd by metis
  next
    case False
    then show ?thesis using chain_ok_unique [OF ok l] ne eq unfolding upd by simp
  qed
  then show ?thesis using chain len unfolding chain_ok_def length_list_update by blast
qed

lemma chain_ok_empty: "chain_ok (replicate MAX_TRACKING_ENTRIES zero_tracking)"
  by (auto simp: chain_ok_def)


subsection \<open>The entries of a tenant\<close>

lemma filter_single:
  assumes "i < length xs" "P (xs ! i)" "\<And>j. j < length xs \<Longrightarrow> P (xs ! j) \<Longrightarrow> j = i"
  shows "filter P xs = [xs ! i]"
proof -
  have xs: "xs = take i xs @ xs ! i # drop (Suc i) xs" using assms(1) by (rule id_take_nth_drop)
  have "\<not> P (take i xs ! j)" if "j < length (take i xs)" for j using assms(1) assms(3) [of j] that by auto
  then have l: "filter P (take i xs) = []" unfolding filter_empty_conv all_set_conv_all_nth by blast
  have "\<not> P (drop (Suc i) xs ! j)" if "j < length (drop (Suc i) xs)" for j
    using assms(3) [of "Suc i + j"] that by (auto simp: less_diff_conv add.commute)
  then have "filter P (drop (Suc i) xs) = []" unfolding filter_empty_conv all_set_conv_all_nth by blast
  with l show ?thesis using assms(2) arg_cong [OF xs, of "filter P"] by simp
qed

lemma tenant_entries_single:
  "chain_ok tab \<Longrightarrow> i < length tab \<Longrightarrow> at_tenant (tab ! i) = t \<Longrightarrow> t \<noteq> [] \<Longrightarrow> tenant_entries t tab = [tab ! i]"
  unfolding tenant_entries_def by (rule filter_single) (auto dest: chain_ok_unique)

lemma tenant_entries_none: "t \<notin> at_tenant ` set tab \<Longrightarrow> tenant_entries t tab = []"
  by (auto simp: tenant_entries_def filter_empty_conv)

lemma tenant_entries_other:
  assumes "i < length tab" "at_tenant (tab ! i) \<noteq> t" "at_tenant e \<noteq> t"
  shows "tenant_entries t (tab[i := e]) = tenant_entries t tab"
proof -
  have "tenant_entries t tab = tenant_entries t (take i tab) @ tenant_entries t (drop (Suc i) tab)"
    using arg_cong [OF id_take_nth_drop [OF assms(1)], of "tenant_entries t"] assms(2) by (simp add: tenant_entries_def)
  then show ?thesis using assms(1,3) by (simp add: upd_conv_take_nth_drop tenant_entries_def)
qed

text \<open>A table with intact chains that is not full of other tenants has a slot for the tenant.\<close>

lemma probe_slot_free:
  assumes ok: "chain_ok tab" and T: "finite T" "card T \<le> MAX_TRACKING_ENTRIES" "insert t (tracked_tenants tab) \<subseteq> T" and t: "t \<noteq> []"
  obtains i where "probe_slot t tab = Some i"
proof (rule ccontr)
  assume "\<not> thesis"
  then have none: "probe_slot t tab = None" using that by (cases "probe_slot t tab") auto
  have len: "length tab = MAX_TRACKING_ENTRIES" by (rule chain_ok_length [OF ok])
  have other: "i < length tab \<Longrightarrow> at_tenant (tab ! i) \<noteq> [] \<and> at_tenant (tab ! i) \<noteq> t" for i
    using probe_slot_ex [of i tab t] none len by auto
  have "inj_on (\<lambda>i. at_tenant (tab ! i)) {..<length tab}"
    by (rule inj_onI) (use other chain_ok_unique [OF ok] in auto)
  then have card: "card ((\<lambda>i. at_tenant (tab ! i)) ` {..<length tab}) = MAX_TRACKING_ENTRIES"
    by (simp add: card_image len)
  have "(\<lambda>i. at_tenant (tab ! i)) ` {..<length tab} \<subseteq> T - {t}"
    using other T(3) by (force simp: tracked_tenants_def)
  then have "MAX_TRACKING_ENTRIES \<le> card (T - {t})" using card_mono [OF finite_Diff [OF T(1)]] card by metis
  moreover have "card (T - {t}) < card T" using T by (intro card_Diff1_less) auto
  ultimately show False using T(2) by simp
qed

subsection \<open>One tracked request\<close>

lemma track_entry_tenant [simp]: "at_tenant (track_entry now cfg k ip p e) = at_tenant e"
  and track_entry_count [simp]: "request_count (track_entry now cfg k ip p e) = request_count e + 1"
  by (simp_all add: track_entry_def split_beta Let_def)

lemma track_request_probed:
  assumes "tracking now s" "t \<noteq> []" "length t < 64" "probe_slot t (g_tracking_table s) = Some i"
    "i < length (g_tracking_table s)"
  obtains e s' where "snd (abuse_detection_track_request now (Some t) k ip p s) = s'"
    "g_tracking_table s' = (g_tracking_table s)[i := e]" "at_tenant e = t"
    "request_count e = (if at_tenant (g_tracking_table s ! i) = [] then 1 else request_count (g_tracking_table s ! i) + 1)"
    "g_initialized s' = g_initialized s" "g_config s' = g_config s" "g_last_cleanup s' = g_last_cleanup s"
proof -
  have ten: "at_tenant (g_tracking_table s ! i) = [] \<or> at_tenant (g_tracking_table s ! i) = t"
    using probe_slot_Some [OF assms(4)] by blast
  let ?e = "if at_tenant (g_tracking_table s ! i) = []
    then zero_tracking\<lparr>at_tenant := t, first_seen := now, last_seen := now\<rparr>
    else (g_tracking_table s ! i)\<lparr>last_seen := now\<rparr>"
  show thesis
    by (rule that [OF refl, of "track_entry now (g_config s) k ip p ?e"])
      (use ten assms in \<open>auto simp: tracking_def abuse_detection_track_request_def cleanup_old_entries_def find_or_create_entry_def\<close>)
qed


text \<open>
  One request of a tenant increments the tenant's counter, creates its entry if there was none, and
  leaves the entries of the other tenants.
\<close>

lemma track_request_step:
  assumes s: "tracking now s" "chain_ok (g_tracking_table s)" and t: "t \<noteq> []" "length t < 64"
    and T: "finite T" "card T \<le> MAX_TRACKING_ENTRIES" "insert t (tracked_tenants (g_tracking_table s)) \<subseteq> T"
  obtains s' where "snd (abuse_detection_track_request now (Some t) k ip p s) = s'" "chain_ok (g_tracking_table s')"
    "tracked_tenants (g_tracking_table s') \<subseteq> T"
    "\<And>u. u \<noteq> [] \<Longrightarrow> map request_count (tenant_entries u (g_tracking_table s')) =
       (if u = t then [sum_list (map request_count (tenant_entries u (g_tracking_table s))) + 1]
        else map request_count (tenant_entries u (g_tracking_table s)))"
    "\<And>now'. tracking now' s' = tracking now' s"
proof -
  let ?tab = "g_tracking_table s"
  obtain i where i: "probe_slot t ?tab = Some i" using probe_slot_free [OF s(2) T t(1)] by blast
  have il: "i < length ?tab" using probe_slot_less [OF i] chain_ok_length [OF s(2)] by simp
  have ten: "at_tenant (?tab ! i) = [] \<or> at_tenant (?tab ! i) = t" using probe_slot_Some [OF i] by blast
  obtain e s' where s': "snd (abuse_detection_track_request now (Some t) k ip p s) = s'" "g_tracking_table s' = ?tab[i := e]"
      and e: "at_tenant e = t" "request_count e = (if at_tenant (?tab ! i) = [] then 1 else request_count (?tab ! i) + 1)"
      and keep: "g_initialized s' = g_initialized s" "g_config s' = g_config s" "g_last_cleanup s' = g_last_cleanup s"
    using track_request_probed [OF s(1) t i il] by blast
  have ok: "chain_ok (?tab[i := e])" by (rule chain_ok_update [OF s(2) i t(1) e(1)])
  have tr: "tracked_tenants (?tab[i := e]) \<subseteq> T"
    using T(3) e(1) set_update_subset_insert [of ?tab i e] by (auto simp: tracked_tenants_def)
  have new: "tenant_entries t (?tab[i := e]) = [e]"
    using tenant_entries_single [OF ok, of i t] il e(1) t(1) by simp
  have old: "tenant_entries t ?tab = (if at_tenant (?tab ! i) = [] then [] else [?tab ! i])"
  proof (cases "at_tenant (?tab ! i) = []")
    case True
    then have "t \<notin> at_tenant ` set ?tab" using probe_slot_tracked [OF s(2) _ _ t(1)] i t(1) by (auto simp: in_set_conv_nth)
    then show ?thesis using True by (simp add: tenant_entries_none)
  qed (use tenant_entries_single [OF s(2) il] ten t in auto)
  have other: "u \<noteq> [] \<Longrightarrow> u \<noteq> t \<Longrightarrow> tenant_entries u (?tab[i := e]) = tenant_entries u ?tab" for u
    by (rule tenant_entries_other) (use il ten e in auto)
  show thesis
    by (rule that [OF s'(1)]) (use ok tr new old other e(2) keep s'(2) in \<open>auto simp: tracking_def\<close>)
qed

lemma track_all_counts:
  assumes "g_initialized s" "ab_enabled (g_config s)" "\<forall>r \<in> set reqs. req_ok (g_last_cleanup s) r"
    "chain_ok (g_tracking_table s)" "finite T" "card T \<le> MAX_TRACKING_ENTRIES"
    "req_tenants reqs \<union> tracked_tenants (g_tracking_table s) \<subseteq> T" "u \<noteq> []"
  shows "map request_count (tenant_entries u (g_tracking_table (track_all reqs s))) =
     (if requests_of u reqs = 0 then map request_count (tenant_entries u (g_tracking_table s))
      else [sum_list (map request_count (tenant_entries u (g_tracking_table s))) + of_nat (requests_of u reqs)])"
  using assms
proof (induction reqs s rule: track_all.induct)
  case (2 now t key ip p reqs s)
  have trk: "tracking now s" and t: "t \<noteq> []" "length t < 64" using 2(2-4) by (auto simp: tracking_def req_ok_def)
  have T: "insert t (tracked_tenants (g_tracking_table s)) \<subseteq> T" using 2(8) by (auto simp: req_tenants_def)
  obtain s' where s': "snd (abuse_detection_track_request now (Some t) key ip p s) = s'" "chain_ok (g_tracking_table s')"
      "tracked_tenants (g_tracking_table s') \<subseteq> T"
    and cnt: "\<And>u. u \<noteq> [] \<Longrightarrow> map request_count (tenant_entries u (g_tracking_table s')) =
       (if u = t then [sum_list (map request_count (tenant_entries u (g_tracking_table s))) + 1]
        else map request_count (tenant_entries u (g_tracking_table s)))"
    and same: "\<And>now'. tracking now' s' = tracking now' s"
    using track_request_step [OF trk 2(5) t 2(6,7) T, where k = key and ip = ip and p = p] by blast
  have keep: "g_initialized s'" "ab_enabled (g_config s')" "\<forall>r \<in> set reqs. req_ok (g_last_cleanup s') r"
    using same [of now] trk same 2(2-4) by (auto simp: tracking_def req_ok_def split_beta)
  have "map request_count (tenant_entries u (g_tracking_table (track_all reqs s'))) =
     (if requests_of u reqs = 0 then map request_count (tenant_entries u (g_tracking_table s'))
      else [sum_list (map request_count (tenant_entries u (g_tracking_table s'))) + of_nat (requests_of u reqs)])"
    using 2(1) [unfolded s'(1)] keep s'(2,3) 2(6-9) by (auto simp: req_tenants_def)
  then show ?case using s'(1) cnt [OF 2(9)] by (auto simp: requests_of_def)
qed (simp add: requests_of_def)


section \<open>Properties\<close>

lemma probe_slot_first:
  "at_tenant (tab ! hash_tenant t) = [] \<or> at_tenant (tab ! hash_tenant t) = t \<Longrightarrow> probe_slot t tab = Some (hash_tenant t)"
  using MAX_TRACKING_pos by (cases MAX_TRACKING_ENTRIES) (auto simp: probe_slot_def slots_def upt_rec Let_def simp del: upt_Suc)

lemma probe_slot_second:
  assumes "at_tenant (tab ! hash_tenant t) \<notin> {[], t}" "hash_tenant t + 1 < MAX_TRACKING_ENTRIES"
    "at_tenant (tab ! (hash_tenant t + 1)) = [] \<or> at_tenant (tab ! (hash_tenant t + 1)) = t"
  shows "probe_slot t tab = Some (hash_tenant t + 1)"
proof -
  obtain n where "MAX_TRACKING_ENTRIES = Suc (Suc n)" using assms(2) by (metis less_natE add_Suc_right add.commute plus_1_eq_Suc)
  then have "slots MAX_TRACKING_ENTRIES = 0 # 1 # [2..<MAX_TRACKING_ENTRIES]" by (simp add: slots_def upt_conv_Cons numeral_2_eq_2)
  then show ?thesis using assms by (simp add: probe_slot_def Let_def)
qed

text \<open>
  C27. From the initialisation until the first cleanup, which the first request 300 seconds or more
  later sets off, for at most 10000 tenants with identifiers of 1 to 63 bytes, every tenant has at most one
  entry and its 32-bit counter is the number of the tenant's requests modulo 2^32: no request is lost,
  counted twice, or counted for another tenant, however the hashes collide. After a cleanup this no
  longer holds, as is shown below.
\<close>

theorem abuse_count_exact:
  assumes "ab_enabled cfg" "\<forall>r \<in> set reqs. req_ok start r" "card (req_tenants reqs) \<le> MAX_TRACKING_ENTRIES" "t \<noteq> []"
  shows "map request_count (tenant_entries t (g_tracking_table (track_all reqs (abuse_detection_init start (Some cfg) abuse_static)))) =
    (if requests_of t reqs = 0 then [] else [of_nat (requests_of t reqs)])"
proof -
  let ?s = "abuse_detection_init start (Some cfg) abuse_static"
  have s: "g_initialized ?s" "g_config ?s = cfg" "g_last_cleanup ?s = start"
      "g_tracking_table ?s = replicate MAX_TRACKING_ENTRIES zero_tracking"
    by (simp_all add: abuse_detection_init_def abuse_static_def)
  have "tenant_entries t (g_tracking_table ?s) = []" unfolding s(4) using assms(4) by (intro tenant_entries_none) auto
  moreover have "tracked_tenants (g_tracking_table ?s) = {}" unfolding s(4) by (auto simp: tracked_tenants_def)
  ultimately show ?thesis
    using track_all_counts [of ?s reqs "req_tenants reqs" t] assms s chain_ok_empty by (simp add: req_tenants_def)
qed

theorem abuse_count_exact_witness:
  "map request_count (tenant_entries ''BY'' (g_tracking_table (track_all
      [(0, ''Az'', None, None, 20), (1, ''BY'', None, None, 20), (200, ''BY'', Some ''k'', Some ''ip'', 5)]
      (abuse_detection_init 0 (Some (abuse_detection_get_default_config\<lparr>ab_enabled := True\<rparr>)) abuse_static)))) = [2]"
proof -
  let ?reqs = "[(0, ''Az'', None, None, 20), (1, ''BY'', None, None, 20), (200, ''BY'', Some ''k'', Some ''ip'', 5)] ::
    (int \<times> string \<times> string option \<times> string option \<times> int) list"
  have "card (req_tenants ?reqs) \<le> MAX_TRACKING_ENTRIES" by (simp add: req_tenants_def MAX_TRACKING_ENTRIES_def)
  moreover have "\<forall>r \<in> set ?reqs. req_ok 0 r" by (simp add: req_ok_def)
  moreover have "requests_of ''BY'' ?reqs = 2" by (simp add: requests_of_def)
  ultimately show ?thesis
    using abuse_count_exact [of "abuse_detection_get_default_config\<lparr>ab_enabled := True\<rparr>" ?reqs 0 "''BY''"] by simp
qed


subsection \<open>The cleanup and the chains\<close>

text \<open>
  The cleanup clears a slot in the middle of a chain. The tenants \<open>Az\<close> and \<open>BY\<close> have the same hash; once
  the idle \<open>Az\<close> is removed, the next request of \<open>BY\<close> finds the cleared slot first and starts a second
  entry with a counter of 1, although \<open>BY\<close> was seen 101 seconds before and has an entry with two requests.
\<close>

lemma hash_collision: "hash_tenant ''Az'' = 2176" "hash_tenant ''BY'' = 2176"
  by (simp_all add: hash_tenant_def char_word_def MAX_TRACKING_ENTRIES_def of_char_def push_bit_eq_mult)

lemma abuse_cleanup_splits_tenant:
  fixes s :: abuse_state
  defines "s \<equiv> track_all [(0, ''Az'', None, None, 20), (1, ''BY'', None, None, 20), (200, ''BY'', None, None, 20),
      (301, ''BY'', None, None, 20)]
    (abuse_detection_init 0 (Some (abuse_detection_get_default_config\<lparr>ab_enabled := True\<rparr>)) abuse_static)"
  shows "at_tenant (g_tracking_table s ! 2176) = ''BY''" "request_count (g_tracking_table s ! 2176) = 1"
    "at_tenant (g_tracking_table s ! 2177) = ''BY''" "request_count (g_tracking_table s ! 2177) = 2"
proof -
  have N: "2177 < MAX_TRACKING_ENTRIES" "2176 < MAX_TRACKING_ENTRIES" by (simp_all add: MAX_TRACKING_ENTRIES_def)
  note defs = abuse_detection_track_request_def find_or_create_entry_def cleanup_old_entries_def expired_entry_def
    track_entry_def track_key_def hash_collision N c_copy_def list_update_beyond nth_list_update
  show "at_tenant (g_tracking_table s ! 2176) = ''BY''" "request_count (g_tracking_table s ! 2176) = 1"
    "at_tenant (g_tracking_table s ! 2177) = ''BY''" "request_count (g_tracking_table s ! 2177) = 2"
    unfolding s_def
    by (simp_all add: defs probe_slot_first probe_slot_second abuse_detection_init_def abuse_static_def
        abuse_detection_get_default_config_def)
qed

text \<open>A tenant that meets a table full of other tenants is counted in the entry at its hash.\<close>

lemma abuse_full_table_charges_other:
  fixes k ip :: "string option" and p :: int
  assumes "tracking now s" "length (g_tracking_table s) = MAX_TRACKING_ENTRIES" "t \<noteq> []"
    "\<And>e. e \<in> set (g_tracking_table s) \<Longrightarrow> at_tenant e \<notin> {[], t}"
  defines "e' \<equiv> g_tracking_table (snd (abuse_detection_track_request now (Some t) k ip p s)) ! hash_tenant t"
  shows "at_tenant e' \<noteq> t" "request_count e' = request_count (g_tracking_table s ! hash_tenant t) + 1"
proof -
  let ?tab = "g_tracking_table s"
  have other: "at_tenant (?tab ! i) \<notin> {[], t}" if "i < MAX_TRACKING_ENTRIES" for i
    using assms(2,4) nth_mem that by metis
  have none: "probe_slot t ?tab = None"
    using other by (auto simp: probe_slot_def first_index_None Let_def)
  have e': "e' = track_entry now (g_config s) k ip p (?tab ! hash_tenant t)"
    using assms(1-3) none
    by (simp add: e'_def tracking_def abuse_detection_track_request_def cleanup_old_entries_def find_or_create_entry_def)
  show "at_tenant e' \<noteq> t" "request_count e' = request_count (?tab ! hash_tenant t) + 1"
    using other [OF hash_tenant_less] by (simp_all add: e')
qed

text \<open>An event without a client address has a malformed context object.\<close>

lemma abuse_log_context_malformed:
  "fst (abuse_detection_log_event ts ev None None None None (Some ep)) =
     ''{'' @ quoted_field ''timestamp'' ts @ '','' @ quoted_field ''level'' ''WARN'' @ '','' @ quoted_field ''component'' ''gateway'' @ '','' @
     quoted_field ''message'' (snd (abuse_event_str ev)) @ '','' @ quoted_field ''event_type'' (fst (abuse_event_str ev)) @ '','' @
     [CHR 0x22] @ ''context'' @ [CHR 0x22] @ '':{,'' @ quoted_field ''endpoint'' ep @ ''}}'' @ [CHR 0x0A]" if "ep \<noteq> []"
  using that by (simp add: abuse_detection_log_event_def given_field_def)


end
