(* ===== verification/Redis_Limiter.thy ===== *)
theory Redis_Limiter
  imports Rate_Limiter Circuit_Breaker
begin

text \<open>
  The limiter per client address (\<open>src/src/redis_rate_limiter.c\<close>) in the build without hiredis, where
  no connection can be opened; the other build names undeclared variables and does not compile. It has
  a breaker of its own, which provides the interface \<open>breaker\<close>. Each breaker operation runs under the
  breaker's mutex and is one step. The clock is an argument, read once per operation. The log lines
  are not modelled. A metric is its value, None if it could not be created, and not an entry of the
  metrics registry. The counter of errors is an integer: a C \<open>int\<close> holds it for 2^31 - 1 failed requests.
\<close>

section \<open>Types\<close>

datatype redis_rl_decision_t = REDIS_RL_ALLOW | REDIS_RL_DENY | REDIS_RL_ERROR

record redis_rl_request_ctx_t =
  rq_client_ip :: "string option"
  rq_method :: "string option"
  rq_path :: "string option"
  rq_tenant_id :: "string option"

record redis_rl_result_t =
  decision :: redis_rl_decision_t
  rr_limit :: u32
  rr_remaining :: u32
  retry_after_sec :: u32
  reset_at :: u64
  degraded :: bool

record redis_rl_config_t =
  rc_enabled :: bool
  rc_redis_uri :: string
  rc_redis_host :: string
  rc_redis_port :: int
  rc_window_sec :: int
  rc_global_limit :: u32
  rc_route_limit_messages :: u32
  rc_route_limit_chat :: u32
  rc_pool_size :: int
  rc_pool_acquire_timeout_ms :: int
  rc_redis_timeout_ms :: int
  rc_retries :: int
  rc_retry_backoff_ms :: int
  rc_cb_fail_open :: bool
  rc_cb_error_threshold :: int
  rc_cb_sliding_window_sec :: int
  rc_cb_cooldown_sec :: int
  rc_cb_half_open_attempts :: int

datatype redis_cb_state_t = CB_CLOSED | CB_OPEN | CB_HALF_OPEN

record circuit_breaker_t =
  rcb_state :: redis_cb_state_t
  error_count :: int
  last_error_time :: int
  opened_at :: int
  half_open_attempts :: int
  half_open_successes :: int

text \<open>A slot of the pool, with whether it is in use; without hiredis its context stays null.\<close>

record redis_pool_conn =
  pc_ctx :: "nat option"
  pc_in_use :: bool

record redis_gstate =
  rs_config :: redis_rl_config_t
  rs_pool :: "redis_pool_conn list"
  rs_cb :: circuit_breaker_t
  rs_initialized :: bool
  rs_requests_total :: "nat option"
  rs_requests_allowed :: "nat option"
  rs_requests_limited :: "nat option"
  rs_requests_error :: "nat option"
  rs_cb_transitions :: "nat option"
  rs_cb_gauge :: "int option"

section \<open>Keys and limits\<close>

definition hash_ip :: "string \<Rightarrow> u32" where
  "hash_ip ip = foldl (\<lambda>h c. (push_bit 5 h + h) + (let n = of_char c :: int in of_int (if n \<ge> 128 then n - 256 else n))) 5381 ip"

definition normalized_path :: "string \<Rightarrow> string" where
  "normalized_path path =
     (let p = c_copy 256 path;
          q = takeWhile (\<lambda>c. c \<noteq> CHR ''?'') p in
      if length q > 1 \<and> last q = CHR ''/'' then butlast q else q)"

definition get_route_id :: "string option \<Rightarrow> string option \<Rightarrow> nat \<Rightarrow> string option" where
  "get_route_id meth path buf_size =
     (case (meth, path) of
        (Some m, Some p) \<Rightarrow>
          (let r = m @ ''_'' @ normalized_path p in if length r \<ge> buf_size then None else Some r)
      | _ \<Rightarrow> None)"

definition redis_ip_key :: "nat \<Rightarrow> string \<Rightarrow> u32 \<Rightarrow> int \<Rightarrow> string option" where
  "redis_ip_key buf_size route_id h bucket =
     (let k = ''rl:ip:'' @ route_id @ '':'' @ dec_nat (unat h) @ '':'' @ dec_int bucket in
      if length k \<ge> buf_size then None else Some k)"

definition get_bucket_ts :: "int \<Rightarrow> int \<Rightarrow> int" where
  "get_bucket_ts now window_sec = (now div window_sec) * window_sec"

definition get_route_limit :: "redis_rl_config_t option \<Rightarrow> string option \<Rightarrow> u32" where
  "get_route_limit config route_id =
     (case config of
        None \<Rightarrow> 0
      | Some c \<Rightarrow>
          (case route_id of
             None \<Rightarrow> rc_global_limit c
           | Some r \<Rightarrow>
               if strstr r ''/api/v1/messages'' \<noteq> None
               then (if rc_route_limit_messages c > 0 then rc_route_limit_messages c else rc_global_limit c)
               else if strstr r ''/api/v1/chat'' \<noteq> None
               then (if rc_route_limit_chat c > 0 then rc_route_limit_chat c else rc_global_limit c)
               else rc_global_limit c))"

section \<open>Configuration\<close>

definition redis_rate_limiter_get_default_config :: redis_rl_config_t where
  "redis_rate_limiter_get_default_config =
     \<lparr>rc_enabled = False, rc_redis_uri = [], rc_redis_host = ''localhost'', rc_redis_port = 6379, rc_window_sec = 1,
      rc_global_limit = 1000, rc_route_limit_messages = 200, rc_route_limit_chat = 100, rc_pool_size = 32,
      rc_pool_acquire_timeout_ms = 10, rc_redis_timeout_ms = 30, rc_retries = 2, rc_retry_backoff_ms = 5,
      rc_cb_fail_open = True, rc_cb_error_threshold = 5, rc_cb_sliding_window_sec = 30, rc_cb_cooldown_sec = 15,
      rc_cb_half_open_attempts = 2\<rparr>"

definition env_int :: "getenv \<Rightarrow> string \<Rightarrow> int \<Rightarrow> int" where
  "env_int env name dflt = (case env (''C_GATEWAY_REDIS_RATE_LIMIT_'' @ name) of None \<Rightarrow> dflt | Some v \<Rightarrow> atoi v)"

definition env_text :: "getenv \<Rightarrow> string \<Rightarrow> nat \<Rightarrow> string \<Rightarrow> string" where
  "env_text env name len dflt =
     (case env (''C_GATEWAY_REDIS_RATE_LIMIT_'' @ name) of None \<Rightarrow> dflt | Some v \<Rightarrow> if v = [] then dflt else c_copy len v)"

definition env_limit :: "getenv \<Rightarrow> string \<Rightarrow> u32 \<Rightarrow> u32" where
  "env_limit env name dflt =
     (case env (''C_GATEWAY_REDIS_RATE_LIMIT_'' @ name) of None \<Rightarrow> dflt | Some v \<Rightarrow> of_int (atoi v))"

definition redis_rate_limiter_parse_config :: "getenv \<Rightarrow> redis_rl_config_t" where
  "redis_rate_limiter_parse_config env =
     (let c = redis_rate_limiter_get_default_config in
      c\<lparr>rc_enabled := (case env ''C_GATEWAY_REDIS_RATE_LIMIT_ENABLED'' of
                         Some v \<Rightarrow> v = ''true'' \<or> v = ''1'' | None \<Rightarrow> False),
        rc_redis_uri := env_text env ''REDIS_URI'' 256 (rc_redis_uri c),
        rc_redis_host := env_text env ''REDIS_HOST'' 64 (rc_redis_host c),
        rc_redis_port := env_int env ''REDIS_PORT'' (rc_redis_port c),
        rc_window_sec := env_int env ''WINDOW_SEC'' (rc_window_sec c),
        rc_global_limit := env_limit env ''GLOBAL_LIMIT'' (rc_global_limit c),
        rc_route_limit_messages := env_limit env ''ROUTE_LIMIT_MESSAGES'' (rc_route_limit_messages c),
        rc_route_limit_chat := env_limit env ''ROUTE_LIMIT_CHAT'' (rc_route_limit_chat c),
        rc_pool_size := env_int env ''POOL_SIZE'' (rc_pool_size c),
        rc_pool_acquire_timeout_ms := env_int env ''POOL_ACQUIRE_TIMEOUT_MS'' (rc_pool_acquire_timeout_ms c),
        rc_redis_timeout_ms := env_int env ''REDIS_TIMEOUT_MS'' (rc_redis_timeout_ms c),
        rc_retries := env_int env ''RETRIES'' (rc_retries c),
        rc_retry_backoff_ms := env_int env ''RETRY_BACKOFF_MS'' (rc_retry_backoff_ms c),
        rc_cb_fail_open := (case env ''C_GATEWAY_REDIS_RATE_LIMIT_CB_MODE'' of
                              None \<Rightarrow> rc_cb_fail_open c | Some v \<Rightarrow> v = ''fail_open''),
        rc_cb_error_threshold := env_int env ''CB_ERROR_THRESHOLD'' (rc_cb_error_threshold c),
        rc_cb_sliding_window_sec := env_int env ''CB_SLIDING_WINDOW_SEC'' (rc_cb_sliding_window_sec c),
        rc_cb_cooldown_sec := env_int env ''CB_COOLDOWN_SEC'' (rc_cb_cooldown_sec c),
        rc_cb_half_open_attempts := env_int env ''CB_HALF_OPEN_ATTEMPTS'' (rc_cb_half_open_attempts c)\<rparr>)"

section \<open>The breaker\<close>

definition cb_transition :: "int \<Rightarrow> redis_gstate \<Rightarrow> redis_gstate" where
  "cb_transition gauge g = g\<lparr>rs_cb_transitions := map_option Suc (rs_cb_transitions g), rs_cb_gauge := map_option (\<lambda>_. gauge) (rs_cb_gauge g)\<rparr>"

definition cb_record_error :: "int \<Rightarrow> redis_gstate \<Rightarrow> redis_gstate" where
  "cb_record_error now g =
     (let cb = (rs_cb g)\<lparr>error_count := error_count (rs_cb g) + 1, last_error_time := now\<rparr> in
      if rcb_state cb = CB_CLOSED then
        (if error_count cb \<ge> rc_cb_error_threshold (rs_config g)
         then cb_transition 1 (g\<lparr>rs_cb := cb\<lparr>rcb_state := CB_OPEN, opened_at := now\<rparr>\<rparr>)
         else g\<lparr>rs_cb := cb\<rparr>)
      else if rcb_state cb = CB_HALF_OPEN then
        cb_transition 1 (g\<lparr>rs_cb := cb\<lparr>rcb_state := CB_OPEN, opened_at := now, half_open_attempts := 0, half_open_successes := 0\<rparr>\<rparr>)
      else g\<lparr>rs_cb := cb\<rparr>)"

definition cb_record_success :: "redis_gstate \<Rightarrow> redis_gstate" where
  "cb_record_success g =
     (let cb = rs_cb g in
      if rcb_state cb = CB_CLOSED then g\<lparr>rs_cb := cb\<lparr>error_count := 0\<rparr>\<rparr>
      else if rcb_state cb = CB_HALF_OPEN then
        (let cb1 = cb\<lparr>half_open_successes := half_open_successes cb + 1, half_open_attempts := half_open_attempts cb + 1\<rparr> in
         if half_open_successes cb1 \<ge> rc_cb_half_open_attempts (rs_config g)
         then cb_transition 0 (g\<lparr>rs_cb := cb1\<lparr>rcb_state := CB_CLOSED, error_count := 0, half_open_attempts := 0,
                half_open_successes := 0\<rparr>\<rparr>)
         else g\<lparr>rs_cb := cb1\<rparr>)
      else g)"

definition cb_get_state :: "int \<Rightarrow> redis_gstate \<Rightarrow> redis_cb_state_t \<times> redis_gstate" where
  "cb_get_state now g =
     (let g1 = (if rcb_state (rs_cb g) = CB_OPEN \<and> now - opened_at (rs_cb g) \<ge> rc_cb_cooldown_sec (rs_config g)
                then cb_transition 2 (g\<lparr>rs_cb := (rs_cb g)\<lparr>rcb_state := CB_HALF_OPEN, half_open_attempts := 0,
                       half_open_successes := 0\<rparr>\<rparr>)
                else g) in
      (rcb_state (rs_cb g1), g1))"

section \<open>The check\<close>

text \<open>Without hiredis both loops over the pool leave it unchanged and find no connection.\<close>

definition acquire_connection :: "redis_gstate \<Rightarrow> nat option" where
  "acquire_connection g = None"

definition release_connection :: "nat \<Rightarrow> redis_gstate \<Rightarrow> redis_gstate" where
  "release_connection conn g =
     (case first_index (\<lambda>c. pc_ctx c = Some conn) (rs_pool g) of
        Some i \<Rightarrow> g\<lparr>rs_pool := (rs_pool g)[i := (rs_pool g ! i)\<lparr>pc_in_use := False\<rparr>]\<rparr>
      | None \<Rightarrow> g)"

text \<open>The return value, the result structure, of which unassigned fields keep what they held, and the state.\<close>

definition check_rate_limit_redis ::
    "int \<Rightarrow> redis_rl_request_ctx_t \<Rightarrow> redis_rl_result_t \<Rightarrow> redis_gstate \<Rightarrow> int \<times> redis_rl_result_t \<times> redis_gstate" where
  "check_rate_limit_redis now ctx result g =
     (let (cb_state, g1) = cb_get_state now g in
      if cb_state = CB_OPEN \<and> rc_cb_fail_open (rs_config g1) then
        (0, \<lparr>decision = REDIS_RL_ALLOW, rr_limit = rc_global_limit (rs_config g1), rr_remaining = rc_global_limit (rs_config g1),
             retry_after_sec = 0, reset_at = 0, degraded = True\<rparr>, g1)
      else if cb_state = CB_OPEN \<and> \<not> rc_cb_fail_open (rs_config g1) then
        (0, result\<lparr>decision := REDIS_RL_DENY, degraded := True\<rparr>, g1)
      else (case acquire_connection g1 of
          None \<Rightarrow> (0, result\<lparr>decision := REDIS_RL_ALLOW, degraded := True\<rparr>, cb_record_error now g1)
        | Some conn \<Rightarrow>
            (case get_route_id (rq_method ctx) (rq_path ctx) 256 of
               None \<Rightarrow> (-1, result, release_connection conn g1)
             | Some route_id \<Rightarrow>
                 (case redis_ip_key 512 route_id (hash_ip (case rq_client_ip ctx of Some ip \<Rightarrow> ip | None \<Rightarrow> ''unknown''))
                        (get_bucket_ts now (rc_window_sec (rs_config g1))) of
                    None \<Rightarrow> (-1, result, release_connection conn g1)
                  | Some key \<Rightarrow> (0, result\<lparr>decision := REDIS_RL_ALLOW, degraded := True\<rparr>,
                      cb_record_error now (release_connection conn g1))))))"

text \<open>
  The global pointer: null, to a live object, or to a freed one; a use of a freed object is undefined.
\<close>

datatype g_state = No_State | Live_State redis_gstate | Freed_State

definition redis_rate_limiter_check ::
    "int \<Rightarrow> redis_rl_request_ctx_t \<Rightarrow> redis_rl_result_t \<Rightarrow> g_state \<Rightarrow> (int \<times> redis_rl_result_t \<times> g_state) outcome" where
  "redis_rate_limiter_check now ctx result p =
     (case p of
        Freed_State \<Rightarrow> Undefined
      | No_State \<Rightarrow> Finished (0, result\<lparr>decision := REDIS_RL_ALLOW, degraded := False\<rparr>, p)
      | Live_State g \<Rightarrow>
          if \<not> rs_initialized g \<or> \<not> rc_enabled (rs_config g)
          then Finished (0, result\<lparr>decision := REDIS_RL_ALLOW, degraded := False\<rparr>, p)
          else (let (rc, r, g1) = check_rate_limit_redis now ctx result (g\<lparr>rs_requests_total := map_option Suc (rs_requests_total g)\<rparr>) in
            if rc \<noteq> 0
            then Finished (0, r\<lparr>decision := REDIS_RL_ALLOW, degraded := True\<rparr>,
                   Live_State (g1\<lparr>rs_requests_error := map_option Suc (rs_requests_error g1)\<rparr>))
            else Finished (0, r, Live_State
                   (case decision r of
                      REDIS_RL_ALLOW \<Rightarrow> g1\<lparr>rs_requests_allowed := map_option Suc (rs_requests_allowed g1)\<rparr>
                    | REDIS_RL_DENY \<Rightarrow> g1\<lparr>rs_requests_limited := map_option Suc (rs_requests_limited g1)\<rparr>
                    | REDIS_RL_ERROR \<Rightarrow> g1\<lparr>rs_requests_error := map_option Suc (rs_requests_error g1)\<rparr>))))"

text \<open>
  \<open>alloc_state\<close>, \<open>alloc_pool\<close>, \<open>mutexes\<close> say whether the allocations and the two mutex initialisations
  succeed, \<open>made\<close> which metrics could be created.
\<close>

definition redis_rate_limiter_init ::
    "bool \<Rightarrow> bool \<Rightarrow> bool \<times> bool \<Rightarrow> (nat \<Rightarrow> bool) \<Rightarrow> redis_rl_config_t option \<Rightarrow> g_state \<Rightarrow> int \<times> g_state" where
  "redis_rate_limiter_init alloc_state alloc_pool mutexes made config p =
     (case config of
        None \<Rightarrow> (0, p)
      | Some c \<Rightarrow>
          if \<not> rc_enabled c then (0, p)
          else if p \<noteq> No_State then (0, p)
          else if \<not> alloc_state then (-1, No_State)
          else if \<not> alloc_pool then (-1, Freed_State)
          else if \<not> fst mutexes then (-1, Freed_State)
          else if \<not> snd mutexes then (-1, Freed_State)
          else (let metric = (\<lambda>i v. if made i then Some v else None) in
            (0, Live_State \<lparr>rs_config = c, rs_pool = replicate (nat (rc_pool_size c)) \<lparr>pc_ctx = None, pc_in_use = False\<rparr>,
              rs_cb = \<lparr>rcb_state = CB_CLOSED, error_count = 0, last_error_time = 0, opened_at = 0, half_open_attempts = 0,
                half_open_successes = 0\<rparr>,
              rs_initialized = True, rs_requests_total = metric 0 0, rs_requests_allowed = metric 1 0,
              rs_requests_limited = metric 2 0, rs_requests_error = metric 3 0, rs_cb_transitions = metric 5 0,
              rs_cb_gauge = (if made 6 then Some 0 else None)\<rparr>)))"

definition redis_rate_limiter_get_cb_state :: "int \<Rightarrow> g_state \<Rightarrow> (string \<times> g_state) outcome" where
  "redis_rate_limiter_get_cb_state now p =
     (case p of
        No_State \<Rightarrow> Finished (''uninitialized'', p)
      | Freed_State \<Rightarrow> Undefined
      | Live_State g \<Rightarrow>
          (let (st, g1) = cb_get_state now g in
           Finished (case st of CB_CLOSED \<Rightarrow> ''closed'' | CB_OPEN \<Rightarrow> ''open'' | CB_HALF_OPEN \<Rightarrow> ''half_open'', Live_State g1)))"

definition redis_rate_limiter_cleanup :: "g_state \<Rightarrow> g_state outcome" where
  "redis_rate_limiter_cleanup p = (case p of Freed_State \<Rightarrow> Undefined | _ \<Rightarrow> Finished No_State)"

section \<open>Specification\<close>

text \<open>
  What the limiter does without a server: it counts failures, then blocks from a time on, with one
  trial after each cool-down.
\<close>

datatype outage = Counting int | Blocking int

fun outage_step :: "redis_rl_config_t \<Rightarrow> int \<Rightarrow> outage \<Rightarrow> redis_rl_decision_t \<times> outage" where
  "outage_step c now (Counting k) =
     (REDIS_RL_ALLOW, if k + 1 \<ge> rc_cb_error_threshold c then Blocking now else Counting (k + 1))"
| "outage_step c now (Blocking t) =
     (if now - t \<ge> rc_cb_cooldown_sec c then (REDIS_RL_ALLOW, Blocking now)
      else (if rc_cb_fail_open c then REDIS_RL_ALLOW else REDIS_RL_DENY, Blocking t))"

fun outage_run :: "redis_rl_config_t \<Rightarrow> (int \<times> redis_rl_request_ctx_t) list \<Rightarrow> outage \<Rightarrow> redis_rl_decision_t list" where
  "outage_run c [] s = []"
| "outage_run c ((now, _) # rs) s = (let (d, s1) = outage_step c now s in d # outage_run c rs s1)"

text \<open>A sequence of checks, each with the result structure \<open>r0\<close>, and the decisions; None if one is undefined.\<close>

fun check_run ::
    "redis_rl_result_t \<Rightarrow> (int \<times> redis_rl_request_ctx_t) list \<Rightarrow> g_state \<Rightarrow> redis_rl_result_t list option" where
  "check_run r0 [] p = Some []"
| "check_run r0 ((now, ctx) # rs) p =
     (case redis_rate_limiter_check now ctx r0 p of
        Undefined \<Rightarrow> None
      | Finished (rc, r, p1) \<Rightarrow> map_option ((#) r) (check_run r0 rs p1))"

definition outage_of :: "redis_gstate \<Rightarrow> outage" where
  "outage_of g = (if rcb_state (rs_cb g) = CB_CLOSED then Counting (error_count (rs_cb g)) else Blocking (opened_at (rs_cb g)))"

definition redis_serving :: "redis_gstate \<Rightarrow> bool" where
  "redis_serving g \<longleftrightarrow> rs_initialized g \<and> rc_enabled (rs_config g) \<and> rcb_state (rs_cb g) \<noteq> CB_HALF_OPEN"

definition demo_result :: redis_rl_result_t where
  "demo_result = \<lparr>decision = REDIS_RL_ERROR, rr_limit = 77, rr_remaining = 78, retry_after_sec = 79, reset_at = 80, degraded = False\<rparr>"

definition demo_redis_ctx :: redis_rl_request_ctx_t where
  "demo_redis_ctx = \<lparr>rq_client_ip = Some ''10.0.0.1'', rq_method = Some ''POST'', rq_path = Some ''/api/v1/routes/decide'',
     rq_tenant_id = None\<rparr>"

definition demo_redis_open :: redis_gstate where
  "demo_redis_open =
     \<lparr>rs_config = redis_rate_limiter_get_default_config\<lparr>rc_enabled := True\<rparr>, rs_pool = [],
      rs_cb = \<lparr>rcb_state = CB_OPEN, error_count = 5, last_error_time = 100, opened_at = 100, half_open_attempts = 0,
        half_open_successes = 0\<rparr>,
      rs_initialized = True, rs_requests_total = None, rs_requests_allowed = None, rs_requests_limited = None,
      rs_requests_error = None, rs_cb_transitions = None, rs_cb_gauge = None\<rparr>"

section \<open>Lemmas\<close>

lemmas redis_cb_defs = cb_record_error_def cb_record_success_def cb_get_state_def cb_transition_def

interpretation redis_cb: breaker "\<lambda>t g. (fst (cb_get_state t g) \<noteq> CB_OPEN, snd (cb_get_state t g))" "\<lambda>t. cb_record_success" cb_record_error
  "\<lambda>g. rcb_state (rs_cb g) = CB_CLOSED" "\<lambda>g. rcb_state (rs_cb g) = CB_OPEN"
  "\<lambda>t g. t - opened_at (rs_cb g) \<ge> rc_cb_cooldown_sec (rs_config g)"
proof (unfold_locales, goal_cases)
  case (6 g t)
  then show ?case by (cases "rcb_state (rs_cb g)") (simp_all add: redis_cb_defs Let_def)
qed (auto simp: redis_cb_defs Let_def)

lemma redis_check_serving:
  "redis_serving g \<Longrightarrow> \<exists>r g'. redis_rate_limiter_check now ctx r0 (Live_State g) = Finished (0, r, Live_State g') \<and>
     redis_serving g' \<and> rs_config g' = rs_config g \<and>
     (decision r, outage_of g') = outage_step (rs_config g) now (outage_of g) \<and> degraded r"
  by (cases "rcb_state (rs_cb g)"; cases "rc_cb_cooldown_sec (rs_config g) \<le> now - opened_at (rs_cb g)";
      cases "rc_cb_fail_open (rs_config g)"; cases "rc_cb_error_threshold (rs_config g) \<le> error_count (rs_cb g) + 1")
    (simp_all add: redis_rate_limiter_check_def check_rate_limit_redis_def redis_cb_defs Let_def acquire_connection_def
      redis_serving_def outage_of_def)

lemma redis_check_step:
  assumes "redis_serving g"
  obtains r g' where "redis_rate_limiter_check now ctx r0 (Live_State g) = Finished (0, r, Live_State g')"
    "redis_serving g'" "rs_config g' = rs_config g"
    "(decision r, outage_of g') = outage_step (rs_config g) now (outage_of g)" "degraded r"
  using redis_check_serving [OF assms] by blast

lemma check_run_outage:
  "redis_serving g \<Longrightarrow> \<exists>rs. check_run r0 reqs (Live_State g) = Some rs \<and>
     map decision rs = outage_run (rs_config g) reqs (outage_of g) \<and> list_all degraded rs"
proof (induction reqs arbitrary: g)
  case (Cons req reqs)
  obtain now ctx where req: "req = (now, ctx)" by (cases req)
  obtain r g' where "redis_rate_limiter_check now ctx r0 (Live_State g) = Finished (0, r, Live_State g')"
      "redis_serving g'" "rs_config g' = rs_config g"
      "(decision r, outage_of g') = outage_step (rs_config g) now (outage_of g)" "degraded r"
    using redis_check_step [OF Cons.prems] by blast
  with Cons.IH [of g'] show ?case by (auto simp: req split: prod.splits)
qed simp

lemma outage_run_fail_open: "rc_cb_fail_open c \<Longrightarrow> outage_run c reqs s = replicate (length reqs) REDIS_RL_ALLOW"
proof (induction reqs arbitrary: s)
  case (Cons req reqs)
  then show ?case by (cases s; cases req) (auto simp: Let_def)
qed simp

section \<open>Properties\<close>

text \<open>
  C28. What the limiter decides in the build without a Redis client, for every configuration and every
  sequence of requests after an initialisation that succeeds: the first requests, up to the error
  threshold, are allowed, then the breaker blocks, and after each cool-down one request is let
  through as a trial. Every answer is marked degraded. With fail-open every request is allowed, so
  the configured limits have no effect.
\<close>

theorem redis_limiter_outage:
  assumes "rc_enabled c" "redis_rate_limiter_init True True (True, True) made (Some c) No_State = (0, p)"
  shows "\<exists>rs. check_run r0 reqs p = Some rs \<and> map decision rs = outage_run c reqs (Counting 0) \<and> list_all degraded rs \<and>
    (rc_cb_fail_open c \<longrightarrow> map decision rs = replicate (length reqs) REDIS_RL_ALLOW)"
proof -
  obtain g where p: "p = Live_State g" and g: "rs_initialized g" "rs_config g = c" "rcb_state (rs_cb g) = CB_CLOSED"
      "error_count (rs_cb g) = 0"
    using assms by (auto simp: redis_rate_limiter_init_def Let_def)
  have "redis_serving g" "outage_of g = Counting 0" using g assms(1) by (simp_all add: redis_serving_def outage_of_def)
  then show ?thesis using check_run_outage [of g r0 reqs] p g(2) outage_run_fail_open by auto
qed

text \<open>
  The breaker in front of Redis fails fast: while it is open and has not cooled down it lets no call
  pass and stays open, whatever successes and errors are reported meanwhile, and the first call after
  the cool-down is let through.
\<close>

theorem redis_cb_fast_fail:
  assumes "rcb_state (rs_cb g) = CB_OPEN"
    and "\<forall>x \<in> set ops. cb_op_time x - opened_at (rs_cb g) < rc_cb_cooldown_sec (rs_config g)"
    and "t - opened_at (rs_cb g) \<ge> rc_cb_cooldown_sec (rs_config g)"
    and "(passed, g') = run_breaker (\<lambda>t g. (fst (cb_get_state t g) \<noteq> CB_OPEN, snd (cb_get_state t g))) (\<lambda>t. cb_record_success)
      cb_record_error ops g"
  shows "True \<notin> set passed \<and> rcb_state (rs_cb g') = CB_OPEN \<and> fst (cb_get_state t g') = CB_HALF_OPEN"
proof -
  have ops: "\<forall>x \<in> set ops. \<not> cb_op_time x - opened_at (rs_cb g) \<ge> rc_cb_cooldown_sec (rs_config g)" using assms(2) by force
  have g': "True \<notin> set passed" "rcb_state (rs_cb g') = CB_OPEN"
      "t - opened_at (rs_cb g') \<ge> rc_cb_cooldown_sec (rs_config g')"
    using redis_cb.open_stays [OF assms(1) ops] assms(3) unfolding assms(4) [symmetric] by auto
  then show ?thesis by (simp add: cb_get_state_def cb_transition_def)
qed

section \<open>Concrete runs\<close>

theorem redis_limiter_outage_witness:
  "\<exists>rs. check_run demo_result [(0, demo_redis_ctx), (1, demo_redis_ctx), (2, demo_redis_ctx), (16, demo_redis_ctx), (17, demo_redis_ctx)]
      (snd (redis_rate_limiter_init True True (True, True) (\<lambda>_. True)
        (Some (redis_rate_limiter_get_default_config\<lparr>rc_enabled := True, rc_cb_fail_open := False, rc_cb_error_threshold := 2\<rparr>)) No_State)) =
      Some rs \<and>
    map decision rs = [REDIS_RL_ALLOW, REDIS_RL_ALLOW, REDIS_RL_DENY, REDIS_RL_ALLOW, REDIS_RL_DENY]"
  using redis_limiter_outage [of
      "redis_rate_limiter_get_default_config\<lparr>rc_enabled := True, rc_cb_fail_open := False, rc_cb_error_threshold := 2\<rparr>"
      "\<lambda>_. True" "snd (redis_rate_limiter_init True True (True, True) (\<lambda>_. True)
        (Some (redis_rate_limiter_get_default_config\<lparr>rc_enabled := True, rc_cb_fail_open := False, rc_cb_error_threshold := 2\<rparr>)) No_State)"
      demo_result "[(0, demo_redis_ctx), (1, demo_redis_ctx), (2, demo_redis_ctx), (16, demo_redis_ctx), (17, demo_redis_ctx)]"]
  by (auto simp: redis_rate_limiter_init_def redis_rate_limiter_get_default_config_def Let_def)

theorem redis_cb_fast_fail_witness:
  "\<exists>g'. rcb_state (rs_cb g') = CB_OPEN \<and> fst (cb_get_state 115 g') = CB_HALF_OPEN \<and>
     ([False], g') = run_breaker (\<lambda>t g. (fst (cb_get_state t g) \<noteq> CB_OPEN, snd (cb_get_state t g))) (\<lambda>t. cb_record_success)
      cb_record_error [Op_Allow 101, Op_Failure 102, Op_Success 103] demo_redis_open"
  using redis_cb_fast_fail [of demo_redis_open "[Op_Allow 101, Op_Failure 102, Op_Success 103]" 115]
  by (auto simp: demo_redis_open_def redis_rate_limiter_get_default_config_def redis_cb_defs Let_def)

text \<open>
  A failed allocation of the pool leaves the global pointer to the freed state, which the next check reads.
\<close>

lemma redis_init_failure_dangles:
  assumes "rc_enabled c" "redis_rate_limiter_init True False mutexes made (Some c) No_State = (rc, p)"
  shows "rc = -1 \<and> redis_rate_limiter_check now ctx r0 p = Undefined"
  using assms by (auto simp: redis_rate_limiter_init_def redis_rate_limiter_check_def)

text \<open>A refusal in fail-closed mode leaves limit, remaining count and retry time as the caller's structure held them.\<close>

lemma redis_deny_unset:
  assumes "rs_initialized g" "rc_enabled (rs_config g)" "\<not> rc_cb_fail_open (rs_config g)" "rcb_state (rs_cb g) = CB_OPEN"
    "now - opened_at (rs_cb g) < rc_cb_cooldown_sec (rs_config g)"
  shows "\<exists>g'. redis_rate_limiter_check now ctx r0 (Live_State g) =
    Finished (0, r0\<lparr>decision := REDIS_RL_DENY, degraded := True\<rparr>, Live_State g')"
  using assms by (auto simp: redis_rate_limiter_check_def check_rate_limit_redis_def cb_get_state_def Let_def)


end
