(* ===== verification/Backpressure_Client.thy ===== *)
theory Backpressure_Client
  imports Rate_Limiter
begin

text \<open>
  The client that asks the router whether it is overloaded (\<open>src/src/backpressure_client.c\<close>): the
  minimal HTTP client with its URL parser, the scan of the metrics text, and the cache. The network is
  the argument \<open>tcp\<close>: the answer to a request sent to a host and port, None if a socket call fails.
  The host is copied into 256 bytes; a longer one is undefined behaviour.
\<close>

section \<open>Types\<close>

datatype backpressure_status_t = BACKPRESSURE_INACTIVE | BACKPRESSURE_WARNING | BACKPRESSURE_ACTIVE

record backpressure_client_config_t =
  router_metrics_url :: "string option"
  check_interval_seconds :: int
  bpc_timeout_ms :: int

record bp_client =
  bpc_cached_status :: backpressure_status_t
  bpc_last_check :: int
  bpc_config :: backpressure_client_config_t
  bpc_initialized :: bool

type_synonym tcp = "string \<Rightarrow> u16 \<Rightarrow> string \<Rightarrow> string option"

section \<open>The HTTP client\<close>

text \<open>The part of a string before a suffix of it, copied to a buffer of 256 bytes and terminated.\<close>

definition copy_host :: "string \<Rightarrow> string \<Rightarrow> string outcome" where
  "copy_host s rest = (let n = length s - length rest in if n < 256 then Finished (take n s) else Undefined)"

definition parse_url :: "string \<Rightarrow> (string \<times> u16 \<times> string) option outcome" where
  "parse_url url =
     (if \<not> starts_with url ''http://'' then Finished None
      else (let host_start = drop 7 url; port_start = strchr host_start (CHR '':''); path_start = strchr host_start (CHR ''/'');
                dflt = ''/_metrics'';
                path = (case path_start of Some p \<Rightarrow> c_copy 256 p | None \<Rightarrow> dflt) in
        case port_start of
          Some q \<Rightarrow>
            if (case path_start of None \<Rightarrow> True | Some p \<Rightarrow> length q > length p) then
              (case copy_host host_start q of
                 Undefined \<Rightarrow> Undefined
               | Finished host \<Rightarrow> Finished (Some (host, of_int (atoi (tl q)), path)))
            else (case path_start of
                    Some p \<Rightarrow> (case copy_host host_start p of
                        Undefined \<Rightarrow> Undefined | Finished host \<Rightarrow> Finished (Some (host, 8080, path)))
                  | None \<Rightarrow> Finished (Some (c_copy 256 host_start, 8080, dflt)))
        | None \<Rightarrow>
            (case path_start of
               Some p \<Rightarrow> (case copy_host host_start p of
                   Undefined \<Rightarrow> Undefined | Finished host \<Rightarrow> Finished (Some (host, 8080, path)))
             | None \<Rightarrow> Finished (Some (c_copy 256 host_start, 8080, dflt)))))"

definition metrics_request :: "string \<Rightarrow> u16 \<Rightarrow> string \<Rightarrow> string" where
  "metrics_request host port path =
     (let nl = [CHR 0x0D, CHR 0x0A] in
      c_copy 1024 (''GET '' @ path @ '' HTTP/1.1'' @ nl @ ''Host: '' @ host @ '':'' @ dec_nat (unat port) @ nl @
        ''Connection: close'' @ nl @ nl))"

definition http_get :: "tcp \<Rightarrow> string \<Rightarrow> nat \<Rightarrow> string option outcome" where
  "http_get tcp url response_size =
     (case parse_url url of
        Undefined \<Rightarrow> Undefined
      | Finished None \<Rightarrow> Finished None
      | Finished (Some (host, port, path)) \<Rightarrow>
          Finished (map_option (take (response_size - 1)) (tcp host port (metrics_request host port path))))"

section \<open>The metrics text\<close>

definition parse_backpressure_from_metrics :: "string option \<Rightarrow> backpressure_status_t" where
  "parse_backpressure_from_metrics metrics_text =
     (case metrics_text of
        None \<Rightarrow> BACKPRESSURE_INACTIVE
      | Some txt \<Rightarrow>
          (case strstr txt ''router_intake_backpressure_active'' of
             None \<Rightarrow> BACKPRESSURE_INACTIVE
           | Some found \<Rightarrow>
               (case strchr found (CHR '' '') of
                  None \<Rightarrow> BACKPRESSURE_INACTIVE
                | Some v \<Rightarrow>
                    if atoi (dropWhile (\<lambda>c. c = CHR '' '' \<or> c = CHR 0x09) v) = 1 then BACKPRESSURE_ACTIVE
                    else if strstr txt ''router_jetstream_pending_messages'' \<noteq> None \<or>
                            strstr txt ''router_intake_processing_latency_p95'' \<noteq> None then BACKPRESSURE_WARNING
                    else BACKPRESSURE_INACTIVE)))"

definition response_body :: "string \<Rightarrow> string" where
  "response_body resp =
     (case strstr resp [CHR 0x0D, CHR 0x0A, CHR 0x0D, CHR 0x0A] of
        Some b \<Rightarrow> drop 4 b
      | None \<Rightarrow> (case strstr resp [CHR 0x0A, CHR 0x0A] of Some b \<Rightarrow> drop 2 b | None \<Rightarrow> resp))"

definition fetch_router_metrics :: "tcp \<Rightarrow> bp_client \<Rightarrow> backpressure_status_t outcome" where
  "fetch_router_metrics tcp b =
     (case router_metrics_url (bpc_config b) of
        None \<Rightarrow> Finished BACKPRESSURE_INACTIVE
      | Some url \<Rightarrow>
          if url = [] then Finished BACKPRESSURE_INACTIVE
          else (case http_get tcp url 8192 of
              Undefined \<Rightarrow> Undefined
            | Finished None \<Rightarrow> Finished (bpc_cached_status b)
            | Finished (Some resp) \<Rightarrow> Finished (parse_backpressure_from_metrics (Some (response_body resp)))))"

section \<open>Operations\<close>

definition backpressure_client_get_default_config :: backpressure_client_config_t where
  "backpressure_client_get_default_config =
     \<lparr>router_metrics_url = Some ''http://localhost:8080/_metrics'', check_interval_seconds = 5, bpc_timeout_ms = 1000\<rparr>"

definition backpressure_client_parse_config :: "getenv \<Rightarrow> backpressure_client_config_t" where
  "backpressure_client_parse_config env =
     (let c = backpressure_client_get_default_config in
      c\<lparr>router_metrics_url := (case env ''GATEWAY_ROUTER_METRICS_URL'' of Some u \<Rightarrow> Some u | None \<Rightarrow> router_metrics_url c),
        check_interval_seconds := env_positive env ''GATEWAY_BACKPRESSURE_CHECK_INTERVAL_SECONDS'' (check_interval_seconds c),
        bpc_timeout_ms := env_positive env ''GATEWAY_BACKPRESSURE_TIMEOUT_MS'' (bpc_timeout_ms c)\<rparr>)"

definition backpressure_client_init :: "backpressure_client_config_t option \<Rightarrow> bp_client" where
  "backpressure_client_init config =
     \<lparr>bpc_cached_status = BACKPRESSURE_INACTIVE, bpc_last_check = 0,
      bpc_config = (case config of None \<Rightarrow> backpressure_client_get_default_config | Some c \<Rightarrow> c), bpc_initialized = True\<rparr>"

definition backpressure_client_cleanup :: "bp_client \<Rightarrow> bp_client" where
  "backpressure_client_cleanup b = b\<lparr>bpc_initialized := False\<rparr>"

definition backpressure_client_check_router_status ::
    "tcp \<Rightarrow> int \<Rightarrow> bp_client \<Rightarrow> (backpressure_status_t \<times> bp_client) outcome" where
  "backpressure_client_check_router_status tcp now b =
     (if \<not> bpc_initialized b then Finished (BACKPRESSURE_INACTIVE, b)
      else if now - bpc_last_check b < check_interval_seconds (bpc_config b) \<and> bpc_last_check b > 0
      then Finished (bpc_cached_status b, b)
      else (case fetch_router_metrics tcp b of
          Undefined \<Rightarrow> Undefined
        | Finished st \<Rightarrow> Finished (st, b\<lparr>bpc_cached_status := st, bpc_last_check := now\<rparr>)))"

definition backpressure_client_get_cached_status :: "bp_client \<Rightarrow> backpressure_status_t" where
  "backpressure_client_get_cached_status b = bpc_cached_status b"

section \<open>Lemmas\<close>

text \<open>Within the interval after a check the network is not used and the answer does not change.\<close>

lemma backpressure_cached:
  assumes "backpressure_client_check_router_status tcp now b = Finished (st, b')" "bpc_initialized b" "now > 0"
    "now \<le> t" "t - now < check_interval_seconds (bpc_config b)"
    "bpc_last_check b \<le> 0 \<or> check_interval_seconds (bpc_config b) \<le> now - bpc_last_check b"
  shows "backpressure_client_check_router_status tcp' t b' = Finished (st, b')"
  using assms by (auto simp: backpressure_client_check_router_status_def split: outcome.splits if_splits)

text \<open>An unreachable router keeps the last status.\<close>

lemma backpressure_unreachable:
  assumes "\<And>h p r. tcp h p r = None" "backpressure_client_check_router_status tcp now b = Finished (st, b')"
    "bpc_initialized b" "router_metrics_url (bpc_config b) \<noteq> None" "router_metrics_url (bpc_config b) \<noteq> Some []"
  shows "st = bpc_cached_status b"
  using assms
  by (auto simp: backpressure_client_check_router_status_def fetch_router_metrics_def http_get_def
      split: outcome.splits if_splits option.splits)

text \<open>
  The scan takes the first occurrence of the name, which in the text format is the help line: the
  overload that the sample line reports is not seen.
\<close>

lemma backpressure_help_line_hides:
  "parse_backpressure_from_metrics (Some (''# HELP router_intake_backpressure_active Overloaded'' @ [CHR 0x0A] @
     ''# TYPE router_intake_backpressure_active gauge'' @ [CHR 0x0A] @ ''router_intake_backpressure_active 1'' @ [CHR 0x0A])) =
   BACKPRESSURE_INACTIVE"
  "parse_backpressure_from_metrics (Some (''router_intake_backpressure_active 1'' @ [CHR 0x0A])) = BACKPRESSURE_ACTIVE"
  by code_simp+

end
