(* ===== verification/HTTP_Decide.thy ===== *)
theory HTTP_Decide
  imports Backpressure_Client Redis_Limiter Abuse_Detection NATS_Client JSON_Values HTTP_Events
begin

text \<open>
  The decide request of the HTTP server (\<open>src/src/http_server.c\<close>): validation of the body, the request
  built for the router, the mapping of router errors to HTTP statuses, the response writers, and
  \<open>handle_decide\<close>, which puts backpressure, the Redis limiter, abuse detection and the NATS client
  together. Jansson's parser and printer are arguments, and so are the network, the clock and the
  NATS client. The tracing spans are not modelled; a call of the error log is an event that holds
  its arguments.
\<close>

section \<open>Types\<close>

record request_context_t =
  cx_request_id :: string
  cx_trace_id :: string
  cx_tenant_id :: string
  cx_run_id :: string

datatype conflict_type_t =
    CONFLICT_TYPE_NONE
  | CONFLICT_TYPE_RATE_LIMIT
  | CONFLICT_TYPE_AUTH_GATEWAY
  | CONFLICT_TYPE_REQUEST_GATEWAY
  | CONFLICT_TYPE_ROUTER_INTAKE
  | CONFLICT_TYPE_ROUTER_RUNTIME
  | CONFLICT_TYPE_INTERNAL_GATEWAY

text \<open>The requests to the router, one for each function of the NATS client that sends one.\<close>

datatype router_call =
    Ask_Decide string
  | Ask_Decision string string
  | Ask_Extension_Health
  | Ask_Circuit_Breakers
  | Ask_Dry_Run string
  | Ask_Complexity string string

text \<open>What the handler does to the outside: writes, a text on standard error, a call of the error log, a request to the router.\<close>

datatype gw_event =
    Http http_event
  | Stderr string
  | Logged string string string conflict_type_t "string option" int
  | Asked_Router router_call

record gateway =
  gw_bp :: bp_client
  gw_redis :: g_state
  gw_abuse :: abuse_state
  gw_errors_total :: u64
  gw_errors_4xx :: u64
  gw_errors_5xx :: u64

text \<open>
  \<open>je_loads\<close> and \<open>je_dumps\<close> are jansson's parser and compact printer, \<open>je_utf8\<close> says which strings
  \<open>json_string\<close> accepts. \<open>de_result\<close> is what the uninitialised result structure holds.
\<close>

record 'w decide_env =
  je_loads :: "string \<Rightarrow> json option"
  je_dumps :: "json \<Rightarrow> string option"
  je_utf8 :: "string \<Rightarrow> bool"
  de_tcp :: tcp
  de_now :: int
  de_timestamp :: string
  de_client_ip :: string
  de_result :: redis_rl_result_t
  de_nats :: "'w nats_api"

abbreviation (input) MAX_RESPONSE_SIZE :: nat where "MAX_RESPONSE_SIZE \<equiv> 65536"

section \<open>Responses\<close>

text \<open>The status lines and content types are literals, so that the header fits its buffer.\<close>

definition http_body :: "int \<Rightarrow> string \<Rightarrow> http_event list" where
  "http_body fd body = (if body = [] then [] else [Wrote fd body])"

definition send_response :: "int \<Rightarrow> string \<Rightarrow> string \<Rightarrow> string \<Rightarrow> http_event list" where
  "send_response fd status_line content_type body =
     Wrote fd (status_line @ crlf @ ''Content-Type: '' @ content_type @ crlf @ ''Content-Length: '' @ dec_nat (length body) @ crlf @
       ''Connection: close'' @ crlf @ crlf) # http_body fd body"

definition send_response_with_headers :: "int \<Rightarrow> string \<Rightarrow> string \<Rightarrow> string \<Rightarrow> http_event list" where
  "send_response_with_headers fd status_line extra body =
     Wrote fd (status_line @ crlf @ extra @ ''Content-Length: '' @ dec_nat (length body) @ crlf @ ''Connection: close'' @ crlf @ crlf) #
     http_body fd body"

definition error_body :: "string \<Rightarrow> string \<Rightarrow> string option \<Rightarrow> request_context_t \<Rightarrow> string" where
  "error_body code message intake ctx =
     ''{\"ok\":false,\"error\":{\"code\":\"'' @ code @ ''\",\"message\":\"'' @ message @ ''\",\"intake_error_code\":'' @
     (case intake of Some c \<Rightarrow> (if c = [] then ''null'' else ''\"'' @ c @ ''\"'') | None \<Rightarrow> ''null'') @ '',\"details\":{}},'' @
     ''\"context\":{\"request_id\":\"'' @ cx_request_id ctx @ ''\",\"trace_id\":\"'' @ cx_trace_id ctx @
     ''\",\"tenant_id\":\"'' @ cx_tenant_id ctx @ ''\"}}''"

definition fallback_body :: string where
  "fallback_body = ''{\"ok\":false,\"error\":{\"code\":\"internal\",\"message\":\"internal error\",\"intake_error_code\":null,\"details\":{}},'' @
     ''\"context\":{\"request_id\":\"\",\"trace_id\":\"\",\"tenant_id\":\"\"}}''"

definition sized_body :: "string \<Rightarrow> string" where
  "sized_body body = (if length body \<ge> MAX_RESPONSE_SIZE then fallback_body else body)"

definition count_error :: "string \<Rightarrow> gateway \<Rightarrow> gateway" where
  "count_error status_line g =
     (let g1 = g\<lparr>gw_errors_total := gw_errors_total g + 1\<rparr> in
      if starts_with status_line ''HTTP/1.1 4'' then g1\<lparr>gw_errors_4xx := gw_errors_4xx g1 + 1\<rparr>
      else if starts_with status_line ''HTTP/1.1 5'' then g1\<lparr>gw_errors_5xx := gw_errors_5xx g1 + 1\<rparr>
      else g1)"

definition line_status :: "string \<Rightarrow> int" where
  "line_status l =
     (if starts_with l ''HTTP/1.1 429'' then 429 else if starts_with l ''HTTP/1.1 400'' then 400
      else if starts_with l ''HTTP/1.1 401'' then 401 else if starts_with l ''HTTP/1.1 403'' then 403
      else if starts_with l ''HTTP/1.1 500'' then 500 else if starts_with l ''HTTP/1.1 503'' then 503 else 500)"

definition send_error_response_with_conflict ::
    "int \<Rightarrow> string \<Rightarrow> string \<Rightarrow> string \<Rightarrow> request_context_t \<Rightarrow> conflict_type_t \<Rightarrow> string option \<Rightarrow> gateway \<Rightarrow> gw_event list \<times> gateway" where
  "send_error_response_with_conflict fd status_line code message ctx ctype intake g =
     (let body = error_body code message intake ctx;
          log = Logged ''http_response'' code message ctype intake (line_status status_line);
          resp = map Http (send_response fd status_line ''application/json'' (sized_body body)) in
      (if length body \<ge> MAX_RESPONSE_SIZE then resp @ [log] else log # resp, count_error status_line g))"

definition send_error_response ::
    "int \<Rightarrow> string \<Rightarrow> string \<Rightarrow> string \<Rightarrow> request_context_t \<Rightarrow> gateway \<Rightarrow> gw_event list \<times> gateway" where
  "send_error_response fd status_line code message ctx g =
     send_error_response_with_conflict fd status_line code message ctx
       (if code = ''rate_limit_exceeded'' then CONFLICT_TYPE_RATE_LIMIT
        else if code = ''unauthorized'' then CONFLICT_TYPE_AUTH_GATEWAY
        else if code = ''invalid_request'' then CONFLICT_TYPE_REQUEST_GATEWAY
        else CONFLICT_TYPE_INTERNAL_GATEWAY) None g"

definition send_error_response_with_retry_after ::
    "int \<Rightarrow> string \<Rightarrow> string \<Rightarrow> string \<Rightarrow> int \<Rightarrow> request_context_t \<Rightarrow> gateway \<Rightarrow> gw_event list \<times> gateway" where
  "send_error_response_with_retry_after fd status_line code message retry ctx g =
     (let body = sized_body (error_body code message None ctx);
          headers = c_copy 256 (''Content-Type: application/json'' @ crlf @ ''Content-Length: '' @ dec_nat (length body) @ crlf @
            ''Retry-After: '' @ dec_int retry @ crlf) in
      (map Http (send_response_with_headers fd status_line headers body) @
         [Logged ''backpressure'' code message
            (if code = ''rate_limit_exceeded'' then CONFLICT_TYPE_RATE_LIMIT else CONFLICT_TYPE_ROUTER_RUNTIME) None
            (if starts_with status_line ''HTTP/1.1 503'' then 503 else if starts_with status_line ''HTTP/1.1 429'' then 429 else 503)],
       count_error status_line g))"

section \<open>Validation and the router's request\<close>

definition is_str :: "json option \<Rightarrow> bool" where
  "is_str j = (case j of Some v \<Rightarrow> json_is_string v | None \<Rightarrow> False)"

definition is_obj :: "json option \<Rightarrow> bool" where
  "is_obj j = (case j of Some v \<Rightarrow> json_is_object v | None \<Rightarrow> False)"

definition str_of :: "json option \<Rightarrow> string" where
  "str_of j = (case j of Some (JString s) \<Rightarrow> s | _ \<Rightarrow> [])"

definition sub_field :: "json option \<Rightarrow> string \<Rightarrow> json option" where
  "sub_field j k = (case j of Some v \<Rightarrow> json_object_get v k | None \<Rightarrow> None)"

definition decide_dto_ok :: "json \<Rightarrow> bool" where
  "decide_dto_ok root =
     (json_object_get root ''version'' = Some (JString ''1'') \<and>
      is_str (json_object_get root ''tenant_id'') \<and> is_str (json_object_get root ''request_id'') \<and>
      is_obj (json_object_get root ''task'') \<and> is_str (sub_field (json_object_get root ''task'') ''type'') \<and>
      is_obj (sub_field (json_object_get root ''task'') ''payload''))"

definition validate_decide_request :: "(string \<Rightarrow> json option) \<Rightarrow> string \<Rightarrow> request_context_t \<Rightarrow> bool \<times> request_context_t" where
  "validate_decide_request loads body ctx =
     (case loads body of
        None \<Rightarrow> (False, ctx)
      | Some root \<Rightarrow>
          if \<not> json_is_object root then (False, ctx)
          else if decide_dto_ok root then
            (let ctx1 = ctx\<lparr>cx_request_id := c_copy 64 (str_of (json_object_get root ''request_id''))\<rparr>;
                 run_id = json_object_get root ''run_id'' in
             (True, if is_str run_id then ctx1\<lparr>cx_run_id := c_copy 64 (str_of run_id)\<rparr> else ctx1))
          else (False, ctx))"

definition json_set :: "string \<Rightarrow> json \<Rightarrow> json \<Rightarrow> json" where
  "json_set k v j = (case j of JObject kvs \<Rightarrow> JObject (AList.update k v kvs) | _ \<Rightarrow> j)"

definition set_if :: "(json option \<Rightarrow> bool) \<Rightarrow> string \<Rightarrow> json option \<Rightarrow> json \<Rightarrow> json" where
  "set_if P k v j = (if P v then (case v of Some x \<Rightarrow> json_set k x j | None \<Rightarrow> j) else j)"

text \<open>A field from the context if it is set there, and otherwise from the body.\<close>

definition set_preferred :: "(string \<Rightarrow> bool) \<Rightarrow> string \<Rightarrow> string \<Rightarrow> json \<Rightarrow> json \<Rightarrow> json" where
  "set_preferred utf8 k from_ctx root j =
     (if from_ctx \<noteq> [] then (if utf8 from_ctx then json_set k (JString from_ctx) j else j)
      else set_if is_str k (json_object_get root k) j)"

definition route_message :: "json \<Rightarrow> json" where
  "route_message root =
     set_if is_obj ''metadata'' (json_object_get root ''metadata'')
       (set_if is_obj ''payload'' (json_object_get root ''payload'')
         (set_if is_str ''message_type'' (json_object_get root ''message_type'')
           (set_if is_str ''message_id'' (json_object_get root ''message_id'') (JObject []))))"

definition route_request :: "(string \<Rightarrow> bool) \<Rightarrow> request_context_t \<Rightarrow> json \<Rightarrow> json" where
  "route_request utf8 ctx root =
     (let r1 = set_if is_str ''version'' (json_object_get root ''version'') (JObject []);
          r2 = set_preferred utf8 ''tenant_id'' (cx_tenant_id ctx) root r1;
          r3 = set_if is_str ''request_id'' (json_object_get root ''request_id'') r2;
          r4 = set_preferred utf8 ''trace_id'' (cx_trace_id ctx) root r3;
          r5 = set_if is_str ''run_id'' (json_object_get root ''run_id'') r4;
          r6 = json_set ''message'' (route_message root) r5;
          r7 = set_if is_str ''policy_id'' (json_object_get root ''policy_id'') r6 in
      set_if is_obj ''context'' (json_object_get root ''context'') r7)"

definition build_route_request_json :: "'w decide_env \<Rightarrow> string \<Rightarrow> request_context_t \<Rightarrow> string option \<times> request_context_t" where
  "build_route_request_json env body ctx =
     (case je_loads env body of
        None \<Rightarrow> (None, ctx)
      | Some root \<Rightarrow>
          if \<not> json_is_object root then (None, ctx)
          else (je_dumps env (route_request (je_utf8 env) ctx root),
                if is_str (json_object_get root ''run_id'') \<and> cx_run_id ctx = []
                then ctx\<lparr>cx_run_id := c_copy 64 (str_of (json_object_get root ''run_id''))\<rparr> else ctx))"

section \<open>Router errors\<close>

definition error_code_status :: "string \<Rightarrow> int" where
  "error_code_status c =
     (if c = ''invalid_request'' then 400 else if c = ''unauthorized'' then 401 else if c = ''policy_not_found'' then 404
      else if c = ''extension_not_found'' then 404 else if c = ''extension_timeout'' then 504
      else if c = ''validator_blocked'' then 403 else if c = ''post_processor_failed'' then 500
      else if c = ''extension_unavailable'' then 503 else if c = ''extension_error'' then 500
      else if c = ''decision_failed'' \<or> c = ''internal'' then 500 else 0)"

definition router_error :: "json \<Rightarrow> json option" where
  "router_error root = (if json_object_get root ''ok'' = Some (JBool False) then json_object_get root ''error'' else None)"

definition map_router_error_status :: "(string \<Rightarrow> json option) \<Rightarrow> string \<Rightarrow> int" where
  "map_router_error_status loads resp =
     (case loads resp of
        None \<Rightarrow> 0
      | Some root \<Rightarrow>
          if \<not> json_is_object root then 0
          else (case sub_field (router_error root) ''code'' of Some (JString c) \<Rightarrow> error_code_status c | _ \<Rightarrow> 0))"

definition decide_status_line :: "int \<Rightarrow> string" where
  "decide_status_line st =
     (if st = 400 then ''HTTP/1.1 400 Bad Request'' else if st = 401 then ''HTTP/1.1 401 Unauthorized''
      else if st = 404 then ''HTTP/1.1 404 Not Found'' else if st = 500 then ''HTTP/1.1 500 Internal Server Error''
      else if st = 503 then ''HTTP/1.1 503 Service Unavailable'' else ''HTTP/1.1 200 OK'')"

definition error_conflict :: "json option \<Rightarrow> conflict_type_t" where
  "error_conflict code =
     (if code = Some (JString ''internal'') \<or> code = Some (JString ''unavailable'') then CONFLICT_TYPE_ROUTER_RUNTIME
      else CONFLICT_TYPE_ROUTER_INTAKE)"

definition str_or :: "string \<Rightarrow> json option \<Rightarrow> string" where
  "str_or dflt j = (if is_str j then str_of j else dflt)"

text \<open>
  The answer to a reply of the router. The intake code of an error is taken from a document that is
  released before the code is logged, so that a reply with such a code is undefined behaviour.
\<close>

definition decide_respond :: "'w decide_env \<Rightarrow> int \<Rightarrow> string \<Rightarrow> gw_event list outcome" where
  "decide_respond env fd resp =
     (let st = map_router_error_status (je_loads env) resp;
          send = (\<lambda>body. map Http (send_response fd (decide_status_line st) ''application/json'' body)) in
      if st < 400 then Finished (send resp)
      else (case je_loads env resp of
          None \<Rightarrow> Finished (send resp)
        | Some root \<Rightarrow>
            (case json_object_get root ''error'' of
               None \<Rightarrow> Finished (send resp)
             | Some err \<Rightarrow>
                 (let intake = json_object_get err ''intake_error_code''; code = json_object_get err ''code'' in
                  if is_str intake then Undefined
                  else (let log = Logged ''router_response'' (str_or ''internal'' code)
                                    (str_or ''Router error'' (json_object_get err ''message'')) (error_conflict code) None st;
                            body = (if intake = None
                              then (case je_dumps env (json_set ''error'' (json_set ''intake_error_code'' JNull err) root) of
                                      Some d \<Rightarrow> c_copy MAX_RESPONSE_SIZE d | None \<Rightarrow> resp)
                              else resp) in
                        Finished (log # send body))))))"

section \<open>The handler\<close>

fun abuse_event_code :: "abuse_event_type_t \<Rightarrow> int" where
  "abuse_event_code ABUSE_EMPTY_PAYLOAD = 0"
| "abuse_event_code ABUSE_TARGETED_TENANT = 1"
| "abuse_event_code ABUSE_RATE_LIMIT_EVASION = 2"
| "abuse_event_code ABUSE_HEAVY_PAYLOAD = 3"
| "abuse_event_code ABUSE_MULTI_TENANT_FLOOD = 4"

definition nonempty :: "string \<Rightarrow> string option" where
  "nonempty x = (if x = [] then None else Some x)"

definition tenant_blocked_response :: "int \<Rightarrow> request_context_t \<Rightarrow> gateway \<Rightarrow> gw_event list \<times> gateway" where
  "tenant_blocked_response fd ctx g =
     send_error_response fd ''HTTP/1.1 429 Too Many Requests'' ''rate_limit_exceeded''
       ''Tenant temporarily blocked due to abuse detection'' ctx g"

text \<open>The abuse check; the last component says whether the request has been answered.\<close>

definition decide_abuse :: "'w decide_env \<Rightarrow> int \<Rightarrow> string \<Rightarrow> request_context_t \<Rightarrow> gateway \<Rightarrow> gw_event list \<times> gateway \<times> bool" where
  "decide_abuse env fd body ctx g =
     (case nonempty (cx_tenant_id ctx) of
        None \<Rightarrow> ([], g, False)
      | Some t \<Rightarrow>
          (let size = int (length body);
               g1 = g\<lparr>gw_abuse := snd (abuse_detection_track_request (de_now env) (Some t) None (Some (de_client_ip env)) size (gw_abuse g))\<rparr> in
           if abuse_detection_is_tenant_blocked (Some t) then
             (let (evs, g2) = tenant_blocked_response fd ctx g1 in (evs, g2, True))
           else (let (ev, a) = abuse_detection_check_patterns (de_now env) (Some t) size (gw_abuse g1); g2 = g1\<lparr>gw_abuse := a\<rparr> in
             if 0 \<le> abuse_event_code ev \<and> abuse_event_code ev \<le> abuse_event_code ABUSE_MULTI_TENANT_FLOOD then
               (let log = Stderr (fst (abuse_detection_log_event (de_timestamp env) ev (Some t) (Some (de_client_ip env))
                            (nonempty (cx_request_id ctx)) (nonempty (cx_trace_id ctx)) (Some ''/api/v1/routes/decide''))) in
                case abuse_detection_get_response_action ev of
                  ABUSE_RESPONSE_TEMPORARY_BLOCK \<Rightarrow>
                    (let (evs, g3) = tenant_blocked_response fd ctx g2 in (log # evs, g3, True))
                | _ \<Rightarrow> ([log], g2, False))
             else ([], g2, False))))"

definition redis_denied :: "int \<Rightarrow> redis_rl_result_t \<Rightarrow> request_context_t \<Rightarrow> gw_event list" where
  "redis_denied fd r ctx =
     [Http (Wrote fd (''HTTP/1.1 429 Too Many Requests'' @ crlf @ ''Content-Type: application/json'' @ crlf @
        ''Retry-After: '' @ dec_nat (unat (retry_after_sec r)) @ crlf @ ''X-RateLimit-Limit: '' @ dec_nat (unat (rr_limit r)) @ crlf @
        ''X-RateLimit-Remaining: '' @ dec_nat (unat (rr_remaining r)) @ crlf @
        ''X-RateLimit-Reset: '' @ dec_nat (unat (reset_at r)) @ crlf @ crlf)),
      Http (Wrote fd (c_copy 512 (''{\"ok\":false,\"error\":{\"code\":\"rate_limit_exceeded\",\"message\":\"Too many requests\",'' @
        ''\"intake_error_code\":null,\"details\":{\"endpoint\":\"/api/v1/routes/decide\",\"retry_after_seconds\":'' @
        dec_nat (unat (retry_after_sec r)) @ ''}},\"context\":{\"request_id\":\"'' @ cx_request_id ctx @ ''\",\"trace_id\":\"'' @
        cx_trace_id ctx @ ''\",\"tenant_id\":\"'' @ cx_tenant_id ctx @ ''\"}}''))),
      Logged ''redis_rate_limiter'' ''rate_limit_exceeded'' ''Too many requests'' CONFLICT_TYPE_RATE_LIMIT None 429]"

text \<open>From the validation on.\<close>

definition decide_route ::
    "'w decide_env \<Rightarrow> int \<Rightarrow> string \<Rightarrow> request_context_t \<Rightarrow> gateway \<Rightarrow> 'w \<Rightarrow> (gw_event list \<times> request_context_t \<times> gateway \<times> 'w) outcome" where
  "decide_route env fd body ctx g w =
     (case validate_decide_request (je_loads env) body ctx of
        (False, ctx1) \<Rightarrow>
          (let (evs, g1) = send_error_response_with_conflict fd ''HTTP/1.1 400 Bad Request'' ''invalid_request''
                 ''invalid decide request DTO'' ctx1 CONFLICT_TYPE_REQUEST_GATEWAY None g in Finished (evs, ctx1, g1, w))
      | (True, ctx1) \<Rightarrow>
          (case build_route_request_json env body ctx1 of
             (None, ctx2) \<Rightarrow>
               (let (evs, g1) = send_error_response fd ''HTTP/1.1 400 Bad Request'' ''invalid_request''
                      ''failed to build RouteRequest'' ctx2 g in Finished (evs, ctx2, g1, w))
           | (Some req, ctx2) \<Rightarrow>
               (case nats_request_decide (de_nats env) req MAX_RESPONSE_SIZE w of
                  (None, w1) \<Rightarrow>
                    (let (evs, g1) = send_error_response_with_conflict fd ''HTTP/1.1 503 Service Unavailable'' ''unavailable''
                           ''router or NATS unavailable'' ctx2 CONFLICT_TYPE_ROUTER_RUNTIME None g in
                     Finished (Asked_Router (Ask_Decide req) # evs, ctx2, g1, w1))
                | (Some resp, w1) \<Rightarrow>
                    (case decide_respond env fd resp of
                       Undefined \<Rightarrow> Undefined
                     | Finished evs \<Rightarrow> Finished (Asked_Router (Ask_Decide req) # evs, ctx2, g, w1)))))"

definition degraded_note :: "redis_rl_result_t \<Rightarrow> gw_event list" where
  "degraded_note r =
     (if degraded r then [Stderr (''Redis rate limiter degraded (circuit breaker open), allowing request'' @ lf)] else [])"

definition with_events ::
    "gw_event list \<Rightarrow> (gw_event list \<times> 'a) outcome \<Rightarrow> (gw_event list \<times> 'a) outcome" where
  "with_events evs r = (case r of Undefined \<Rightarrow> Undefined | Finished (es, x) \<Rightarrow> Finished (evs @ es, x))"

definition handle_decide ::
    "'w decide_env \<Rightarrow> int \<Rightarrow> string option \<Rightarrow> request_context_t \<Rightarrow> gateway \<Rightarrow> 'w \<Rightarrow>
     (gw_event list \<times> request_context_t \<times> gateway \<times> 'w) outcome" where
  "handle_decide env fd request_body ctx g w =
     (case request_body of
        None \<Rightarrow>
          (let (evs, g1) = send_error_response_with_conflict fd ''HTTP/1.1 400 Bad Request'' ''invalid_request'' ''empty request body''
                 ctx CONFLICT_TYPE_REQUEST_GATEWAY None g in Finished (evs, ctx, g1, w))
      | Some body \<Rightarrow>
          if body = [] then
            (let (evs, g1) = send_error_response_with_conflict fd ''HTTP/1.1 400 Bad Request'' ''invalid_request'' ''empty request body''
                   ctx CONFLICT_TYPE_REQUEST_GATEWAY None g in Finished (evs, ctx, g1, w))
          else (case backpressure_client_check_router_status (de_tcp env) (de_now env) (gw_bp g) of
              Undefined \<Rightarrow> Undefined
            | Finished (bp, b1) \<Rightarrow>
                (let g1 = g\<lparr>gw_bp := b1\<rparr> in
                 if bp = BACKPRESSURE_ACTIVE then
                   (let (evs, g2) = send_error_response_with_retry_after fd ''HTTP/1.1 503 Service Unavailable'' ''service_overloaded''
                          ''Router is overloaded, please retry later'' 30 ctx g1 in Finished (evs, ctx, g2, w))
                 else (case redis_rate_limiter_check (de_now env)
                         \<lparr>rq_client_ip = Some (de_client_ip env), rq_method = Some ''POST'', rq_path = Some ''/api/v1/routes/decide'',
                          rq_tenant_id = nonempty (cx_tenant_id ctx)\<rparr>
                         (de_result env) (gw_redis g1) of
                     Undefined \<Rightarrow> Undefined
                   | Finished (rc, r, p) \<Rightarrow>
                       (let g2 = g1\<lparr>gw_redis := p\<rparr> in
                        if rc = 0 \<and> decision r = REDIS_RL_DENY then Finished (redis_denied fd r ctx, ctx, g2, w)
                        else (let (evs, g3, answered) = decide_abuse env fd body ctx g2;
                                  note = (if rc = 0 then degraded_note r else []) in
                          if answered then Finished (note @ evs, ctx, g3, w)
                          else with_events (note @ evs) (decide_route env fd body ctx g3 w)))))))"

section \<open>Specification\<close>

text \<open>The writes and the requests to the router among the events.\<close>

fun http_of :: "gw_event list \<Rightarrow> http_event list" where
  "http_of [] = []"
| "http_of (Http e # es) = e # http_of es"
| "http_of (_ # es) = http_of es"

fun asked :: "gw_event list \<Rightarrow> router_call list" where
  "asked [] = []"
| "asked (Asked_Router q # es) = q # asked es"
| "asked (_ # es) = asked es"

definition one_response :: "int \<Rightarrow> string \<Rightarrow> gw_event list \<Rightarrow> bool" where
  "one_response fd line evs \<longleftrightarrow> (\<exists>h b. http_of evs = Wrote fd (line @ crlf @ h) # http_body fd b)"

definition refusal_lines :: "string set" where
  "refusal_lines = {''HTTP/1.1 400 Bad Request'', ''HTTP/1.1 429 Too Many Requests'', ''HTTP/1.1 503 Service Unavailable''}"

text \<open>The status line that the router's answer to a request gives.\<close>

definition router_line :: "'w decide_env \<Rightarrow> string \<Rightarrow> 'w \<Rightarrow> string" where
  "router_line env q w =
     (case fst (nats_request_decide (de_nats env) q MAX_RESPONSE_SIZE w) of
        None \<Rightarrow> ''HTTP/1.1 503 Service Unavailable''
      | Some resp \<Rightarrow> decide_status_line (map_router_error_status (je_loads env) resp))"

definition router_busy :: "'w decide_env \<Rightarrow> gateway \<Rightarrow> bool" where
  "router_busy env g =
     (case backpressure_client_check_router_status (de_tcp env) (de_now env) (gw_bp g) of
        Finished (BACKPRESSURE_ACTIVE, _) \<Rightarrow> True | _ \<Rightarrow> False)"

definition client_limited :: "'w decide_env \<Rightarrow> request_context_t \<Rightarrow> gateway \<Rightarrow> bool" where
  "client_limited env ctx g =
     (case redis_rate_limiter_check (de_now env)
         \<lparr>rq_client_ip = Some (de_client_ip env), rq_method = Some ''POST'', rq_path = Some ''/api/v1/routes/decide'',
          rq_tenant_id = nonempty (cx_tenant_id ctx)\<rparr> (de_result env) (gw_redis g) of
        Finished (_, r, _) \<Rightarrow> decision r = REDIS_RL_DENY | Undefined \<Rightarrow> False)"

definition demo_ctx :: request_context_t where
  "demo_ctx = \<lparr>cx_request_id = [], cx_trace_id = ''t1'', cx_tenant_id = ''acme'', cx_run_id = []\<rparr>"

definition demo_dto :: json where
  "demo_dto = JObject [(''version'', JString ''1''), (''tenant_id'', JString ''evil''), (''request_id'', JString ''r1''),
     (''task'', JObject [(''type'', JString ''x''), (''payload'', JObject [])])]"

text \<open>A parser that knows one request and one answer, a printer, and a router that blocks.\<close>

definition demo_decide_env :: "unit decide_env" where
  "demo_decide_env =
     \<lparr>je_loads = (\<lambda>x. if x = ''body'' then Some demo_dto
        else if x = ''blocked'' then Some (JObject [(''ok'', JBool False), (''error'', JObject [(''code'', JString ''validator_blocked'')])])
        else None),
      je_dumps = (\<lambda>_. Some ''{}''), je_utf8 = (\<lambda>_. True), de_tcp = (\<lambda>_ _ _. None), de_now = 1000, de_timestamp = ''now'',
      de_client_ip = ''10.0.0.1'', de_result = demo_result,
      de_nats = \<lparr>nats_request_decide = (\<lambda>_ _ w. (Some ''blocked'', w)), nats_request_get_decision = (\<lambda>_ _ _ w. (None, w)),
        nats_request_get_extension_health = (\<lambda>_ w. (None, w)), nats_request_get_circuit_breaker_states = (\<lambda>_ w. (None, w)),
        nats_request_dry_run_pipeline = (\<lambda>_ _ w. (None, w)), nats_request_get_pipeline_complexity = (\<lambda>_ _ _ w. (None, w)),
        nats_get_status_string = (\<lambda>_. ''connected'')\<rparr>\<rparr>"

definition demo_gateway :: gateway where
  "demo_gateway = \<lparr>gw_bp = backpressure_client_init None, gw_redis = No_State, gw_abuse = abuse_static,
     gw_errors_total = 0, gw_errors_4xx = 0, gw_errors_5xx = 0\<rparr>"

section \<open>Lemmas\<close>

lemma http_of_append [simp]: "http_of (xs @ ys) = http_of xs @ http_of ys"
  by (induction xs rule: http_of.induct) auto

lemma asked_append [simp]: "asked (xs @ ys) = asked xs @ asked ys"
  by (induction xs rule: asked.induct) auto

lemma http_of_map [simp]: "http_of (map Http es) = es" and asked_map [simp]: "asked (map Http es) = []"
  by (induction es) auto

lemma one_response_send [simp]:
  "http_of evs = send_response fd line ct body \<Longrightarrow> one_response fd line evs"
  by (auto simp: one_response_def send_response_def)

lemma one_response_silent [simp]:
  "one_response fd line (Asked_Router q # evs) = one_response fd line evs"
  "http_of pre = [] \<Longrightarrow> one_response fd line (pre @ evs) = one_response fd line evs"
  by (simp_all add: one_response_def)

lemma error_response_with_conflict:
  assumes "send_error_response_with_conflict fd line code msg ctx ctype intake g = (evs, g')"
  shows "one_response fd line evs" "asked evs = []"
  using assms by (auto simp: send_error_response_with_conflict_def Let_def split: if_splits)

lemma error_response:
  assumes "send_error_response fd line code msg ctx g = (evs, g')"
  shows "one_response fd line evs" "asked evs = []"
  using error_response_with_conflict assms unfolding send_error_response_def by blast+

lemma error_response_retry:
  assumes "send_error_response_with_retry_after fd line code msg retry ctx g = (evs, g')"
  shows "one_response fd line evs" "asked evs = []"
  using assms by (auto simp: send_error_response_with_retry_after_def send_response_with_headers_def one_response_def Let_def)

lemma redis_denied_response: "one_response fd ''HTTP/1.1 429 Too Many Requests'' (redis_denied fd r ctx)" "asked (redis_denied fd r ctx) = []"
  by (auto simp: redis_denied_def one_response_def http_body_def c_copy_def)

text \<open>The abuse check never answers the request, and logs one event for every request of a tenant.\<close>

lemma decide_abuse_logs:
  "\<exists>log g'. decide_abuse env fd body ctx g = ((if cx_tenant_id ctx = [] then [] else [Stderr log]), g', False) \<and> gw_redis g' = gw_redis g \<and> gw_bp g' = gw_bp g"
proof -
  have code: "0 \<le> abuse_event_code ev \<and> abuse_event_code ev \<le> 4" for ev by (cases ev) auto
  show ?thesis
    by (simp add: decide_abuse_def nonempty_def abuse_detection_is_tenant_blocked_def abuse_detection_get_response_action_def Let_def
        split_beta code)
qed

lemma decide_respond_one:
  assumes "decide_respond env fd resp = Finished evs"
  shows "one_response fd (decide_status_line (map_router_error_status (je_loads env) resp)) evs" "asked evs = []"
  using assms by (auto simp: decide_respond_def Let_def split: if_splits option.splits)

lemma decide_route_cases:
  assumes "decide_route env fd body ctx g w = Finished (evs, ctx', g', w')"
  obtains (refused) "asked evs = []" "one_response fd ''HTTP/1.1 400 Bad Request'' evs"
  | (routed) q root ctx1 where "asked evs = [Ask_Decide q]" "one_response fd (router_line env q w) evs"
      "je_loads env body = Some root" "decide_dto_ok root" "json_is_object root"
      "je_dumps env (route_request (je_utf8 env) ctx root) = Some q"
proof (cases "validate_decide_request (je_loads env) body ctx")
  case (Pair ok ctx1)
  show ?thesis
  proof (cases ok)
    case False
    then show ?thesis using assms Pair error_response_with_conflict refused
      by (auto simp: decide_route_def split: prod.splits)
  next
    case True
    obtain root where root: "je_loads env body = Some root" "json_is_object root" "decide_dto_ok root"
      using Pair True by (auto simp: validate_decide_request_def split: option.splits if_splits)
    have same: "cx_tenant_id ctx1 = cx_tenant_id ctx" "cx_trace_id ctx1 = cx_trace_id ctx"
      using Pair True root by (auto simp: validate_decide_request_def Let_def split: if_splits)
    have req: "route_request (je_utf8 env) ctx1 root = route_request (je_utf8 env) ctx root"
      unfolding route_request_def same ..
    obtain req ctx2 where b: "build_route_request_json env body ctx1 = (req, ctx2)" by fastforce
    have dump: "req = je_dumps env (route_request (je_utf8 env) ctx root)"
      using b root req by (auto simp: build_route_request_json_def)
    show ?thesis
    proof (cases req)
      case None
      then show ?thesis using assms Pair True b error_response refused
        by (auto simp: decide_route_def split: prod.splits)
    next
      case (Some q)
      obtain r w1 where n: "nats_request_decide (de_nats env) q 65536 w = (r, w1)" by fastforce
      have "asked evs = [Ask_Decide q] \<and> one_response fd (router_line env q w) evs"
      proof (cases r)
        case None
        then show ?thesis
          using assms Pair True b Some n error_response_with_conflict
          by (auto simp: decide_route_def router_line_def split: prod.splits)
      next
        case (Some resp)
        then show ?thesis
          using assms Pair True b \<open>req = Some q\<close> n decide_respond_one [of env fd resp]
          by (auto simp: decide_route_def router_line_def split: outcome.splits)
      qed
      then show ?thesis using routed [of q root] root dump Some by simp
    qed
  qed
qed


lemma redis_check_zero: "redis_rate_limiter_check now q r0 p = Finished (rc, r, p') \<Longrightarrow> rc = 0"
  by (auto simp: redis_rate_limiter_check_def Let_def split: g_state.splits if_splits prod.splits)


text \<open>The fields of the router's request.\<close>

lemma json_object_get_set [simp]:
  "json_is_object j \<Longrightarrow> json_object_get (json_set k v j) k' = (if k' = k then Some v else json_object_get j k')"
  "json_is_object (json_set k v j) = json_is_object j"
  by (cases j; simp add: json_set_def update_conv')+

lemma set_if_object [simp]: "json_is_object (set_if P k v j) = json_is_object j"
  by (simp add: set_if_def split: option.split)

lemma set_preferred_object [simp]: "json_is_object (set_preferred utf8 k c root j) = json_is_object j"
  by (simp add: set_preferred_def)

lemma json_get_set_if [simp]:
  "json_is_object j \<Longrightarrow> k' \<noteq> k \<Longrightarrow> json_object_get (set_if P k v j) k' = json_object_get j k'"
  by (simp add: set_if_def split: option.split)

lemma json_get_set_preferred [simp]:
  "json_is_object j \<Longrightarrow> k' \<noteq> k \<Longrightarrow> json_object_get (set_preferred utf8 k c root j) k' = json_object_get j k'"
  by (simp add: set_preferred_def)

lemma route_request_tenant:
  "cx_tenant_id ctx \<noteq> [] \<Longrightarrow> je_utf8 env (cx_tenant_id ctx) \<Longrightarrow>
     json_object_get (route_request (je_utf8 env) ctx root) ''tenant_id'' = Some (JString (cx_tenant_id ctx))"
  by (simp add: route_request_def Let_def set_preferred_def [of _ "''tenant_id''"])

text \<open>The task that the validation asks for is in no field of the router's request.\<close>

lemma route_request_no_task: "json_object_get (route_request utf8 ctx root) ''task'' = None"
  by (simp add: route_request_def Let_def)

text \<open>What is left to do after the guards.\<close>

lemma handle_decide_cases:
  assumes "handle_decide env fd rb ctx g w = Finished (evs, ctx', g', w')"
  obtains (refused) line where "asked evs = []" "one_response fd line evs" "line \<in> refusal_lines"
  | (passed) body pre evs2 g2 where "rb = Some body" "body \<noteq> []" "\<not> router_busy env g" "\<not> client_limited env ctx g"
      "http_of pre = []" "asked pre = []" "evs = pre @ evs2" "decide_route env fd body ctx g2 w = Finished (evs2, ctx', g', w')"
proof -
  let ?line400 = "''HTTP/1.1 400 Bad Request''"
  consider (empty) "rb = None \<or> rb = Some []" | (body) body where "rb = Some body" "body \<noteq> []" by (cases rb) auto
  then show thesis
  proof cases
    case empty
    then show thesis using assms error_response_with_conflict refused [of ?line400]
      by (auto simp: handle_decide_def refusal_lines_def split: prod.splits)
  next
    case body
    obtain bp b1 where bp: "backpressure_client_check_router_status (de_tcp env) (de_now env) (gw_bp g) = Finished (bp, b1)"
      using assms body by (auto simp: handle_decide_def split: outcome.splits)
    show thesis
    proof (cases "bp = BACKPRESSURE_ACTIVE")
      case True
      then show thesis using assms body bp error_response_retry refused [of "''HTTP/1.1 503 Service Unavailable''"]
        by (auto simp: handle_decide_def refusal_lines_def Let_def split: prod.splits)
    next
      case False
      let ?q = "\<lparr>rq_client_ip = Some (de_client_ip env), rq_method = Some ''POST'', rq_path = Some ''/api/v1/routes/decide'',
        rq_tenant_id = nonempty (cx_tenant_id ctx)\<rparr>"
      obtain rc r p where rd: "redis_rate_limiter_check (de_now env) ?q (de_result env) (gw_redis g) = Finished (rc, r, p)"
        using assms body bp False by (auto simp: handle_decide_def Let_def split: outcome.splits)
      have rc: "rc = 0" using redis_check_zero [OF rd] .
      have free: "\<not> router_busy env g" using bp False by (cases bp) (auto simp: router_busy_def)
      show thesis
      proof (cases "decision r = REDIS_RL_DENY")
        case True
        then show thesis
          using assms body bp False rd rc redis_denied_response refused [of "''HTTP/1.1 429 Too Many Requests''"]
          by (auto simp: handle_decide_def refusal_lines_def Let_def)
      next
        case ok: False
        obtain log g3 where ab: "decide_abuse env fd body ctx (g\<lparr>gw_bp := b1, gw_redis := p\<rparr>) =
            ((if cx_tenant_id ctx = [] then [] else [Stderr log]), g3, False)"
          using decide_abuse_logs by blast
        let ?pre = "degraded_note r @ (if cx_tenant_id ctx = [] then [] else [Stderr log])"
        have pre: "http_of ?pre = []" "asked ?pre = []" by (simp_all add: degraded_note_def)
        have "with_events ?pre (decide_route env fd body ctx g3 w) = Finished (evs, ctx', g', w')"
          using assms body bp False rd rc ok ab by (simp add: handle_decide_def Let_def)
        then obtain evs2 where "evs = ?pre @ evs2" "decide_route env fd body ctx g3 w = Finished (evs2, ctx', g', w')"
          by (auto simp: with_events_def split: outcome.splits prod.splits)
        moreover have "\<not> client_limited env ctx g" using rd ok by (simp add: client_limited_def)
        ultimately show thesis using passed [OF body free _ pre] by blast
      qed
    qed
  qed
qed


section \<open>Properties\<close>

text \<open>
  C6. Every decide request that is handled to the end gets exactly one response. If the router was not
  asked it is one of the refusals 400, 429 and 503; otherwise the router was asked exactly once and
  the status line is the one that its answer gives. So a success is reported only for a request that
  the router has answered.
\<close>

theorem decide_one_response:
  assumes "handle_decide env fd rb ctx g w = Finished (evs, ctx', g', w')"
  shows "\<exists>line. one_response fd line evs \<and>
    (case asked evs of [] \<Rightarrow> line \<in> refusal_lines | [Ask_Decide q] \<Rightarrow> line = router_line env q w | _ \<Rightarrow> False)"
  using assms
proof (cases rule: handle_decide_cases)
  case (passed body pre evs2 g2)
  show ?thesis
    by (rule decide_route_cases [OF passed(8)]) (use passed in \<open>auto simp: refusal_lines_def\<close>)
qed auto

text \<open>
  C7. What the decide handler sends to the router has passed every guard of it: the body is not empty,
  the router does not report overload, the client address is not refused, and the body parses to a valid request. The tenant in
  the router's request is the one of the request's context, whatever tenant the body names.
\<close>

theorem decide_router_guarded:
  assumes "handle_decide env fd rb ctx g w = Finished (evs, ctx', g', w')" and "call \<in> set (asked evs)"
  shows "\<not> router_busy env g \<and> \<not> client_limited env ctx g \<and>
    (\<exists>body root q. rb = Some body \<and> je_loads env body = Some root \<and> decide_dto_ok root \<and> call = Ask_Decide q \<and>
       je_dumps env (route_request (je_utf8 env) ctx root) = Some q \<and>
       (cx_tenant_id ctx \<noteq> [] \<and> je_utf8 env (cx_tenant_id ctx) \<longrightarrow>
          json_object_get (route_request (je_utf8 env) ctx root) ''tenant_id'' = Some (JString (cx_tenant_id ctx))))"
  using assms(1)
proof (cases rule: handle_decide_cases)
  case (passed body pre evs2 g2)
  show ?thesis
    by (rule decide_route_cases [OF passed(8)]) (use passed assms(2) route_request_tenant in auto)
qed (use assms(2) in auto)

section \<open>Concrete runs\<close>

lemma demo_decide_run:
  "\<exists>evs g'. handle_decide demo_decide_env 7 (Some ''body'') demo_ctx demo_gateway () =
     Finished (evs, demo_ctx\<lparr>cx_request_id := ''r1''\<rparr>, g', ()) \<and> asked evs = [Ask_Decide ''{}'']"
proof -
  have url: "parse_url ''http://localhost:8080/_metrics'' = Finished (Some (''localhost'', 8080, ''/_metrics''))" by code_simp
  have bp: "backpressure_client_check_router_status (\<lambda>_ _ _. None) 1000 (backpressure_client_init None) =
      Finished (BACKPRESSURE_INACTIVE, (backpressure_client_init None)\<lparr>bpc_last_check := 1000\<rparr>)"
    by (simp add: backpressure_client_check_router_status_def backpressure_client_init_def fetch_router_metrics_def
        backpressure_client_get_default_config_def http_get_def url)
  have dto: "decide_dto_ok demo_dto" by code_simp
  have ids: "str_of (json_object_get demo_dto ''request_id'') = ''r1''" "json_object_get demo_dto ''run_id'' = None" "json_is_object demo_dto"
    by code_simp+
  obtain log g3 where ab: "\<And>g. decide_abuse demo_decide_env 7 ''body'' demo_ctx g =
      ([Stderr (log g)], g3 g, False)"
    using decide_abuse_logs [of demo_decide_env 7 "''body''" demo_ctx] by (simp add: demo_ctx_def) metis
  show ?thesis
    using ab bp dto ids
    by (simp add: handle_decide_def demo_decide_env_def demo_gateway_def redis_rate_limiter_check_def degraded_note_def
        with_events_def decide_route_def validate_decide_request_def build_route_request_json_def is_str_def Let_def
        decide_respond_def map_router_error_status_def router_error_def sub_field_def error_code_status_def c_copy_def)
qed


theorem decide_one_response_witness:
  "\<exists>evs ctx' g' w'. handle_decide demo_decide_env 7 (Some ''body'') demo_ctx demo_gateway () = Finished (evs, ctx', g', w') \<and>
     one_response 7 ''HTTP/1.1 200 OK'' evs"
proof -
  obtain evs g' where r: "handle_decide demo_decide_env 7 (Some ''body'') demo_ctx demo_gateway () =
      Finished (evs, demo_ctx\<lparr>cx_request_id := ''r1''\<rparr>, g', ())" "asked evs = [Ask_Decide ''{}'']"
    using demo_decide_run by blast
  have "router_line demo_decide_env ''{}'' () = ''HTTP/1.1 200 OK''"
    by (simp add: router_line_def demo_decide_env_def map_router_error_status_def router_error_def sub_field_def
        error_code_status_def decide_status_line_def)
  then show ?thesis using decide_one_response [OF r(1)] r by auto
qed

theorem decide_router_guarded_witness:
  "\<exists>evs ctx' g' w'. handle_decide demo_decide_env 7 (Some ''body'') demo_ctx demo_gateway () = Finished (evs, ctx', g', w') \<and>
     \<not> router_busy demo_decide_env demo_gateway \<and>
     json_object_get (route_request (je_utf8 demo_decide_env) demo_ctx demo_dto) ''tenant_id'' = Some (JString ''acme'')"
proof -
  obtain evs g' where r: "handle_decide demo_decide_env 7 (Some ''body'') demo_ctx demo_gateway () =
      Finished (evs, demo_ctx\<lparr>cx_request_id := ''r1''\<rparr>, g', ())" "asked evs = [Ask_Decide ''{}'']"
    using demo_decide_run by blast
  have "Ask_Decide ''{}'' \<in> set (asked evs)" using r(2) by simp
  from decide_router_guarded [OF r(1) this] obtain body root where
      busy: "\<not> router_busy demo_decide_env demo_gateway" and b: "Some ''body'' = Some body" "je_loads demo_decide_env body = Some root"
      and t: "cx_tenant_id demo_ctx \<noteq> [] \<and> je_utf8 demo_decide_env (cx_tenant_id demo_ctx) \<longrightarrow>
        json_object_get (route_request (je_utf8 demo_decide_env) demo_ctx root) ''tenant_id'' = Some (JString (cx_tenant_id demo_ctx))"
    by blast
  have "root = demo_dto" using b by (simp add: demo_decide_env_def)
  moreover have "cx_tenant_id demo_ctx = ''acme''" "je_utf8 demo_decide_env x" for x
    by (simp_all add: demo_ctx_def demo_decide_env_def)
  ultimately show ?thesis using r(1) busy t by (intro exI conjI) simp_all
qed

text \<open>Two errors of the router are answered with a success.\<close>

lemma router_errors_reported_ok:
  "decide_status_line (error_code_status ''validator_blocked'') = ''HTTP/1.1 200 OK''"
  "decide_status_line (error_code_status ''extension_timeout'') = ''HTTP/1.1 200 OK''"
  by code_simp+

text \<open>An error of the router with an intake code makes the handler read a released string.\<close>

lemma intake_code_dangles:
  assumes "je_loads env resp = Some root" "map_router_error_status (je_loads env) resp \<ge> 400"
    "json_object_get root ''error'' = Some err" "json_object_get err ''intake_error_code'' = Some (JString c)"
  shows "decide_respond env fd resp = Undefined"
  using assms by (simp add: decide_respond_def is_str_def)


end
