(* ===== verification/Trace_Context.thy ===== *)
theory Trace_Context
  imports Gateway_Prelude
begin

text \<open>
  Trace contexts (\<open>src/src/trace_context.c\<close>): generation, child spans, the text form for headers and
  its parser. The results of \<open>rand\<close>, below 2^31, are arguments. The conversions of \<open>sscanf\<close> are those
  of glibc: leading white space and a sign are accepted, \<open>%lx\<close> takes a prefix \<open>0x\<close> and saturates.
\<close>

section \<open>Operations\<close>

record trace_context_t =
  trace_id_high :: u64
  trace_id_low :: u64
  span_id :: u64
  sampled :: u8

definition random_uint64 :: "nat \<Rightarrow> nat \<Rightarrow> u64" where
  "random_uint64 r1 r2 = (let high = of_nat r1; low = of_nat r2 in or (push_bit 32 high) low)"

definition trace_context_generate :: "(nat \<Rightarrow> nat) \<Rightarrow> bool \<Rightarrow> trace_context_t" where
  "trace_context_generate rand smp =
     \<lparr>trace_id_high = random_uint64 (rand 0) (rand 1), trace_id_low = random_uint64 (rand 2) (rand 3),
      span_id = random_uint64 (rand 4) (rand 5), sampled = (if smp then 1 else 0)\<rparr>"

definition trace_context_create_span :: "(nat \<Rightarrow> nat) \<Rightarrow> trace_context_t \<Rightarrow> trace_context_t" where
  "trace_context_create_span rand parent =
     \<lparr>trace_id_high = trace_id_high parent, trace_id_low = trace_id_low parent,
      span_id = random_uint64 (rand 0) (rand 1), sampled = sampled parent\<rparr>"

definition hex_char :: "nat \<Rightarrow> char" where
  "hex_char d = char_of (if d < 10 then 48 + d else 87 + d)"

text \<open>\<open>%016lx\<close>: the digits of a number below 16^k, with leading zeros.\<close>

fun hex_digits :: "nat \<Rightarrow> nat \<Rightarrow> string" where
  "hex_digits 0 n = []"
| "hex_digits (Suc k) n = hex_digits k (n div 16) @ [hex_char (n mod 16)]"

definition trace_text :: "trace_context_t \<Rightarrow> string" where
  "trace_text ctx = hex_digits 16 (unat (trace_id_high ctx)) @ ''-'' @ hex_digits 16 (unat (trace_id_low ctx)) @ ''-'' @
     hex_digits 16 (unat (span_id ctx)) @ ''-'' @ dec_nat (unat (sampled ctx))"

definition trace_context_to_string :: "trace_context_t option \<Rightarrow> nat \<Rightarrow> string option" where
  "trace_context_to_string ctx bsz =
     (case ctx of
        None \<Rightarrow> None
      | Some c \<Rightarrow> if bsz < 72 then None else if length (trace_text c) < bsz then Some (trace_text c) else None)"

section \<open>The parser\<close>

definition hex_val :: "char \<Rightarrow> nat option" where
  "hex_val c =
     (let n = of_char c :: nat in
      if 48 \<le> n \<and> n \<le> 57 then Some (n - 48)
      else if 97 \<le> n \<and> n \<le> 102 then Some (n - 87)
      else if 65 \<le> n \<and> n \<le> 70 then Some (n - 55)
      else None)"

definition is_hex :: "char \<Rightarrow> bool" where
  "is_hex c = (hex_val c \<noteq> None)"

definition read_hex :: "string \<Rightarrow> nat" where
  "read_hex s = foldl (\<lambda>a c. 16 * a + (case hex_val c of Some d \<Rightarrow> d | None \<Rightarrow> 0)) 0 s"

definition scan_sign :: "string \<Rightarrow> bool \<times> string" where
  "scan_sign s =
     (case s of
        [] \<Rightarrow> (False, [])
      | c # r \<Rightarrow> if c = CHR ''-'' then (True, r) else if c = CHR ''+'' then (False, r) else (False, s))"

text \<open>The prefix \<open>0x\<close>: its zero counts as a digit, so that it may stand alone.\<close>

definition scan_prefix :: "string \<Rightarrow> string \<times> string" where
  "scan_prefix s =
     (case s of
        c # x # r \<Rightarrow> if c = CHR ''0'' \<and> (x = CHR ''x'' \<or> x = CHR ''X'') then (''0'', r) else ([], s)
      | _ \<Rightarrow> ([], s))"

definition scan_hex :: "string \<Rightarrow> (u64 \<times> string) option" where
  "scan_hex s =
     (let (neg, t) = scan_sign (dropWhile is_space s);
          (z, u) = scan_prefix t;
          ds = z @ takeWhile is_hex u in
      if ds = [] then None
      else Some (if read_hex ds \<ge> 2 ^ 64 then - 1 else if neg then - of_nat (read_hex ds) else of_nat (read_hex ds),
                 dropWhile is_hex u))"

definition scan_int :: "string \<Rightarrow> (int \<times> string) option" where
  "scan_int s =
     (let (neg, t) = scan_sign (dropWhile is_space s); ds = takeWhile is_digit t in
      if ds = [] then None
      else Some (int32 (long_sat (if neg then - int (read_digits ds) else int (read_digits ds))), dropWhile is_digit t))"

definition scan_dash :: "string \<Rightarrow> string option" where
  "scan_dash s = (case s of c # r \<Rightarrow> if c = CHR ''-'' then Some r else None | [] \<Rightarrow> None)"

definition trace_context_from_string :: "string option \<Rightarrow> trace_context_t option" where
  "trace_context_from_string str =
     (case str of
        None \<Rightarrow> None
      | Some s \<Rightarrow>
          Option.bind (scan_hex s) (\<lambda>(hi, s1). Option.bind (scan_dash s1) (\<lambda>s2.
          Option.bind (scan_hex s2) (\<lambda>(lo, s3). Option.bind (scan_dash s3) (\<lambda>s4.
          Option.bind (scan_hex s4) (\<lambda>(sp, s5). Option.bind (scan_dash s5) (\<lambda>s6.
          Option.bind (scan_int s6) (\<lambda>(smp, _).
            Some \<lparr>trace_id_high = hi, trace_id_low = lo, span_id = sp, sampled = (if smp \<noteq> 0 then 1 else 0)\<rparr>))))))))"

definition trace_context_is_valid :: "trace_context_t option \<Rightarrow> bool" where
  "trace_context_is_valid ctx =
     (case ctx of None \<Rightarrow> False | Some c \<Rightarrow> trace_id_high c \<noteq> 0 \<or> trace_id_low c \<noteq> 0)"

section \<open>Lemmas\<close>

lemma hex_val_hex_char [simp]: "d < 16 \<Longrightarrow> hex_val (hex_char d) = Some d"
  by (auto simp: hex_val_def hex_char_def)

lemma is_hex_hex_char [simp]: "d < 16 \<Longrightarrow> is_hex (hex_char d)"
  by (simp add: is_hex_def)

lemma length_hex_digits [simp]: "length (hex_digits k n) = k"
  by (induction k arbitrary: n) auto

lemma hex_digits_hex: "c \<in> set (hex_digits k n) \<Longrightarrow> is_hex c"
  by (induction k arbitrary: n) auto

lemma read_hex_snoc [simp]: "read_hex (s @ [c]) = 16 * read_hex s + (case hex_val c of Some d \<Rightarrow> d | None \<Rightarrow> 0)"
  by (simp add: read_hex_def)

lemma read_hex_digits: "read_hex (hex_digits k n) = n mod 16 ^ k"
proof (induction k arbitrary: n)
  case (Suc k)
  have "n mod (16 * 16 ^ k) = 16 * (n div 16 mod 16 ^ k) + n mod 16" by (simp add: mod_mult2_eq)
  then show ?case by (simp add: Suc)
qed (simp add: read_hex_def)

text \<open>A printed number followed by something that is not a hexadecimal digit is read back.\<close>

lemma is_hex_not_special: "is_hex c \<Longrightarrow> \<not> is_space c \<and> c \<noteq> CHR ''-'' \<and> c \<noteq> CHR ''+'' \<and> c \<noteq> CHR ''x'' \<and> c \<noteq> CHR ''X''"
  by (auto simp: is_hex_def hex_val_def is_space_def Let_def split: if_splits)

lemma scan_hex_digits:
  assumes "0 < k" "rest = [] \<or> \<not> is_hex (hd rest) \<and> hd rest \<noteq> CHR ''x'' \<and> hd rest \<noteq> CHR ''X''" "n < 16 ^ k" "n < 2 ^ 64"
  shows "scan_hex (hex_digits k n @ rest) = Some (of_nat n, rest)"
proof -
  let ?ds = "hex_digits k n"
  have hex: "\<forall>c\<in>set ?ds. is_hex c" using hex_digits_hex by blast
  obtain c r where cr: "?ds = c # r" using assms(1) by (cases ?ds) (auto dest: arg_cong [where f = length])
  have c: "is_hex c" using hex cr by simp
  have sp: "dropWhile is_space (?ds @ rest) = ?ds @ rest" "scan_sign (?ds @ rest) = (False, ?ds @ rest)"
    using is_hex_not_special [OF c] by (simp_all add: cr scan_sign_def)
  have "scan_prefix (?ds @ rest) = ([], ?ds @ rest)"
  proof (cases r)
    case Nil
    then show ?thesis using assms(2) by (cases rest) (auto simp: cr scan_prefix_def)
  next
    case (Cons x r')
    then show ?thesis using is_hex_not_special [of x] hex by (auto simp: cr scan_prefix_def)
  qed
  moreover have "takeWhile is_hex (?ds @ rest) = ?ds" "dropWhile is_hex (?ds @ rest) = rest"
    using hex assms(2) by (auto simp: takeWhile_append dropWhile_append takeWhile_eq_Nil_iff dropWhile_eq_self_iff)
  moreover have "read_hex ?ds = n" using assms(3) by (simp add: read_hex_digits)
  moreover have "?ds \<noteq> []" using cr by simp
  ultimately show ?thesis unfolding scan_hex_def sp Let_def prod.case using assms(4) by simp
qed

lemma scan_int_dec_nat:
  assumes "n < 2 ^ 31"
  shows "scan_int (dec_nat n) = Some (int n, [])"
proof -
  obtain c r where cr: "dec_nat n = c # r" using dec_nat_not_Nil [of n] by (cases "dec_nat n") auto
  then have c: "is_digit c" using dec_nat_digits [of c n] by simp
  have sp: "dropWhile is_space (dec_nat n) = dec_nat n" "scan_sign (dec_nat n) = (False, dec_nat n)"
    using is_digit_not_sign [OF c] by (simp_all add: cr scan_sign_def)
  have tw: "takeWhile is_digit (dec_nat n) = dec_nat n" "dropWhile is_digit (dec_nat n) = []"
    using dec_nat_digits by (simp_all add: takeWhile_eq_all_conv)
  have "int32 (long_sat (int n)) = int n" using assms by (simp add: long_sat_def)
  then show ?thesis unfolding scan_int_def sp Let_def prod.case tw by simp
qed

lemma unat_u64_less: "unat (x :: u64) < 16 ^ 16"
  using unsigned_less [of x, where 'a = nat] by (simp add: power_mult [symmetric])

lemma unat_u8_less: "unat (x :: u8) < 256"
  using unsigned_less [of x, where 'a = nat] by simp

lemma length_trace_text: "length (trace_text c) \<le> 54"
proof -
  have "unat (sampled c) < 10 ^ 3" using unat_u8_less [of "sampled c"] by simp
  then show ?thesis using length_dec_nat [of "unat (sampled c)" 3] by (simp add: trace_text_def)
qed

lemma parse_trace_text:
  "trace_context_from_string (Some (trace_text c)) = Some (c\<lparr>sampled := (if sampled c \<noteq> 0 then 1 else 0)\<rparr>)"
proof -
  have h: "scan_hex (hex_digits 16 (unat (x :: u64)) @ ''-'' @ rest) = Some (x, ''-'' @ rest)" for x rest
    using scan_hex_digits [of 16 "''-'' @ rest" "unat x"] unat_u64_less [of x]
    by (simp add: is_hex_def hex_val_def)
  have d: "scan_dash (''-'' @ rest) = Some rest" for rest by (simp add: scan_dash_def)
  have "unat (sampled c) < 2 ^ 31" using unat_u8_less [of "sampled c"] by simp
  then have "scan_int (dec_nat (unat (sampled c))) = Some (int (unat (sampled c)), [])" by (rule scan_int_dec_nat)
  then show ?thesis
    unfolding trace_context_from_string_def trace_text_def option.case h bind.bind_lunit prod.case d
    by (auto simp: unsigned_eq_0_iff)
qed

section \<open>Properties\<close>

text \<open>
  C30. A trace context survives the header: with a buffer of 72 bytes, as the header file asks, printing
  always succeeds, and parsing the text gives the context back, with any nonzero sampling flag as 1.
\<close>

theorem trace_context_roundtrip:
  assumes "72 \<le> bsz"
  shows "\<exists>txt. trace_context_to_string (Some c) bsz = Some txt \<and> length txt < bsz \<and>
    trace_context_from_string (Some txt) = Some (c\<lparr>sampled := (if sampled c \<noteq> 0 then 1 else 0)\<rparr>)"
  using assms length_trace_text [of c] parse_trace_text by (simp add: trace_context_to_string_def)

theorem trace_context_roundtrip_witness:
  "\<exists>txt. trace_context_to_string (Some \<lparr>trace_id_high = 0xABC, trace_id_low = 7, span_id = 0xFFFFFFFFFFFFFFFF, sampled = 1\<rparr>) 72 = Some txt \<and>
     trace_context_from_string (Some txt) = Some \<lparr>trace_id_high = 0xABC, trace_id_low = 7, span_id = 0xFFFFFFFFFFFFFFFF, sampled = 1\<rparr>"
  using trace_context_roundtrip [of 72 "\<lparr>trace_id_high = 0xABC, trace_id_low = 7, span_id = 0xFFFFFFFFFFFFFFFF, sampled = 1\<rparr>"]
  by auto

text \<open>The results of \<open>rand\<close> have 31 bits, so that two bits of every identifier are zero.\<close>

lemma random_uint64_bits:
  assumes "r1 < 2 ^ 31" "r2 < 2 ^ 31"
  shows "\<not> bit (random_uint64 r1 r2) 31" "\<not> bit (random_uint64 r1 r2) 63"
proof -
  have small: "\<not> bit (of_nat r :: u64) 31" "\<not> bit (of_nat r :: u64) 63" if "r < 2 ^ 31" for r
  proof -
    have "\<not> bit r 31" "\<not> bit r 63" using that by (simp_all add: bit_iff_odd)
    then show "\<not> bit (of_nat r :: u64) 31" "\<not> bit (of_nat r :: u64) 63" by (simp_all add: bit_of_nat_iff)
  qed
  show "\<not> bit (random_uint64 r1 r2) 31" "\<not> bit (random_uint64 r1 r2) 63"
    using small [OF assms(1)] small [OF assms(2)] by (simp_all add: random_uint64_def bit_simps)
qed

text \<open>A child span keeps the trace and the sampling decision, and with them validity.\<close>

lemma create_span_valid: "trace_context_is_valid (Some (trace_context_create_span rand p)) = trace_context_is_valid (Some p)"
  by (simp add: trace_context_is_valid_def trace_context_create_span_def)

end
