(* ===== verification/Log_Sanitizer.thy ===== *)
theory Log_Sanitizer
  imports Gateway_Prelude
begin

text \<open>
  The masking of sensitive values in log lines (\<open>src/src/log_sanitizer.c\<close>). The loop is modelled with
  its output buffer: \<open>dst\<close> is what has been written, \<open>remaining\<close> the counter of the code, which wraps,
  and a write behind the \<open>cap\<close> bytes of the buffer is \<^const>\<open>Undefined\<close>. A reference without a buffer
  says what the output is when there is room.
\<close>

section \<open>Sensitive keys\<close>

definition SENSITIVE_KEYS :: "string list" where
  "SENSITIVE_KEYS = [''token'', ''api_key'', ''authorization'', ''password'', ''secret'', ''auth'', ''bearer'', ''key'']"

definition strcasestr :: "string \<Rightarrow> string \<Rightarrow> bool" where
  "strcasestr s p = (strstr (map to_lower s) (map to_lower p) \<noteq> None)"

definition jsonl_is_sensitive_key :: "string option \<Rightarrow> bool" where
  "jsonl_is_sensitive_key key = (case key of None \<Rightarrow> False | Some k \<Rightarrow> list_ex (strcasestr k) SENSITIVE_KEYS)"

section \<open>The loop\<close>

abbreviation (input) quote :: char where "quote \<equiv> CHR 0x22"

definition delimiter :: "char \<Rightarrow> bool" where
  "delimiter c = (c = CHR '','' \<or> c = CHR ''}'' \<or> c = CHR '']'')"

text \<open>The state of the loop: the rest of the input, the output, and the counter.\<close>

type_synonym san_state = "string \<times> string \<times> size_t"

fun write_chars :: "nat \<Rightarrow> string \<Rightarrow> string \<times> size_t \<Rightarrow> (string \<times> size_t) outcome" where
  "write_chars cap [] (dst, rem) = Finished (dst, rem)"
| "write_chars cap (c # cs) (dst, rem) =
     (if length dst < cap then write_chars cap cs (dst @ [c], rem - 1) else Undefined)"

fun copy_key :: "nat \<Rightarrow> nat \<Rightarrow> san_state \<Rightarrow> (string \<times> san_state) outcome" where
  "copy_key cap idx ([], dst, rem) = Finished ([], [], dst, rem)"
| "copy_key cap idx (c # s, dst, rem) =
     (if c \<noteq> quote \<and> idx < 63 \<and> rem > 0 then
        (if length dst < cap then
           (case copy_key cap (Suc idx) (s, dst @ [c], rem - 1) of
              Undefined \<Rightarrow> Undefined | Finished (key, st) \<Rightarrow> Finished (c # key, st))
         else Undefined)
      else Finished ([], c # s, dst, rem))"

definition close_quote :: "nat \<Rightarrow> san_state \<Rightarrow> san_state outcome" where
  "close_quote cap = (\<lambda>(src, dst, rem).
     case src of
       c # s \<Rightarrow>
         if c = quote \<and> rem > 0 then
           (case write_chars cap [c] (dst, rem) of Undefined \<Rightarrow> Undefined | Finished (d, r) \<Rightarrow> Finished (s, d, r))
         else Finished (src, dst, rem)
     | [] \<Rightarrow> Finished (src, dst, rem))"

fun copy_separators :: "nat \<Rightarrow> san_state \<Rightarrow> san_state outcome" where
  "copy_separators cap ([], dst, rem) = Finished ([], dst, rem)"
| "copy_separators cap (c # s, dst, rem) =
     (if (c = CHR '' '' \<or> c = CHR '':'') \<and> rem > 0 then
        (if length dst < cap then copy_separators cap (s, dst @ [c], rem - 1) else Undefined)
      else Finished (c # s, dst, rem))"

fun write_mask :: "nat \<Rightarrow> string \<Rightarrow> string \<times> size_t \<Rightarrow> (string \<times> size_t) outcome" where
  "write_mask cap [] (dst, rem) = Finished (dst, rem)"
| "write_mask cap (c # cs) (dst, rem) =
     (if rem > 0 then (if length dst < cap then write_mask cap cs (dst @ [c], rem - 1) else Undefined)
      else Finished (dst, rem))"

text \<open>The opening quote of a string value is written without a look at the counter.\<close>

definition mask_value :: "nat \<Rightarrow> san_state \<Rightarrow> san_state outcome" where
  "mask_value cap = (\<lambda>(src, dst, rem).
     if src \<noteq> [] \<and> hd src = quote then
       (case write_chars cap [quote] (dst, rem) of
          Undefined \<Rightarrow> Undefined
        | Finished (d1, r1) \<Rightarrow>
            (let s1 = dropWhile (\<lambda>c. c \<noteq> quote) (tl src) in
             case (if r1 \<ge> 3 then write_chars cap ''***'' (d1, r1) else Finished (d1, r1)) of
               Undefined \<Rightarrow> Undefined
             | Finished (d2, r2) \<Rightarrow> close_quote cap (s1, d2, r2)))
     else
       (case write_mask cap [quote, CHR ''*'', CHR ''*'', CHR ''*'', quote] (dst, rem) of
          Undefined \<Rightarrow> Undefined
        | Finished (d, r) \<Rightarrow> Finished (dropWhile (\<lambda>c. \<not> delimiter c) src, d, r)))"

text \<open>What follows the opening quote of a string.\<close>

definition sanitize_string :: "nat \<Rightarrow> san_state \<Rightarrow> san_state outcome" where
  "sanitize_string cap st =
     bind_outcome (copy_key cap 0 st) (\<lambda>(key, st1).
     bind_outcome (close_quote cap st1) (\<lambda>st2.
       if jsonl_is_sensitive_key (Some key) then bind_outcome (copy_separators cap st2) (mask_value cap)
       else Finished st2))"

lemma copy_key_length: "copy_key cap idx (src, dst, rem) = Finished (key, src', dst', rem') \<Longrightarrow> length src' \<le> length src"
proof (induction cap idx "(src, dst, rem)" arbitrary: src dst rem key rule: copy_key.induct)
  case (2 cap idx c s dst rem)
  then show ?case by (fastforce split: if_splits outcome.splits)
qed simp

lemma close_quote_length: "close_quote cap (src, dst, rem) = Finished (src', dst', rem') \<Longrightarrow> length src' \<le> length src"
  by (auto simp: close_quote_def split: list.splits if_splits)

lemma copy_separators_length: "copy_separators cap (src, dst, rem) = Finished (src', dst', rem') \<Longrightarrow> length src' \<le> length src"
proof (induction cap "(src, dst, rem)" arbitrary: src dst rem rule: copy_separators.induct)
  case (2 cap c s dst rem)
  then show ?case by (fastforce split: if_splits)
qed simp

lemma mask_value_length:
  assumes "mask_value cap (src, dst, rem) = Finished (src', dst', rem')"
  shows "length src' \<le> length src"
proof (cases "src \<noteq> [] \<and> hd src = quote")
  case True
  then obtain d r where "close_quote cap (dropWhile (\<lambda>c. c \<noteq> quote) (tl src), d, r) = Finished (src', dst', rem')"
    using assms by (auto simp: mask_value_def Let_def split: outcome.splits if_splits)
  from close_quote_length [OF this] show ?thesis using length_dropWhile_le [of "\<lambda>c. c \<noteq> quote" "tl src"] by simp
next
  case False
  then show ?thesis using assms length_dropWhile_le [of "\<lambda>c. \<not> delimiter c" src]
    by (auto simp: mask_value_def split: outcome.splits)
qed

lemma sanitize_string_length:
  assumes "sanitize_string cap (src, dst, rem) = Finished (src', dst', rem')"
  shows "length src' \<le> length src"
proof -
  obtain key s1 d1 r1 where 1: "copy_key cap 0 (src, dst, rem) = Finished (key, s1, d1, r1)"
    using assms by (auto simp: sanitize_string_def bind_outcome_def split: outcome.splits)
  obtain s2 d2 r2 where 2: "close_quote cap (s1, d1, r1) = Finished (s2, d2, r2)"
    using assms 1 by (auto simp: sanitize_string_def bind_outcome_def split: outcome.splits)
  have len: "length s2 \<le> length src" using copy_key_length [OF 1] close_quote_length [OF 2] by simp
  show ?thesis
  proof (cases "jsonl_is_sensitive_key (Some key)")
    case True
    obtain s3 d3 r3 where 3: "copy_separators cap (s2, d2, r2) = Finished (s3, d3, r3)"
      using assms 1 2 True by (auto simp: sanitize_string_def bind_outcome_def split: outcome.splits)
    then have "mask_value cap (s3, d3, r3) = Finished (src', dst', rem')"
      using assms 1 2 True by (simp add: sanitize_string_def bind_outcome_def)
    then show ?thesis using mask_value_length copy_separators_length [OF 3] len by fastforce
  next
    case False
    then show ?thesis using assms 1 2 len by (simp add: sanitize_string_def bind_outcome_def)
  qed
qed

function (sequential) sanitize_loop :: "nat \<Rightarrow> san_state \<Rightarrow> string outcome" where
  "sanitize_loop cap ([], dst, rem) = Finished dst"
| "sanitize_loop cap (c # s, dst, rem) =
     (if rem = 0 then Finished dst
      else if length dst \<ge> cap then Undefined
      else if c = quote then
        (if rem - 1 = 0 then Finished (dst @ [c])
         else (case sanitize_string cap (s, dst @ [c], rem - 1) of
             Undefined \<Rightarrow> Undefined
           | Finished (src', dst', rem') \<Rightarrow> sanitize_loop cap (src', dst', rem')))
      else sanitize_loop cap (s, dst @ [c], rem - 1))"
  by pat_completeness auto
termination
  by (relation "measure (\<lambda>(cap, src, dst, rem). length src)") (auto dest: sanitize_string_length)

text \<open>The return value and the text in the buffer.\<close>

definition jsonl_sanitize_json :: "string option \<Rightarrow> bool \<Rightarrow> size_t \<Rightarrow> (int \<times> string) outcome" where
  "jsonl_sanitize_json json_str out_buf buf_size =
     (case json_str of
        None \<Rightarrow> Finished (-1, [])
      | Some src \<Rightarrow>
          if \<not> out_buf \<or> buf_size = 0 then Finished (-1, [])
          else (case sanitize_loop (unat buf_size) (src, [], buf_size - 1) of
              Undefined \<Rightarrow> Undefined
            | Finished dst \<Rightarrow> if length dst < unat buf_size then Finished (0, dst) else Undefined))"

section \<open>The reference\<close>

definition ref_key :: "string \<Rightarrow> string" where
  "ref_key s = take 63 (takeWhile (\<lambda>c. c \<noteq> quote) s)"

definition ref_close :: "string \<Rightarrow> string \<times> string" where
  "ref_close s = (if s \<noteq> [] \<and> hd s = quote then ([quote], tl s) else ([], s))"

definition separator :: "char \<Rightarrow> bool" where
  "separator c = (c = CHR '' '' \<or> c = CHR '':'')"

definition ref_mask :: "string \<Rightarrow> string \<times> string" where
  "ref_mask s =
     (if s \<noteq> [] \<and> hd s = quote
      then (let (cl, t) = ref_close (dropWhile (\<lambda>c. c \<noteq> quote) (tl s)) in ([quote] @ ''***'' @ cl, t))
      else ([quote, CHR ''*'', CHR ''*'', CHR ''*'', quote], dropWhile (\<lambda>c. \<not> delimiter c) s))"

text \<open>The output for a string after its opening quote, and what is left of the input.\<close>

definition ref_string :: "string \<Rightarrow> string \<times> string" where
  "ref_string s =
     (let k = ref_key s; (cl, s1) = ref_close (drop (length k) s) in
      if jsonl_is_sensitive_key (Some k)
      then (let (m, s2) = ref_mask (dropWhile separator s1) in (k @ cl @ takeWhile separator s1 @ m, s2))
      else (k @ cl, s1))"

lemma ref_close_length: "length (snd (ref_close s)) \<le> length s"
  by (simp add: ref_close_def)

lemma ref_mask_length: "length (snd (ref_mask s)) \<le> length s"
  using ref_close_length [of "dropWhile (\<lambda>c. c \<noteq> quote) (tl s)"] length_dropWhile_le [of "\<lambda>c. c \<noteq> quote" "tl s"]
    length_dropWhile_le [of "\<lambda>c. \<not> delimiter c" s]
  by (auto simp: ref_mask_def split_beta Let_def)

lemma ref_string_length: "length (snd (ref_string s)) \<le> length s"
  using ref_close_length [of "drop (length (ref_key s)) s"] length_dropWhile_le [of separator "snd (ref_close (drop (length (ref_key s)) s))"]
    ref_mask_length [of "dropWhile separator (snd (ref_close (drop (length (ref_key s)) s)))"]
  by (auto simp: ref_string_def split_beta Let_def)

function (sequential) sanitize_ref :: "string \<Rightarrow> string" where
  "sanitize_ref [] = []"
| "sanitize_ref (c # s) =
     (if c = quote then (let (out, s') = ref_string s in c # out @ sanitize_ref s') else c # sanitize_ref s)"
  by pat_completeness auto
termination
  by (relation "measure length") (simp_all, metis ref_string_length snd_conv less_Suc_eq_le)

text \<open>Room in the buffer: the counter is what is left of it but for the terminator.\<close>

definition room :: "nat \<Rightarrow> string \<Rightarrow> size_t \<Rightarrow> nat \<Rightarrow> bool" where
  "room cap dst rem n \<longleftrightarrow> length dst + unat rem + 1 = cap \<and> n \<le> unat rem"

section \<open>Lemmas\<close>

lemma room_pos: "room cap dst rem (Suc n) \<Longrightarrow> rem > 0 \<and> length dst < cap"
  by (auto simp: room_def word_less_nat_alt)

lemma room_step: "room cap dst rem (Suc n) \<Longrightarrow> room cap (dst @ [c]) (rem - 1) n"
proof -
  assume a: "room cap dst rem (Suc n)"
  then have "unat (rem - 1) = unat rem - 1" by (subst unat_minus_one) (auto simp: room_def)
  with a show ?thesis by (auto simp: room_def)
qed

lemma room_less: "room cap dst rem n \<Longrightarrow> m \<le> n \<Longrightarrow> room cap dst rem m"
  by (simp add: room_def)

lemma write_chars_room:
  "room cap dst rem (length cs + n) \<Longrightarrow> \<exists>r. write_chars cap cs (dst, rem) = Finished (dst @ cs, r) \<and> room cap (dst @ cs) r n"
proof (induction cs arbitrary: dst rem)
  case (Cons c cs)
  then show ?case using room_pos [of cap dst rem] room_step [of cap dst rem _ c] Cons.IH [of "dst @ [c]" "rem - 1"] by auto
qed auto

lemma write_mask_room:
  "room cap dst rem (length cs + n) \<Longrightarrow> \<exists>r. write_mask cap cs (dst, rem) = Finished (dst @ cs, r) \<and> room cap (dst @ cs) r n"
proof (induction cs arbitrary: dst rem)
  case (Cons c cs)
  then show ?case using room_pos [of cap dst rem] room_step [of cap dst rem _ c] Cons.IH [of "dst @ [c]" "rem - 1"] by auto
qed auto

lemma copy_key_room:
  "room cap dst rem (length k + n) \<Longrightarrow> k = take (63 - idx) (takeWhile (\<lambda>c. c \<noteq> quote) s) \<Longrightarrow> idx \<le> 63 \<Longrightarrow>
   \<exists>r. copy_key cap idx (s, dst, rem) = Finished (k, drop (length k) s, dst @ k, r) \<and> room cap (dst @ k) r n"
proof (induction s arbitrary: k dst rem idx)
  case (Cons c s)
  show ?case
  proof (cases "c \<noteq> quote \<and> idx < 63")
    case True
    then obtain m where m: "63 - idx = Suc m" "63 - Suc idx = m" by (cases "63 - idx") auto
    let ?k = "take m (takeWhile (\<lambda>c. c \<noteq> quote) s)"
    have k: "k = c # ?k" using Cons.prems(2) True m by simp
    have r: "room cap dst rem (Suc (length ?k + n))" using Cons.prems(1) k by simp
    obtain r' where "copy_key cap (Suc idx) (s, dst @ [c], rem - 1) = Finished (?k, drop (length ?k) s, (dst @ [c]) @ ?k, r')"
        "room cap ((dst @ [c]) @ ?k) r' n"
      using Cons.IH [OF room_step [OF r], of "Suc idx"] m(2) True by fastforce
    then show ?thesis using True room_pos [OF r] k by simp
  next
    case False
    then have "k = []" using Cons.prems(2,3) by auto
    then show ?thesis using False Cons.prems(1) by auto
  qed
qed simp

lemma close_quote_room:
  assumes "room cap dst rem (Suc n)" "ref_close s = (cl, t)"
  shows "\<exists>r. close_quote cap (s, dst, rem) = Finished (t, dst @ cl, r) \<and> room cap (dst @ cl) r n"
proof (cases "s \<noteq> [] \<and> hd s = quote")
  case True
  then show ?thesis
    using assms room_pos [OF assms(1)] room_step [OF assms(1), of quote]
    by (cases s) (auto simp: close_quote_def ref_close_def)
next
  case False
  then show ?thesis using assms room_less [OF assms(1), of n] by (cases s) (auto simp: close_quote_def ref_close_def)
qed

lemma copy_separators_room:
  "room cap dst rem (length (takeWhile separator s) + n) \<Longrightarrow>
   \<exists>r. copy_separators cap (s, dst, rem) = Finished (dropWhile separator s, dst @ takeWhile separator s, r) \<and>
     room cap (dst @ takeWhile separator s) r n"
proof (induction s arbitrary: dst rem)
  case (Cons c s)
  show ?case
  proof (cases "separator c")
    case True
    then have r: "room cap dst rem (Suc (length (takeWhile separator s) + n))" using Cons.prems by simp
    then show ?thesis using Cons.IH [OF room_step [OF r, of c]] room_pos [OF r] True by (auto simp: separator_def)
  next
    case False
    then show ?thesis using Cons.prems by (auto simp: separator_def)
  qed
qed simp

lemma mask_value_room:
  assumes "room cap dst rem (n + 5)" "ref_mask s = (m, t)"
  shows "\<exists>r. mask_value cap (s, dst, rem) = Finished (t, dst @ m, r) \<and> room cap (dst @ m) r n"
proof (cases "s \<noteq> [] \<and> hd s = quote")
  case True
  have "room cap dst rem (length [quote] + (n + 4))" using assms(1) by (simp add: room_def)
  then obtain r1 where 1: "write_chars cap [quote] (dst, rem) = Finished (dst @ [quote], r1)" "room cap (dst @ [quote]) r1 (n + 4)"
    using write_chars_room by blast
  have ge: "r1 \<ge> 3" using 1(2) by (simp add: room_def word_le_nat_alt)
  have "room cap (dst @ [quote]) r1 (length ''***'' + Suc n)" using 1(2) by (simp add: room_def)
  then obtain r2 where 2: "write_chars cap ''***'' (dst @ [quote], r1) = Finished ((dst @ [quote]) @ ''***'', r2)"
      "room cap ((dst @ [quote]) @ ''***'') r2 (Suc n)"
    using write_chars_room by blast
  obtain cl where cl: "ref_close (dropWhile (\<lambda>c. c \<noteq> quote) (tl s)) = (cl, t)" "m = [quote] @ ''***'' @ cl"
    using assms(2) True by (auto simp: ref_mask_def split: prod.splits)
  show ?thesis using close_quote_room [OF 2(2) cl(1)] True 1 2 ge cl(2) by (simp add: mask_value_def Let_def)
next
  case False
  have "room cap dst rem (length [quote, CHR ''*'', CHR ''*'', CHR ''*'', quote] + n)" using assms(1) by (simp add: room_def)
  from write_mask_room [OF this] obtain r where
      "write_mask cap [quote, CHR ''*'', CHR ''*'', CHR ''*'', quote] (dst, rem) =
        Finished (dst @ [quote, CHR ''*'', CHR ''*'', CHR ''*'', quote], r)"
      "room cap (dst @ [quote, CHR ''*'', CHR ''*'', CHR ''*'', quote]) r n"
    by blast
  then show ?thesis using False assms(2) unfolding mask_value_def ref_mask_def prod.case if_not_P [OF False]
    by (auto simp del: write_mask.simps)
qed


lemma strstr_length: "strstr s p = Some t \<Longrightarrow> length p \<le> length s"
  using strstr_Some [of s p t] by (auto simp: starts_with_iff)

lemma sensitive_key_length: "jsonl_is_sensitive_key (Some k) \<Longrightarrow> 3 \<le> length k"
  by (auto simp: jsonl_is_sensitive_key_def SENSITIVE_KEYS_def strcasestr_def dest!: strstr_length)

lemma sanitize_string_room:
  assumes r: "room cap dst rem (3 * length s + 2)" and ref: "ref_string s = (out, t)"
  shows "\<exists>r. sanitize_string cap (s, dst, rem) = Finished (t, dst @ out, r) \<and> room cap (dst @ out) r (3 * length t)"
proof -
  let ?k = "ref_key s"
  obtain cl s1 where c: "ref_close (drop (length ?k) s) = (cl, s1)" by fastforce
  have kl: "length ?k \<le> length s" using length_takeWhile_le [of _ s] by (simp add: ref_key_def min.coboundedI1)
  have s1: "length s1 + length ?k \<le> length s" using ref_close_length [of "drop (length ?k) s"] c kl by simp
  define n where "n = (if jsonl_is_sensitive_key (Some ?k) then length (takeWhile separator s1) + (3 * length t + 5) else 3 * length t)"
  have "length ?k + Suc n \<le> 3 * length s + 2"
  proof (cases "jsonl_is_sensitive_key (Some ?k)")
    case True
    have "length t \<le> length (dropWhile separator s1)"
      using ref True c ref_mask_length [of "dropWhile separator s1"] by (auto simp: ref_string_def Let_def split_beta)
    moreover have "length (takeWhile separator s1) + length (dropWhile separator s1) = length s1"
      by (metis length_append takeWhile_dropWhile_id)
    ultimately show ?thesis using s1 sensitive_key_length [OF True] True by (simp add: n_def)
  next
    case False
    then have "t = s1" using ref c by (simp add: ref_string_def Let_def)
    then show ?thesis using s1 False by (simp add: n_def)
  qed
  then obtain r1 where 1: "copy_key cap 0 (s, dst, rem) = Finished (?k, drop (length ?k) s, dst @ ?k, r1)" "room cap (dst @ ?k) r1 (Suc n)"
    using copy_key_room [of cap dst rem ?k "Suc n" 0 s] room_less [OF r] by (auto simp: ref_key_def)
  obtain r2 where 2: "close_quote cap (drop (length ?k) s, dst @ ?k, r1) = Finished (s1, (dst @ ?k) @ cl, r2)"
      "room cap ((dst @ ?k) @ cl) r2 n"
    using close_quote_room [OF 1(2) c] by blast
  show ?thesis
  proof (cases "jsonl_is_sensitive_key (Some ?k)")
    case True
    obtain m where m: "ref_mask (dropWhile separator s1) = (m, t)" "out = ?k @ cl @ takeWhile separator s1 @ m"
      using ref True c by (auto simp: ref_string_def Let_def split: prod.splits)
    have "room cap ((dst @ ?k) @ cl) r2 (length (takeWhile separator s1) + (3 * length t + 5))" using 2(2) True by (simp add: n_def)
    from copy_separators_room [OF this] obtain r3 where
        3: "copy_separators cap (s1, (dst @ ?k) @ cl, r2) =
          Finished (dropWhile separator s1, ((dst @ ?k) @ cl) @ takeWhile separator s1, r3)"
        "room cap (((dst @ ?k) @ cl) @ takeWhile separator s1) r3 (3 * length t + 5)"
      by blast
    from mask_value_room [OF 3(2) m(1)] show ?thesis
      using 1 2 3 True m(2) by (auto simp: sanitize_string_def bind_outcome_def)
  next
    case False
    then show ?thesis using 1 2 ref c by (auto simp: sanitize_string_def bind_outcome_def ref_string_def Let_def n_def)
  qed
qed

lemma sanitize_loop_room:
  "room cap dst rem (3 * length s) \<Longrightarrow>
   sanitize_loop cap (s, dst, rem) = Finished (dst @ sanitize_ref s) \<and> length (dst @ sanitize_ref s) < cap"
proof (induction s arbitrary: dst rem rule: sanitize_ref.induct)
  case (2 c s)
  have r: "room cap dst rem (Suc (3 * length s + 2))" using "2.prems" by (simp add: room_def)
  note pos = room_pos [OF r] and step = room_step [OF r, of c]
  show ?case
  proof (cases "c = quote")
    case True
    obtain out t where ref: "ref_string s = (out, t)" by fastforce
    obtain r' where r': "sanitize_string cap (s, dst @ [c], rem - 1) = Finished (t, (dst @ [c]) @ out, r')"
        "room cap ((dst @ [c]) @ out) r' (3 * length t)"
      using sanitize_string_room [OF step ref] by blast
    have "rem - 1 \<noteq> 0" using room_pos [of cap "dst @ [c]" "rem - 1" "3 * length s + 1"] step by auto
    then show ?thesis using "2.IH"(1) [OF True ref [symmetric] refl r'(2)] True ref r'(1) pos by simp
  next
    case False
    then show ?thesis using "2.IH"(2) [OF False room_less [OF step]] pos by simp
  qed
qed (auto simp: room_def)


lemma sanitize_ref_plain: "quote \<notin> set pre \<Longrightarrow> sanitize_ref (pre @ s) = pre @ sanitize_ref s"
  by (induction pre) auto

lemma ref_string_masked:
  assumes "quote \<notin> set k" "length k \<le> 63" "jsonl_is_sensitive_key (Some k)" "list_all separator sep" "quote \<notin> set v"
  shows "ref_string (k @ [quote] @ sep @ [quote] @ v @ [quote] @ rest) = (k @ [quote] @ sep @ [quote] @ ''***'' @ [quote], rest)"
proof -
  have k: "ref_key (k @ [quote] @ x) = k" for x using assms(1,2) by (auto simp: ref_key_def takeWhile_append)
  have "\<not> separator quote" by (simp add: separator_def)
  then have sep: "takeWhile separator (sep @ [quote] @ x) = sep" "dropWhile separator (sep @ [quote] @ x) = [quote] @ x" for x
    using assms(4) by (auto simp: takeWhile_append dropWhile_append list_all_iff)
  have v: "dropWhile (\<lambda>c. c \<noteq> quote) (v @ [quote] @ rest) = [quote] @ rest" using assms(5) by (auto simp: dropWhile_append)
  have m: "ref_mask ([quote] @ v @ [quote] @ rest) = ([quote] @ ''***'' @ [quote], rest)"
    using v by (simp add: ref_mask_def ref_close_def)
  have c: "ref_close (drop (length k) (k @ [quote] @ x)) = ([quote], x)" for x by (simp add: ref_close_def)
  show ?thesis unfolding ref_string_def Let_def k c prod.case if_P [OF assms(3)] sep m by simp
qed

lemma sanitize_json_room:
  assumes "3 * length src < unat buf_size"
  shows "jsonl_sanitize_json (Some src) True buf_size = Finished (0, sanitize_ref src)"
proof -
  have "unat (buf_size - 1) = unat buf_size - 1" by (subst unat_minus_one) (use assms in auto)
  then have "room (unat buf_size) [] (buf_size - 1) (3 * length src)" using assms by (simp add: room_def)
  from sanitize_loop_room [OF this] show ?thesis using assms by (auto simp: jsonl_sanitize_json_def)
qed

section \<open>Properties\<close>

text \<open>
  C29. With a buffer of more than three times the length of the line the masking loop ends, writes nothing
  outside the buffer, cuts nothing off, and its output is that of the reference.
\<close>

theorem sanitize_complete:
  assumes "3 * length src < unat buf_size"
  shows "jsonl_sanitize_json (Some src) True buf_size = Finished (0, sanitize_ref src)"
  by (rule sanitize_json_room [OF assms])

text \<open>
  The first string field with a sensitive name is masked: for a name of at most 63 characters and a
  value without a quotation mark, the output has three stars in place of the value, and nothing in it
  depends on the value. What follows the field is masked on its own.
\<close>

theorem sanitize_hides_value:
  assumes "quote \<notin> set pre" "quote \<notin> set k" "length k \<le> 63" "jsonl_is_sensitive_key (Some k)" "list_all separator sep" "quote \<notin> set v"
    and "src = pre @ [quote] @ k @ [quote] @ sep @ [quote] @ v @ [quote] @ rest" and "3 * length src < unat buf_size"
  shows "jsonl_sanitize_json (Some src) True buf_size =
    Finished (0, pre @ [quote] @ k @ [quote] @ sep @ [quote] @ ''***'' @ [quote] @ sanitize_ref rest)"
proof -
  have "jsonl_sanitize_json (Some src) True buf_size = Finished (0, sanitize_ref src)" by (rule sanitize_json_room [OF assms(8)])
  moreover have "sanitize_ref src = pre @ sanitize_ref ([quote] @ k @ [quote] @ sep @ [quote] @ v @ [quote] @ rest)"
    unfolding assms(7) by (rule sanitize_ref_plain [OF assms(1)])
  moreover have "sanitize_ref ([quote] @ k @ [quote] @ sep @ [quote] @ v @ [quote] @ rest) =
      [quote] @ (k @ [quote] @ sep @ [quote] @ ''***'' @ [quote]) @ sanitize_ref rest"
    using ref_string_masked [OF assms(2-6), of rest] by simp
  ultimately show ?thesis by simp
qed

section \<open>Concrete runs\<close>

theorem sanitize_complete_witness:
  "jsonl_sanitize_json (Some ''{x:1}'') True 16 = Finished (0, ''{x:1}'')"
  using sanitize_complete [of "''{x:1}''" 16] by simp

lemma demo_key_sensitive: "jsonl_is_sensitive_key (Some ''token'')"
  by code_simp

theorem sanitize_hides_value_witness:
  "jsonl_sanitize_json (Some (''{'' @ [quote] @ ''token'' @ [quote] @ '':'' @ [quote] @ ''abc'' @ [quote] @ ''}'')) True 64 =
     Finished (0, ''{'' @ [quote] @ ''token'' @ [quote] @ '':'' @ [quote] @ ''***'' @ [quote] @ ''}'')"
  using sanitize_hides_value [of "''{''" "''token''" "'':''" "''abc''" "''{'' @ [quote] @ ''token'' @ [quote] @ '':'' @ [quote] @ ''abc'' @ [quote] @ ''}''" "''}''" 64]
    demo_key_sensitive
  by (simp add: separator_def)

text \<open>
  With a small buffer the opening quote of the value is written when nothing remains; the counter wraps
  and the following writes leave the buffer.
\<close>

lemma sanitize_overflow:
  "jsonl_sanitize_json (Some ([quote] @ ''key'' @ [quote] @ '':'' @ [quote] @ ''v'' @ [quote])) True 7 = Undefined"
  by code_simp

text \<open>A value with an escaped quotation mark is masked only up to it.\<close>

lemma sanitize_escape_leaks:
  "sanitize_ref ([quote] @ ''key'' @ [quote] @ '':'' @ [quote] @ ''a'' @ [CHR 0x5C, quote] @ ''b'' @ [quote]) =
     [quote] @ ''key'' @ [quote] @ '':'' @ [quote] @ ''***'' @ [quote] @ ''b'' @ [quote]"
  by code_simp

text \<open>A string value that contains a sensitive word gets a mask after it, which breaks the JSON text.\<close>

lemma sanitize_breaks_json:
  "sanitize_ref ([quote] @ ''a'' @ [quote] @ '':'' @ [quote] @ ''monkey'' @ [quote] @ ''}'') =
     [quote] @ ''a'' @ [quote] @ '':'' @ [quote] @ ''monkey'' @ [quote] @ [quote] @ ''***'' @ [quote] @ ''}''"
  by code_simp


end
