(* ===== verification/Doubles.thy ===== *)
theory Doubles
  imports Complex_Main
begin

text \<open>
  The arithmetic of C's \<open>double\<close> as far as the histograms use it: the conversion of a non-negative
  real number to the nearest double, ties to even, for numbers in the normal range. A double is the
  real number it stands for; \<open>to_double\<close> is what a decimal literal, the conversion of an unsigned
  integer and a division round their exact result with. The lemmas show that the rounding is monotone,
  exact on integers up to \<open>2\<^sup>5\<^sup>3\<close>, and off by at most one part in \<open>2\<^sup>5\<^sup>3\<close>, which is enough to decide a
  comparison of rounded values by the exact ones.
\<close>

definition round_even :: "real \<Rightarrow> int" where
  "round_even z = (let f = \<lfloor>z\<rfloor> in
     if z - of_int f < 1 / 2 \<or> z - of_int f = 1 / 2 \<and> even f then f else f + 1)"

text \<open>The exponent of the last of the 53 significant bits.\<close>

definition double_exp :: "real \<Rightarrow> int" where
  "double_exp x = \<lfloor>log 2 x\<rfloor> - 52"

definition to_double :: "real \<Rightarrow> real" where
  "to_double x = (if x \<le> 0 then 0
     else of_int (round_even (x / 2 powr of_int (double_exp x))) * 2 powr of_int (double_exp x))"

section \<open>Rounding to an integer\<close>

lemma round_even_bounds: "\<lfloor>z\<rfloor> \<le> round_even z" "round_even z \<le> \<lfloor>z\<rfloor> + 1"
  by (simp_all add: round_even_def Let_def)

lemma round_even_mono:
  assumes "z \<le> w"
  shows "round_even z \<le> round_even w"
proof (cases "\<lfloor>z\<rfloor> = \<lfloor>w\<rfloor>")
  case True
  with assms show ?thesis by (auto simp: round_even_def Let_def)
next
  case False
  then have "\<lfloor>z\<rfloor> + 1 \<le> \<lfloor>w\<rfloor>" using floor_mono [OF assms] by simp
  then show ?thesis using round_even_bounds [of z] round_even_bounds [of w] by linarith
qed

lemma round_even_of_int [simp]: "round_even (of_int k) = k"
  by (simp add: round_even_def)

lemma round_even_error: "\<bar>of_int (round_even z) - z\<bar> \<le> 1 / 2"
proof -
  have "of_int \<lfloor>z\<rfloor> \<le> z" "z < of_int \<lfloor>z\<rfloor> + 1" by linarith+
  then show ?thesis by (auto simp: round_even_def Let_def abs_le_iff)
qed

section \<open>Rounding to a double\<close>

lemma mantissa:
  assumes "0 < x"
  shows "2 ^ 52 \<le> x / 2 powr of_int (double_exp x)" "x / 2 powr of_int (double_exp x) < 2 ^ 53"
proof -
  let ?k = "of_int \<lfloor>log 2 x\<rfloor> :: real"
  have p: "2 powr of_int (double_exp x) = 2 powr ?k / 2 ^ 52"
    by (simp add: double_exp_def powr_diff)
  have "?k \<le> log 2 x" "log 2 x < ?k + 1" by linarith+
  then have "2 powr ?k \<le> x" "x < 2 powr (?k + 1)"
    using le_log_iff [of 2 x ?k] log_less_iff [of 2 x "?k + 1"] assms by (metis one_less_numeral_iff semiring_norm(76))+
  then have "2 powr ?k \<le> x" "x < 2 * 2 powr ?k" by (simp_all add: powr_add)
  then show "2 ^ 52 \<le> x / 2 powr of_int (double_exp x)" "x / 2 powr of_int (double_exp x) < 2 ^ 53"
    unfolding p by (simp_all add: field_simps)
qed

lemma to_double_nonneg: "0 \<le> to_double x"
proof (cases "0 < x")
  case True
  then have "round_even (of_int 0) \<le> round_even (x / 2 powr of_int (double_exp x))"
    by (intro round_even_mono) simp
  then show ?thesis using True by (simp add: to_double_def del: of_int_0)
qed (simp add: to_double_def)

lemma round_mantissa:
  assumes "0 < x"
  shows "2 ^ 52 \<le> real_of_int (round_even (x / 2 powr of_int (double_exp x)))"
    "real_of_int (round_even (x / 2 powr of_int (double_exp x))) \<le> 2 ^ 53"
proof -
  have "round_even (of_int (2 ^ 52)) \<le> round_even (x / 2 powr of_int (double_exp x))"
    using mantissa(1) [OF assms] by (intro round_even_mono) simp
  moreover have "round_even (x / 2 powr of_int (double_exp x)) \<le> round_even (of_int (2 ^ 53))"
    using mantissa(2) [OF assms] by (intro round_even_mono) simp
  ultimately have "2 ^ 52 \<le> round_even (x / 2 powr of_int (double_exp x))"
    "round_even (x / 2 powr of_int (double_exp x)) \<le> 2 ^ 53" by (simp_all only: round_even_of_int)
  then show "2 ^ 52 \<le> real_of_int (round_even (x / 2 powr of_int (double_exp x)))"
    "real_of_int (round_even (x / 2 powr of_int (double_exp x))) \<le> 2 ^ 53" by simp_all
qed

lemma to_double_mono:
  assumes "x \<le> y"
  shows "to_double x \<le> to_double y"
proof (cases "0 < x")
  case True
  with assms have y: "0 < y" by simp
  let ?e = "double_exp x" and ?f = "double_exp y"
  have "log 2 x \<le> log 2 y" using True assms by simp
  then have "?e \<le> ?f" by (simp add: double_exp_def floor_mono)
  then consider "?e = ?f" | "?e + 1 \<le> ?f" by linarith
  then show ?thesis
  proof cases
    case 1
    have "x / 2 powr of_int ?f \<le> y / 2 powr of_int ?f" using assms by (simp add: divide_right_mono)
    then show ?thesis using True y 1 round_even_mono by (simp add: to_double_def)
  next
    case 2
    have "of_int (round_even (x / 2 powr of_int ?e)) * 2 powr of_int ?e \<le> (2 ^ 53 :: real) * 2 powr of_int ?e"
      using round_mantissa(2) [OF True] by (intro mult_right_mono) simp_all
    also have "\<dots> = 2 ^ 52 * 2 powr (of_int ?e + 1)" by (simp add: powr_add)
    also have "\<dots> \<le> 2 ^ 52 * 2 powr of_int ?f"
    proof -
      have "(of_int ?e + 1 :: real) \<le> of_int ?f" using 2 by linarith
      then show ?thesis by simp
    qed
    also have "\<dots> \<le> of_int (round_even (y / 2 powr of_int ?f)) * 2 powr of_int ?f"
      using round_mantissa(1) [OF y] by (intro mult_right_mono) simp_all
    finally show ?thesis using True y by (simp add: to_double_def)
  qed
next
  case False
  then show ?thesis using to_double_nonneg [of y] by (simp add: to_double_def [of x])
qed

lemma to_double_error:
  assumes "0 < x"
  shows "\<bar>to_double x - x\<bar> \<le> x / 2 ^ 53"
proof -
  let ?p = "2 powr of_int (double_exp x) :: real"
  let ?m = "x / ?p"
  have "to_double x - x = (of_int (round_even ?m) - ?m) * ?p"
    using assms by (simp add: to_double_def field_simps)
  then have "\<bar>to_double x - x\<bar> \<le> 1 / 2 * ?p"
    using round_even_error [of ?m] by (simp add: abs_mult mult_right_mono)
  also have "\<dots> \<le> x / 2 ^ 53"
    using mantissa(1) [OF assms] by (simp add: field_simps)
  finally show ?thesis .
qed

lemma to_double_nat:
  assumes "n < 2 ^ 53"
  shows "to_double (real n) = real n"
proof (cases "n = 0")
  case False
  let ?k = "\<lfloor>log 2 (real n)\<rfloor>"
  have "log 2 (real n) < 53"
    using False assms by (simp add: log_less_iff)
  then have "?k \<le> 52" by linarith
  then obtain j :: nat where j: "52 - ?k = int j" by (metis diff_ge_0_iff_ge nonneg_int_cases)
  then have "double_exp (real n) = - int j" by (simp add: double_exp_def)
  then have p: "2 powr of_int (double_exp (real n)) = (1 / 2 ^ j :: real)"
    by (simp add: powr_minus powr_realpow divide_inverse)
  have "real n / (1 / 2 ^ j) = of_int (int n * 2 ^ j)" by simp
  then have "round_even (real n / (1 / 2 ^ j)) = int n * 2 ^ j" by (simp only: round_even_of_int)
  with False show ?thesis unfolding to_double_def p by simp
qed (simp add: to_double_def)

text \<open>
  A number of microseconds converted to seconds in doubles is at most the double of a bound exactly
  when the numbers of microseconds compare so, for bounds up to ten seconds.
\<close>

lemma seconds_le_iff:
  assumes "0 < b" "b \<le> 10000000"
  shows "to_double (to_double (real v) / 1000000) \<le> to_double (real b / 1000000) \<longleftrightarrow> v \<le> b"
proof
  assume "v \<le> b"
  moreover have "to_double (real b) = real b" using assms by (intro to_double_nat) simp
  ultimately have "to_double (real v) \<le> real b" using to_double_mono [of "real v" "real b"] by simp
  then show "to_double (to_double (real v) / 1000000) \<le> to_double (real b / 1000000)"
    by (intro to_double_mono) simp
next
  assume le: "to_double (to_double (real v) / 1000000) \<le> to_double (real b / 1000000)"
  show "v \<le> b"
  proof (rule ccontr)
    assume "\<not> v \<le> b"
    then have "real (b + 1) \<le> real v" by simp
    from to_double_mono [OF this] have "real (b + 1) \<le> to_double (real v)"
      using to_double_nat [of "b + 1"] assms by simp
    then have "real (b + 1) / 1000000 \<le> to_double (real v) / 1000000" by simp
    from to_double_mono [OF this] le
    have "to_double (real (b + 1) / 1000000) \<le> to_double (real b / 1000000)" by simp
    moreover have "\<bar>to_double (real (b + 1) / 1000000) - real (b + 1) / 1000000\<bar> \<le> real (b + 1) / 1000000 / 2 ^ 53"
      by (rule to_double_error) simp
    moreover have "\<bar>to_double (real b / 1000000) - real b / 1000000\<bar> \<le> real b / 1000000 / 2 ^ 53"
      using assms by (intro to_double_error) simp
    ultimately have "real (b + 1) / 1000000 - real (b + 1) / 1000000 / 2 ^ 53 \<le> real b / 1000000 + real b / 1000000 / 2 ^ 53"
      unfolding abs_le_iff by argo
    then have "9007199254740991 \<le> 2 * real b" by (simp add: field_simps)
    moreover have "2 * real b \<le> 20000000" using assms(2) by simp
    ultimately show False by simp
  qed
qed

end
