(* ===== verification/Metrics.thy ===== *)
theory Metrics
  imports Gateway_Prelude Doubles
begin

text \<open>
  The metrics of the gateway (\<open>metrics/prometheus.c\<close>, \<open>metrics/metrics_registry.c\<close>,
  \<open>handlers/metrics_handler.c\<close>). A metric object lives at an address of a heap, and an entry \<open>None\<close> is
  a freed object; the arrays of registered metrics and the global pointers hold addresses, so a pointer
  that outlives \<open>prometheus_cleanup\<close> dangles. The calls of \<open>calloc\<close> and \<open>write\<close> are parameters. The
  atomic counters are 64-bit words whose additions wrap; each atomic operation is one step.
\<close>

section \<open>Metric objects\<close>

record metric_label_t =
  label_key :: string
  label_value :: string

record prometheus_counter_t =
  c_name :: string
  c_help :: string
  c_value :: u64
  c_labels :: "metric_label_t list"

record prometheus_gauge_t =
  g_name :: string
  g_help :: string
  g_value :: u64
  g_labels :: "metric_label_t list"

text \<open>A bucket bound in seconds; \<open>None\<close> is \<open>INFINITY\<close>.\<close>

record histogram_bucket_t =
  upper_bound :: "real option"
  bucket_count :: u64

record prometheus_histogram_t =
  h_name :: string
  h_help :: string
  h_buckets :: "histogram_bucket_t list"
  h_sum :: u64
  h_count :: u64
  h_labels :: "metric_label_t list"

text \<open>
  The file's static state: the heap of each kind of object, and the first \<open>num_counters\<close>,
  \<open>num_gauges\<close> and \<open>num_histograms\<close> entries of the three arrays.
\<close>

record prometheus =
  counter_heap :: "prometheus_counter_t option list"
  gauge_heap :: "prometheus_gauge_t option list"
  histogram_heap :: "prometheus_histogram_t option list"
  counters :: "nat list"
  gauges :: "nat list"
  histograms :: "nat list"

definition MAX_METRICS :: nat where "MAX_METRICS = 100"

definition MAX_LABELS :: nat where "MAX_LABELS = 8"

definition default_buckets :: "real option list" where
  "default_buckets = map (Some \<circ> to_double) [1 / 1000, 5 / 1000, 1 / 100, 5 / 100, 1 / 10, 5 / 10, 1, 5, 10] @ [None]"

text \<open>An access through a pointer: undefined when the object has been freed.\<close>

definition at_address :: "'a option list \<Rightarrow> nat \<Rightarrow> 'a outcome" where
  "at_address h a = (if a < length h then (case h ! a of Some x \<Rightarrow> Finished x | None \<Rightarrow> Undefined) else Undefined)"

definition set_address :: "nat \<Rightarrow> 'a \<Rightarrow> 'a option list \<Rightarrow> 'a option list" where
  "set_address a x h = h[a := Some x]"

definition free_addresses :: "nat list \<Rightarrow> 'a option list \<Rightarrow> 'a option list" where
  "free_addresses as h = foldl (\<lambda>h a. h[a := None]) h as"

section \<open>Operations of prometheus.c\<close>

definition prometheus_init :: "prometheus \<Rightarrow> int \<times> prometheus" where
  "prometheus_init s = (0, s\<lparr>counters := [], gauges := [], histograms := []\<rparr>)"

definition prometheus_cleanup :: "prometheus \<Rightarrow> prometheus" where
  "prometheus_cleanup s = s
     \<lparr>counter_heap := free_addresses (counters s) (counter_heap s),
      gauge_heap := free_addresses (gauges s) (gauge_heap s),
      histogram_heap := free_addresses (histograms s) (histogram_heap s),
      counters := [], gauges := [], histograms := []\<rparr>"

definition prometheus_counter_create :: "bool \<Rightarrow> string \<Rightarrow> string \<Rightarrow> prometheus \<Rightarrow> nat option \<times> prometheus" where
  "prometheus_counter_create alloc name help s =
     (if length (counters s) \<ge> MAX_METRICS then (None, s)
      else if \<not> alloc then (None, s)
      else (Some (length (counter_heap s)),
            s\<lparr>counter_heap := counter_heap s @
                [Some \<lparr>c_name = c_copy 128 name, c_help = c_copy 256 help, c_value = 0, c_labels = []\<rparr>],
              counters := counters s @ [length (counter_heap s)]\<rparr>))"

definition prometheus_counter_inc :: "nat option \<Rightarrow> prometheus \<Rightarrow> prometheus outcome" where
  "prometheus_counter_inc p s = (case p of None \<Rightarrow> Finished s | Some a \<Rightarrow>
     bind_outcome (at_address (counter_heap s) a) (\<lambda>c.
       Finished (s\<lparr>counter_heap := set_address a (c\<lparr>c_value := c_value c + 1\<rparr>) (counter_heap s)\<rparr>)))"

definition prometheus_counter_add_label :: "nat option \<Rightarrow> string \<Rightarrow> string \<Rightarrow> prometheus \<Rightarrow> prometheus outcome" where
  "prometheus_counter_add_label p key val s = (case p of None \<Rightarrow> Finished s | Some a \<Rightarrow>
     bind_outcome (at_address (counter_heap s) a) (\<lambda>c.
       if length (c_labels c) \<ge> MAX_LABELS then Finished s
       else Finished (s\<lparr>counter_heap := set_address a
              (c\<lparr>c_labels := c_labels c @ [\<lparr>label_key = c_copy 128 key, label_value = c_copy 128 val\<rparr>]\<rparr>)
              (counter_heap s)\<rparr>)))"

definition prometheus_gauge_create :: "bool \<Rightarrow> string \<Rightarrow> string \<Rightarrow> prometheus \<Rightarrow> nat option \<times> prometheus" where
  "prometheus_gauge_create alloc name help s =
     (if length (gauges s) \<ge> MAX_METRICS then (None, s)
      else if \<not> alloc then (None, s)
      else (Some (length (gauge_heap s)),
            s\<lparr>gauge_heap := gauge_heap s @
                [Some \<lparr>g_name = c_copy 128 name, g_help = c_copy 256 help, g_value = 0, g_labels = []\<rparr>],
              gauges := gauges s @ [length (gauge_heap s)]\<rparr>))"

definition prometheus_gauge_set :: "nat option \<Rightarrow> int \<Rightarrow> prometheus \<Rightarrow> prometheus outcome" where
  "prometheus_gauge_set p v s = (case p of None \<Rightarrow> Finished s | Some a \<Rightarrow>
     bind_outcome (at_address (gauge_heap s) a) (\<lambda>g.
       Finished (s\<lparr>gauge_heap := set_address a (g\<lparr>g_value := of_int v\<rparr>) (gauge_heap s)\<rparr>)))"

definition prometheus_gauge_add :: "nat option \<Rightarrow> int \<Rightarrow> prometheus \<Rightarrow> prometheus outcome" where
  "prometheus_gauge_add p d s = (case p of None \<Rightarrow> Finished s | Some a \<Rightarrow>
     bind_outcome (at_address (gauge_heap s) a) (\<lambda>g.
       Finished (s\<lparr>gauge_heap := set_address a (g\<lparr>g_value := g_value g + of_int d\<rparr>) (gauge_heap s)\<rparr>)))"

definition prometheus_histogram_create :: "bool \<Rightarrow> string \<Rightarrow> string \<Rightarrow> prometheus \<Rightarrow> nat option \<times> prometheus" where
  "prometheus_histogram_create alloc name help s =
     (if length (histograms s) \<ge> MAX_METRICS then (None, s)
      else if \<not> alloc then (None, s)
      else (Some (length (histogram_heap s)),
            s\<lparr>histogram_heap := histogram_heap s @
                [Some \<lparr>h_name = c_copy 128 name, h_help = c_copy 256 help,
                       h_buckets = map (\<lambda>b. \<lparr>upper_bound = b, bucket_count = 0\<rparr>) default_buckets,
                       h_sum = 0, h_count = 0, h_labels = []\<rparr>],
              histograms := histograms s @ [length (histogram_heap s)]\<rparr>))"

text \<open>
  An observation in microseconds: the seconds are a double, rounded when the integer is converted and
  when it is divided.
\<close>

definition observe_bucket :: "u64 \<Rightarrow> histogram_bucket_t \<Rightarrow> histogram_bucket_t" where
  "observe_bucket value_us b =
     (let value_seconds = to_double (to_double (real (unat value_us)) / 1000000) in
      case upper_bound b of
        None \<Rightarrow> b\<lparr>bucket_count := bucket_count b + 1\<rparr>
      | Some u \<Rightarrow> if value_seconds \<le> u then b\<lparr>bucket_count := bucket_count b + 1\<rparr> else b)"

definition observe :: "u64 \<Rightarrow> prometheus_histogram_t \<Rightarrow> prometheus_histogram_t" where
  "observe value_us h = h
     \<lparr>h_buckets := map (observe_bucket value_us) (h_buckets h),
      h_sum := h_sum h + value_us, h_count := h_count h + 1\<rparr>"

definition prometheus_histogram_observe :: "nat option \<Rightarrow> u64 \<Rightarrow> prometheus \<Rightarrow> prometheus outcome" where
  "prometheus_histogram_observe p value_us s = (case p of None \<Rightarrow> Finished s | Some a \<Rightarrow>
     bind_outcome (at_address (histogram_heap s) a) (\<lambda>h.
       Finished (s\<lparr>histogram_heap := set_address a (observe value_us h) (histogram_heap s)\<rparr>)))"

section \<open>The text format\<close>

definition quoted :: "string \<Rightarrow> string" where
  "quoted t = [CHR 0x22] @ t @ [CHR 0x22]"

definition text_line :: "string \<Rightarrow> string" where
  "text_line t = t @ [CHR 0x0A]"

definition label_text :: "metric_label_t \<Rightarrow> string" where
  "label_text l = label_key l @ ''='' @ quoted (label_value l)"

definition metric_head :: "string \<Rightarrow> string \<Rightarrow> string \<Rightarrow> string list" where
  "metric_head name help kind = [text_line (''# HELP '' @ name @ '' '' @ help), text_line (''# TYPE '' @ name @ '' '' @ kind)]"

fun label_pieces :: "metric_label_t list \<Rightarrow> string list" where
  "label_pieces [] = []"
| "label_pieces [l] = [label_text l]"
| "label_pieces (l # ls) = label_text l # '','' # label_pieces ls"

definition sample_pieces :: "string \<Rightarrow> metric_label_t list \<Rightarrow> string \<Rightarrow> string list" where
  "sample_pieces name labels val =
     [name] @ (if labels \<noteq> [] then [''{''] @ label_pieces labels @ [''}''] else []) @ [text_line ('' '' @ val)]"

definition counter_pieces :: "prometheus_counter_t \<Rightarrow> string outcome list" where
  "counter_pieces c = map Finished
     (metric_head (c_name c) (c_help c) ''counter'' @ sample_pieces (c_name c) (c_labels c) (dec_nat (unat (c_value c))))"

definition gauge_pieces :: "prometheus_gauge_t \<Rightarrow> string outcome list" where
  "gauge_pieces g = map Finished
     (metric_head (g_name g) (g_help g) ''gauge'' @ sample_pieces (g_name g) (g_labels g) (dec_int (sint (g_value g))))"

text \<open>
  The labels of a histogram are collected in \<open>label_str\<close>, an array of 512 characters. A label that
  does not fit is left out, but the commas and the closing brace are stored without a check.
\<close>

fun label_str_loop :: "bool \<Rightarrow> metric_label_t list \<Rightarrow> string \<Rightarrow> string outcome" where
  "label_str_loop _ [] acc =
     (if length acc + 1 < 512 then Finished (acc @ ''}'') else Undefined)"
| "label_str_loop first (l # ls) acc =
     (if \<not> first \<and> length acc \<ge> 512 then Undefined
      else let acc1 = (if first then acc else acc @ '','')
           in label_str_loop False ls
                (if label_text l \<noteq> [] \<and> length (label_text l) < 512 - length acc1 then acc1 @ label_text l else acc1))"

definition label_str :: "metric_label_t list \<Rightarrow> string outcome" where
  "label_str labels = (if labels = [] then Finished [] else label_str_loop True labels ''{'')"

text \<open>\<open>%.3f\<close> of a non-negative double.\<close>

definition pad3 :: "nat \<Rightarrow> string" where
  "pad3 n = [digit_char (n div 100 mod 10), digit_char (n div 10 mod 10), digit_char (n mod 10)]"

definition fixed3 :: "real \<Rightarrow> string" where
  "fixed3 x = (let n = nat (round_even (x * 1000)) in dec_nat (n div 1000) @ ''.'' @ pad3 (n mod 1000))"

definition le_str :: "real option \<Rightarrow> string" where
  "le_str b = (case b of Some u \<Rightarrow> fixed3 u | None \<Rightarrow> ''+Inf'')"

definition bucket_line :: "string \<Rightarrow> metric_label_t list \<Rightarrow> string \<Rightarrow> histogram_bucket_t \<Rightarrow> string" where
  "bucket_line name labels ls b =
     text_line (name @ ''_bucket{le='' @ quoted (le_str (upper_bound b)) @
       (if labels \<noteq> [] then '','' @ tl ls else []) @ ''} '' @ dec_nat (unat (bucket_count b)))"

definition histogram_pieces :: "prometheus_histogram_t \<Rightarrow> string outcome list" where
  "histogram_pieces h =
     (let ls = label_str (h_labels h) in
      map Finished (metric_head (h_name h) (h_help h) ''histogram'') @
      map (\<lambda>b. bind_outcome ls (\<lambda>t. Finished (bucket_line (h_name h) (h_labels h) t b))) (h_buckets h) @
      [bind_outcome ls (\<lambda>t. Finished (text_line (h_name h @ ''_sum'' @ t @ '' '' @ dec_nat (unat (h_sum h))))),
       bind_outcome ls (\<lambda>t. Finished (text_line (h_name h @ ''_count'' @ t @ '' '' @ dec_nat (unat (h_count h)))))])"

text \<open>
  One \<open>snprintf\<close> after the other into what is left of the buffer; \<open>Finished None\<close> is the early return
  when a piece with its terminator does not fit.
\<close>

fun emit :: "nat \<Rightarrow> string outcome list \<Rightarrow> string \<Rightarrow> string option outcome" where
  "emit cap [] acc = Finished (Some acc)"
| "emit cap (Undefined # ps) acc = Undefined"
| "emit cap (Finished p # ps) acc =
     (if length p \<ge> cap - length acc then Finished None else emit cap ps (acc @ p))"

fun export_loop :: "nat \<Rightarrow> ('a \<Rightarrow> string outcome list) \<Rightarrow> 'a option list \<Rightarrow> nat list \<Rightarrow> string \<Rightarrow> string option outcome" where
  "export_loop cap f h [] acc = Finished (Some acc)"
| "export_loop cap f h (a # as) acc =
     bind_outcome (at_address h a) (\<lambda>x. bind_outcome (emit cap (f x) acc) (\<lambda>r.
       case r of None \<Rightarrow> Finished None | Some acc1 \<Rightarrow> export_loop cap f h as acc1))"

text \<open>
  The return value and, when it is not \<open>-1\<close>, the text in the buffer. \<open>buf\<close> says whether the buffer
  pointer is not null.
\<close>

definition prometheus_export_text :: "bool \<Rightarrow> nat \<Rightarrow> prometheus \<Rightarrow> (int \<times> string option) outcome" where
  "prometheus_export_text buf cap s =
     (if \<not> buf \<or> cap = 0 then Finished (- 1, None)
      else bind_outcome (export_loop cap counter_pieces (counter_heap s) (counters s) []) (\<lambda>r1.
        case r1 of None \<Rightarrow> Finished (- 1, None) | Some t1 \<Rightarrow>
        bind_outcome (export_loop cap gauge_pieces (gauge_heap s) (gauges s) t1) (\<lambda>r2.
        case r2 of None \<Rightarrow> Finished (- 1, None) | Some t2 \<Rightarrow>
        bind_outcome (export_loop cap histogram_pieces (histogram_heap s) (histograms s) t2) (\<lambda>r3.
        case r3 of None \<Rightarrow> Finished (- 1, None) | Some t3 \<Rightarrow>
        Finished (int32 (int (length t3)), Some t3)))))"

section \<open>Well-formed states\<close>

text \<open>The strings fit their arrays, and only counters have labels.\<close>

definition counter_wf :: "prometheus_counter_t \<Rightarrow> bool" where
  "counter_wf c = (length (c_name c) \<le> 127 \<and> length (c_help c) \<le> 255 \<and> length (c_labels c) \<le> MAX_LABELS \<and>
     (\<forall>l\<in>set (c_labels c). length (label_key l) \<le> 127 \<and> length (label_value l) \<le> 127))"

definition gauge_wf :: "prometheus_gauge_t \<Rightarrow> bool" where
  "gauge_wf g = (length (g_name g) \<le> 127 \<and> length (g_help g) \<le> 255 \<and> g_labels g = [])"

definition histogram_wf :: "prometheus_histogram_t \<Rightarrow> bool" where
  "histogram_wf h = (length (h_name h) \<le> 127 \<and> length (h_help h) \<le> 255 \<and> h_labels h = [] \<and>
     map upper_bound (h_buckets h) = default_buckets)"

definition heap_ok :: "('a \<Rightarrow> bool) \<Rightarrow> 'a option list \<Rightarrow> nat list \<Rightarrow> bool" where
  "heap_ok P h as = (length as \<le> MAX_METRICS \<and> (\<forall>a\<in>set as. \<exists>x. at_address h a = Finished x) \<and>
     (\<forall>x. Some x \<in> set h \<longrightarrow> P x))"

definition prometheus_wf :: "prometheus \<Rightarrow> bool" where
  "prometheus_wf s = (heap_ok counter_wf (counter_heap s) (counters s) \<and>
     heap_ok gauge_wf (gauge_heap s) (gauges s) \<and> heap_ok histogram_wf (histogram_heap s) (histograms s))"

text \<open>Every call of the interface, with any arguments.\<close>

datatype prom_call =
    Call_init
  | Call_cleanup
  | Call_counter_create bool string string
  | Call_counter_inc "nat option"
  | Call_counter_add_label "nat option" string string
  | Call_gauge_create bool string string
  | Call_gauge_set "nat option" int
  | Call_gauge_add "nat option" int
  | Call_histogram_create bool string string
  | Call_histogram_observe "nat option" u64

fun prom_apply :: "prom_call \<Rightarrow> prometheus \<Rightarrow> prometheus outcome" where
  "prom_apply Call_init s = Finished (snd (prometheus_init s))"
| "prom_apply Call_cleanup s = Finished (prometheus_cleanup s)"
| "prom_apply (Call_counter_create al n t) s = Finished (snd (prometheus_counter_create al n t s))"
| "prom_apply (Call_counter_inc p) s = prometheus_counter_inc p s"
| "prom_apply (Call_counter_add_label p k v) s = prometheus_counter_add_label p k v s"
| "prom_apply (Call_gauge_create al n t) s = Finished (snd (prometheus_gauge_create al n t s))"
| "prom_apply (Call_gauge_set p v) s = prometheus_gauge_set p v s"
| "prom_apply (Call_gauge_add p v) s = prometheus_gauge_add p v s"
| "prom_apply (Call_histogram_create al n t) s = Finished (snd (prometheus_histogram_create al n t s))"
| "prom_apply (Call_histogram_observe p v) s = prometheus_histogram_observe p v s"

definition prom_static :: prometheus where
  "prom_static = \<lparr>counter_heap = [], gauge_heap = [], histogram_heap = [], counters = [], gauges = [], histograms = []\<rparr>"

inductive prom_reachable :: "prometheus \<Rightarrow> bool" where
  prom_start: "prom_reachable prom_static"
| prom_step: "prom_reachable s \<Longrightarrow> prom_apply c s = Finished s' \<Longrightarrow> prom_reachable s'"

text \<open>The complete text of a state without dangling registrations.\<close>

definition pieces_text :: "string outcome list \<Rightarrow> string" where
  "pieces_text ps = concat (map (\<lambda>p. case p of Finished t \<Rightarrow> t | Undefined \<Rightarrow> []) ps)"

definition object_text :: "('a \<Rightarrow> string outcome list) \<Rightarrow> 'a option list \<Rightarrow> nat \<Rightarrow> string" where
  "object_text f h a = (case at_address h a of Finished x \<Rightarrow> pieces_text (f x) | Undefined \<Rightarrow> [])"

definition metrics_text :: "prometheus \<Rightarrow> string" where
  "metrics_text s =
     concat (map (object_text counter_pieces (counter_heap s)) (counters s)) @
     concat (map (object_text gauge_pieces (gauge_heap s)) (gauges s)) @
     concat (map (object_text histogram_pieces (histogram_heap s)) (histograms s))"

fun observe_all :: "nat option \<Rightarrow> u64 list \<Rightarrow> prometheus \<Rightarrow> prometheus outcome" where
  "observe_all p [] s = Finished s"
| "observe_all p (v # vs) s = bind_outcome (prometheus_histogram_observe p v s) (observe_all p vs)"

text \<open>The default bounds in microseconds.\<close>

definition bounds_us :: "nat list" where
  "bounds_us = [1000, 5000, 10000, 50000, 100000, 500000, 1000000, 5000000, 10000000]"

section \<open>The heaps\<close>

lemma at_address_Finished: "at_address h a = Finished x \<longleftrightarrow> a < length h \<and> h ! a = Some x"
  by (auto simp: at_address_def split: option.splits)

lemma at_address_new [simp]: "at_address (h @ [Some x]) (length h) = Finished x"
  by (simp add: at_address_def)

lemma at_address_append: "a < length h \<Longrightarrow> at_address (h @ k) a = at_address h a"
  by (simp add: at_address_def nth_append)

lemma at_address_set [simp]:
  "at_address (set_address a x h) b = (if a = b \<and> a < length h then Finished x else at_address h b)"
  by (simp add: at_address_def set_address_def nth_list_update)

lemma length_set_address [simp]: "length (set_address a x h) = length h"
  by (simp add: set_address_def)

lemma heap_ok_new: "heap_ok P h as \<Longrightarrow> length as < MAX_METRICS \<Longrightarrow> P x \<Longrightarrow> heap_ok P (h @ [Some x]) (as @ [length h])"
  by (auto simp: heap_ok_def at_address_Finished nth_append)

lemma heap_ok_set:
  assumes "heap_ok P h as" "at_address h a = Finished x" "P x \<Longrightarrow> P y"
  shows "heap_ok P (set_address a y h) as"
proof -
  have "P x" using assms(1,2) unfolding heap_ok_def at_address_Finished by (metis nth_mem)
  moreover have "\<exists>z. at_address (set_address a y h) b = Finished z" if "b \<in> set as" for b
    using that assms(1) by (auto simp: heap_ok_def)
  ultimately show ?thesis using assms(1,3) set_update_subset_insert [of h a "Some y"]
    unfolding heap_ok_def set_address_def by blast
qed

lemma heap_ok_none: "heap_ok P h as \<Longrightarrow> heap_ok P h []"
  by (simp add: heap_ok_def)

lemma free_addresses_set: "Some x \<in> set (free_addresses as h) \<Longrightarrow> Some x \<in> set h"
proof (induction as arbitrary: h)
  case (Cons a as)
  from Cons.prems have "Some x \<in> set (free_addresses as (h[a := None]))" by (simp add: free_addresses_def)
  then have "Some x \<in> set (h[a := None])" by (rule Cons.IH)
  then show ?case using set_update_subset_insert [of h a None] by auto
qed (simp add: free_addresses_def)

lemma heap_ok_free: "heap_ok P h as \<Longrightarrow> heap_ok P (free_addresses bs h) []"
  by (auto simp: heap_ok_def dest: free_addresses_set)

section \<open>Preservation\<close>

lemma upper_bound_observe [simp]: "upper_bound (observe_bucket v b) = upper_bound b"
  by (simp add: observe_bucket_def Let_def split: option.splits)

lemma counter_wf_value [simp]: "counter_wf (c\<lparr>c_value := v\<rparr>) = counter_wf c"
  by (simp add: counter_wf_def)

lemma gauge_wf_value [simp]: "gauge_wf (g\<lparr>g_value := v\<rparr>) = gauge_wf g"
  by (simp add: gauge_wf_def)

lemma histogram_wf_observe [simp]: "histogram_wf (observe v h) = histogram_wf h"
  by (simp add: histogram_wf_def observe_def comp_def)

lemma counter_wf_label:
  "counter_wf c \<Longrightarrow> length (c_labels c) < MAX_LABELS \<Longrightarrow>
     counter_wf (c\<lparr>c_labels := c_labels c @ [\<lparr>label_key = c_copy 128 k, label_value = c_copy 128 v\<rparr>]\<rparr>)"
  by (auto simp: counter_wf_def)

lemma heap_ok_counter_value:
  "heap_ok counter_wf h as \<Longrightarrow> at_address h a = Finished c \<Longrightarrow> heap_ok counter_wf (set_address a (c\<lparr>c_value := v\<rparr>) h) as"
  by (erule (1) heap_ok_set) simp

lemma heap_ok_counter_label:
  "heap_ok counter_wf h as \<Longrightarrow> at_address h a = Finished c \<Longrightarrow> \<not> MAX_LABELS \<le> length (c_labels c) \<Longrightarrow>
     heap_ok counter_wf (set_address a
       (c\<lparr>c_labels := c_labels c @ [\<lparr>label_key = c_copy 128 k, label_value = c_copy 128 v\<rparr>]\<rparr>) h) as"
  by (erule (1) heap_ok_set) (simp add: counter_wf_label)

lemma heap_ok_gauge_value:
  "heap_ok gauge_wf h as \<Longrightarrow> at_address h a = Finished g \<Longrightarrow> heap_ok gauge_wf (set_address a (g\<lparr>g_value := v\<rparr>) h) as"
  by (erule (1) heap_ok_set) simp

lemma heap_ok_observe:
  "heap_ok histogram_wf h as \<Longrightarrow> at_address h a = Finished x \<Longrightarrow> heap_ok histogram_wf (set_address a (observe v x) h) as"
  by (erule (1) heap_ok_set) simp

lemma prometheus_wf_apply:
  assumes "prometheus_wf s" "prom_apply c s = Finished s'"
  shows "prometheus_wf s'"
proof -
  note wf = assms(1) [unfolded prometheus_wf_def]
  note ok = heap_ok_none heap_ok_free heap_ok_new heap_ok_counter_value heap_ok_counter_label heap_ok_gauge_value heap_ok_observe
  note splits = option.splits if_splits
  show ?thesis
  proof (cases c)
    case Call_counter_create
    then show ?thesis using assms wf
      by (auto simp: prometheus_counter_create_def prometheus_wf_def counter_wf_def intro!: ok split: splits)
  next
    case Call_counter_inc
    then show ?thesis using assms(2) wf
      by (auto simp: prometheus_counter_inc_def prometheus_wf_def bind_Finished intro: ok split: splits)
  next
    case Call_counter_add_label
    then show ?thesis using assms(2) wf
      by (auto simp: prometheus_counter_add_label_def prometheus_wf_def bind_Finished intro: ok split: splits)
  next
    case Call_gauge_create
    then show ?thesis using assms wf
      by (auto simp: prometheus_gauge_create_def prometheus_wf_def gauge_wf_def intro!: ok split: splits)
  next
    case Call_gauge_set
    then show ?thesis using assms(2) wf
      by (auto simp: prometheus_gauge_set_def prometheus_wf_def bind_Finished intro: ok split: splits)
  next
    case Call_gauge_add
    then show ?thesis using assms(2) wf
      by (auto simp: prometheus_gauge_add_def prometheus_wf_def bind_Finished intro: ok split: splits)
  next
    case Call_histogram_create
    then show ?thesis using assms wf
      by (auto simp: prometheus_histogram_create_def prometheus_wf_def histogram_wf_def comp_def intro!: ok split: splits)
  next
    case Call_histogram_observe
    then show ?thesis using assms(2) wf
      by (auto simp: prometheus_histogram_observe_def prometheus_wf_def bind_Finished intro: ok split: splits)
  qed (use assms(2) wf in \<open>auto simp: prometheus_init_def prometheus_cleanup_def prometheus_wf_def intro: ok\<close>)
qed

lemma prometheus_wf_static: "prometheus_wf prom_static"
  by (simp add: prometheus_wf_def prom_static_def heap_ok_def)

lemma prometheus_wf_reachable: "prom_reachable s \<Longrightarrow> prometheus_wf s"
  by (induction rule: prom_reachable.induct) (auto intro: prometheus_wf_static prometheus_wf_apply)

section \<open>The exported text\<close>

lemma emit_all:
  assumes "length acc < cap" "\<forall>p\<in>set ps. p \<noteq> Undefined"
  shows "emit cap ps acc = Finished (if length acc + length (pieces_text ps) < cap then Some (acc @ pieces_text ps) else None)"
  using assms
proof (induction ps arbitrary: acc)
  case (Cons p ps)
  then obtain t where t: "p = Finished t" by (cases p) auto
  show ?case
  proof (cases "length t \<ge> cap - length acc")
    case False
    then have "length (acc @ t) < cap" by simp
    from Cons.IH [OF this] Cons.prems(2) show ?thesis using False by (simp add: t pieces_text_def ac_simps)
  qed (use Cons.prems in \<open>simp add: t pieces_text_def\<close>)
qed (simp add: pieces_text_def)

lemma export_loop_all:
  assumes "length acc < cap" "\<forall>a\<in>set as. \<exists>x. at_address h a = Finished x \<and> Undefined \<notin> set (f x)"
  shows "export_loop cap f h as acc =
     Finished (if length acc + length (concat (map (object_text f h) as)) < cap
               then Some (acc @ concat (map (object_text f h) as)) else None)"
  using assms
proof (induction as arbitrary: acc)
  case (Cons a as)
  then obtain x where x: "at_address h a = Finished x" "Undefined \<notin> set (f x)" by auto
  have e: "emit cap (f x) acc = Finished (if length acc + length (pieces_text (f x)) < cap then Some (acc @ pieces_text (f x)) else None)"
    using emit_all [OF Cons.prems(1)] x(2) by metis
  show ?case
  proof (cases "length acc + length (pieces_text (f x)) < cap")
    case True
    then have "length (acc @ pieces_text (f x)) < cap" by simp
    from Cons.IH [OF this] Cons.prems(2) show ?thesis using True by (simp add: x e object_text_def ac_simps)
  qed (simp add: x e object_text_def)
qed simp

lemma counter_pieces_defined: "Undefined \<notin> set (counter_pieces c)"
  by (auto simp: counter_pieces_def)

lemma gauge_pieces_defined: "Undefined \<notin> set (gauge_pieces g)"
  by (auto simp: gauge_pieces_def)

lemma histogram_pieces_defined: "histogram_wf h \<Longrightarrow> Undefined \<notin> set (histogram_pieces h)"
  by (auto simp: histogram_pieces_def histogram_wf_def label_str_def Let_def)

lemma heap_ok_all: "heap_ok P h as \<Longrightarrow> \<forall>a\<in>set as. \<exists>x. at_address h a = Finished x \<and> P x"
  unfolding heap_ok_def at_address_Finished by (metis nth_mem)

lemma export_text_wf:
  assumes "prometheus_wf s" "0 < cap"
  shows "prometheus_export_text True cap s = Finished
     (if length (metrics_text s) < cap then (int32 (int (length (metrics_text s))), Some (metrics_text s)) else (- 1, None))"
proof -
  note wf = assms(1) [unfolded prometheus_wf_def]
  let ?c = "concat (map (object_text counter_pieces (counter_heap s)) (counters s))"
  let ?g = "concat (map (object_text gauge_pieces (gauge_heap s)) (gauges s))"
  have c: "export_loop cap counter_pieces (counter_heap s) (counters s) [] =
      Finished (if length ?c < cap then Some ?c else None)"
    using export_loop_all [of "[]" cap "counters s" "counter_heap s" counter_pieces] assms(2) heap_ok_all wf
      counter_pieces_defined by (metis append_Nil length_0_conv plus_nat.add_0)
  have g: "export_loop cap gauge_pieces (gauge_heap s) (gauges s) t =
      Finished (if length t + length ?g < cap then Some (t @ ?g) else None)" if "length t < cap" for t
    using export_loop_all [OF that] heap_ok_all wf gauge_pieces_defined by metis
  have h: "export_loop cap histogram_pieces (histogram_heap s) (histograms s) t =
      Finished (if length t + length (concat (map (object_text histogram_pieces (histogram_heap s)) (histograms s))) < cap
        then Some (t @ concat (map (object_text histogram_pieces (histogram_heap s)) (histograms s))) else None)"
    if "length t < cap" for t
    using export_loop_all [OF that] heap_ok_all wf histogram_pieces_defined by metis
  show ?thesis
    using assms(2) by (simp add: prometheus_export_text_def metrics_text_def c g h)
qed

section \<open>Histograms\<close>

lemma default_buckets_us: "default_buckets = map (\<lambda>b. Some (to_double (real b / 1000000))) bounds_us @ [None]"
  by (simp add: default_buckets_def bounds_us_def)

lemma observe_bucket_us:
  assumes "b \<in> set bounds_us" "upper_bound k = Some (to_double (real b / 1000000))"
  shows "bucket_count (observe_bucket v k) = bucket_count k + (if unat v \<le> b then 1 else 0)"
proof -
  have "0 < b" "b \<le> 10000000" using assms(1) by (auto simp: bounds_us_def)
  from seconds_le_iff [OF this, of "unat v"] show ?thesis
    using assms(2) by (simp add: observe_bucket_def Let_def)
qed

lemma observe_bucket_inf: "upper_bound k = None \<Longrightarrow> bucket_count (observe_bucket v k) = bucket_count k + 1"
  by (simp add: observe_bucket_def)

text \<open>The counts of a histogram as a function of the observations.\<close>

definition counts_of :: "u64 list \<Rightarrow> u64 list" where
  "counts_of vs = map (\<lambda>b. of_nat (length (filter (\<lambda>v. unat v \<le> b) vs))) bounds_us @ [of_nat (length vs)]"

lemma observe_buckets:
  assumes "map upper_bound ks = map (\<lambda>b. Some (to_double (real b / 1000000))) bs @ [None]" "set bs \<subseteq> set bounds_us"
    "map bucket_count ks = map (\<lambda>b. of_nat (length (filter (\<lambda>v. unat v \<le> b) vs))) bs @ [of_nat (length vs)]"
  shows "map bucket_count (map (observe_bucket v) ks) =
     map (\<lambda>b. of_nat (length (filter (\<lambda>v. unat v \<le> b) (vs @ [v])))) bs @ [of_nat (length (vs @ [v]))]"
  using assms
proof (induction bs arbitrary: ks)
  case Nil
  then obtain k where "ks = [k]" "upper_bound k = None" "bucket_count k = of_nat (length vs)" by auto
  then show ?case by (simp add: observe_bucket_inf)
next
  case (Cons b bs)
  then obtain k kt where ks: "ks = k # kt" by auto
  with Cons.prems(2,3) Cons.IH [of kt] Cons.prems(1) show ?case
    using observe_bucket_us [of b k v] by simp
qed

lemma observe_counts:
  assumes "histogram_wf h" "map bucket_count (h_buckets h) = counts_of vs"
  shows "map bucket_count (h_buckets (observe v h)) = counts_of (vs @ [v])"
  using observe_buckets [of "h_buckets h" bounds_us vs v] assms
  by (simp add: histogram_wf_def default_buckets_us counts_of_def observe_def)

lemma observe_totals [simp]: "h_count (observe v h) = h_count h + 1" "h_sum (observe v h) = h_sum h + v"
  by (simp_all add: observe_def)

lemma observe_all_counts:
  assumes "at_address (histogram_heap s) a = Finished h" "histogram_wf h"
    "map bucket_count (h_buckets h) = counts_of us" "h_count h = of_nat (length us)" "h_sum h = sum_list us"
  shows "\<exists>s' h'. observe_all (Some a) vs s = Finished s' \<and> at_address (histogram_heap s') a = Finished h' \<and>
     map bucket_count (h_buckets h') = counts_of (us @ vs) \<and> h_count h' = of_nat (length (us @ vs)) \<and>
     h_sum h' = sum_list (us @ vs)"
  using assms
proof (induction vs arbitrary: us h s)
  case (Cons v vs)
  let ?s = "s\<lparr>histogram_heap := set_address a (observe v h) (histogram_heap s)\<rparr>"
  have "a < length (histogram_heap s)" using Cons.prems(1) by (simp add: at_address_Finished)
  then have "\<exists>s' h'. observe_all (Some a) vs ?s = Finished s' \<and> at_address (histogram_heap s') a = Finished h' \<and>
     map bucket_count (h_buckets h') = counts_of ((us @ [v]) @ vs) \<and> h_count h' = of_nat (length ((us @ [v]) @ vs)) \<and>
     h_sum h' = sum_list ((us @ [v]) @ vs)"
    using Cons.prems observe_counts by (intro Cons.IH [of _ "observe v h"]) simp_all
  then show ?case using Cons.prems(1) by (simp add: prometheus_histogram_observe_def)
qed auto

section \<open>Properties\<close>

text \<open>
  C31. Whatever sequence of calls a program makes, with whatever arguments, as long as no call goes
  through a dangling pointer, the metrics stay well-formed: every registered metric is live, no array
  holds more than 100, the names, helps and labels fit their arrays with their terminators, a counter
  has at most 8 labels, and every histogram has the ten default bounds.
\<close>

theorem metrics_wf: "prom_reachable s \<Longrightarrow> prometheus_wf s"
  by (rule prometheus_wf_reachable)

theorem metrics_wf_witness:
  "prometheus_wf (snd (prometheus_counter_create True ''a'' ''b'' prom_static))"
  by (rule metrics_wf, rule prom_step [OF prom_start, of "Call_counter_create True ''a'' ''b''"]) simp

text \<open>
  C32. The export is all or nothing. In every state a program can reach, with a buffer of any size up
  to 2 GB, the export accesses no freed object and writes past no array; it returns the length of the
  complete text of all registered metrics with the text in the buffer when the text and its terminator
  fit, and -1 otherwise.
\<close>

theorem metrics_export_exact:
  assumes "prom_reachable s" "0 < cap" "cap \<le> 2 ^ 31"
  shows "prometheus_export_text True cap s = Finished
     (if length (metrics_text s) < cap then (int (length (metrics_text s)), Some (metrics_text s)) else (- 1, None))"
  using export_text_wf [OF prometheus_wf_reachable [OF assms(1)] assms(2)] assms(3) by simp

theorem metrics_export_exact_witness:
  "prometheus_export_text True 43 (snd (prometheus_counter_create True ''a'' ''b'' prom_static)) =
     Finished (32, Some (text_line ''# HELP a b'' @ text_line ''# TYPE a counter'' @ text_line ''a 0''))"
proof -
  let ?s = "snd (prometheus_counter_create True ''a'' ''b'' prom_static)"
  have r: "prom_reachable ?s"
    by (rule prom_step [OF prom_start, of "Call_counter_create True ''a'' ''b''"]) simp
  have t: "metrics_text ?s = text_line ''# HELP a b'' @ text_line ''# TYPE a counter'' @ text_line ''a 0''"
    by (simp add: prometheus_counter_create_def prom_static_def MAX_METRICS_def metrics_text_def object_text_def
        at_address_def counter_pieces_def pieces_text_def metric_head_def sample_pieces_def c_copy_def text_line_def dec_nat.simps)
  show ?thesis
    using metrics_export_exact [OF r, of 43] unfolding t by (simp add: text_line_def)
qed

text \<open>
  C33. A histogram counts exactly. After any observations, in microseconds, the count of the bucket with
  a finite bound is the number of observations that are at most the bound, the count of the last bucket
  and the total count are the number of observations, and the sum is the sum of the observations, all
  modulo \<open>2\<^sup>6\<^sup>4\<close>. The comparison in seconds, in doubles, decides as the one in whole microseconds.
\<close>

theorem histogram_counts_exact:
  assumes "prometheus_histogram_create alloc name help s = (Some a, s0)"
  shows "\<exists>s1 h. observe_all (Some a) vs s0 = Finished s1 \<and> at_address (histogram_heap s1) a = Finished h \<and>
     map bucket_count (h_buckets h) =
       map (\<lambda>b. of_nat (length (filter (\<lambda>v. unat v \<le> b) vs)))
         [1000, 5000, 10000, 50000, 100000, 500000, 1000000, 5000000, 10000000] @ [of_nat (length vs)] \<and>
     h_count h = of_nat (length vs) \<and> h_sum h = sum_list vs"
proof -
  obtain h where h: "at_address (histogram_heap s0) a = Finished h" "histogram_wf h"
    "map bucket_count (h_buckets h) = counts_of []" "h_count h = 0" "h_sum h = 0"
    using assms by (auto simp: prometheus_histogram_create_def histogram_wf_def comp_def counts_of_def
        default_buckets_def bounds_us_def split: if_splits)
  from observe_all_counts [OF h(1-3), of vs] h(4,5) show ?thesis
    by (simp add: counts_of_def bounds_us_def)
qed

theorem histogram_counts_exact_witness:
  "\<exists>s1 h. observe_all (Some 0) [1000, 1001, 20000000] (snd (prometheus_histogram_create True ''d'' ''t'' prom_static)) = Finished s1 \<and>
     at_address (histogram_heap s1) 0 = Finished h \<and>
     map bucket_count (h_buckets h) = [1, 2, 2, 2, 2, 2, 2, 2, 2, 3] \<and> h_count h = 3 \<and> h_sum h = 20002001"
  using histogram_counts_exact [of True "''d''" "''t''" prom_static 0
      "snd (prometheus_histogram_create True ''d'' ''t'' prom_static)" "[1000, 1001, 20000000]"]
  by (simp add: prometheus_histogram_create_def prom_static_def MAX_METRICS_def)

text \<open>
  The labels of a histogram bucket would be followed by two closing braces: the label text already ends
  in one and the format adds another. The interface has no call that adds a label to a histogram.
\<close>

lemma bucket_labels_two_braces:
  "label_str [\<lparr>label_key = ''k'', label_value = ''v''\<rparr>] = Finished ls \<Longrightarrow>
     bucket_line ''n'' [\<lparr>label_key = ''k'', label_value = ''v''\<rparr>] ls \<lparr>upper_bound = None, bucket_count = 0\<rparr> =
       text_line (''n_bucket{le='' @ quoted ''+Inf'' @ '',k='' @ quoted ''v'' @ ''}} 0'')"
  by (auto simp: label_str_def label_text_def bucket_line_def le_str_def quoted_def text_line_def dec_nat.simps Let_def)

end
