(* ===== verification/Metrics_Registry.thy ===== *)
theory Metrics_Registry
  imports Metrics
begin

text \<open>
  The metrics the gateway registers (\<open>metrics/metrics_registry.c\<close>) and the handler of
  \<open>GET /metrics\<close> (\<open>handlers/metrics_handler.c\<close>). The global pointers are functions from the names of
  the metrics; the initialisation runs through the list of creations in the order of the code and
  returns at the first that fails. \<open>alloc k\<close> is the outcome of the \<open>k\<close>-th allocation.
\<close>

datatype counter_name =
    http_requests_total | http_requests_by_status
  | rate_limit_hits_total | rate_limit_allowed_total
  | idempotency_hits_total | idempotency_misses_total
  | nats_messages_sent_total | nats_messages_received_total | nats_publish_failures_total
  | json_parse_success_total | json_parse_failure_total
  | abuse_events_total | abuse_empty_payload_total | abuse_targeted_tenant_total
  | abuse_rate_limit_evasion_total | abuse_heavy_payload_total | abuse_multi_tenant_flood_total

datatype gauge_name = nats_connection_status | abuse_blocked_tenants

datatype histogram_name = http_request_duration_seconds | json_parse_duration_seconds

record metrics =
  prom :: prometheus
  metric_counter :: "counter_name \<Rightarrow> nat option"
  metric_gauge :: "gauge_name \<Rightarrow> nat option"
  metric_histogram :: "histogram_name \<Rightarrow> nat option"

text \<open>The state a program starts in: null pointers and no metric.\<close>

definition metrics_static :: metrics where
  "metrics_static =
     \<lparr>prom = \<lparr>counter_heap = [], gauge_heap = [], histogram_heap = [], counters = [], gauges = [], histograms = []\<rparr>,
      metric_counter = \<lambda>_. None, metric_gauge = \<lambda>_. None, metric_histogram = \<lambda>_. None\<rparr>"

datatype creation =
    New_counter counter_name string string
  | New_gauge gauge_name string string
  | New_histogram histogram_name string string

fun create :: "bool \<Rightarrow> creation \<Rightarrow> metrics \<Rightarrow> bool \<times> metrics" where
  "create alloc (New_counter n name help) m =
     (let (p, s) = prometheus_counter_create alloc name help (prom m) in
      (p \<noteq> None, m\<lparr>prom := s, metric_counter := (metric_counter m)(n := p)\<rparr>))"
| "create alloc (New_gauge n name help) m =
     (let (p, s) = prometheus_gauge_create alloc name help (prom m) in
      (p \<noteq> None, m\<lparr>prom := s, metric_gauge := (metric_gauge m)(n := p)\<rparr>))"
| "create alloc (New_histogram n name help) m =
     (let (p, s) = prometheus_histogram_create alloc name help (prom m) in
      (p \<noteq> None, m\<lparr>prom := s, metric_histogram := (metric_histogram m)(n := p)\<rparr>))"

fun create_all :: "(nat \<Rightarrow> bool) \<Rightarrow> nat \<Rightarrow> creation list \<Rightarrow> metrics \<Rightarrow> bool \<times> metrics" where
  "create_all alloc k [] m = (True, m)"
| "create_all alloc k (c # cs) m =
     (let (ok, m1) = create (alloc k) c m in if ok then create_all alloc (Suc k) cs m1 else (False, m1))"

definition creations_before_gauge :: "creation list" where
  "creations_before_gauge =
    [New_counter http_requests_total ''gateway_http_requests_total'' ''Total number of HTTP requests processed'',
     New_histogram http_request_duration_seconds ''gateway_http_request_duration_seconds'' ''HTTP request duration in seconds'',
     New_counter http_requests_by_status ''gateway_http_requests_by_status'' ''Total number of HTTP requests by status code'',
     New_counter rate_limit_hits_total ''gateway_rate_limit_hits_total'' ''Total number of rate limit hits'',
     New_counter rate_limit_allowed_total ''gateway_rate_limit_allowed_total'' ''Total number of requests allowed by rate limiter'',
     New_counter idempotency_hits_total ''gateway_idempotency_hits_total'' ''Total number of idempotency cache hits'',
     New_counter idempotency_misses_total ''gateway_idempotency_misses_total'' ''Total number of idempotency cache misses'',
     New_counter nats_messages_sent_total ''gateway_nats_messages_sent_total'' ''Total number of NATS messages sent'',
     New_counter nats_messages_received_total ''gateway_nats_messages_received_total'' ''Total number of NATS messages received'',
     New_counter nats_publish_failures_total ''gateway_nats_publish_failures_total'' ''Total number of NATS publish failures'',
     New_gauge nats_connection_status ''gateway_nats_connection_status'' ''NATS connection status (1=connected, 0=disconnected)'']"

definition creations_after_gauge :: "creation list" where
  "creations_after_gauge =
    [New_counter json_parse_success_total ''gateway_json_parse_success_total'' ''Total number of successful JSON parse operations'',
     New_counter json_parse_failure_total ''gateway_json_parse_failure_total'' ''Total number of failed JSON parse operations'',
     New_histogram json_parse_duration_seconds ''gateway_json_parse_duration_seconds'' ''JSON parse operation duration in seconds'',
     New_counter abuse_events_total ''gateway_abuse_events_total'' ''Total number of abuse events detected (legacy)'',
     New_counter abuse_empty_payload_total ''gateway_abuse_empty_payload_total'' ''Total number of empty payload abuse events detected'',
     New_counter abuse_targeted_tenant_total ''gateway_abuse_targeted_tenant_total'' ''Total number of targeted tenant abuse events detected'',
     New_counter abuse_rate_limit_evasion_total ''gateway_abuse_rate_limit_evasion_total'' ''Total number of rate limit evasion abuse events detected'',
     New_counter abuse_heavy_payload_total ''gateway_abuse_heavy_payload_total'' ''Total number of heavy payload abuse events detected'',
     New_counter abuse_multi_tenant_flood_total ''gateway_abuse_multi_tenant_flood_total'' ''Total number of multi-tenant flood abuse events detected'',
     New_gauge abuse_blocked_tenants ''gateway_abuse_blocked_tenants'' ''Number of currently blocked tenants'']"

definition on_prom :: "(prometheus \<Rightarrow> prometheus outcome) \<Rightarrow> metrics \<Rightarrow> metrics outcome" where
  "on_prom f m = bind_outcome (f (prom m)) (\<lambda>s. Finished (m\<lparr>prom := s\<rparr>))"

definition metrics_registry_init :: "(nat \<Rightarrow> bool) \<Rightarrow> metrics \<Rightarrow> (int \<times> metrics) outcome" where
  "metrics_registry_init alloc m =
     (let (rc, s) = prometheus_init (prom m) in
      if rc \<noteq> 0 then Finished (- 1, m\<lparr>prom := s\<rparr>)
      else let (ok, m1) = create_all alloc 0 creations_before_gauge (m\<lparr>prom := s\<rparr>) in
      if \<not> ok then Finished (- 1, m1)
      else bind_outcome (on_prom (prometheus_gauge_set (metric_gauge m1 nats_connection_status) 0) m1) (\<lambda>m2.
        let (ok, m3) = create_all alloc (length creations_before_gauge) creations_after_gauge m2 in
        Finished (if ok then 0 else - 1, m3)))"

definition metrics_registry_cleanup :: "metrics \<Rightarrow> metrics" where
  "metrics_registry_cleanup m = m\<lparr>prom := prometheus_cleanup (prom m)\<rparr>"

definition count :: "counter_name \<Rightarrow> metrics \<Rightarrow> metrics outcome" where
  "count n m = on_prom (prometheus_counter_inc (metric_counter m n)) m"

definition metrics_record_http_request :: "string option \<Rightarrow> string option \<Rightarrow> int \<Rightarrow> u64 \<Rightarrow> metrics \<Rightarrow> metrics outcome" where
  "metrics_record_http_request meth path status duration_us m =
     (if meth = None \<or> path = None then Finished m
      else bind_outcome (count http_requests_total m) (\<lambda>m1.
        bind_outcome (on_prom (prometheus_histogram_observe (metric_histogram m1 http_request_duration_seconds) duration_us) m1)
          (count http_requests_by_status)))"

definition metrics_record_rate_limit_hit :: "metrics \<Rightarrow> metrics outcome" where
  "metrics_record_rate_limit_hit = count rate_limit_hits_total"

definition metrics_record_rate_limit_allowed :: "metrics \<Rightarrow> metrics outcome" where
  "metrics_record_rate_limit_allowed = count rate_limit_allowed_total"

definition metrics_record_idempotency_hit :: "metrics \<Rightarrow> metrics outcome" where
  "metrics_record_idempotency_hit = count idempotency_hits_total"

definition metrics_record_idempotency_miss :: "metrics \<Rightarrow> metrics outcome" where
  "metrics_record_idempotency_miss = count idempotency_misses_total"

definition metrics_record_nats_sent :: "metrics \<Rightarrow> metrics outcome" where
  "metrics_record_nats_sent = count nats_messages_sent_total"

definition metrics_record_nats_received :: "metrics \<Rightarrow> metrics outcome" where
  "metrics_record_nats_received = count nats_messages_received_total"

definition metrics_record_nats_publish_failure :: "metrics \<Rightarrow> metrics outcome" where
  "metrics_record_nats_publish_failure = count nats_publish_failures_total"

definition metrics_update_nats_connection_status :: "int \<Rightarrow> metrics \<Rightarrow> metrics outcome" where
  "metrics_update_nats_connection_status conn m =
     on_prom (prometheus_gauge_set (metric_gauge m nats_connection_status) (if conn \<noteq> 0 then 1 else 0)) m"

definition metrics_record_json_parse_success :: "u64 \<Rightarrow> metrics \<Rightarrow> metrics outcome" where
  "metrics_record_json_parse_success duration_us m =
     bind_outcome (count json_parse_success_total m) (\<lambda>m1.
       on_prom (prometheus_histogram_observe (metric_histogram m1 json_parse_duration_seconds) duration_us) m1)"

definition metrics_record_json_parse_failure :: "metrics \<Rightarrow> metrics outcome" where
  "metrics_record_json_parse_failure = count json_parse_failure_total"

text \<open>The null test before each increment is the one \<open>prometheus_counter_inc\<close> makes itself.\<close>

definition metrics_record_abuse_event :: "metrics \<Rightarrow> metrics outcome" where
  "metrics_record_abuse_event m = (if metric_counter m abuse_events_total \<noteq> None then count abuse_events_total m else Finished m)"

definition record_abuse :: "counter_name \<Rightarrow> metrics \<Rightarrow> metrics outcome" where
  "record_abuse n m =
     bind_outcome (if metric_counter m n \<noteq> None then count n m else Finished m) (\<lambda>m1.
       if metric_counter m1 abuse_events_total \<noteq> None then count abuse_events_total m1 else Finished m1)"

definition metrics_record_abuse_empty_payload :: "metrics \<Rightarrow> metrics outcome" where
  "metrics_record_abuse_empty_payload = record_abuse abuse_empty_payload_total"

definition metrics_record_abuse_targeted_tenant :: "metrics \<Rightarrow> metrics outcome" where
  "metrics_record_abuse_targeted_tenant = record_abuse abuse_targeted_tenant_total"

definition metrics_record_abuse_rate_limit_evasion :: "metrics \<Rightarrow> metrics outcome" where
  "metrics_record_abuse_rate_limit_evasion = record_abuse abuse_rate_limit_evasion_total"

definition metrics_record_abuse_heavy_payload :: "metrics \<Rightarrow> metrics outcome" where
  "metrics_record_abuse_heavy_payload = record_abuse abuse_heavy_payload_total"

definition metrics_record_abuse_multi_tenant_flood :: "metrics \<Rightarrow> metrics outcome" where
  "metrics_record_abuse_multi_tenant_flood = record_abuse abuse_multi_tenant_flood_total"

definition metrics_update_abuse_blocked_tenants :: "int \<Rightarrow> metrics \<Rightarrow> metrics outcome" where
  "metrics_update_abuse_blocked_tenants n m =
     (if metric_gauge m abuse_blocked_tenants \<noteq> None
      then on_prom (prometheus_gauge_set (metric_gauge m abuse_blocked_tenants) n) m else Finished m)"

section \<open>The handler of GET /metrics\<close>

definition METRICS_BUFFER_SIZE :: nat where "METRICS_BUFFER_SIZE = 512 * 1024"

definition http_eol :: string where "http_eol = [CHR 0x0D, CHR 0x0A]"

definition metrics_error_response :: string where
  "metrics_error_response =
     ''HTTP/1.1 500 Internal Server Error'' @ http_eol @ ''Content-Type: text/plain'' @ http_eol @
     ''Content-Length: 35'' @ http_eol @ http_eol @ text_line ''Internal Server Error: metrics export failed''"

definition metrics_headers :: "int \<Rightarrow> string" where
  "metrics_headers n =
     ''HTTP/1.1 200 OK'' @ http_eol @ ''Content-Type: text/plain; version=0.0.4; charset=utf-8'' @ http_eol @
     ''Content-Length: '' @ dec_int n @ http_eol @ http_eol"

text \<open>The result and what was passed to \<open>write\<close>; \<open>wr k\<close> says whether the \<open>k\<close>-th write succeeds.\<close>

definition handle_metrics_request :: "(nat \<Rightarrow> bool) \<Rightarrow> metrics \<Rightarrow> (int \<times> string list) outcome" where
  "handle_metrics_request wr m =
     bind_outcome (prometheus_export_text True METRICS_BUFFER_SIZE (prom m)) (\<lambda>(n, text).
       case text of
         None \<Rightarrow> Finished (- 1, [metrics_error_response])
       | Some t \<Rightarrow>
           if n < 0 then Finished (- 1, [metrics_error_response])
           else if length (metrics_headers n) \<ge> 512 then Finished (- 1, [])
           else if \<not> wr 0 then Finished (- 1, [metrics_headers n])
           else if \<not> wr 1 then Finished (- 1, [metrics_headers n, t])
           else Finished (0, [metrics_headers n, t]))"

section \<open>Events\<close>

datatype metric_event =
    HTTP_request int u64
  | Rate_limit_hit | Rate_limit_allowed
  | Idempotency_hit | Idempotency_miss
  | NATS_sent | NATS_received | NATS_publish_failure
  | NATS_connection int
  | JSON_parse_success u64 | JSON_parse_failure
  | Abuse_event | Abuse_empty_payload | Abuse_targeted_tenant | Abuse_rate_limit_evasion
  | Abuse_heavy_payload | Abuse_multi_tenant_flood
  | Abuse_blocked_tenants int

fun record_event :: "metric_event \<Rightarrow> metrics \<Rightarrow> metrics outcome" where
  "record_event (HTTP_request status d) = metrics_record_http_request (Some ''POST'') (Some ''/'') status d"
| "record_event Rate_limit_hit = metrics_record_rate_limit_hit"
| "record_event Rate_limit_allowed = metrics_record_rate_limit_allowed"
| "record_event Idempotency_hit = metrics_record_idempotency_hit"
| "record_event Idempotency_miss = metrics_record_idempotency_miss"
| "record_event NATS_sent = metrics_record_nats_sent"
| "record_event NATS_received = metrics_record_nats_received"
| "record_event NATS_publish_failure = metrics_record_nats_publish_failure"
| "record_event (NATS_connection c) = metrics_update_nats_connection_status c"
| "record_event (JSON_parse_success d) = metrics_record_json_parse_success d"
| "record_event JSON_parse_failure = metrics_record_json_parse_failure"
| "record_event Abuse_event = metrics_record_abuse_event"
| "record_event Abuse_empty_payload = metrics_record_abuse_empty_payload"
| "record_event Abuse_targeted_tenant = metrics_record_abuse_targeted_tenant"
| "record_event Abuse_rate_limit_evasion = metrics_record_abuse_rate_limit_evasion"
| "record_event Abuse_heavy_payload = metrics_record_abuse_heavy_payload"
| "record_event Abuse_multi_tenant_flood = metrics_record_abuse_multi_tenant_flood"
| "record_event (Abuse_blocked_tenants n) = metrics_update_abuse_blocked_tenants n"

fun record_events :: "metric_event list \<Rightarrow> metrics \<Rightarrow> metrics outcome" where
  "record_events [] m = Finished m"
| "record_events (e # es) m = bind_outcome (record_event e m) (record_events es)"

text \<open>The counters an event increments, and the abstract values after a list of events.\<close>

fun increments :: "metric_event \<Rightarrow> counter_name list" where
  "increments (HTTP_request _ _) = [http_requests_total, http_requests_by_status]"
| "increments Rate_limit_hit = [rate_limit_hits_total]"
| "increments Rate_limit_allowed = [rate_limit_allowed_total]"
| "increments Idempotency_hit = [idempotency_hits_total]"
| "increments Idempotency_miss = [idempotency_misses_total]"
| "increments NATS_sent = [nats_messages_sent_total]"
| "increments NATS_received = [nats_messages_received_total]"
| "increments NATS_publish_failure = [nats_publish_failures_total]"
| "increments (NATS_connection _) = []"
| "increments (JSON_parse_success _) = [json_parse_success_total]"
| "increments JSON_parse_failure = [json_parse_failure_total]"
| "increments Abuse_event = [abuse_events_total]"
| "increments Abuse_empty_payload = [abuse_empty_payload_total, abuse_events_total]"
| "increments Abuse_targeted_tenant = [abuse_targeted_tenant_total, abuse_events_total]"
| "increments Abuse_rate_limit_evasion = [abuse_rate_limit_evasion_total, abuse_events_total]"
| "increments Abuse_heavy_payload = [abuse_heavy_payload_total, abuse_events_total]"
| "increments Abuse_multi_tenant_flood = [abuse_multi_tenant_flood_total, abuse_events_total]"
| "increments (Abuse_blocked_tenants _) = []"

fun durations :: "histogram_name \<Rightarrow> metric_event list \<Rightarrow> u64 list" where
  "durations n [] = []"
| "durations n (HTTP_request _ d # es) = (if n = http_request_duration_seconds then d # durations n es else durations n es)"
| "durations n (JSON_parse_success d # es) = (if n = json_parse_duration_seconds then d # durations n es else durations n es)"
| "durations n (_ # es) = durations n es"

fun gauge_after :: "gauge_name \<Rightarrow> metric_event list \<Rightarrow> int \<Rightarrow> int" where
  "gauge_after n [] v = v"
| "gauge_after n (NATS_connection c # es) v =
     gauge_after n es (if n = nats_connection_status then (if c \<noteq> 0 then 1 else 0) else v)"
| "gauge_after n (Abuse_blocked_tenants k # es) v = gauge_after n es (if n = abuse_blocked_tenants then k else v)"
| "gauge_after n (_ # es) v = gauge_after n es v"

definition occurrences :: "counter_name \<Rightarrow> metric_event list \<Rightarrow> nat" where
  "occurrences n es = length (filter (\<lambda>k. k = n) (concat (map increments es)))"

section \<open>The state as its values\<close>

text \<open>
  The pointers lead to distinct live metrics; \<open>cv\<close>, \<open>gv\<close> and \<open>hv\<close> are the values of the counters and
  gauges and the observations of the histograms.
\<close>

definition points_to :: "('n \<Rightarrow> nat option) \<Rightarrow> 'a option list \<Rightarrow> 'n set \<Rightarrow> ('n \<Rightarrow> 'a \<Rightarrow> bool) \<Rightarrow> bool" where
  "points_to p h N P = ((\<forall>n a. p n = Some a \<longrightarrow> (\<exists>x. at_address h a = Finished x \<and> P n x)) \<and>
     (\<forall>n n' a. p n = Some a \<longrightarrow> p n' = Some a \<longrightarrow> n = n') \<and> (\<forall>n\<in>N. p n \<noteq> None))"

definition observed :: "u64 list \<Rightarrow> prometheus_histogram_t \<Rightarrow> bool" where
  "observed vs h = (histogram_wf h \<and> map bucket_count (h_buckets h) = counts_of vs \<and>
     h_count h = of_nat (length vs) \<and> h_sum h = sum_list vs)"

definition holds_values ::
  "counter_name set \<Rightarrow> gauge_name set \<Rightarrow> histogram_name set \<Rightarrow> (counter_name \<Rightarrow> u64) \<Rightarrow> (gauge_name \<Rightarrow> u64) \<Rightarrow>
   (histogram_name \<Rightarrow> u64 list) \<Rightarrow> metrics \<Rightarrow> bool" where
  "holds_values C G H cv gv hv m =
     (prometheus_wf (prom m) \<and>
      points_to (metric_counter m) (counter_heap (prom m)) C (\<lambda>n c. c_value c = cv n) \<and>
      points_to (metric_gauge m) (gauge_heap (prom m)) G (\<lambda>n g. g_value g = gv n) \<and>
      points_to (metric_histogram m) (histogram_heap (prom m)) H (\<lambda>n h. observed (hv n) h))"

lemma points_to_live: "points_to p h N P \<Longrightarrow> p n = Some a \<Longrightarrow> \<exists>x. at_address h a = Finished x \<and> P n x"
  unfolding points_to_def by blast

lemma points_to_inj: "points_to p h N P \<Longrightarrow> p n = Some a \<Longrightarrow> p k = Some a \<Longrightarrow> n = k"
  unfolding points_to_def by blast

lemma points_to_new:
  assumes "points_to p h N P" "P n x"
  shows "points_to (p(n := Some (length h))) (h @ [Some x]) (insert n N) P"
proof -
  have old: "a < length h \<and> (\<exists>x. at_address (h @ [Some y]) a = Finished x \<and> P k x)" if "p k = Some a" for k a y
    using points_to_live [OF assms(1) that] by (auto simp: at_address_Finished nth_append)
  show ?thesis
    unfolding points_to_def
  proof (intro conjI allI impI ballI)
    fix k a assume "(p(n := Some (length h))) k = Some a"
    then show "\<exists>y. at_address (h @ [Some x]) a = Finished y \<and> P k y"
      using old assms(2) by (cases "k = n") auto
  next
    fix k k' a assume "(p(n := Some (length h))) k = Some a" "(p(n := Some (length h))) k' = Some a"
    then show "k = k'" using old points_to_inj [OF assms(1), of k a k']
      by (cases "k = n"; cases "k' = n") auto
  qed (use assms(1) in \<open>auto simp: points_to_def\<close>)
qed

lemma points_to_set:
  assumes "points_to p h N P" "p n = Some a" "at_address h a = Finished x" "\<And>k z. k \<noteq> n \<Longrightarrow> P k z \<Longrightarrow> Q k z" "Q n y"
  shows "points_to p (set_address a y h) N Q"
  unfolding points_to_def
proof (intro conjI allI impI)
  fix k b assume k: "p k = Some b"
  then obtain z where z: "at_address h b = Finished z" "P k z" using points_to_live [OF assms(1)] by blast
  show "\<exists>z. at_address (set_address a y h) b = Finished z \<and> Q k z"
  proof (cases "k = n")
    case True
    with k assms(2,3,5) show ?thesis by (simp add: at_address_Finished [of h])
  next
    case False
    then have "a \<noteq> b" using k assms(2) points_to_inj [OF assms(1)] by blast
    with z False assms(4) show ?thesis by simp
  qed
qed (use assms(1) in \<open>auto simp: points_to_def\<close>)

lemma points_to_get:
  "points_to p h N P \<Longrightarrow> n \<in> N \<Longrightarrow> \<exists>a x. p n = Some a \<and> at_address h a = Finished x \<and> P n x"
  by (auto simp: points_to_def)

lemma points_to_weaken: "points_to p h N P \<Longrightarrow> M \<subseteq> N \<Longrightarrow> points_to p h M P"
  by (auto simp: points_to_def)

section \<open>Each step on the values\<close>

lemma count_values:
  assumes "holds_values UNIV G H cv gv hv m"
  shows "\<exists>m'. count k m = Finished m' \<and> holds_values UNIV G H (cv(k := cv k + 1)) gv hv m'"
proof -
  note v = assms [unfolded holds_values_def]
  obtain a c where a: "metric_counter m k = Some a" "at_address (counter_heap (prom m)) a = Finished c" "c_value c = cv k"
    using points_to_get [of "metric_counter m" _ UNIV] v by blast
  let ?s = "(prom m)\<lparr>counter_heap := set_address a (c\<lparr>c_value := c_value c + 1\<rparr>) (counter_heap (prom m))\<rparr>"
  have "prometheus_counter_inc (Some a) (prom m) = Finished ?s"
    by (simp add: prometheus_counter_inc_def a)
  moreover from this have "prometheus_wf ?s"
    using prometheus_wf_apply [of "prom m" "Call_counter_inc (Some a)"] v by simp
  moreover have "points_to (metric_counter m) (counter_heap ?s) UNIV (\<lambda>n c. c_value c = (cv(k := cv k + 1)) n)"
    using v a by (auto intro!: points_to_set [of "metric_counter m" _ _ _ k a c])
  ultimately show ?thesis using v by (simp add: count_def on_prom_def a holds_values_def)
qed

lemma gauge_set_values:
  assumes "holds_values C G H cv gv hv m" "k \<in> G"
  shows "\<exists>m'. on_prom (prometheus_gauge_set (metric_gauge m k) x) m = Finished m' \<and>
     holds_values C G H cv (gv(k := of_int x)) hv m'"
proof -
  note v = assms(1) [unfolded holds_values_def]
  obtain a g where a: "metric_gauge m k = Some a" "at_address (gauge_heap (prom m)) a = Finished g"
    using points_to_get [of "metric_gauge m" _ G] v assms(2) by blast
  let ?s = "(prom m)\<lparr>gauge_heap := set_address a (g\<lparr>g_value := of_int x\<rparr>) (gauge_heap (prom m))\<rparr>"
  have "prometheus_gauge_set (Some a) x (prom m) = Finished ?s"
    by (simp add: prometheus_gauge_set_def a)
  moreover from this have "prometheus_wf ?s"
    using prometheus_wf_apply [of "prom m" "Call_gauge_set (Some a) x"] v by simp
  moreover have "points_to (metric_gauge m) (gauge_heap ?s) G (\<lambda>n g. g_value g = (gv(k := of_int x)) n)"
    using v a by (auto intro!: points_to_set [of "metric_gauge m" _ _ _ k a g])
  ultimately show ?thesis using v by (simp add: on_prom_def a holds_values_def)
qed

lemma observe_values:
  assumes "holds_values C G UNIV cv gv hv m"
  shows "\<exists>m'. on_prom (prometheus_histogram_observe (metric_histogram m k) d) m = Finished m' \<and>
     holds_values C G UNIV cv gv (hv(k := hv k @ [d])) m'"
proof -
  note v = assms [unfolded holds_values_def]
  obtain a h where a: "metric_histogram m k = Some a" "at_address (histogram_heap (prom m)) a = Finished h" "observed (hv k) h"
    using points_to_get [of "metric_histogram m" _ UNIV] v by blast
  let ?s = "(prom m)\<lparr>histogram_heap := set_address a (observe d h) (histogram_heap (prom m))\<rparr>"
  have "prometheus_histogram_observe (Some a) d (prom m) = Finished ?s"
    by (simp add: prometheus_histogram_observe_def a)
  moreover from this have "prometheus_wf ?s"
    using prometheus_wf_apply [of "prom m" "Call_histogram_observe (Some a) d"] v by simp
  moreover have o: "observed (hv k @ [d]) (observe d h)"
    using a(3) observe_counts by (simp add: observed_def)
  have "points_to (metric_histogram m) (histogram_heap ?s) UNIV (\<lambda>n h. observed ((hv(k := hv k @ [d])) n) h)"
    using v a o by (auto intro!: points_to_set [of "metric_histogram m" _ _ _ k a h])
  ultimately show ?thesis using v by (simp add: on_prom_def a holds_values_def)
qed

lemmas record_defs = metrics_record_rate_limit_hit_def metrics_record_rate_limit_allowed_def
  metrics_record_idempotency_hit_def metrics_record_idempotency_miss_def metrics_record_nats_sent_def
  metrics_record_nats_received_def metrics_record_nats_publish_failure_def metrics_record_json_parse_failure_def
  metrics_record_abuse_empty_payload_def metrics_record_abuse_targeted_tenant_def
  metrics_record_abuse_rate_limit_evasion_def metrics_record_abuse_heavy_payload_def
  metrics_record_abuse_multi_tenant_flood_def

definition bump :: "counter_name list \<Rightarrow> (counter_name \<Rightarrow> u64) \<Rightarrow> counter_name \<Rightarrow> u64" where
  "bump ks cv = foldl (\<lambda>cv k. cv(k := cv k + 1)) cv ks"

lemma bump_simps [simp]: "bump [] cv = cv" "bump (k # ks) cv = bump ks (cv(k := cv k + 1))"
  by (simp_all add: bump_def)

lemma bump_value: "bump ks cv n = cv n + of_nat (length (filter (\<lambda>k. k = n) ks))"
  by (induction ks arbitrary: cv) auto

lemma count_bump:
  "holds_values UNIV G H cv gv hv m \<Longrightarrow> \<exists>m'. count k m = Finished m' \<and> holds_values UNIV G H (bump [k] cv) gv hv m'"
  by (simp add: count_values)

lemma not_null: "holds_values UNIV G H cv gv hv m \<Longrightarrow> metric_counter m n \<noteq> None"
  by (auto simp: holds_values_def points_to_def)

lemma not_null_gauge: "holds_values C UNIV H cv gv hv m \<Longrightarrow> metric_gauge m n \<noteq> None"
  by (auto simp: holds_values_def points_to_def)

lemma record_abuse_values:
  assumes "holds_values UNIV G H cv gv hv m"
  shows "\<exists>m'. record_abuse k m = Finished m' \<and> holds_values UNIV G H (bump [k, abuse_events_total] cv) gv hv m'"
proof -
  obtain m1 where m1: "count k m = Finished m1" "holds_values UNIV G H (cv(k := cv k + 1)) gv hv m1"
    using count_values [OF assms] by blast
  then show ?thesis using count_values [OF m1(2), of abuse_events_total] not_null [OF m1(2)] not_null [OF assms]
    by (simp add: record_abuse_def m1(1))
qed

lemma http_request_values:
  assumes "holds_values UNIV G UNIV cv gv hv m"
  shows "\<exists>m'. metrics_record_http_request (Some p) (Some q) st d m = Finished m' \<and>
     holds_values UNIV G UNIV (bump [http_requests_total, http_requests_by_status] cv) gv
       (hv(http_request_duration_seconds := hv http_request_duration_seconds @ [d])) m'"
proof -
  obtain m1 where m1: "count http_requests_total m = Finished m1"
    "holds_values UNIV G UNIV (cv(http_requests_total := cv http_requests_total + 1)) gv hv m1"
    using count_values [OF assms] by blast
  obtain m2 where m2: "on_prom (prometheus_histogram_observe (metric_histogram m1 http_request_duration_seconds) d) m1 = Finished m2"
    "holds_values UNIV G UNIV (cv(http_requests_total := cv http_requests_total + 1)) gv
       (hv(http_request_duration_seconds := hv http_request_duration_seconds @ [d])) m2"
    using observe_values [OF m1(2)] by blast
  show ?thesis using count_values [OF m2(2), of http_requests_by_status]
    by (simp add: metrics_record_http_request_def m1(1) m2(1))
qed

lemma json_parse_values:
  assumes "holds_values UNIV G UNIV cv gv hv m"
  shows "\<exists>m'. metrics_record_json_parse_success d m = Finished m' \<and>
     holds_values UNIV G UNIV (bump [json_parse_success_total] cv) gv
       (hv(json_parse_duration_seconds := hv json_parse_duration_seconds @ [d])) m'"
proof -
  obtain m1 where m1: "count json_parse_success_total m = Finished m1"
    "holds_values UNIV G UNIV (cv(json_parse_success_total := cv json_parse_success_total + 1)) gv hv m1"
    using count_values [OF assms] by blast
  then show ?thesis using observe_values [OF m1(2), of json_parse_duration_seconds d]
    by (simp add: metrics_record_json_parse_success_def)
qed

lemma append_upd: "(\<lambda>n. hv n @ (if n = k then [d] else [])) = hv(k := hv k @ [d])"
  by auto

lemma of_int_upd: "(\<lambda>n. of_int (if n = k then x else gi n)) = (\<lambda>n. of_int (gi n))(k := of_int x)"
  by auto

lemma record_event_values:
  assumes "holds_values UNIV UNIV UNIV cv (\<lambda>n. of_int (gi n)) hv m"
  shows "\<exists>m'. record_event e m = Finished m' \<and>
     holds_values UNIV UNIV UNIV (bump (increments e) cv) (\<lambda>n. of_int (gauge_after n [e] (gi n)))
       (\<lambda>n. hv n @ durations n [e]) m'"
proof (cases e)
  case (HTTP_request st d)
  then show ?thesis using http_request_values [OF assms] by (simp add: append_upd cong: if_cong)
next
  case (JSON_parse_success d)
  then show ?thesis using json_parse_values [OF assms] by (simp add: append_upd cong: if_cong)
next
  case (NATS_connection c)
  then show ?thesis using gauge_set_values [OF assms UNIV_I, of nats_connection_status "if c \<noteq> 0 then 1 else 0"]
    by (simp add: metrics_update_nats_connection_status_def of_int_upd)
next
  case (Abuse_blocked_tenants c)
  then show ?thesis using gauge_set_values [OF assms UNIV_I, of abuse_blocked_tenants c] not_null_gauge [OF assms]
    by (simp add: metrics_update_abuse_blocked_tenants_def of_int_upd)
next
  case Abuse_event
  then show ?thesis using count_values [OF assms] not_null [OF assms]
    by (simp add: metrics_record_abuse_event_def)
qed (use count_bump [OF assms] record_abuse_values [OF assms] in \<open>simp_all add: record_defs del: bump_simps\<close>)

lemma gauge_after_Cons: "gauge_after n (e # es) x = gauge_after n es (gauge_after n [e] x)"
  by (cases e) simp_all

lemma durations_Cons: "durations n (e # es) = durations n [e] @ durations n es"
  by (cases e) simp_all

lemma record_events_values:
  assumes "holds_values UNIV UNIV UNIV cv (\<lambda>n. of_int (gi n)) hv m"
  shows "\<exists>m'. record_events es m = Finished m' \<and>
     holds_values UNIV UNIV UNIV (bump (concat (map increments es)) cv) (\<lambda>n. of_int (gauge_after n es (gi n)))
       (\<lambda>n. hv n @ durations n es) m'"
  using assms
proof (induction es arbitrary: cv gi hv m)
  case (Cons e es)
  obtain m1 where m1: "record_event e m = Finished m1"
    "holds_values UNIV UNIV UNIV (bump (increments e) cv) (\<lambda>n. of_int (gauge_after n [e] (gi n))) (\<lambda>n. hv n @ durations n [e]) m1"
    using record_event_values [OF Cons.prems] by blast
  have "bump (concat (map increments (e # es))) cv = bump (concat (map increments es)) (bump (increments e) cv)"
    by (simp add: bump_def)
  then show ?case using Cons.IH [OF m1(2)]
    by (simp add: m1(1) gauge_after_Cons [of _ e es] durations_Cons [of _ e es])
qed simp

section \<open>The initialisation\<close>

fun created :: "creation \<Rightarrow> counter_name set \<times> gauge_name set \<times> histogram_name set" where
  "created (New_counter n _ _) = ({n}, {}, {})"
| "created (New_gauge n _ _) = ({}, {n}, {})"
| "created (New_histogram n _ _) = ({}, {}, {n})"

abbreviation fresh :: "counter_name set \<Rightarrow> gauge_name set \<Rightarrow> histogram_name set \<Rightarrow> metrics \<Rightarrow> bool" where
  "fresh C G H \<equiv> holds_values C G H (\<lambda>_. 0) (\<lambda>_. 0) (\<lambda>_. [])"

lemma observed_new: "h_labels h = [] \<Longrightarrow> length (h_name h) \<le> 127 \<Longrightarrow> length (h_help h) \<le> 255 \<Longrightarrow>
    h_buckets h = map (\<lambda>b. \<lparr>upper_bound = b, bucket_count = 0\<rparr>) default_buckets \<Longrightarrow> h_sum h = 0 \<Longrightarrow> h_count h = 0 \<Longrightarrow>
    observed [] h"
  by (simp add: observed_def histogram_wf_def counts_of_def comp_def default_buckets_def bounds_us_def)

lemma create_fresh:
  assumes "create al c m = (True, m')" "fresh C G H m"
  shows "fresh (fst (created c) \<union> C) (fst (snd (created c)) \<union> G) (snd (snd (created c)) \<union> H) m'"
proof (cases c)
  case (New_counter n x y)
  let ?r = "prometheus_counter_create al x y (prom m)"
  have ok: "al" "length (counters (prom m)) < MAX_METRICS"
    and m': "m' = m\<lparr>prom := snd ?r, metric_counter := (metric_counter m)(n := fst ?r)\<rparr>"
    using assms(1) New_counter by (auto simp: prometheus_counter_create_def split: if_splits)
  have "prometheus_wf (snd ?r)"
    using prometheus_wf_apply [of "prom m" "Call_counter_create al x y"] assms(2) by (simp add: holds_values_def)
  then show ?thesis using assms(2) ok New_counter
    by (auto simp: m' holds_values_def prometheus_counter_create_def intro!: points_to_new)
next
  case (New_gauge n x y)
  let ?r = "prometheus_gauge_create al x y (prom m)"
  have ok: "al" "length (gauges (prom m)) < MAX_METRICS"
    and m': "m' = m\<lparr>prom := snd ?r, metric_gauge := (metric_gauge m)(n := fst ?r)\<rparr>"
    using assms(1) New_gauge by (auto simp: prometheus_gauge_create_def split: if_splits)
  have "prometheus_wf (snd ?r)"
    using prometheus_wf_apply [of "prom m" "Call_gauge_create al x y"] assms(2) by (simp add: holds_values_def)
  then show ?thesis using assms(2) ok New_gauge
    by (auto simp: m' holds_values_def prometheus_gauge_create_def intro!: points_to_new)
next
  case (New_histogram n x y)
  let ?r = "prometheus_histogram_create al x y (prom m)"
  have ok: "al" "length (histograms (prom m)) < MAX_METRICS"
    and m': "m' = m\<lparr>prom := snd ?r, metric_histogram := (metric_histogram m)(n := fst ?r)\<rparr>"
    using assms(1) New_histogram by (auto simp: prometheus_histogram_create_def split: if_splits)
  have "prometheus_wf (snd ?r)"
    using prometheus_wf_apply [of "prom m" "Call_histogram_create al x y"] assms(2) by (simp add: holds_values_def)
  then show ?thesis using assms(2) ok New_histogram
    by (auto simp: m' holds_values_def prometheus_histogram_create_def intro!: points_to_new observed_new)
qed

lemma create_all_fresh:
  assumes "create_all alloc k cs m = (True, m')" "fresh C G H m"
  shows "fresh (\<Union> (set (map (fst \<circ> created) cs)) \<union> C) (\<Union> (set (map (fst \<circ> snd \<circ> created) cs)) \<union> G)
     (\<Union> (set (map (snd \<circ> snd \<circ> created) cs)) \<union> H) m'"
  using assms
proof (induction cs arbitrary: k m C G H)
  case (Cons c cs)
  then obtain m1 where m1: "create (alloc k) c m = (True, m1)" "create_all alloc (Suc k) cs m1 = (True, m')"
    by (auto split: prod.splits if_splits)
  show ?case using Cons.IH [OF m1(2) create_fresh [OF m1(1) Cons.prems(2)]] by (simp add: Un_assoc Un_left_commute)
qed simp

lemma names_created:
  "\<Union> (set (map (fst \<circ> created) creations_after_gauge)) \<union> \<Union> (set (map (fst \<circ> created) creations_before_gauge)) = UNIV"
  "\<Union> (set (map (fst \<circ> snd \<circ> created) creations_after_gauge)) \<union>
     \<Union> (set (map (fst \<circ> snd \<circ> created) creations_before_gauge)) = UNIV"
  "\<Union> (set (map (snd \<circ> snd \<circ> created) creations_after_gauge)) \<union>
     \<Union> (set (map (snd \<circ> snd \<circ> created) creations_before_gauge)) = UNIV"
proof -
  have "n \<in> \<Union> (set (map (fst \<circ> created) creations_after_gauge)) \<union> \<Union> (set (map (fst \<circ> created) creations_before_gauge))" for n
    by (cases n) (simp_all add: creations_after_gauge_def creations_before_gauge_def)
  then show "\<Union> (set (map (fst \<circ> created) creations_after_gauge)) \<union> \<Union> (set (map (fst \<circ> created) creations_before_gauge)) = UNIV"
    by blast
  have "n \<in> \<Union> (set (map (fst \<circ> snd \<circ> created) creations_after_gauge)) \<union>
     \<Union> (set (map (fst \<circ> snd \<circ> created) creations_before_gauge))" for n
    by (cases n) (simp_all add: creations_after_gauge_def creations_before_gauge_def)
  then show "\<Union> (set (map (fst \<circ> snd \<circ> created) creations_after_gauge)) \<union>
     \<Union> (set (map (fst \<circ> snd \<circ> created) creations_before_gauge)) = UNIV" by blast
  have "n \<in> \<Union> (set (map (snd \<circ> snd \<circ> created) creations_after_gauge)) \<union>
     \<Union> (set (map (snd \<circ> snd \<circ> created) creations_before_gauge))" for n
    by (cases n) (simp_all add: creations_after_gauge_def creations_before_gauge_def)
  then show "\<Union> (set (map (snd \<circ> snd \<circ> created) creations_after_gauge)) \<union>
     \<Union> (set (map (snd \<circ> snd \<circ> created) creations_before_gauge)) = UNIV" by blast
qed

text \<open>The stages of a successful initialisation.\<close>

lemma registry_init_stages:
  assumes "metrics_registry_init alloc m0 = Finished (0, m)"
  obtains m1 m2 where
    "create_all alloc 0 creations_before_gauge (m0\<lparr>prom := snd (prometheus_init (prom m0))\<rparr>) = (True, m1)"
    "on_prom (prometheus_gauge_set (metric_gauge m1 nats_connection_status) 0) m1 = Finished m2"
    "create_all alloc (length creations_before_gauge) creations_after_gauge m2 = (True, m)"
proof -
  let ?m = "m0\<lparr>prom := snd (prometheus_init (prom m0))\<rparr>"
  obtain ok1 m1 where c1: "create_all alloc 0 creations_before_gauge ?m = (ok1, m1)" by fastforce
  with assms have "ok1" by (simp add: metrics_registry_init_def prometheus_init_def Let_def split: if_splits)
  with assms c1 obtain m2 where c2: "on_prom (prometheus_gauge_set (metric_gauge m1 nats_connection_status) 0) m1 = Finished m2"
    by (simp add: metrics_registry_init_def prometheus_init_def bind_Finished del: create_all.simps) blast
  obtain ok3 m3 where c3: "create_all alloc (length creations_before_gauge) creations_after_gauge m2 = (ok3, m3)" by fastforce
  with assms c1 c2 \<open>ok1\<close> have "ok3" "m3 = m"
    by (simp_all add: metrics_registry_init_def prometheus_init_def split: if_splits)
  with c1 c2 c3 \<open>ok1\<close> show ?thesis using that [of m1 m2] by simp
qed

lemma registry_init_fresh:
  assumes "metrics_registry_init alloc metrics_static = Finished (0, m)"
  shows "fresh UNIV UNIV UNIV m"
  using assms
proof (rule registry_init_stages)
  fix m1 m2
  assume m1: "create_all alloc 0 creations_before_gauge
       (metrics_static\<lparr>prom := snd (prometheus_init (prom metrics_static))\<rparr>) = (True, m1)"
    and m2: "on_prom (prometheus_gauge_set (metric_gauge m1 nats_connection_status) 0) m1 = Finished m2"
    and m: "create_all alloc (length creations_before_gauge) creations_after_gauge m2 = (True, m)"
  let ?C = "\<Union> (set (map (fst \<circ> created) creations_before_gauge))"
  let ?G = "\<Union> (set (map (fst \<circ> snd \<circ> created) creations_before_gauge))"
  let ?H = "\<Union> (set (map (snd \<circ> snd \<circ> created) creations_before_gauge))"
  have "fresh {} {} {} (metrics_static\<lparr>prom := snd (prometheus_init (prom metrics_static))\<rparr>)"
    by (simp add: holds_values_def metrics_static_def prometheus_init_def points_to_def prometheus_wf_def heap_ok_def)
  from create_all_fresh [OF m1 this] have "fresh ?C ?G ?H m1" by simp
  moreover have "nats_connection_status \<in> ?G" by (simp add: creations_before_gauge_def)
  ultimately have "fresh ?C ?G ?H m2"
    using gauge_set_values [of ?C ?G ?H "\<lambda>_. 0" "\<lambda>_. 0" "\<lambda>_. []" m1 nats_connection_status 0] m2
    by (simp add: fun_upd_idem)
  from create_all_fresh [OF m this] show ?thesis by (simp only: names_created)
qed

section \<open>The size of the page\<close>

definition registered :: "prometheus \<Rightarrow> nat" where
  "registered s = length (counters s) + length (gauges s) + length (histograms s)"

lemma create_registered: "create al c m = (True, m') \<Longrightarrow> registered (prom m') = Suc (registered (prom m))"
  by (cases c) (auto simp: registered_def prometheus_counter_create_def prometheus_gauge_create_def
      prometheus_histogram_create_def split: if_splits)

lemma create_all_registered:
  "create_all alloc k cs m = (True, m') \<Longrightarrow> registered (prom m') = registered (prom m) + length cs"
proof (induction cs arbitrary: k m)
  case (Cons c cs)
  then show ?case using create_registered [of "alloc k" c m] by (auto split: prod.splits if_splits)
qed simp

lemma steps_registered:
  "on_prom (prometheus_counter_inc p) m = Finished m' \<Longrightarrow> registered (prom m') = registered (prom m)"
  "on_prom (prometheus_gauge_set p x) m = Finished m' \<Longrightarrow> registered (prom m') = registered (prom m)"
  "on_prom (prometheus_histogram_observe p d) m = Finished m' \<Longrightarrow> registered (prom m') = registered (prom m)"
  by (auto simp: on_prom_def prometheus_counter_inc_def prometheus_gauge_set_def prometheus_histogram_observe_def
      registered_def bind_Finished split: option.splits)

lemma count_registered: "count k m = Finished m' \<Longrightarrow> registered (prom m') = registered (prom m)"
  unfolding count_def by (rule steps_registered)

lemma record_abuse_registered: "record_abuse k m = Finished m' \<Longrightarrow> registered (prom m') = registered (prom m)"
  by (auto simp: record_abuse_def bind_Finished dest!: count_registered split: if_splits)

lemma record_event_registered: "record_event e m = Finished m' \<Longrightarrow> registered (prom m') = registered (prom m)"
  by (cases e) (auto simp: record_defs metrics_record_http_request_def metrics_record_json_parse_success_def
      metrics_record_abuse_event_def metrics_update_nats_connection_status_def metrics_update_abuse_blocked_tenants_def
      bind_Finished dest!: count_registered record_abuse_registered steps_registered split: if_splits)

lemma record_events_registered: "record_events es m = Finished m' \<Longrightarrow> registered (prom m') = registered (prom m)"
proof (induction es arbitrary: m)
  case (Cons e es)
  then show ?case by (auto simp: bind_Finished dest!: record_event_registered)
qed simp

lemma registry_init_registered:
  assumes "metrics_registry_init alloc m0 = Finished (0, m)"
  shows "registered (prom m) = 21"
  using assms
proof (rule registry_init_stages)
  fix m1 m2
  assume "create_all alloc 0 creations_before_gauge (m0\<lparr>prom := snd (prometheus_init (prom m0))\<rparr>) = (True, m1)"
    "on_prom (prometheus_gauge_set (metric_gauge m1 nats_connection_status) 0) m1 = Finished m2"
    "create_all alloc (length creations_before_gauge) creations_after_gauge m2 = (True, m)"
  from create_all_registered [OF this(1)] steps_registered(2) [OF this(2)] create_all_registered [OF this(3)]
  show ?thesis
    by (simp add: prometheus_init_def registered_def [of "_\<lparr>counters := _\<rparr>"] registered_def creations_before_gauge_def creations_after_gauge_def)
qed

lemma length_dec_u64: "length (dec_nat (unat (x :: u64))) \<le> 20"
proof -
  have "unat x < 2 ^ 64" using unsigned_less [of x, where 'a = nat] by simp
  then show ?thesis by (intro length_dec_nat) simp_all
qed

lemma length_dec_s64: "length (dec_int (sint (x :: u64))) \<le> 20"
proof -
  have "- (2 ^ 63) \<le> sint x" "sint x < 2 ^ 63" using sint_ge [of x] sint_lt [of x] by simp_all
  then have "nat (sint x) < 10 ^ 19" "nat (- sint x) < 10 ^ 19" by simp_all
  then have "length (dec_nat (nat (sint x))) \<le> 19" "length (dec_nat (nat (- sint x))) \<le> 19"
    by (simp_all add: length_dec_nat)
  then show ?thesis by (simp add: dec_int_def)
qed

lemma pieces_text_Finished [simp]: "pieces_text (map Finished ps) = concat ps"
  by (simp add: pieces_text_def comp_def)

lemma pieces_text_append [simp]: "pieces_text (ps @ qs) = pieces_text ps @ pieces_text qs"
  and pieces_text_Cons [simp]: "pieces_text (Finished t # qs) = t @ pieces_text qs"
  and pieces_text_Nil [simp]: "pieces_text [] = []"
  by (simp_all add: pieces_text_def)

lemma length_label_pieces:
  "\<forall>l\<in>set ls. length (label_key l) \<le> 127 \<and> length (label_value l) \<le> 127 \<Longrightarrow>
     length (concat (label_pieces ls)) \<le> 258 * length ls"
  by (induction ls rule: label_pieces.induct) (auto simp: label_text_def quoted_def)

lemma length_metric_head: "length (concat (metric_head n t k)) = 2 * length n + length t + length k + 18"
  by (simp add: metric_head_def text_line_def)

lemma counter_text_le:
  assumes "counter_wf c"
  shows "length (pieces_text (counter_pieces c)) \<le> 2800"
proof -
  have l: "length (concat (label_pieces (c_labels c))) \<le> 258 * 8" "length (c_name c) \<le> 127" "length (c_help c) \<le> 255"
    using assms length_label_pieces [of "c_labels c"] by (auto simp: counter_wf_def MAX_LABELS_def)
  have "length (concat (sample_pieces (c_name c) (c_labels c) v)) \<le> 127 + 258 * 8 + length v + 4" for v
    using l by (simp add: sample_pieces_def text_line_def)
  from this [of "dec_nat (unat (c_value c))"] show ?thesis
    using l length_dec_u64 [of "c_value c"] by (simp add: counter_pieces_def length_metric_head)
qed

lemma gauge_text_le:
  assumes "gauge_wf g"
  shows "length (pieces_text (gauge_pieces g)) \<le> 2800"
  using assms length_dec_s64 [of "g_value g"]
  by (simp add: gauge_wf_def gauge_pieces_def length_metric_head sample_pieces_def text_line_def)

lemma length_le_str:
  assumes "b \<in> set default_buckets"
  shows "length (le_str b) \<le> 6"
proof (cases b)
  case (Some u)
  then obtain k where k: "k \<in> set bounds_us" "u = to_double (real k / 1000000)"
    using assms by (auto simp: default_buckets_us)
  then have "real k / 1000000 \<le> real 10" by (auto simp: bounds_us_def)
  from to_double_mono [OF this] have "u \<le> 10" using k(2) to_double_nat [of 10] by simp
  then have "round_even (u * 1000) \<le> round_even (of_int 10000)" by (intro round_even_mono) simp
  then have "round_even (u * 1000) \<le> 10000" by (simp only: round_even_of_int)
  then have "nat (round_even (u * 1000)) div 1000 \<le> 10000 div 1000" by (intro div_le_mono) simp
  then have "nat (round_even (u * 1000)) div 1000 \<le> 10" by simp
  then have "length (dec_nat (nat (round_even (u * 1000)) div 1000)) \<le> 2" by (intro length_dec_nat) simp_all
  then show ?thesis by (simp add: Some le_str_def fixed3_def pad3_def Let_def)
qed (simp add: le_str_def)

lemma length_concat_le: "\<forall>x\<in>set xs. length (f x) \<le> k \<Longrightarrow> length (concat (map f xs)) \<le> length xs * k"
  by (induction xs) auto

lemma histogram_text_le:
  assumes "histogram_wf h"
  shows "length (pieces_text (histogram_pieces h)) \<le> 2800"
proof -
  note wf = assms [unfolded histogram_wf_def]
  have n: "length (h_buckets h) = 10" using wf arg_cong [of _ _ length] by (fastforce simp: default_buckets_def)
  have "length (bucket_line (h_name h) [] [] b) \<le> 170" if "b \<in> set (h_buckets h)" for b
  proof -
    have "upper_bound b \<in> set default_buckets" using that wf by (metis image_eqI set_map)
    from length_le_str [OF this] length_dec_u64 [of "bucket_count b"] wf show ?thesis
      by (simp add: bucket_line_def text_line_def quoted_def)
  qed
  then have b: "length (concat (map (bucket_line (h_name h) [] []) (h_buckets h))) \<le> 10 * 170"
    using length_concat_le [of "h_buckets h"] n by metis
  have "pieces_text (histogram_pieces h) = concat (metric_head (h_name h) (h_help h) ''histogram'') @
      concat (map (bucket_line (h_name h) [] []) (h_buckets h)) @
      text_line (h_name h @ ''_sum'' @ '' '' @ dec_nat (unat (h_sum h))) @ text_line (h_name h @ ''_count'' @ '' '' @ dec_nat (unat (h_count h)))"
    using wf by (simp add: histogram_pieces_def label_str_def pieces_text_def comp_def)
  then show ?thesis using b wf length_dec_u64 [of "h_sum h"] length_dec_u64 [of "h_count h"]
    by (simp add: length_metric_head text_line_def)
qed

lemma object_text_le:
  assumes "heap_ok P h as" "\<And>x. P x \<Longrightarrow> length (pieces_text (f x)) \<le> 2800"
  shows "length (concat (map (object_text f h) as)) \<le> length as * 2800"
proof (rule length_concat_le, rule ballI)
  fix a assume "a \<in> set as"
  then obtain x where "at_address h a = Finished x" "P x" using heap_ok_all [OF assms(1)] by blast
  then show "length (object_text f h a) \<le> 2800" using assms(2) by (simp add: object_text_def)
qed

lemma metrics_text_le:
  assumes "prometheus_wf s"
  shows "length (metrics_text s) \<le> registered s * 2800"
  using assms object_text_le [of counter_wf "counter_heap s" "counters s" counter_pieces]
    object_text_le [of gauge_wf "gauge_heap s" "gauges s" gauge_pieces]
    object_text_le [of histogram_wf "histogram_heap s" "histograms s" histogram_pieces]
    counter_text_le gauge_text_le histogram_text_le
  by (simp add: metrics_text_def registered_def prometheus_wf_def algebra_simps)

section \<open>Properties\<close>

definition counter_of :: "metrics \<Rightarrow> counter_name \<Rightarrow> prometheus_counter_t outcome" where
  "counter_of m n = (case metric_counter m n of None \<Rightarrow> Undefined | Some a \<Rightarrow> at_address (counter_heap (prom m)) a)"

definition gauge_of :: "metrics \<Rightarrow> gauge_name \<Rightarrow> prometheus_gauge_t outcome" where
  "gauge_of m n = (case metric_gauge m n of None \<Rightarrow> Undefined | Some a \<Rightarrow> at_address (gauge_heap (prom m)) a)"

definition histogram_of :: "metrics \<Rightarrow> histogram_name \<Rightarrow> prometheus_histogram_t outcome" where
  "histogram_of m n = (case metric_histogram m n of None \<Rightarrow> Undefined | Some a \<Rightarrow> at_address (histogram_heap (prom m)) a)"

text \<open>
  C34. The metrics count what happened. After an initialisation that succeeds and any sequence of
  recorded events, every counter is the number of events that belong to it, modulo \<open>2\<^sup>6\<^sup>4\<close>, every gauge
  holds the value it was set to last, and every histogram has seen exactly the durations recorded for
  it. No event touches a metric that is not its own, and the abuse total counts the abuse events of
  every kind.
\<close>

theorem registry_counts_exact:
  assumes "metrics_registry_init alloc metrics_static = Finished (0, m)"
  shows "\<exists>m'. record_events es m = Finished m' \<and>
     (\<forall>n. \<exists>c. counter_of m' n = Finished c \<and> c_value c = of_nat (occurrences n es)) \<and>
     (\<forall>n. \<exists>g. gauge_of m' n = Finished g \<and> g_value g = of_int (gauge_after n es 0)) \<and>
     (\<forall>n. \<exists>h. histogram_of m' n = Finished h \<and> map bucket_count (h_buckets h) = counts_of (durations n es) \<and>
        h_count h = of_nat (length (durations n es)) \<and> h_sum h = sum_list (durations n es))"
proof -
  obtain m' where m': "record_events es m = Finished m'"
    "holds_values UNIV UNIV UNIV (bump (concat (map increments es)) (\<lambda>_. 0)) (\<lambda>n. of_int (gauge_after n es 0))
       (\<lambda>n. durations n es) m'"
    using record_events_values [of "\<lambda>_. 0" "\<lambda>_. 0" "\<lambda>_. []" m es] registry_init_fresh [OF assms] by auto
  note v = m'(2) [unfolded holds_values_def]
  have "\<exists>c. counter_of m' n = Finished c \<and> c_value c = of_nat (occurrences n es)" for n
    using points_to_get [of "metric_counter m'" _ UNIV _ n] v
    by (fastforce simp: counter_of_def bump_value occurrences_def)
  moreover have "\<exists>g. gauge_of m' n = Finished g \<and> g_value g = of_int (gauge_after n es 0)" for n
    using points_to_get [of "metric_gauge m'" _ UNIV _ n] v by (fastforce simp: gauge_of_def)
  moreover have "\<exists>h. histogram_of m' n = Finished h \<and> map bucket_count (h_buckets h) = counts_of (durations n es) \<and>
        h_count h = of_nat (length (durations n es)) \<and> h_sum h = sum_list (durations n es)" for n
    using points_to_get [of "metric_histogram m'" _ UNIV _ n] v by (fastforce simp: histogram_of_def observed_def)
  ultimately show ?thesis using m'(1) by blast
qed

text \<open>
  C35. The metrics page is always complete. After an initialisation that succeeds and any recorded events,
  a request for the page, when its two writes succeed, is answered with status 200 and the complete text
  of all metrics, whose length is the Content-Length: the text needs less than 60,000 of the 524,288
  bytes of the buffer, whatever the values of the counters.
\<close>

theorem metrics_page_complete:
  assumes "metrics_registry_init alloc metrics_static = Finished (0, m)" "record_events es m = Finished m'"
    "wr 0" "wr 1"
  shows "handle_metrics_request wr m' =
     Finished (0, [metrics_headers (int (length (metrics_text (prom m')))), metrics_text (prom m')]) \<and>
     length (metrics_text (prom m')) < 60000"
proof -
  have wf: "prometheus_wf (prom m')"
    using record_events_values [of "\<lambda>_. 0" "\<lambda>_. 0" "\<lambda>_. []" m es] registry_init_fresh [OF assms(1)] assms(2)
    by (auto simp: holds_values_def)
  have le: "length (metrics_text (prom m')) \<le> 58800"
    using metrics_text_le [OF wf] record_events_registered [OF assms(2)] registry_init_registered [OF assms(1)] by simp
  have "length (dec_nat (length (metrics_text (prom m')))) \<le> 5" using le by (intro length_dec_nat) simp_all
  then have "length (metrics_headers (int (length (metrics_text (prom m'))))) < 512"
    by (simp add: metrics_headers_def dec_int_def http_eol_def)
  moreover have "prometheus_export_text True METRICS_BUFFER_SIZE (prom m') =
      Finished (int (length (metrics_text (prom m'))), Some (metrics_text (prom m')))"
    using export_text_wf [OF wf, of METRICS_BUFFER_SIZE] le by (simp add: METRICS_BUFFER_SIZE_def)
  ultimately show ?thesis using assms(3,4) le by (simp add: handle_metrics_request_def)
qed

section \<open>Concrete runs\<close>

lemma create_ok: "registered (prom m) < MAX_METRICS \<Longrightarrow> fst (create True c m)"
  by (cases c) (auto simp: registered_def prometheus_counter_create_def prometheus_gauge_create_def prometheus_histogram_create_def)

lemma create_all_iff:
  "registered (prom m) + length cs \<le> MAX_METRICS \<Longrightarrow> fst (create_all alloc k cs m) \<longleftrightarrow> (\<forall>i<length cs. alloc (k + i))"
proof (induction cs arbitrary: k m)
  case (Cons c cs)
  obtain ok m1 where m1: "create (alloc k) c m = (ok, m1)" by fastforce
  have ok: "ok = alloc k"
  proof (cases "alloc k")
    case True
    then show ?thesis using create_ok [of m c] Cons.prems m1 by simp
  next
    case False
    then show ?thesis
      using m1 by (cases c) (auto simp: prometheus_counter_create_def prometheus_gauge_create_def prometheus_histogram_create_def split: if_splits)
  qed
  have all: "(\<forall>i<Suc n. alloc (k + i)) \<longleftrightarrow> alloc k \<and> (\<forall>i<n. alloc (Suc k + i))" for n
    by (simp add: All_less_Suc2)
  have "registered (prom m1) + length cs \<le> MAX_METRICS" if ok
    using Cons.prems create_registered [of "alloc k" c m m1] m1 that by simp
  then show ?case using Cons.IH [of m1 "Suc k"] m1 ok all [of "length cs"] by auto
qed simp

lemma all_less_add: "(\<forall>k<m + n. P k) \<longleftrightarrow> (\<forall>k<m. P k) \<and> (\<forall>k<n. P (m + k))" for m n :: nat
proof (intro iffI allI impI conjI)
  fix k assume "(\<forall>k<m. P k) \<and> (\<forall>k<n. P (m + k))" "k < m + n"
  then show "P k" by (cases "k < m") (auto dest: spec [of _ "k - m"])
qed auto

text \<open>The initialisation of the registry, with the 21 allocations it makes.\<close>

lemma registry_init_iff:
  "\<exists>m. metrics_registry_init alloc metrics_static = Finished (if \<forall>k<21. alloc k then 0 else - 1, m)"
proof -
  let ?m = "metrics_static\<lparr>prom := snd (prometheus_init (prom metrics_static))\<rparr>"
  have z: "registered (prom ?m) = 0" by (simp add: metrics_static_def prometheus_init_def registered_def)
  have len: "length creations_before_gauge = 11" "length creations_after_gauge = 10"
    by (simp_all add: creations_before_gauge_def creations_after_gauge_def)
  obtain ok1 m1 where m1: "create_all alloc 0 creations_before_gauge ?m = (ok1, m1)" by fastforce
  have ok1: "ok1 \<longleftrightarrow> (\<forall>k<11. alloc k)" using create_all_iff [of ?m creations_before_gauge alloc 0] z len m1 by (simp add: MAX_METRICS_def)
  show ?thesis
  proof (cases ok1)
    case False
    then have "\<not> (\<forall>k<21. alloc k)" using ok1 by auto
    then show ?thesis using m1 False by (simp add: metrics_registry_init_def prometheus_init_def)
  next
    case True
    have "fresh {} {} {} ?m"
      by (simp add: holds_values_def metrics_static_def prometheus_init_def points_to_def prometheus_wf_def heap_ok_def)
    then obtain m2 where m2: "on_prom (prometheus_gauge_set (metric_gauge m1 nats_connection_status) 0) m1 = Finished m2"
      using create_all_fresh [of alloc 0 creations_before_gauge ?m m1] m1 True
        gauge_set_values [of _ _ _ _ _ _ m1 nats_connection_status 0] by (fastforce simp: creations_before_gauge_def)
    have "registered (prom m2) = 11" using create_all_registered [of alloc 0 _ ?m m1] m1 True steps_registered(2) [OF m2] z len by simp
    moreover obtain ok3 m3 where m3: "create_all alloc 11 creations_after_gauge m2 = (ok3, m3)" by fastforce
    ultimately have "ok3 \<longleftrightarrow> (\<forall>k<10. alloc (11 + k))"
      using create_all_iff [of m2 creations_after_gauge alloc 11] len by (simp add: MAX_METRICS_def)
    moreover have "(\<forall>k<21. alloc k) \<longleftrightarrow> (\<forall>k<11. alloc k) \<and> (\<forall>k<10. alloc (11 + k))" by (rule all_less_add [of 11 10, simplified])
    ultimately show ?thesis using m1 m2 m3 True ok1 len by (simp add: metrics_registry_init_def prometheus_init_def)
  qed
qed

lemma registry_init_ok: "\<exists>m. metrics_registry_init (\<lambda>_. True) metrics_static = Finished (0, m)"
  using registry_init_iff [of "\<lambda>_. True"] by auto

theorem registry_counts_exact_witness:
  "\<exists>m m' c d. metrics_registry_init (\<lambda>_. True) metrics_static = Finished (0, m) \<and>
     record_events [Abuse_heavy_payload, HTTP_request 200 1500, Abuse_empty_payload] m = Finished m' \<and>
     counter_of m' abuse_events_total = Finished c \<and> c_value c = 2 \<and>
     counter_of m' abuse_heavy_payload_total = Finished d \<and> c_value d = 1"
proof -
  obtain m where m: "metrics_registry_init (\<lambda>_. True) metrics_static = Finished (0, m)" using registry_init_ok by blast
  have o: "occurrences abuse_events_total [Abuse_heavy_payload, HTTP_request 200 1500, Abuse_empty_payload] = 2"
    "occurrences abuse_heavy_payload_total [Abuse_heavy_payload, HTTP_request 200 1500, Abuse_empty_payload] = 1"
    by (simp_all add: occurrences_def)
  from registry_counts_exact [OF m, of "[Abuse_heavy_payload, HTTP_request 200 1500, Abuse_empty_payload]"] m o
  show ?thesis by (metis of_nat_1 of_nat_numeral)
qed

theorem metrics_page_complete_witness:
  "\<exists>m m' t. metrics_registry_init (\<lambda>_. True) metrics_static = Finished (0, m) \<and> record_events [NATS_sent] m = Finished m' \<and>
     handle_metrics_request (\<lambda>_. True) m' = Finished (0, [metrics_headers (int (length t)), t]) \<and> length t < 60000"
proof -
  obtain m where m: "metrics_registry_init (\<lambda>_. True) metrics_static = Finished (0, m)" using registry_init_ok by blast
  obtain m' where m': "record_events [NATS_sent] m = Finished m'"
    using record_events_values [of "\<lambda>_. 0" "\<lambda>_. 0" "\<lambda>_. []" m "[NATS_sent]"] registry_init_fresh [OF m] by auto
  from metrics_page_complete [OF m m', of "\<lambda>_. True"] m m' show ?thesis by blast
qed

text \<open>
  The clean-up frees the metrics and leaves the global pointers as they are: the next event that is
  recorded goes through a dangling pointer.
\<close>

definition all_registered :: "metrics \<Rightarrow> bool" where
  "all_registered m = (counters (prom m) = [0..<length (counter_heap (prom m))])"

lemma create_all_registered_heap: "create_all alloc k cs m = (ok, m') \<Longrightarrow> all_registered m \<Longrightarrow> all_registered m'"
proof (induction cs arbitrary: k m)
  case (Cons c cs)
  obtain ok1 m1 where c: "create (alloc k) c m = (ok1, m1)" by fastforce
  then have "all_registered m1" using Cons.prems(2)
    by (cases c) (auto simp: all_registered_def prometheus_counter_create_def prometheus_gauge_create_def
        prometheus_histogram_create_def split: if_splits)
  with Cons c show ?case by (cases ok1) auto
qed simp

lemma free_addresses_dangle: "a \<in> set as \<or> at_address h a = Undefined \<Longrightarrow> at_address (free_addresses as h) a = Undefined"
proof (induction as arbitrary: h)
  case (Cons b as)
  have "a \<in> set as \<or> at_address (h[b := None]) a = Undefined"
    using Cons.prems by (cases "a = b") (auto simp: at_address_def nth_list_update)
  from Cons.IH [OF this] show ?case by (simp add: free_addresses_def)
qed (simp add: free_addresses_def)

lemma registry_cleanup_dangles:
  assumes "metrics_registry_init alloc metrics_static = Finished (0, m)"
  shows "metrics_record_nats_sent (metrics_registry_cleanup m) = Undefined"
  using assms
proof (rule registry_init_stages)
  fix m1 m2
  assume m1: "create_all alloc 0 creations_before_gauge
       (metrics_static\<lparr>prom := snd (prometheus_init (prom metrics_static))\<rparr>) = (True, m1)"
    and m2: "on_prom (prometheus_gauge_set (metric_gauge m1 nats_connection_status) 0) m1 = Finished m2"
    and m: "create_all alloc (length creations_before_gauge) creations_after_gauge m2 = (True, m)"
  have "all_registered m1"
    by (rule create_all_registered_heap [OF m1]) (simp add: all_registered_def metrics_static_def prometheus_init_def)
  then have "all_registered m2" using m2
    by (auto simp: on_prom_def bind_Finished all_registered_def prometheus_gauge_set_def split: option.splits)
  from create_all_registered_heap [OF m this] have reg: "counters (prom m) = [0..<length (counter_heap (prom m))]"
    by (simp add: all_registered_def)
  obtain a where a: "metric_counter m nats_messages_sent_total = Some a" "a < length (counter_heap (prom m))"
    using registry_init_fresh [OF assms] points_to_get [of "metric_counter m" _ UNIV _ nats_messages_sent_total]
    by (fastforce simp: holds_values_def at_address_Finished)
  then have "at_address (free_addresses (counters (prom m)) (counter_heap (prom m))) a = Undefined"
    using reg by (intro free_addresses_dangle) simp
  then show ?thesis using a
    by (simp add: metrics_record_nats_sent_def count_def on_prom_def prometheus_counter_inc_def metrics_registry_cleanup_def
        prometheus_cleanup_def)
qed

end
