(* ===== verification/Health.thy ===== *)
theory Health
  imports Gateway_Prelude Flow_Control
begin

text \<open>
  The health checks (\<open>health_check.c\<close>) and the checks the gateway registers (\<open>gateway_health.c\<close>). A
  registered check is a function of the environment \<open>'e\<close> it looks at; the environment of the gateway's
  own checks is the NATS connection state and the file system. The socket calls are parameters, and an
  answer is the list of texts written to the connection.
\<close>

section \<open>Checks\<close>

datatype health_status_t = HEALTH_STATUS_HEALTHY | HEALTH_STATUS_DEGRADED | HEALTH_STATUS_UNHEALTHY

record health_result_t =
  hr_status :: health_status_t
  hr_message :: string

record 'e registered_check_t =
  check_name :: string
  check_fn :: "'e \<Rightarrow> int"
  critical :: int

record 'e health =
  checks :: "'e registered_check_t list"
  health_port :: u16
  server_fd :: int
  running :: bool

definition g_health :: "'e health" where
  "g_health = \<lparr>checks = [], health_port = 8080, server_fd = - 1, running = False\<rparr>"

definition MAX_CHECKS :: nat where "MAX_CHECKS = 32"

definition health_check_init :: "u16 \<Rightarrow> 'e health \<Rightarrow> int \<times> 'e health" where
  "health_check_init port h = (0, h\<lparr>health_port := port, checks := []\<rparr>)"

definition health_check_register :: "string option \<Rightarrow> ('e \<Rightarrow> int) option \<Rightarrow> int \<Rightarrow> 'e health \<Rightarrow> int \<times> 'e health" where
  "health_check_register name fn crit h =
     (case (name, fn) of
        (Some n, Some f) \<Rightarrow>
          if length (checks h) \<ge> MAX_CHECKS then (- 1, h)
          else (0, h\<lparr>checks := checks h @ [\<lparr>check_name = c_copy 64 n, check_fn = f, critical = crit\<rparr>]\<rparr>)
      | _ \<Rightarrow> (- 1, h))"

text \<open>
  The loops: the number of failing critical checks, and of failing checks that are not critical. The two
  queries are modelled for a result pointer that is not null; with a null pointer they return -1 at once.
\<close>

fun run_checks :: "'e \<Rightarrow> 'e registered_check_t list \<Rightarrow> int \<times> int \<Rightarrow> int \<times> int" where
  "run_checks e [] (failed, degraded) = (failed, degraded)"
| "run_checks e (c # cs) (failed, degraded) =
     (if check_fn c e \<noteq> 0
      then if critical c \<noteq> 0 then run_checks e cs (failed + 1, degraded) else run_checks e cs (failed, degraded + 1)
      else run_checks e cs (failed, degraded))"

definition health_check_get_status :: "'e \<Rightarrow> 'e health \<Rightarrow> health_result_t" where
  "health_check_get_status e h =
     (let (failed, degraded) = run_checks e (checks h) (0, 0) in
      if failed > 0 then
        \<lparr>hr_status = HEALTH_STATUS_UNHEALTHY, hr_message = c_copy 256 (''Critical checks failed: '' @ dec_int failed)\<rparr>
      else if degraded > 0 then
        \<lparr>hr_status = HEALTH_STATUS_DEGRADED, hr_message = c_copy 256 (''Non-critical checks failed: '' @ dec_int degraded)\<rparr>
      else \<lparr>hr_status = HEALTH_STATUS_HEALTHY, hr_message = c_copy 256 ''All checks passing''\<rparr>)"

fun run_critical :: "'e \<Rightarrow> 'e registered_check_t list \<Rightarrow> int \<Rightarrow> int" where
  "run_critical e [] failed = failed"
| "run_critical e (c # cs) failed =
     (if critical c \<noteq> 0 \<and> check_fn c e \<noteq> 0 then run_critical e cs (failed + 1) else run_critical e cs failed)"

definition health_check_get_readiness :: "'e \<Rightarrow> 'e health \<Rightarrow> health_result_t" where
  "health_check_get_readiness e h =
     (let failed = run_critical e (checks h) 0 in
      if failed > 0 then
        \<lparr>hr_status = HEALTH_STATUS_UNHEALTHY,
         hr_message = c_copy 256 (''Not ready: '' @ dec_int failed @ '' critical checks failing'')\<rparr>
      else \<lparr>hr_status = HEALTH_STATUS_HEALTHY, hr_message = c_copy 256 ''Ready''\<rparr>)"

section \<open>The HTTP endpoints\<close>

definition eol :: string where "eol = [CHR 0x0D, CHR 0x0A]"

definition in_quotes :: "string \<Rightarrow> string" where "in_quotes t = [CHR 0x22] @ t @ [CHR 0x22]"

definition not_found_response :: string where
  "not_found_response = ''HTTP/1.1 404 Not Found'' @ eol @ ''Content-Type: text/plain'' @ eol @
     ''Content-Length: 9'' @ eol @ eol @ ''Not Found''"

definition status_str :: "health_status_t \<Rightarrow> string" where
  "status_str s = (case s of HEALTH_STATUS_HEALTHY \<Rightarrow> ''healthy'' | HEALTH_STATUS_DEGRADED \<Rightarrow> ''degraded''
     | HEALTH_STATUS_UNHEALTHY \<Rightarrow> ''unhealthy'')"

text \<open>The \<open>snprintf\<close> of the body into 512 bytes; \<open>body_len\<close> is the length it would have had.\<close>

definition health_body :: "health_result_t \<Rightarrow> string" where
  "health_body r = ''{'' @ in_quotes ''status'' @ '':'' @ in_quotes (status_str (hr_status r)) @ '','' @
     in_quotes ''message'' @ '':'' @ in_quotes (hr_message r) @ ''}'' @ [CHR 0x0A]"

definition health_response :: "int \<Rightarrow> health_result_t \<Rightarrow> string" where
  "health_response http_status r = c_copy 4096
     (''HTTP/1.1 '' @ dec_int http_status @ '' '' @ (if http_status = 200 then ''OK'' else ''Service Unavailable'') @ eol @
      ''Content-Type: application/json'' @ eol @
      ''Content-Length: '' @ dec_nat (length (health_body r)) @ eol @ eol @ c_copy 512 (health_body r))"

definition handle_health_request :: "'e \<Rightarrow> 'e health \<Rightarrow> string \<Rightarrow> string list" where
  "handle_health_request e h path =
     (if path = ''/health'' then
        [health_response 200 \<lparr>hr_status = HEALTH_STATUS_HEALTHY, hr_message = c_copy 256 ''Alive''\<rparr>]
      else if path = ''/ready'' then
        (let r = health_check_get_readiness e h in
         [health_response (if hr_status r \<noteq> HEALTH_STATUS_HEALTHY then 503 else 200) r])
      else [not_found_response])"

text \<open>\<open>%<w>s\<close> of \<open>sscanf\<close>: white space is skipped, then up to \<open>w\<close> other characters are read.\<close>

definition scan_word :: "nat \<Rightarrow> string \<Rightarrow> (string \<times> string) option" where
  "scan_word w s =
     (let t = dropWhile is_space s; x = take w (takeWhile (\<lambda>c. \<not> is_space c) t) in
      if x = [] then None else Some (x, drop (length x) t))"

text \<open>
  One turn of the server loop after a connection was accepted: what is written for a request of which
  \<open>read\<close> returned the given text (empty when it returned no bytes). The text ends at its first NUL.
\<close>

definition health_serve :: "'e \<Rightarrow> 'e health \<Rightarrow> string \<Rightarrow> string list" where
  "health_serve e h received =
     (let request = takeWhile (\<lambda>c. c \<noteq> CHR 0x00) (take 4095 received) in
      case scan_word 15 request of None \<Rightarrow> [] | Some (meth, r1) \<Rightarrow>
      (case scan_word 255 r1 of None \<Rightarrow> [] | Some (path, r2) \<Rightarrow>
      (case scan_word 15 r2 of None \<Rightarrow> [] | Some (version, r3) \<Rightarrow>
        if meth = ''GET'' then handle_health_request e h path else [])))"

text \<open>The results of the socket and thread calls when the server starts, and the closes it makes.\<close>

record server_calls =
  sc_socket :: int
  sc_bind :: bool
  sc_listen :: bool
  sc_thread :: bool

definition health_check_start_server :: "server_calls \<Rightarrow> 'e health \<Rightarrow> int \<times> int list \<times> 'e health" where
  "health_check_start_server sc h =
     (let h1 = h\<lparr>server_fd := sc_socket sc\<rparr> in
      if sc_socket sc < 0 then (- 1, [], h1)
      else if \<not> sc_bind sc then (- 1, [sc_socket sc], h1)
      else if \<not> sc_listen sc then (- 1, [sc_socket sc], h1)
      else let h2 = h1\<lparr>running := True\<rparr> in
        if \<not> sc_thread sc then (- 1, [sc_socket sc], h2) else (0, [], h2))"

text \<open>The closed descriptors and whether the server thread is joined.\<close>

definition health_check_stop_server :: "'e health \<Rightarrow> int list \<times> bool \<times> 'e health" where
  "health_check_stop_server h =
     (if running h then
        (if server_fd h \<ge> 0 then ([server_fd h], True, h\<lparr>running := False, server_fd := - 1\<rparr>)
         else ([], True, h\<lparr>running := False\<rparr>))
      else ([], False, h))"

definition health_check_shutdown :: "'e health \<Rightarrow> int list \<times> bool \<times> 'e health" where
  "health_check_shutdown h = health_check_stop_server h"

section \<open>The checks of the gateway\<close>

text \<open>
  What the checks see when they run: the two globals of the file, the object behind the handle of the
  NATS connection, and whether \<open>stat\<close> finds a file.
\<close>

record gateway_env =
  g_nats_resilience :: "nat option"
  g_ipc_socket_path :: "string option"
  resilience_at :: "nat \<Rightarrow> nats_resilience_t"
  stat_finds :: "string \<Rightarrow> bool"

definition gateway_health_set_nats :: "nat option \<Rightarrow> gateway_env \<Rightarrow> gateway_env" where
  "gateway_health_set_nats r e = e\<lparr>g_nats_resilience := r\<rparr>"

definition gateway_health_set_ipc_socket :: "string option \<Rightarrow> gateway_env \<Rightarrow> gateway_env" where
  "gateway_health_set_ipc_socket p e = e\<lparr>g_ipc_socket_path := p\<rparr>"

definition gateway_health_check_nats :: "gateway_env \<Rightarrow> int" where
  "gateway_health_check_nats e =
     (case g_nats_resilience e of None \<Rightarrow> - 1
      | Some r \<Rightarrow>
          let state = nats_resilience_get_state (Some (resilience_at e r)) in
          if state = NATS_STATE_CONNECTED \<or> state = NATS_STATE_DEGRADED then 0 else - 1)"

definition gateway_health_check_ipc :: "gateway_env \<Rightarrow> int" where
  "gateway_health_check_ipc e =
     (case g_ipc_socket_path e of None \<Rightarrow> - 1 | Some p \<Rightarrow> if stat_finds e p then 0 else - 1)"

definition gateway_health_init ::
  "server_calls \<Rightarrow> u16 \<Rightarrow> nat option \<Rightarrow> string option \<Rightarrow> gateway_env \<Rightarrow> gateway_env health \<Rightarrow>
   int \<times> gateway_env \<times> gateway_env health" where
  "gateway_health_init sc port resilience path e h =
     (let (rc0, h0) = health_check_init port h in
      if rc0 \<noteq> 0 then (- 1, e, h0)
      else let e1 = gateway_health_set_ipc_socket path (gateway_health_set_nats resilience e);
               (rc1, h1) = health_check_register (Some ''nats_connection'') (Some gateway_health_check_nats) 1 h0 in
      if rc1 \<noteq> 0 then (- 1, e1, h1)
      else let (rc2, h2) = health_check_register (Some ''ipc_server'') (Some gateway_health_check_ipc) 1 h1 in
      if rc2 \<noteq> 0 then (- 1, e1, h2)
      else let (rc3, closed, h3) = health_check_start_server sc h2 in
      if rc3 \<noteq> 0 then (- 1, e1, h3) else (0, e1, h3))"

definition gateway_health_shutdown :: "gateway_env health \<Rightarrow> int list \<times> bool \<times> gateway_env health" where
  "gateway_health_shutdown h = health_check_shutdown h"

section \<open>Lemmas\<close>

lemma run_checks_count:
  "run_checks e cs (f, d) =
     (f + int (length (filter (\<lambda>c. critical c \<noteq> 0 \<and> check_fn c e \<noteq> 0) cs)),
      d + int (length (filter (\<lambda>c. critical c = 0 \<and> check_fn c e \<noteq> 0) cs)))"
  by (induction cs arbitrary: f d) auto

lemma run_critical_count:
  "run_critical e cs f = f + int (length (filter (\<lambda>c. critical c \<noteq> 0 \<and> check_fn c e \<noteq> 0) cs))"
  by (induction cs arbitrary: f) auto

lemma length_health_response:
  assumes "length (hr_message r) \<le> 255"
  shows "length (health_body r) < 512"
  using assms by (cases "hr_status r") (simp_all add: health_body_def status_str_def in_quotes_def)

lemma readiness_message: "length (hr_message (health_check_get_readiness e h)) \<le> 255"
  by (simp add: health_check_get_readiness_def Let_def)

text \<open>A response carries its whole body and its length.\<close>

lemma health_response_whole:
  assumes "length (hr_message r) \<le> 255" "s = 200 \<or> s = 503"
  shows "health_response s r = ''HTTP/1.1 '' @ dec_int s @ '' '' @ (if s = 200 then ''OK'' else ''Service Unavailable'') @ eol @
      ''Content-Type: application/json'' @ eol @
      ''Content-Length: '' @ dec_nat (length (health_body r)) @ eol @ eol @ health_body r"
proof -
  have "length (health_body r) < 512" by (rule length_health_response [OF assms(1)])
  moreover from this have "length (dec_nat (length (health_body r))) \<le> 3" by (intro length_dec_nat) simp_all
  moreover have "length (dec_int s) \<le> 3" using assms(2) by (auto simp: dec_int_def dec_nat.simps)
  ultimately show ?thesis unfolding health_response_def by (subst c_copy_id) (auto simp: eol_def)
qed

lemma scan_word_exact:
  assumes "x \<noteq> []" "length x \<le> w" "\<forall>c\<in>set x. \<not> is_space c"
  shows "scan_word w (x @ CHR '' '' # s) = Some (x, CHR '' '' # s)"
proof -
  have "is_space (CHR '' '')" by (simp add: is_space_def)
  moreover have "\<not> is_space (hd x)" using assms(1,3) by simp
  then have "dropWhile is_space (x @ CHR '' '' # s) = x @ CHR '' '' # s"
    using assms(1) by (cases x) auto
  moreover have "takeWhile (\<lambda>c. \<not> is_space c) (x @ CHR '' '' # s) = x"
    using assms(3) \<open>is_space (CHR '' '')\<close> by (subst takeWhile_append2) auto
  ultimately show ?thesis using assms(1,2) by (cases x) (simp_all add: scan_word_def Let_def)
qed

lemma health_serve_get:
  assumes "path \<noteq> []" "length path \<le> 255" "\<forall>c\<in>set path. \<not> is_space c \<and> c \<noteq> CHR 0x00" "\<not> is_space v" "v \<noteq> CHR 0x00"
  shows "health_serve e h (''GET '' @ path @ '' '' @ v # rest) = handle_health_request e h path"
proof -
  let ?pre = "''GET '' @ path @ '' '' @ [v]"
  let ?t = "takeWhile (\<lambda>c. c \<noteq> CHR 0x00) (take (4095 - length ?pre) rest)"
  have "\<forall>c\<in>set ?pre. c \<noteq> CHR 0x00" using assms(3,5) by auto
  then have "takeWhile (\<lambda>c. c \<noteq> CHR 0x00) (?pre @ take (4095 - length ?pre) rest) = ?pre @ ?t"
    by (subst takeWhile_append2) auto
  moreover have "take 4095 (''GET '' @ path @ '' '' @ v # rest) = ?pre @ take (4095 - length ?pre) rest"
    using assms(2) take_append [of 4095 ?pre rest] by simp
  ultimately have req: "takeWhile (\<lambda>c. c \<noteq> CHR 0x00) (take 4095 (''GET '' @ path @ '' '' @ v # rest)) =
      ''GET'' @ CHR '' '' # (path @ CHR '' '' # v # ?t)" by simp
  have 1: "scan_word 15 (''GET'' @ CHR '' '' # (path @ CHR '' '' # v # ?t)) = Some (''GET'', CHR '' '' # path @ CHR '' '' # v # ?t)"
    by (rule scan_word_exact) (simp_all add: is_space_def)
  have sp: "scan_word k (CHR '' '' # u) = scan_word k u" for k u by (simp add: scan_word_def is_space_def)
  have 2: "scan_word 255 (CHR '' '' # path @ CHR '' '' # v # ?t) = Some (path, CHR '' '' # v # ?t)"
    unfolding sp using assms(1-3) by (intro scan_word_exact) auto
  obtain x y where 3: "scan_word 15 (CHR '' '' # v # ?t) = Some (x, y)"
    unfolding sp using assms(4) by (auto simp: scan_word_def Let_def)
  show ?thesis by (simp add: health_serve_def req [simplified] 1 [simplified] 2 [simplified] 3 [simplified])
qed

section \<open>Properties\<close>

text \<open>
  The overall status is decided by the checks alone: it is unhealthy exactly when a critical check
  fails, degraded exactly when no critical check fails and another one does, and healthy exactly when
  every check passes; the message gives the number of the checks that decided.
\<close>

theorem health_status_exact:
  "health_check_get_status e h =
     (let crit = length (filter (\<lambda>c. critical c \<noteq> 0 \<and> check_fn c e \<noteq> 0) (checks h));
          other = length (filter (\<lambda>c. critical c = 0 \<and> check_fn c e \<noteq> 0) (checks h)) in
      if 0 < crit then
        \<lparr>hr_status = HEALTH_STATUS_UNHEALTHY, hr_message = c_copy 256 (''Critical checks failed: '' @ dec_nat crit)\<rparr>
      else if 0 < other then
        \<lparr>hr_status = HEALTH_STATUS_DEGRADED, hr_message = c_copy 256 (''Non-critical checks failed: '' @ dec_nat other)\<rparr>
      else \<lparr>hr_status = HEALTH_STATUS_HEALTHY, hr_message = ''All checks passing''\<rparr>)"
  by (simp add: health_check_get_status_def run_checks_count dec_int_def Let_def)

text \<open>
  C36. What a probe learns about the gateway. After a successful initialisation with a NATS handle and a
  socket path, in whatever state the connection and the file system are when the probe comes, a
  \<open>GET /ready\<close> is answered with 200 and \<open>Ready\<close> exactly when the connection is connected or degraded
  and the socket file exists, and with 503 and the number of failing checks otherwise; a \<open>GET /health\<close>
  is always answered with 200. Each response carries its whole body and the body's length.
\<close>

theorem health_probes:
  assumes "gateway_health_init sc port (Some r) (Some p) e0 h0 = (0, e1, h)"
    "g_nats_resilience e = g_nats_resilience e1" "g_ipc_socket_path e = g_ipc_socket_path e1"
    "\<not> is_space v" "v \<noteq> CHR 0x00"
  shows "let nats_ok = res_state (resilience_at e r) \<in> {NATS_STATE_CONNECTED, NATS_STATE_DEGRADED};
             failing = (if nats_ok then 0 else 1) + (if stat_finds e p then 0 else 1);
             response = (\<lambda>line status message. ''HTTP/1.1 '' @ line @ eol @ ''Content-Type: application/json'' @ eol @
               ''Content-Length: '' @ dec_nat (length (health_body \<lparr>hr_status = status, hr_message = message\<rparr>)) @ eol @ eol @
               health_body \<lparr>hr_status = status, hr_message = message\<rparr>)
         in health_serve e h (''GET /ready '' @ v # rest) =
              [if nats_ok \<and> stat_finds e p then response ''200 OK'' HEALTH_STATUS_HEALTHY ''Ready''
               else response ''503 Service Unavailable'' HEALTH_STATUS_UNHEALTHY
                      (''Not ready: '' @ dec_nat failing @ '' critical checks failing'')] \<and>
            health_serve e h (''GET /health '' @ v # rest) = [response ''200 OK'' HEALTH_STATUS_HEALTHY ''Alive'']"
proof -
  have cs: "checks h = [\<lparr>check_name = ''nats_connection'', check_fn = gateway_health_check_nats, critical = 1\<rparr>,
      \<lparr>check_name = ''ipc_server'', check_fn = gateway_health_check_ipc, critical = 1\<rparr>]"
    and e: "g_nats_resilience e = Some r" "g_ipc_socket_path e = Some p"
    using assms(1-3)
    by (auto simp: gateway_health_init_def health_check_init_def health_check_register_def health_check_start_server_def
        gateway_health_set_nats_def gateway_health_set_ipc_socket_def MAX_CHECKS_def Let_def split: if_splits)
  let ?ok = "res_state (resilience_at e r) \<in> {NATS_STATE_CONNECTED, NATS_STATE_DEGRADED}"
  let ?n = "(if ?ok then 0 else 1) + (if stat_finds e p then 0 else 1) :: nat"
  have run: "run_critical e (checks h) 0 = int ?n"
    by (auto simp: cs gateway_health_check_nats_def gateway_health_check_ipc_def nats_resilience_get_state_def e Let_def)
  have short: "dec_nat 2 = ''2''" "dec_nat (Suc (Suc 0)) = ''2''" "dec_nat 1 = ''1''" "dec_nat (Suc 0) = ''1''"
    by (simp_all add: dec_nat.simps flip: numeral_2_eq_2)
  have ready: "health_check_get_readiness e h = (if ?n = 0 then \<lparr>hr_status = HEALTH_STATUS_HEALTHY, hr_message = ''Ready''\<rparr>
      else \<lparr>hr_status = HEALTH_STATUS_UNHEALTHY, hr_message = ''Not ready: '' @ dec_nat ?n @ '' critical checks failing''\<rparr>)"
    by (auto simp: health_check_get_readiness_def run dec_int_def short Let_def)
  have digits: "dec_int 200 = ''200''" "dec_int 503 = ''503''" by (simp_all add: dec_int_def dec_nat.simps)
  have "health_serve e h (''GET '' @ ''/ready'' @ '' '' @ v # rest) = handle_health_request e h ''/ready''"
    using assms(4,5) by (intro health_serve_get) (auto simp: is_space_def)
  moreover have "health_serve e h (''GET '' @ ''/health'' @ '' '' @ v # rest) = handle_health_request e h ''/health''"
    using assms(4,5) by (intro health_serve_get) (auto simp: is_space_def)
  ultimately show ?thesis
    by (auto simp: handle_health_request_def ready health_response_whole digits short Let_def)
qed

theorem health_probes_witness:
  "let h = snd (snd (gateway_health_init \<lparr>sc_socket = 3, sc_bind = True, sc_listen = True, sc_thread = True\<rparr> 8080 (Some 1) (Some ''/s'')
             \<lparr>g_nats_resilience = None, g_ipc_socket_path = None, resilience_at = \<lambda>_. demo_resilience, stat_finds = \<lambda>_. True\<rparr> g_health));
       e = \<lparr>g_nats_resilience = Some 1, g_ipc_socket_path = Some ''/s'',
            resilience_at = \<lambda>_. demo_resilience\<lparr>res_state := NATS_STATE_RECONNECTING\<rparr>, stat_finds = \<lambda>_. True\<rparr>
   in take 32 (hd (health_serve e h ''GET /ready HTTP/1.1'')) = ''HTTP/1.1 503 Service Unavailable''"
proof -
  let ?e0 = "\<lparr>g_nats_resilience = None, g_ipc_socket_path = None, resilience_at = \<lambda>_. demo_resilience, stat_finds = \<lambda>_. True\<rparr>"
  let ?r = "gateway_health_init \<lparr>sc_socket = 3, sc_bind = True, sc_listen = True, sc_thread = True\<rparr> 8080 (Some 1) (Some ''/s'') ?e0 g_health"
  have "?r = (0, ?e0\<lparr>g_nats_resilience := Some 1, g_ipc_socket_path := Some ''/s''\<rparr>, snd (snd ?r))"
    by (simp add: gateway_health_init_def health_check_init_def health_check_register_def health_check_start_server_def
        gateway_health_set_nats_def gateway_health_set_ipc_socket_def MAX_CHECKS_def g_health_def)
  from health_probes [OF this, of "\<lparr>g_nats_resilience = Some 1, g_ipc_socket_path = Some ''/s'',
      resilience_at = \<lambda>_. demo_resilience\<lparr>res_state := NATS_STATE_RECONNECTING\<rparr>, stat_finds = \<lambda>_. True\<rparr>" "CHR ''H''" "''TTP/1.1''"]
  show ?thesis by (simp add: is_space_def Let_def)
qed

text \<open>
  When the thread cannot be created the start fails with the socket closed, but the state still says
  that the server runs: a later stop closes the descriptor a second time and joins a thread that does
  not exist.
\<close>

lemma failed_start_then_stop:
  assumes "0 \<le> fd" "health_check_start_server \<lparr>sc_socket = fd, sc_bind = True, sc_listen = True, sc_thread = False\<rparr> h = (rc, closed, h')"
  shows "rc = - 1 \<and> closed = [fd] \<and> fst (health_check_stop_server h') = [fd] \<and> fst (snd (health_check_stop_server h'))"
  using assms by (auto simp: health_check_start_server_def health_check_stop_server_def Let_def)

end
