(* ===== verification/Audit_Log.thy ===== *)
theory Audit_Log
  imports Gateway_Prelude
begin

text \<open>
  The audit log (\<open>audit_log.c\<close>): entries appended to a file and replayed from it. The file system is a
  map from names to contents; a stream is the name it was opened under. Whether \<open>calloc\<close>, \<open>malloc\<close>,
  \<open>fopen\<close> and \<open>rename\<close> succeed, the clock, and how many bytes of an entry reach the file are parameters.
  The time stamp is stored in the byte order of the machine, which is little-endian.
\<close>

type_synonym files = "string \<Rightarrow> bytes option"

record audit_entry_t =
  timestamp_ms :: u64
  msg_type :: u32
  payload_len :: u32
  payload :: bytes

record audit_log =
  log_fp :: "string option"
  log_path :: string
  entry_count :: u64

definition host_bytes :: "u64 \<Rightarrow> bytes" where
  "host_bytes w = [ucast w, ucast (drop_bit 8 w), ucast (drop_bit 16 w), ucast (drop_bit 24 w),
     ucast (drop_bit 32 w), ucast (drop_bit 40 w), ucast (drop_bit 48 w), ucast (drop_bit 56 w)]"

fun host_u64 :: "bytes \<Rightarrow> u64" where
  "host_u64 (a # b # c # d # e # f # g # h # _) =
     (ucast a OR push_bit 8 (ucast b) OR push_bit 16 (ucast c) OR push_bit 24 (ucast d) OR
      push_bit 32 (ucast e) OR push_bit 40 (ucast f) OR push_bit 48 (ucast g) OR push_bit 56 (ucast h))"
| "host_u64 _ = 0"

text \<open>\<open>get_timestamp_ms\<close> of the seconds and nanoseconds of the clock.\<close>

definition get_timestamp_ms :: "u64 \<Rightarrow> u64 \<Rightarrow> u64" where
  "get_timestamp_ms sec nsec = sec * 1000 + nsec div 1000000"

text \<open>Opening for appending creates the file if it does not exist.\<close>

definition open_append :: "string \<Rightarrow> files \<Rightarrow> files" where
  "open_append p fs = (case fs p of None \<Rightarrow> fs(p \<mapsto> []) | Some _ \<Rightarrow> fs)"

definition audit_log_open :: "bool \<Rightarrow> bool \<Rightarrow> string option \<Rightarrow> files \<Rightarrow> audit_log option \<times> files" where
  "audit_log_open alloc fopen_ok path fs =
     (case path of None \<Rightarrow> (None, fs)
      | Some p \<Rightarrow>
          if \<not> alloc then (None, fs)
          else if \<not> fopen_ok then (None, fs)
          else (Some \<lparr>log_fp = Some p, log_path = c_copy 256 p, entry_count = 0\<rparr>, open_append p fs))"

text \<open>The stream that is closed, if any; the log is freed.\<close>

definition audit_log_close :: "audit_log option \<Rightarrow> string option" where
  "audit_log_close log = (case log of None \<Rightarrow> None | Some l \<Rightarrow> log_fp l)"

definition entry_bytes :: "u64 \<Rightarrow> u32 \<Rightarrow> bytes \<Rightarrow> bytes" where
  "entry_bytes ts ty p = host_bytes ts @ htonl_bytes ty @ htonl_bytes (of_nat (length p)) @ p"

text \<open>
  A write, with the clock's reading \<open>ts\<close>, of which the first \<open>reach\<close> bytes arrive in the file. The
  results of \<open>fwrite\<close> and \<open>fflush\<close> are not looked at. Writing through a null stream is undefined.
\<close>

definition audit_log_write ::
  "u64 \<Rightarrow> nat \<Rightarrow> audit_log option \<Rightarrow> u32 \<Rightarrow> bytes option \<Rightarrow> files \<Rightarrow> (int \<times> audit_log option \<times> files) outcome" where
  "audit_log_write ts reach log ty pl fs =
     (case (log, pl) of
        (Some l, Some p) \<Rightarrow>
          if p = [] then Finished (- 1, log, fs)
          else (case log_fp l of
                  None \<Rightarrow> Undefined
                | Some f \<Rightarrow>
                    Finished (0, Some (l\<lparr>entry_count := entry_count l + 1\<rparr>),
                      fs(f := Some ((case fs f of Some c \<Rightarrow> c | None \<Rightarrow> []) @ take reach (entry_bytes ts ty p)))))
      | _ \<Rightarrow> Finished (- 1, log, fs))"

text \<open>
  The replay loop over the contents of the file. The buffer has \<open>payload_len + 1\<close> bytes, computed in 32
  bits: with the largest length it has none, and reading into it is undefined as soon as a byte follows.
\<close>

function replay_loop ::
  "(u32 \<Rightarrow> bool) \<Rightarrow> (audit_entry_t \<Rightarrow> 'u \<Rightarrow> int \<times> 'u) \<Rightarrow> bytes \<Rightarrow> nat \<Rightarrow> 'u \<Rightarrow> (nat \<times> 'u) outcome" where
  "replay_loop alloc callback bs n u =
     (if length bs < 8 then Finished (n, u)
      else let r1 = drop 8 bs in
      if length r1 < 4 then Finished (n, u)
      else let r2 = drop 4 r1 in
      if length r2 < 4 then Finished (n, u)
      else let len = ntohl_bytes r2; r3 = drop 4 r2 in
      if \<not> alloc (len + 1) then Finished (n, u)
      else if len + 1 = 0 \<and> r3 \<noteq> [] then Undefined
      else if length r3 < unat len then Finished (n, u)
      else let (rc, u1) = callback \<lparr>timestamp_ms = host_u64 bs, msg_type = ntohl_bytes r1, payload_len = len,
                                    payload = take (unat len) r3\<rparr> u in
        if rc \<noteq> 0 then Finished (n + 1, u1)
        else replay_loop alloc callback (drop (unat len) r3) (n + 1) u1)"
  by pat_completeness auto
termination
  by (relation "measure (\<lambda>(alloc, callback, bs, n, u). length bs)") auto

definition audit_log_replay ::
  "(u32 \<Rightarrow> bool) \<Rightarrow> audit_log option \<Rightarrow> (audit_entry_t \<Rightarrow> 'u \<Rightarrow> int \<times> 'u) option \<Rightarrow> 'u \<Rightarrow> files \<Rightarrow> (int \<times> 'u) outcome" where
  "audit_log_replay alloc log callback u fs =
     (case (log, callback) of
        (Some l, Some cb) \<Rightarrow>
          (case fs (log_path l) of
             None \<Rightarrow> Finished (- 1, u)
           | Some bs \<Rightarrow> bind_outcome (replay_loop alloc cb bs 0 u) (\<lambda>(n, u1). Finished (int n, u1)))
      | _ \<Rightarrow> Finished (- 1, u))"

definition audit_log_rotate ::
  "bool \<Rightarrow> bool \<Rightarrow> audit_log option \<Rightarrow> string option \<Rightarrow> files \<Rightarrow> int \<times> audit_log option \<times> files" where
  "audit_log_rotate rename_ok fopen_ok log suffix fs =
     (case (log, suffix) of
        (Some l, Some x) \<Rightarrow>
          (let rotated = c_copy 512 (log_path l @ ''.'' @ x);
               fs1 = (if rename_ok then (case fs (log_path l) of
                        Some c \<Rightarrow> (fs(log_path l := None))(rotated \<mapsto> c) | None \<Rightarrow> fs) else fs) in
           if \<not> fopen_ok then (- 1, Some (l\<lparr>log_fp := None\<rparr>), fs1)
           else (0, Some (l\<lparr>log_fp := Some (log_path l)\<rparr>), open_append (log_path l) fs1))
      | _ \<Rightarrow> (- 1, log, fs))"

section \<open>Specification\<close>

text \<open>Writes that reach the file completely, one after the other.\<close>

fun write_all :: "(u64 \<times> u32 \<times> bytes) list \<Rightarrow> audit_log option \<Rightarrow> files \<Rightarrow> (audit_log option \<times> files) outcome" where
  "write_all [] log fs = Finished (log, fs)"
| "write_all ((ts, ty, p) # ws) log fs =
     bind_outcome (audit_log_write ts (length (entry_bytes ts ty p)) log ty (Some p) fs) (\<lambda>(rc, log1, fs1). write_all ws log1 fs1)"

definition entry_of :: "u64 \<times> u32 \<times> bytes \<Rightarrow> audit_entry_t" where
  "entry_of w = (case w of (ts, ty, p) \<Rightarrow> \<lparr>timestamp_ms = ts, msg_type = ty, payload_len = of_nat (length p), payload = p\<rparr>)"

definition bytes_of_entries :: "(u64 \<times> u32 \<times> bytes) list \<Rightarrow> bytes" where
  "bytes_of_entries ws = concat (map (\<lambda>(ts, ty, p). entry_bytes ts ty p) ws)"

text \<open>A callback that collects the entries and asks to stop after \<open>k\<close> of them.\<close>

definition collect_until :: "nat \<Rightarrow> audit_entry_t \<Rightarrow> audit_entry_t list \<Rightarrow> int \<times> audit_entry_t list" where
  "collect_until k e acc = ((if length acc + 1 \<ge> k then 1 else 0), acc @ [e])"

definition entry_ok :: "u64 \<times> u32 \<times> bytes \<Rightarrow> bool" where
  "entry_ok w = (case w of (ts, ty, p) \<Rightarrow> p \<noteq> [] \<and> length p < 2 ^ 32 - 1)"

section \<open>Lemmas\<close>

declare replay_loop.simps [simp del]

lemma host_bytes_inverse [simp]: "host_u64 (host_bytes w @ r) = w"
proof (unfold host_bytes_def, simp, rule bit_word_eqI)
  fix n :: nat
  assume "n < LENGTH(64)"
  then have "n < 64" by simp
  then consider "n < 8" | "8 \<le> n" "n < 16" | "16 \<le> n" "n < 24" | "24 \<le> n" "n < 32" | "32 \<le> n" "n < 40"
    | "40 \<le> n" "n < 48" | "48 \<le> n" "n < 56" | "56 \<le> n" "n < 64"
    by linarith
  then show "bit (ucast (ucast w :: u8) OR push_bit 8 (ucast (ucast (drop_bit 8 w) :: u8)) OR
      push_bit 16 (ucast (ucast (drop_bit 16 w) :: u8)) OR push_bit 24 (ucast (ucast (drop_bit 24 w) :: u8)) OR
      push_bit 32 (ucast (ucast (drop_bit 32 w) :: u8)) OR push_bit 40 (ucast (ucast (drop_bit 40 w) :: u8)) OR
      push_bit 48 (ucast (ucast (drop_bit 48 w) :: u8)) OR push_bit 56 (ucast (ucast (drop_bit 56 w) :: u8)) :: u64) n = bit w n"
    by cases (auto simp: bit_simps)
qed

lemma length_host_bytes [simp]: "length (host_bytes w) = 8"
  by (simp add: host_bytes_def)

lemma replay_entry:
  assumes "entry_ok (ts, ty, p)" "alloc (of_nat (length p) + 1)"
  shows "replay_loop alloc cb (entry_bytes ts ty p @ r) n u =
     (let (rc, u1) = cb (entry_of (ts, ty, p)) u in
      if rc \<noteq> 0 then Finished (n + 1, u1) else replay_loop alloc cb r (n + 1) u1)"
proof -
  have len: "length p < 2 ^ 32 - 1" using assms(1) by (simp add: entry_ok_def)
  then have u: "unat (of_nat (length p) :: u32) = length p" by (intro unat_of_nat_small) simp
  have "unat (of_nat (Suc (length p)) :: u32) = Suc (length p)" using len by (intro unat_of_nat_small) simp
  then have "(of_nat (Suc (length p)) :: u32) \<noteq> 0" by (metis Zero_not_Suc unat_0)
  then have nz: "(of_nat (length p) + 1 :: u32) \<noteq> 0" unfolding of_nat_Suc by (subst add.commute)
  show ?thesis
    using assms(2) nz u
    by (subst replay_loop.simps) (simp add: entry_bytes_def entry_of_def Let_def split: prod.split)
qed

lemma replay_short: "length bs < 16 \<Longrightarrow> replay_loop alloc cb bs n u = Finished (n, u)"
  by (subst replay_loop.simps) (simp add: Let_def less_diff_conv2)

lemma replay_torn:
  assumes "entry_ok (ts, ty, p)" "k < length (entry_bytes ts ty p)"
  shows "replay_loop alloc cb (take k (entry_bytes ts ty p)) n u = Finished (n, u)"
proof (cases "k < 16")
  case True
  then show ?thesis by (intro replay_short) simp
next
  case False
  have len: "length p < 2 ^ 32 - 1" using assms(1) by (simp add: entry_ok_def)
  then have u: "unat (of_nat (length p) :: u32) = length p" by (intro unat_of_nat_small) simp
  have "unat (of_nat (Suc (length p)) :: u32) = Suc (length p)" using len by (intro unat_of_nat_small) simp
  then have "(of_nat (Suc (length p)) :: u32) \<noteq> 0" by (metis Zero_not_Suc unat_0)
  then have nz: "(of_nat (length p) + 1 :: u32) \<noteq> 0" unfolding of_nat_Suc by (subst add.commute)
  have "take k (entry_bytes ts ty p) = host_bytes ts @ htonl_bytes ty @ htonl_bytes (of_nat (length p)) @ take (k - 16) p"
    using False by (simp add: entry_bytes_def)
  moreover have "k - 16 < length p" using assms(2) False by (simp add: entry_bytes_def)
  ultimately show ?thesis using nz u by (subst replay_loop.simps) (simp add: Let_def)
qed

lemma replay_entries:
  assumes "\<forall>w\<in>set ws. entry_ok w" "length acc < k" "\<And>n u. replay_loop (\<lambda>_. True) (collect_until k) t n u = Finished (n, u)"
  shows "replay_loop (\<lambda>_. True) (collect_until k) (bytes_of_entries ws @ t) n acc =
     Finished (n + min (k - length acc) (length ws), acc @ map entry_of (take (k - length acc) ws))"
  using assms(1,2)
proof (induction ws arbitrary: n acc)
  case Nil
  then show ?case using assms(3) by (simp add: bytes_of_entries_def)
next
  case (Cons w ws)
  obtain ts ty p where w: "w = (ts, ty, p)" by (cases w)
  have step: "replay_loop (\<lambda>_. True) (collect_until k) (bytes_of_entries (w # ws) @ t) n acc =
      (if length acc + 1 \<ge> k then Finished (n + 1, acc @ [entry_of w])
       else replay_loop (\<lambda>_. True) (collect_until k) (bytes_of_entries ws @ t) (n + 1) (acc @ [entry_of w]))"
    using replay_entry [of ts ty p "\<lambda>_. True" "collect_until k" "bytes_of_entries ws @ t" n acc] Cons.prems(1) w
    by (simp add: bytes_of_entries_def collect_until_def)
  show ?case
  proof (cases "length acc + 1 \<ge> k")
    case True
    then have "k - length acc = 1" using Cons.prems(2) by simp
    then show ?thesis using step True by (simp add: min_def)
  next
    case False
    then have k: "k - length acc = Suc (k - length (acc @ [entry_of w]))" using Cons.prems(2) by simp
    have "length (acc @ [entry_of w]) < k" using False by simp
    from Cons.IH [OF _ this, of "n + 1"] Cons.prems(1) show ?thesis
      using step False unfolding k by simp
  qed
qed

lemma write_all_bytes:
  assumes "\<forall>w\<in>set ws. entry_ok w" "log_fp l = Some f" "fs f = Some c"
  shows "write_all ws (Some l) fs =
     Finished (Some (l\<lparr>entry_count := entry_count l + of_nat (length ws)\<rparr>), fs(f \<mapsto> c @ bytes_of_entries ws))"
  using assms
proof (induction ws arbitrary: l fs c)
  case Nil
  then show ?case by (simp add: bytes_of_entries_def fun_upd_idem)
next
  case (Cons w ws)
  obtain ts ty p where w: "w = (ts, ty, p)" by (cases w)
  let ?l = "l\<lparr>entry_count := entry_count l + 1\<rparr>" and ?c = "c @ entry_bytes ts ty p"
  have "write_all ws (Some ?l) (fs(f \<mapsto> ?c)) =
      Finished (Some (?l\<lparr>entry_count := entry_count ?l + of_nat (length ws)\<rparr>), (fs(f \<mapsto> ?c))(f \<mapsto> ?c @ bytes_of_entries ws))"
    using Cons.prems by (intro Cons.IH) auto
  moreover have "p \<noteq> []" using Cons.prems(1) w by (simp add: entry_ok_def)
  ultimately show ?case using Cons.prems(2,3)
    by (auto simp: w audit_log_write_def bytes_of_entries_def ac_simps)
qed

section \<open>Properties\<close>

text \<open>
  C37. The log survives a crash in the middle of a write. Take a log opened on a new file, with a path that
  fits its buffer, any number of entries whose payloads are not empty and shorter than \<open>2\<^sup>3\<^sup>2 - 1\<close> bytes, and
  a last write of which only a part reaches the file. A replay delivers to its callback exactly the
  complete entries, in order and with the time stamp, type and payload they were written with, up to
  the entry at which the callback asks to stop, and returns their number; the torn entry is ignored.
\<close>

theorem audit_replay_exact:
  assumes "audit_log_open True True (Some path) fs = (Some l, fs1)" "fs path = None" "length path \<le> 255"
    "\<forall>w\<in>set ws. entry_ok w" "entry_ok (ts, ty, q)" "reach < length (entry_bytes ts ty q)" "0 < k"
  shows "\<exists>l2 fs2 l3 fs3. write_all ws (Some l) fs1 = Finished (Some l2, fs2) \<and>
     audit_log_write ts reach (Some l2) ty (Some q) fs2 = Finished (0, Some l3, fs3) \<and>
     audit_log_replay (\<lambda>_. True) (Some l3) (Some (collect_until k)) [] fs3 =
       Finished (int (min k (length ws)), map entry_of (take k ws))"
proof -
  have l: "log_fp l = Some path" "log_path l = path" "fs1 path = Some []"
    using assms(1-3) by (auto simp: audit_log_open_def open_append_def)
  let ?l2 = "l\<lparr>entry_count := entry_count l + of_nat (length ws)\<rparr>"
  let ?fs2 = "fs1(path \<mapsto> bytes_of_entries ws)"
  have 1: "write_all ws (Some l) fs1 = Finished (Some ?l2, ?fs2)"
    using write_all_bytes [of ws l path fs1 "[]"] assms(4) l by simp
  have "q \<noteq> []" using assms(5) by (simp add: entry_ok_def)
  then have 2: "audit_log_write ts reach (Some ?l2) ty (Some q) ?fs2 =
      Finished (0, Some (?l2\<lparr>entry_count := entry_count ?l2 + 1\<rparr>),
        ?fs2(path \<mapsto> bytes_of_entries ws @ take reach (entry_bytes ts ty q)))"
    using l by (simp add: audit_log_write_def)
  have "replay_loop (\<lambda>_. True) (collect_until k) (bytes_of_entries ws @ take reach (entry_bytes ts ty q)) 0 [] =
      Finished (min k (length ws), map entry_of (take k ws))"
    using replay_entries [OF assms(4) _ replay_torn [OF assms(5,6)], of "[]" k 0] assms(7) by simp
  then have "audit_log_replay (\<lambda>_. True) (Some (?l2\<lparr>entry_count := entry_count ?l2 + 1\<rparr>)) (Some (collect_until k)) []
      (?fs2(path \<mapsto> bytes_of_entries ws @ take reach (entry_bytes ts ty q))) =
      Finished (int (min k (length ws)), map entry_of (take k ws))"
    using l by (simp add: audit_log_replay_def)
  with 1 2 show ?thesis by blast
qed

theorem audit_replay_exact_witness:
  "\<exists>l2 fs2 l3 fs3. write_all [(5, 1, [7, 8]), (6, 2, [9])] (fst (audit_log_open True True (Some ''a'') Map.empty))
       (snd (audit_log_open True True (Some ''a'') Map.empty)) = Finished (Some l2, fs2) \<and>
     audit_log_write 7 17 (Some l2) 3 (Some [1, 2]) fs2 = Finished (0, Some l3, fs3) \<and>
     audit_log_replay (\<lambda>_. True) (Some l3) (Some (collect_until 5)) [] fs3 =
       Finished (2, [\<lparr>timestamp_ms = 5, msg_type = 1, payload_len = 2, payload = [7, 8]\<rparr>,
                     \<lparr>timestamp_ms = 6, msg_type = 2, payload_len = 1, payload = [9]\<rparr>])"
  using audit_replay_exact [of "''a''" Map.empty "the (fst (audit_log_open True True (Some ''a'') Map.empty))"
      "snd (audit_log_open True True (Some ''a'') Map.empty)" "[(5, 1, [7, 8]), (6, 2, [9])]" 7 3 "[1, 2]" 17 5]
  by (simp add: audit_log_open_def entry_ok_def entry_bytes_def entry_of_def)

text \<open>
  When the file cannot be opened again after a rotation the log has no stream, and the next write goes
  through a null pointer.
\<close>

lemma rotate_failure_then_write:
  assumes "audit_log_rotate rename_ok False (Some l) (Some x) fs = (rc, log1, fs1)" "p \<noteq> []"
  shows "rc = - 1 \<and> audit_log_write ts reach log1 ty (Some p) fs1 = Undefined"
  using assms by (auto simp: audit_log_rotate_def audit_log_write_def Let_def)

text \<open>An entry with the largest length makes the replay read into a buffer of no bytes.\<close>

lemma replay_length_overflow:
  "replay_loop (\<lambda>_. True) cb (host_bytes ts @ htonl_bytes ty @ htonl_bytes (- 1) @ b # r) n u = Undefined"
  by (subst replay_loop.simps) (simp add: Let_def)

end
