(* ===== verification/IPC_Config.thy ===== *)
theory IPC_Config
  imports Gateway_Prelude
begin

text \<open>
  The configuration of the IPC server (\<open>ipc_config.c\<close>): reading it from the environment, validating it
  and printing it with the credentials of the NATS URL masked. The functions are modelled for a
  configuration pointer that is not null.
\<close>

datatype ipc_config_error_t =
    IPC_CONFIG_OK
  | IPC_CONFIG_ERR_INVALID_BOOL
  | IPC_CONFIG_ERR_INVALID_INT
  | IPC_CONFIG_ERR_OUT_OF_RANGE
  | IPC_CONFIG_ERR_EMPTY_REQUIRED
  | IPC_CONFIG_ERR_PATH_TOO_LONG

record ipc_config_t =
  ipc_enable :: int
  socket_path :: string
  max_connections :: int
  nats_enable :: int
  nats_url :: string
  router_subject :: string
  timeout_ms :: int
  validated :: int

definition parse_bool :: "string \<Rightarrow> int option" where
  "parse_bool str =
     (if str = ''1'' \<or> strcasecmp_eq str ''true'' \<or> strcasecmp_eq str ''yes'' \<or> strcasecmp_eq str ''on'' then Some 1
      else if str = ''0'' \<or> strcasecmp_eq str ''false'' \<or> strcasecmp_eq str ''no'' \<or> strcasecmp_eq str ''off'' then Some 0
      else None)"

definition parse_int :: "string \<Rightarrow> int option" where
  "parse_int str = (let (val, rest) = strtol str in if rest \<noteq> [] \<or> rest = str then None else Some (int32 val))"

definition zero_config :: ipc_config_t where
  "zero_config = \<lparr>ipc_enable = 0, socket_path = [], max_connections = 0, nats_enable = 0, nats_url = [],
     router_subject = [], timeout_ms = 0, validated = 0\<rparr>"

text \<open>One block of the loader: the value from the environment, converted, or the default.\<close>

definition from_env :: "getenv \<Rightarrow> string \<Rightarrow> (string \<Rightarrow> 'a option) \<Rightarrow> 'a \<Rightarrow> 'a option" where
  "from_env env name conv dflt = (case env name of None \<Rightarrow> Some dflt | Some t \<Rightarrow> conv t)"

definition fits :: "nat \<Rightarrow> string \<Rightarrow> string option" where
  "fits n t = (if length t \<ge> n then None else Some t)"

text \<open>The error code and the configuration as far as it was filled in.\<close>

definition ipc_config_load :: "getenv \<Rightarrow> ipc_config_error_t \<times> ipc_config_t" where
  "ipc_config_load env =
     (let c0 = zero_config in
      case from_env env ''CGW_IPC_ENABLE'' parse_bool 1 of None \<Rightarrow> (IPC_CONFIG_ERR_INVALID_BOOL, c0) | Some b1 \<Rightarrow>
      let c1 = c0\<lparr>ipc_enable := b1\<rparr> in
      case from_env env ''CGW_IPC_SOCKET_PATH'' (fits 256) ''/tmp/beamline-gateway.sock'' of
        None \<Rightarrow> (IPC_CONFIG_ERR_PATH_TOO_LONG, c1) | Some s1 \<Rightarrow>
      let c2 = c1\<lparr>socket_path := s1\<rparr> in
      case from_env env ''CGW_IPC_MAX_CONNECTIONS'' parse_int 64 of None \<Rightarrow> (IPC_CONFIG_ERR_INVALID_INT, c2) | Some i1 \<Rightarrow>
      let c3 = c2\<lparr>max_connections := i1\<rparr> in
      case from_env env ''CGW_IPC_NATS_ENABLE'' parse_bool 0 of None \<Rightarrow> (IPC_CONFIG_ERR_INVALID_BOOL, c3) | Some b2 \<Rightarrow>
      let c4 = c3\<lparr>nats_enable := b2\<rparr> in
      case from_env env ''CGW_IPC_NATS_URL'' (fits 256) ''nats://localhost:4222'' of
        None \<Rightarrow> (IPC_CONFIG_ERR_PATH_TOO_LONG, c4) | Some s2 \<Rightarrow>
      let c5 = c4\<lparr>nats_url := s2\<rparr> in
      case from_env env ''CGW_IPC_ROUTER_SUBJECT'' (fits 128) ''beamline.router.v1.decide'' of
        None \<Rightarrow> (IPC_CONFIG_ERR_PATH_TOO_LONG, c5) | Some s3 \<Rightarrow>
      let c6 = c5\<lparr>router_subject := s3\<rparr> in
      case from_env env ''CGW_IPC_TIMEOUT_MS'' parse_int 30000 of None \<Rightarrow> (IPC_CONFIG_ERR_INVALID_INT, c6) | Some i2 \<Rightarrow>
      (IPC_CONFIG_OK, c6\<lparr>timeout_ms := i2, validated := 0\<rparr>))"

definition ipc_config_validate :: "ipc_config_t \<Rightarrow> ipc_config_error_t" where
  "ipc_config_validate c =
     (if ipc_enable c \<noteq> 0 \<and> ipc_enable c \<noteq> 1 then IPC_CONFIG_ERR_INVALID_BOOL
      else if nats_enable c \<noteq> 0 \<and> nats_enable c \<noteq> 1 then IPC_CONFIG_ERR_INVALID_BOOL
      else if socket_path c = [] then IPC_CONFIG_ERR_EMPTY_REQUIRED
      else if max_connections c < 1 \<or> max_connections c > 1024 then IPC_CONFIG_ERR_OUT_OF_RANGE
      else if nats_enable c \<noteq> 0 \<and> nats_url c = [] then IPC_CONFIG_ERR_EMPTY_REQUIRED
      else if router_subject c = [] then IPC_CONFIG_ERR_EMPTY_REQUIRED
      else if timeout_ms c < 100 \<or> timeout_ms c > 300000 then IPC_CONFIG_ERR_OUT_OF_RANGE
      else IPC_CONFIG_OK)"

text \<open>
  The printed URL. The URL is copied with \<open>strncpy\<close> into an array of 256 without a terminator, so with
  255 characters the copy has none and a search or a print that runs to its end is undefined.
\<close>

definition printed_url :: "string \<Rightarrow> string outcome" where
  "printed_url url =
     (case strchr url (CHR ''@'') of
        None \<Rightarrow> if length url < 255 then Finished url else Undefined
      | Some at \<Rightarrow>
          (case strstr url ''://'' of
             None \<Rightarrow> if length url < 255 then Finished url else Undefined
           | Some scheme_end \<Rightarrow>
               if length scheme_end > length at
               then if length url < 255
                    then Finished (take (length url - length scheme_end) url @ ''://***@'' @ tl at)
                    else Undefined
               else Finished url))"

definition ipc_config_print :: "ipc_config_t \<Rightarrow> string list outcome" where
  "ipc_config_print c =
     (let first = [''[ipc_config] Configuration:'',
                   ''  ipc_enable:       '' @ dec_int (ipc_enable c),
                   ''  socket_path:      '' @ socket_path c,
                   ''  max_connections:  '' @ dec_int (max_connections c),
                   ''  nats_enable:      '' @ dec_int (nats_enable c)];
          last = [''  router_subject:   '' @ router_subject c,
                  ''  timeout_ms:       '' @ dec_int (timeout_ms c),
                  ''  validated:        '' @ dec_int (validated c)] in
      if nats_url c \<noteq> [] then
        bind_outcome (printed_url (nats_url c)) (\<lambda>u. Finished (first @ [''  nats_url:         '' @ u] @ last))
      else Finished (first @ last))"

definition ipc_config_strerror :: "ipc_config_error_t \<Rightarrow> string" where
  "ipc_config_strerror err = (case err of
     IPC_CONFIG_OK \<Rightarrow> ''No error''
   | IPC_CONFIG_ERR_INVALID_BOOL \<Rightarrow> ''Invalid boolean value (expected: 0/1/true/false/yes/no)''
   | IPC_CONFIG_ERR_INVALID_INT \<Rightarrow> ''Invalid integer value''
   | IPC_CONFIG_ERR_OUT_OF_RANGE \<Rightarrow> ''Value out of valid range''
   | IPC_CONFIG_ERR_EMPTY_REQUIRED \<Rightarrow> ''Required field is empty''
   | IPC_CONFIG_ERR_PATH_TOO_LONG \<Rightarrow> ''Path exceeds maximum length'')"

section \<open>Lemmas\<close>

lemma strchr_append: "c \<notin> set s \<Longrightarrow> strchr (s @ c # t) c = Some (c # t)"
  by (induction s) auto

lemma strstr_scheme:
  assumes "CHR '':'' \<notin> set s"
  shows "strstr (s @ ''://'' @ t) ''://'' = Some (''://'' @ t)"
  using assms by (induction s) auto

lemma printed_url_masked:
  assumes "CHR '':'' \<notin> set scheme" "CHR ''@'' \<notin> set scheme" "CHR ''@'' \<notin> set cred"
    "length (scheme @ ''://'' @ cred @ ''@'' @ host) < 255"
  shows "printed_url (scheme @ ''://'' @ cred @ ''@'' @ host) = Finished (scheme @ ''://***@'' @ host)"
proof -
  have a: "strchr (scheme @ ''://'' @ cred @ ''@'' @ host) (CHR ''@'') = Some (''@'' @ host)"
    using strchr_append [of "CHR ''@''" "scheme @ ''://'' @ cred" host] assms(2,3) by auto
  have b: "strstr (scheme @ ''://'' @ cred @ ''@'' @ host) ''://'' = Some (''://'' @ cred @ ''@'' @ host)"
    using strstr_scheme [OF assms(1)] by blast
  show ?thesis using assms(4) unfolding printed_url_def a b by simp
qed

section \<open>Properties\<close>

text \<open>
  Printing the configuration does not reveal the credentials of the NATS URL. For a URL of the form
  scheme, \<open>://\<close>, credentials, \<open>@\<close>, host, where the credentials contain no \<open>@\<close>, the print ends, the line of
  the URL shows three stars instead of the credentials, and the whole output is the same for any other
  credentials.
\<close>

theorem config_print_hides:
  assumes "nats_url c = scheme @ ''://'' @ cred @ ''@'' @ host" "length (nats_url c) < 255"
    "CHR '':'' \<notin> set scheme" "CHR ''@'' \<notin> set scheme" "CHR ''@'' \<notin> set cred"
    "CHR ''@'' \<notin> set cred'" "length cred' \<le> length cred"
  shows "\<exists>out. ipc_config_print c = Finished out \<and> (''  nats_url:         '' @ scheme @ ''://***@'' @ host) \<in> set out \<and>
     ipc_config_print (c\<lparr>nats_url := scheme @ ''://'' @ cred' @ ''@'' @ host\<rparr>) = Finished out"
proof -
  have "printed_url (nats_url c) = Finished (scheme @ ''://***@'' @ host)"
    using printed_url_masked [OF assms(3,4,5), of host] assms(1,2) by simp
  moreover have "printed_url (scheme @ ''://'' @ cred' @ ''@'' @ host) = Finished (scheme @ ''://***@'' @ host)"
    using assms(1,2,7) by (intro printed_url_masked [OF assms(3,4,6)]) simp
  moreover have "nats_url c \<noteq> []" using assms(1) by simp
  ultimately show ?thesis by (simp add: ipc_config_print_def)
qed

theorem config_print_hides_witness:
  "\<exists>out. ipc_config_print (zero_config\<lparr>nats_url := ''nats://u:secret@h''\<rparr>) = Finished out \<and>
     ''  nats_url:         nats://***@h'' \<in> set out \<and>
     ipc_config_print (zero_config\<lparr>nats_url := ''nats://u:guess@h''\<rparr>) = Finished out"
  using config_print_hides [of "zero_config\<lparr>nats_url := ''nats://u:secret@h''\<rparr>" "''nats''" "''u:secret''" "''h''" "''u:guess''"]
  by simp

text \<open>With an \<open>@\<close> in the password what follows it is printed.\<close>

lemma config_print_leaks_at: "printed_url ''nats://u:p@ss@h'' = Finished ''nats://***@ss@h''"
  by (simp add: printed_url_def)

text \<open>
  What the loader accepts as a number may be another number: the value is cut to 32 bits before its
  range is checked.
\<close>

lemma config_int_wraps:
  "env ''CGW_IPC_TIMEOUT_MS'' = Some (dec_nat 4294968296) \<Longrightarrow> fst (ipc_config_load env) = IPC_CONFIG_OK \<Longrightarrow>
     timeout_ms (snd (ipc_config_load env)) = 1000"
proof -
  assume e: "env ''CGW_IPC_TIMEOUT_MS'' = Some (dec_nat 4294968296)" and ok: "fst (ipc_config_load env) = IPC_CONFIG_OK"
  have "parse_int (dec_nat 4294968296) = Some 1000"
    using strtol_dec_nat [of 4294968296] dec_nat_not_Nil [of 4294968296, symmetric] by (simp add: parse_int_def int32_def)
  then have "from_env env ''CGW_IPC_TIMEOUT_MS'' parse_int 30000 = Some 1000" by (simp add: from_env_def e)
  then show ?thesis using ok by (simp add: ipc_config_load_def Let_def split: option.splits)
qed

text \<open>The defaults are valid, and a loaded configuration that is validated is within its bounds.\<close>

lemma config_defaults_valid: "ipc_config_validate (snd (ipc_config_load (\<lambda>_. None))) = IPC_CONFIG_OK"
  by (simp add: ipc_config_load_def from_env_def ipc_config_validate_def Let_def)

lemma from_env_fits: "from_env env n (fits k) d = Some t \<Longrightarrow> length d < k \<Longrightarrow> length t < k"
  by (auto simp: from_env_def fits_def split: option.splits if_splits)

lemma config_valid_bounds:
  assumes "ipc_config_load env = (IPC_CONFIG_OK, c)" "ipc_config_validate c = IPC_CONFIG_OK"
  shows "ipc_enable c \<in> {0, 1} \<and> nats_enable c \<in> {0, 1} \<and> socket_path c \<noteq> [] \<and> length (socket_path c) \<le> 255 \<and>
     1 \<le> max_connections c \<and> max_connections c \<le> 1024 \<and> (nats_enable c = 1 \<longrightarrow> nats_url c \<noteq> []) \<and>
     length (nats_url c) \<le> 255 \<and> router_subject c \<noteq> [] \<and> length (router_subject c) \<le> 127 \<and>
     100 \<le> timeout_ms c \<and> timeout_ms c \<le> 300000"
proof -
  have "length (socket_path c) < 256 \<and> length (nats_url c) < 256 \<and> length (router_subject c) < 128"
    using assms(1) by (simp add: ipc_config_load_def Let_def split: option.splits) (auto dest!: from_env_fits)
  then show ?thesis using assms(2) by (auto simp: ipc_config_validate_def split: if_splits)
qed

end
