(* ===== verification/JSON_Validator.thy ===== *)
theory JSON_Validator
  imports Gateway_Prelude
begin

text \<open>
  The text checks of \<open>json_validator.c\<close>: a scan that counts braces and brackets outside strings, and
  the required fields of a task. The scan is a function of the previous character, so that texts can be
  checked piece by piece.
\<close>

datatype json_validation_error_t =
    JSON_VALID
  | JSON_ERR_NULL_INPUT
  | JSON_ERR_PARSE_ERROR
  | JSON_ERR_NOT_OBJECT
  | JSON_ERR_MISSING_REQUIRED
  | JSON_ERR_INVALID_TYPE
  | JSON_ERR_OUT_OF_RANGE

abbreviation (input) dquote :: char where "dquote \<equiv> CHR 0x22"

abbreviation (input) bslash :: char where "bslash \<equiv> CHR 0x5C"

text \<open>The loop variables: the previous character, whether the scan is in a string, and the two counts.\<close>

type_synonym scan_state = "char option \<times> bool \<times> int \<times> int"

definition scan_char :: "scan_state \<Rightarrow> char \<Rightarrow> scan_state" where
  "scan_char st c =
     (case st of (prev, in_string, braces, brackets) \<Rightarrow>
      let in_string1 = (if c = dquote \<and> prev \<noteq> Some bslash then \<not> in_string else in_string) in
      if in_string1 then (Some c, in_string1, braces, brackets)
      else (Some c, in_string1,
            (if c = CHR ''{'' then braces + 1 else if c = CHR ''}'' then braces - 1 else braces),
            (if c = CHR ''['' then brackets + 1 else if c = CHR '']'' then brackets - 1 else brackets)))"

definition json_scan :: "string \<Rightarrow> scan_state \<Rightarrow> scan_state" where
  "json_scan s st = foldl scan_char st s"

definition json_validate_wellformed :: "string option \<Rightarrow> json_validation_error_t" where
  "json_validate_wellformed json_str =
     (case json_str of None \<Rightarrow> JSON_ERR_NULL_INPUT
      | Some s \<Rightarrow>
          let t = dropWhile is_space s in
          if t = [] \<or> (hd t \<noteq> CHR ''{'' \<and> hd t \<noteq> CHR ''['') then JSON_ERR_PARSE_ERROR
          else (case json_scan t (None, False, 0, 0) of (prev, in_string, braces, brackets) \<Rightarrow>
                 if braces \<noteq> 0 \<or> brackets \<noteq> 0 then JSON_ERR_PARSE_ERROR else JSON_VALID))"

definition json_has_field :: "string option \<Rightarrow> string option \<Rightarrow> bool" where
  "json_has_field json_str field =
     (case (json_str, field) of
        (Some s, Some f) \<Rightarrow> strstr s (c_copy 256 ([dquote] @ f @ [dquote])) \<noteq> None
      | _ \<Rightarrow> False)"

definition json_validate_task_submit :: "string option \<Rightarrow> json_validation_error_t" where
  "json_validate_task_submit json_str =
     (let err = json_validate_wellformed json_str in
      if err \<noteq> JSON_VALID then err
      else let p = dropWhile is_space (the json_str) in
      if p = [] \<or> hd p \<noteq> CHR ''{'' then JSON_ERR_NOT_OBJECT
      else if \<not> json_has_field json_str (Some ''task_type'') then JSON_ERR_MISSING_REQUIRED
      else if \<not> json_has_field json_str (Some ''file'') then JSON_ERR_MISSING_REQUIRED
      else JSON_VALID)"

definition json_validation_strerror :: "json_validation_error_t \<Rightarrow> string" where
  "json_validation_strerror err = (case err of
     JSON_VALID \<Rightarrow> ''Valid JSON''
   | JSON_ERR_NULL_INPUT \<Rightarrow> ''NULL input''
   | JSON_ERR_PARSE_ERROR \<Rightarrow> ''JSON parse error''
   | JSON_ERR_NOT_OBJECT \<Rightarrow> ''Expected JSON object''
   | JSON_ERR_MISSING_REQUIRED \<Rightarrow> ''Missing required field''
   | JSON_ERR_INVALID_TYPE \<Rightarrow> ''Invalid field type''
   | JSON_ERR_OUT_OF_RANGE \<Rightarrow> ''Value out of range'')"

section \<open>Lemmas\<close>

lemma json_scan_append: "json_scan (s @ t) st = json_scan t (json_scan s st)"
  by (simp add: json_scan_def)

lemma json_scan_simps [simp]: "json_scan [] st = st" "json_scan (c # s) st = json_scan s (scan_char st c)"
  by (simp_all add: json_scan_def)

text \<open>Text without quotation marks and backslashes, scanned inside a string, changes nothing but the previous character.\<close>

definition plain :: "string \<Rightarrow> bool" where
  "plain s = (dquote \<notin> set s \<and> bslash \<notin> set s)"

lemma json_scan_plain:
  "plain s \<Longrightarrow> json_scan s (p, True, b, k) = (if s = [] then p else Some (last s), True, b, k)"
proof (induction s arbitrary: p)
  case (Cons c s)
  then have "scan_char (p, True, b, k) c = (Some c, True, b, k)" by (auto simp: scan_char_def plain_def)
  with Cons show ?case by (auto simp: plain_def)
qed simp

text \<open>A quoted plain text, scanned outside a string, changes nothing.\<close>

lemma json_scan_quoted:
  assumes "plain s" "p \<noteq> Some bslash"
  shows "json_scan (dquote # s @ dquote # t) (p, False, b, k) = json_scan t (Some dquote, False, b, k)"
proof -
  have "last s \<noteq> bslash" if "s \<noteq> []" using assms(1) last_in_set [OF that] by (auto simp: plain_def)
  then show ?thesis
    using assms(2) by (simp add: json_scan_append json_scan_plain [OF assms(1)] scan_char_def)
qed

text \<open>The counts only add up.\<close>

lemma json_scan_shift:
  "json_scan s (p, i, b, k) = (case json_scan s (p, i, 0, 0) of (p1, i1, b1, k1) \<Rightarrow> (p1, i1, b1 + b, k1 + k))"
proof (induction s arbitrary: p i b k)
  case (Cons c s)
  obtain p1 i1 b1 k1 where c: "scan_char (p, i, 0, 0) c = (p1, i1, b1, k1)" by (metis prod_cases4)
  then have "scan_char (p, i, b, k) c = (p1, i1, b1 + b, k1 + k)" by (auto simp: scan_char_def Let_def split: if_splits)
  then show ?case using Cons.IH [of p1 i1 "b1 + b" "k1 + k"] Cons.IH [of p1 i1 b1 k1] c
    by (simp split: prod.splits)
qed simp

lemma json_scan_first:
  "s \<noteq> [] \<Longrightarrow> hd s \<noteq> dquote \<Longrightarrow> json_scan s (p, i, b, k) = json_scan s (q, i, b, k)"
  by (cases s) (simp_all add: scan_char_def)

text \<open>
  What the scan does not see: a string that is not closed and brackets that cross are accepted, and a
  string that ends in an escaped backslash is not.
\<close>

lemma validator_accepts_open_string: "json_validate_wellformed (Some (''{}'' @ [dquote] @ ''abc'')) = JSON_VALID"
  by code_simp

lemma validator_accepts_crossing: "json_validate_wellformed (Some ''{[}]'') = JSON_VALID"
  by code_simp

lemma validator_rejects_escaped_backslash:
  "json_validate_wellformed (Some (''{'' @ [dquote] @ ''a'' @ [dquote] @ '':'' @ [dquote, bslash, bslash, dquote] @ ''}'')) =
     JSON_ERR_PARSE_ERROR"
  by code_simp

text \<open>A required field is searched as text, so a value with its name passes for it.\<close>

lemma validator_field_in_value:
  "json_validate_task_submit (Some (''{'' @ [dquote] @ ''x'' @ [dquote] @ '':['' @ [dquote] @ ''task_type'' @ [dquote] @ '','' @
     [dquote] @ ''file'' @ [dquote] @ '']}'')) = JSON_VALID"
  by code_simp

end
