(* ===== verification/Router_Contract.thy ===== *)
theory Router_Contract
  imports JSON_Validator
begin

text \<open>
  The envelope of requests to the router and the reading of its responses (\<open>router_contract.c\<close>). The
  structures own their strings; a null \<open>input_json\<close> or \<open>result_json\<close> is \<open>None\<close>. \<open>snprintf\<close> and the
  formats of \<open>sscanf\<close> that occur are modelled on character lists.
\<close>

datatype router_contract_error_t =
    ROUTER_CONTRACT_OK
  | ROUTER_CONTRACT_ERR_NULL_PTR
  | ROUTER_CONTRACT_ERR_EMPTY_REQUIRED
  | ROUTER_CONTRACT_ERR_INVALID_VERSION
  | ROUTER_CONTRACT_ERR_INVALID_JSON

record router_request_t =
  rq_version :: string
  rq_message_id :: string
  rq_trace_id :: string
  rq_tenant_id :: string
  rq_policy_id :: string
  rq_input_json :: "string option"

record router_response_t =
  rs_ok :: bool
  rs_message_id :: string
  rs_result_json :: "string option"
  rs_error_code :: string
  rs_error_message :: string
  rs_error_context_json :: "string option"


definition json_key :: "string \<Rightarrow> string" where
  "json_key k = [dquote] @ k @ [dquote] @ '':''"

definition json_text :: "string \<Rightarrow> string" where
  "json_text v = [dquote] @ v @ [dquote]"





text \<open>
  \<open>sscanf\<close> with a literal prefix and \<open>%<w>[^"]\<close>: the prefix must match, then up to \<open>w\<close> characters other
  than a quotation mark are stored; with none the field keeps its old value.
\<close>

definition scan_field :: "string \<Rightarrow> nat \<Rightarrow> string \<Rightarrow> string \<Rightarrow> string" where
  "scan_field prefix w s old =
     (if starts_with s prefix
      then (let x = take w (takeWhile (\<lambda>c. c \<noteq> dquote) (drop (length prefix) s)) in if x = [] then old else x)
      else old)"

text \<open>The search for a key and the reading of its string value.\<close>

definition read_field :: "string \<Rightarrow> string \<Rightarrow> nat \<Rightarrow> string" where
  "read_field s key w = (case strstr s (json_key key) of None \<Rightarrow> [] | Some t \<Rightarrow> scan_field (json_key key @ [dquote]) w t [])"

definition router_response_from_json :: "bool \<Rightarrow> string option \<Rightarrow> bool \<Rightarrow> router_contract_error_t \<times> router_response_t option" where
  "router_response_from_json alloc json_str resp =
     (case json_str of None \<Rightarrow> (ROUTER_CONTRACT_ERR_NULL_PTR, None)
      | Some s \<Rightarrow>
          if \<not> resp then (ROUTER_CONTRACT_ERR_NULL_PTR, None)
          else let ok = (strstr s (json_key ''ok'' @ ''true'') \<noteq> None \<or> strstr s (json_key ''ok'' @ '' true'') \<noteq> None) in
          (ROUTER_CONTRACT_OK, Some
            \<lparr>rs_ok = ok,
             rs_message_id = read_field s ''message_id'' 63,
             rs_result_json = (if ok \<and> alloc then Some s else None),
             rs_error_code = (if ok then [] else read_field s ''code'' 63),
             rs_error_message = (if ok then [] else read_field s ''message'' 255),
             rs_error_context_json = None\<rparr>))"

definition router_request_free :: "router_request_t \<Rightarrow> router_request_t" where
  "router_request_free r = r\<lparr>rq_input_json := None\<rparr>"

definition router_response_free :: "router_response_t \<Rightarrow> router_response_t" where
  "router_response_free r = r\<lparr>rs_result_json := None, rs_error_context_json := None\<rparr>"

definition router_contract_strerror :: "router_contract_error_t \<Rightarrow> string" where
  "router_contract_strerror err = (case err of
     ROUTER_CONTRACT_OK \<Rightarrow> ''No error''
   | ROUTER_CONTRACT_ERR_NULL_PTR \<Rightarrow> ''NULL pointer''
   | ROUTER_CONTRACT_ERR_EMPTY_REQUIRED \<Rightarrow> ''Required field is empty''
   | ROUTER_CONTRACT_ERR_INVALID_VERSION \<Rightarrow> ''Invalid protocol version''
   | ROUTER_CONTRACT_ERR_INVALID_JSON \<Rightarrow> ''Invalid JSON'')"

section \<open>Specification\<close>

text \<open>The documented form of an error response, without white space.\<close>

definition error_response_json :: "string \<Rightarrow> string \<Rightarrow> string \<Rightarrow> string" where
  "error_response_json mid code msg =
     ''{'' @ json_key ''ok'' @ ''false,'' @ json_key ''message_id'' @ json_text mid @ '','' @
     json_key ''error'' @ ''{'' @ json_key ''code'' @ json_text code @ '','' @ json_key ''message'' @ json_text msg @ ''}}''"



section \<open>Printing a request\<close>






lemma length_json_key [simp]: "length (json_key k) = length k + 3" and length_json_text [simp]: "length (json_text v) = length v + 2"
  by (simp_all add: json_key_def json_text_def)




section \<open>Reading a response\<close>

lemma strstr_skip: "dquote \<notin> set x \<Longrightarrow> strstr (x @ s) (dquote # p) = strstr s (dquote # p)"
  by (induction x) auto

lemma starts_with_quoted:
  assumes "dquote \<notin> set v" "dquote \<notin> set k"
  shows "starts_with (v @ dquote # r) (k @ dquote # w) \<longleftrightarrow> v = k \<and> starts_with r w"
  using assms
proof (induction v arbitrary: k)
  case Nil
  then show ?case by (cases k) auto
next
  case (Cons x v)
  then show ?case by (cases k) auto
qed

lemma strstr_key:
  assumes "plain k'" "plain k" "k \<noteq> []" "hd k \<noteq> CHR '':''"
  shows "strstr (json_key k' @ r) (json_key k @ w) =
     (if k' = k \<and> starts_with r w then Some (json_key k' @ r) else strstr r (json_key k @ w))"
proof -
  have q: "dquote \<notin> set k'" "dquote \<notin> set k" using assms by (simp_all add: plain_def)
  have "\<not> starts_with (CHR '':'' # r) (k @ dquote # CHR '':'' # w)" using assms(3,4) by (cases k) auto
  moreover have "starts_with (k' @ dquote # CHR '':'' # r) (k @ dquote # CHR '':'' # w) \<longleftrightarrow> k' = k \<and> starts_with r w"
    using starts_with_quoted [OF q, of "CHR '':'' # r" "CHR '':'' # w"] by simp
  ultimately show ?thesis
    using strstr_skip [OF q(1), of "dquote # CHR '':'' # r"] by (simp add: json_key_def)
qed

lemma strstr_text:
  assumes "plain v" "plain k" "k \<noteq> []" "c \<noteq> CHR '':''" "c \<noteq> hd k" "c \<noteq> dquote"
  shows "strstr (json_text v @ c # r) (json_key k @ w) = strstr r (json_key k @ w)"
proof -
  have q: "dquote \<notin> set v" "dquote \<notin> set k" using assms by (simp_all add: plain_def)
  have "\<not> starts_with (c # r) (k @ dquote # CHR '':'' # w)" using assms(3,5) by (cases k) auto
  moreover have "\<not> starts_with (v @ dquote # c # r) (k @ dquote # CHR '':'' # w)"
    using starts_with_quoted [OF q, of "c # r" "CHR '':'' # w"] assms(4) by simp
  ultimately show ?thesis
    using strstr_skip [OF q(1), of "dquote # c # r"] assms(6) by (simp add: json_key_def json_text_def)
qed

lemma strstr_plain:
  assumes "dquote \<notin> set x"
  shows "strstr (x @ s) (json_key k @ w) = strstr s (json_key k @ w)"
  using strstr_skip [OF assms] by (simp add: json_key_def)

lemma strstr_none: "dquote \<notin> set x \<Longrightarrow> strstr x (json_key k @ w) = None"
  using strstr_skip [of x "[]"] by (simp add: json_key_def)

lemma strstr_char: "c \<noteq> dquote \<Longrightarrow> strstr (c # s) (json_key k @ w) = strstr s (json_key k @ w)"
  using strstr_plain [of "[c]"] by simp

lemma scan_field_exact:
  assumes "plain v" "length v \<le> w"
  shows "scan_field (json_key k @ [dquote]) w (json_key k @ json_text v @ r) [] = v"
proof -
  have "takeWhile (\<lambda>c. c \<noteq> dquote) (v @ dquote # r) = v"
    using assms(1) by (subst takeWhile_append2) (auto simp: plain_def)
  then show ?thesis using assms(2) by (simp add: scan_field_def json_text_def json_key_def starts_with_iff)
qed

lemma strstr_end: "strstr [] (json_key k @ w) = None" "json_key k \<noteq> []"
  by (simp_all add: json_key_def)

lemma strstr_rules_only_key:
  "c \<noteq> dquote \<Longrightarrow> strstr (c # s) (json_key k) = strstr s (json_key k)"
  "plain k' \<Longrightarrow> plain k \<Longrightarrow> k \<noteq> [] \<Longrightarrow> hd k \<noteq> CHR '':'' \<Longrightarrow>
     strstr (json_key k' @ r) (json_key k) = (if k' = k then Some (json_key k' @ r) else strstr r (json_key k))"
  "plain v \<Longrightarrow> plain k \<Longrightarrow> k \<noteq> [] \<Longrightarrow> c \<noteq> CHR '':'' \<Longrightarrow> c \<noteq> hd k \<Longrightarrow> c \<noteq> dquote \<Longrightarrow>
     strstr (json_text v @ c # r) (json_key k) = strstr r (json_key k)"
  using strstr_char [of c s k "[]"] strstr_key [of k' k r "[]"] strstr_text [of v k c r "[]"]
  by (simp_all del: strstr.simps)

lemmas strstr_rules = strstr_end strstr_char strstr_key strstr_text strstr_rules_only_key

text \<open>The searches in an error response.\<close>

lemma error_response_search:
  assumes "plain mid" "plain code" "plain msg"
  shows "strstr (error_response_json mid code msg) (json_key ''ok'' @ ''true'') = None"
    "strstr (error_response_json mid code msg) (json_key ''ok'' @ '' true'') = None"
    "\<exists>r. strstr (error_response_json mid code msg) (json_key ''message_id'') = Some (json_key ''message_id'' @ json_text mid @ r)"
    "\<exists>r. strstr (error_response_json mid code msg) (json_key ''code'') = Some (json_key ''code'' @ json_text code @ r)"
    "\<exists>r. strstr (error_response_json mid code msg) (json_key ''message'') = Some (json_key ''message'' @ json_text msg @ r)"
proof -
  have keys: "plain ''ok''" "plain ''message_id''" "plain ''error''" "plain ''code''" "plain ''message''"
    by (simp_all add: plain_def)
  show "strstr (error_response_json mid code msg) (json_key ''ok'' @ ''true'') = None"
    "strstr (error_response_json mid code msg) (json_key ''ok'' @ '' true'') = None"
    using assms keys by (simp_all add: error_response_json_def strstr_rules del: strstr.simps)
  show "\<exists>r. strstr (error_response_json mid code msg) (json_key ''message_id'') = Some (json_key ''message_id'' @ json_text mid @ r)"
    "\<exists>r. strstr (error_response_json mid code msg) (json_key ''code'') = Some (json_key ''code'' @ json_text code @ r)"
    "\<exists>r. strstr (error_response_json mid code msg) (json_key ''message'') = Some (json_key ''message'' @ json_text msg @ r)"
    using assms keys by (auto simp: error_response_json_def strstr_rules simp del: strstr.simps)
qed

section \<open>Properties\<close>




text \<open>
  An error response of the documented form is read back. For an id and a code of at most 63 and a
  message of at most 255 characters without quotation marks and backslashes, the parsed response is not
  ok and has exactly this id, code and message, whatever they are: a field that looks like a key of the
  envelope is not mistaken for it.
\<close>

theorem router_error_roundtrip:
  assumes "plain mid" "plain code" "plain msg" "length mid \<le> 63" "length code \<le> 63" "length msg \<le> 255"
  shows "router_response_from_json alloc (Some (error_response_json mid code msg)) True =
     (ROUTER_CONTRACT_OK, Some \<lparr>rs_ok = False, rs_message_id = mid, rs_result_json = None, rs_error_code = code,
        rs_error_message = msg, rs_error_context_json = None\<rparr>)"
proof -
  note search = error_response_search [OF assms(1-3)]
  have "read_field (error_response_json mid code msg) ''message_id'' 63 = mid"
    using search(3) assms(1,4) by (auto simp: read_field_def scan_field_exact)
  moreover have "read_field (error_response_json mid code msg) ''code'' 63 = code"
    using search(4) assms(2,5) by (auto simp: read_field_def scan_field_exact)
  moreover have "read_field (error_response_json mid code msg) ''message'' 255 = msg"
    using search(5) assms(3,6) by (auto simp: read_field_def scan_field_exact)
  ultimately show ?thesis using search(1,2) by (simp add: router_response_from_json_def)
qed

theorem router_error_roundtrip_witness:
  "router_response_from_json True (Some (error_response_json ''r'' ''code'' ''no'')) True =
     (ROUTER_CONTRACT_OK, Some \<lparr>rs_ok = False, rs_message_id = ''r'', rs_result_json = None, rs_error_code = ''code'',
        rs_error_message = ''no'', rs_error_context_json = None\<rparr>)"
  using router_error_roundtrip [of "''r''" "''code''" "''no''" True] by (simp add: plain_def)

text \<open>
  A response with a space after the key, which JSON allows and the test for \<open>ok\<close> accepts, loses its
  error code.
\<close>

lemma spaced_code_lost:
  "read_field (''{'' @ json_key ''code'' @ '' '' @ json_text ''x'' @ ''}'') ''code'' 63 = []"
  by (simp add: read_field_def scan_field_def json_key_def json_text_def)

end
