(* ===== verification/Tracing.thy ===== *)
theory Tracing
  imports Trace_Context JSON_Values
begin

text \<open>
  Spans and their export (\<open>tracing/otel.c\<close>, \<open>tracing/otlp_exporter.c\<close>). Ids are lists of bytes; the
  random source, the clock, \<open>calloc\<close>, jansson's printer and libcurl are parameters, and what is posted
  is recorded. Spans are values: the pointer to the parent is used only when a span is started.
\<close>

datatype span_kind_t =
    SPAN_KIND_INTERNAL
  | SPAN_KIND_SERVER
  | SPAN_KIND_CLIENT
  | SPAN_KIND_PRODUCER
  | SPAN_KIND_CONSUMER

fun kind_code :: "span_kind_t \<Rightarrow> int" where
  "kind_code SPAN_KIND_INTERNAL = 0"
| "kind_code SPAN_KIND_SERVER = 1"
| "kind_code SPAN_KIND_CLIENT = 2"
| "kind_code SPAN_KIND_PRODUCER = 3"
| "kind_code SPAN_KIND_CONSUMER = 4"

datatype span_status_t = SPAN_STATUS_UNSET | SPAN_STATUS_OK | SPAN_STATUS_ERROR

fun status_code :: "span_status_t \<Rightarrow> int" where
  "status_code SPAN_STATUS_UNSET = 0"
| "status_code SPAN_STATUS_OK = 1"
| "status_code SPAN_STATUS_ERROR = 2"

record otel_span_t =
  sp_name :: string
  sp_trace_id :: bytes
  sp_span_id :: bytes
  sp_parent_span_id :: bytes
  sp_kind :: span_kind_t
  sp_status :: span_status_t
  sp_start :: "u64 \<times> u64"
  sp_end :: "u64 \<times> u64"
  sp_attributes :: "(string \<times> string) list"

section \<open>Ids and spans\<close>

text \<open>
  A random id: the bytes \<open>read\<close> delivered from \<open>/dev/urandom\<close> when it can be opened, which overwrite
  the zeros of the fresh span, and the low bytes of \<open>rand()\<close> otherwise.
\<close>

record random_source =
  urandom :: "bytes option"
  rand_values :: "nat \<Rightarrow> u32"

definition generate_id :: "nat \<Rightarrow> random_source \<Rightarrow> bytes" where
  "generate_id n src =
     (case urandom src of
        Some bs \<Rightarrow> take n bs @ replicate (n - length bs) 0
      | None \<Rightarrow> map (\<lambda>i. ucast (rand_values src i AND 0xFF)) (slots n))"

definition generate_span_id :: "random_source \<Rightarrow> bytes" where
  "generate_span_id = generate_id 8"

definition generate_trace_id :: "random_source \<Rightarrow> bytes" where
  "generate_trace_id = generate_id 16"

definition otel_span_start ::
  "bool \<Rightarrow> random_source \<Rightarrow> random_source \<Rightarrow> u64 \<times> u64 \<Rightarrow> string option \<Rightarrow> span_kind_t \<Rightarrow> otel_span_t option \<Rightarrow> otel_span_t option" where
  "otel_span_start alloc src_trace src_span now name kind parent =
     (case name of None \<Rightarrow> None
      | Some n \<Rightarrow>
          if \<not> alloc then None
          else Some \<lparr>sp_name = c_copy 128 n,
                     sp_trace_id = (case parent of Some p \<Rightarrow> sp_trace_id p | None \<Rightarrow> generate_trace_id src_trace),
                     sp_span_id = generate_span_id src_span,
                     sp_parent_span_id = (case parent of Some p \<Rightarrow> sp_span_id p | None \<Rightarrow> replicate 8 0),
                     sp_kind = kind, sp_status = SPAN_STATUS_UNSET, sp_start = now, sp_end = (0, 0), sp_attributes = []\<rparr>)"

definition otel_span_set_attribute :: "string option \<Rightarrow> string option \<Rightarrow> otel_span_t option \<Rightarrow> otel_span_t option" where
  "otel_span_set_attribute key val span =
     (case (span, key, val) of
        (Some s, Some k, Some v) \<Rightarrow>
          if length (sp_attributes s) \<ge> 32 then span
          else Some (s\<lparr>sp_attributes := sp_attributes s @ [(c_copy 64 k, c_copy 256 v)]\<rparr>)
      | _ \<Rightarrow> span)"

definition otel_span_set_attribute_int :: "string option \<Rightarrow> int \<Rightarrow> otel_span_t option \<Rightarrow> otel_span_t option" where
  "otel_span_set_attribute_int key val span =
     (case (span, key) of
        (Some s, Some k) \<Rightarrow>
          if length (sp_attributes s) \<ge> 32 then span
          else otel_span_set_attribute key (Some (c_copy 32 (dec_int val))) span
      | _ \<Rightarrow> span)"

definition otel_span_set_status :: "span_status_t \<Rightarrow> otel_span_t option \<Rightarrow> otel_span_t option" where
  "otel_span_set_status st span = map_option (\<lambda>s. s\<lparr>sp_status := st\<rparr>) span"

section \<open>The exporter\<close>

datatype otlp_mode_t = OTLP_MODE_GRPC | OTLP_MODE_HTTP

text \<open>The static variables of both files; \<open>posted\<close> records the address and body of each request made.\<close>

record tracing =
  service_name :: string
  otel_initialized :: bool
  otlp_endpoint :: string
  export_mode :: otlp_mode_t
  curl_handle :: bool
  exporter_initialized :: bool
  posted :: "(string \<times> string) list"

definition tracing_static :: tracing where
  "tracing_static = \<lparr>service_name = ''c-gateway'', otel_initialized = False, otlp_endpoint = [], export_mode = OTLP_MODE_HTTP,
     curl_handle = False, exporter_initialized = False, posted = []\<rparr>"

text \<open>\<open>have_curl\<close> says whether the program is built with libcurl, \<open>easy_init\<close> whether a handle is created.\<close>

definition otlp_exporter_init :: "bool \<Rightarrow> bool \<Rightarrow> string option \<Rightarrow> otlp_mode_t \<Rightarrow> tracing \<Rightarrow> int \<times> tracing" where
  "otlp_exporter_init have_curl easy_init endpoint mode t =
     (case endpoint of None \<Rightarrow> (- 1, t)
      | Some e \<Rightarrow>
          let e1 = c_copy 256 e;
              e2 = (if mode = OTLP_MODE_HTTP \<and> strstr e1 ''/v1/traces'' = None \<and> length e1 < 246
                    then e1 @ ''/v1/traces'' else e1);
              t1 = t\<lparr>otlp_endpoint := e2, export_mode := mode\<rparr> in
          if have_curl then
            (let t2 = t1\<lparr>curl_handle := easy_init\<rparr> in
             if \<not> easy_init then (- 1, t2) else (0, t2\<lparr>exporter_initialized := True\<rparr>))
          else (- 1, t1\<lparr>exporter_initialized := False\<rparr>))"

definition otlp_exporter_cleanup :: "bool \<Rightarrow> tracing \<Rightarrow> tracing" where
  "otlp_exporter_cleanup have_curl t =
     (if have_curl then t\<lparr>curl_handle := False, exporter_initialized := False\<rparr> else t\<lparr>exporter_initialized := False\<rparr>)"

text \<open>The loops of \<open>trace_id_to_hex\<close> and \<open>span_id_to_hex\<close>, both \<open>%02x\<close> for each byte.\<close>

definition id_to_hex :: "bytes \<Rightarrow> string" where
  "id_to_hex bs = concat (map (\<lambda>b. hex_digits 2 (unat b)) bs)"

definition unix_nano :: "u64 \<times> u64 \<Rightarrow> string" where
  "unix_nano t = dec_nat (unat (fst t * 1000000000 + snd t))"

definition span_to_otlp_json :: "otel_span_t \<Rightarrow> json" where
  "span_to_otlp_json s = JObject
     ([(''traceId'', JString (id_to_hex (sp_trace_id s))), (''spanId'', JString (id_to_hex (sp_span_id s)))] @
      (if \<exists>b\<in>set (sp_parent_span_id s). b \<noteq> 0 then [(''parentSpanId'', JString (id_to_hex (sp_parent_span_id s)))] else []) @
      [(''name'', JString (sp_name s)), (''kind'', JInteger (kind_code (sp_kind s))),
       (''startTimeUnixNano'', JString (unix_nano (sp_start s))), (''endTimeUnixNano'', JString (unix_nano (sp_end s))),
       (''attributes'', JArray (map (\<lambda>(k, v). JObject [(''key'', JString k), (''value'', JObject [(''stringValue'', JString v)])])
          (sp_attributes s))),
       (''status'', JObject [(''code'', JInteger (status_code (sp_status s)))])])"

definition otlp_document :: "otel_span_t \<Rightarrow> json" where
  "otlp_document s = JObject [(''resourceSpans'', JArray [JObject
     [(''scopeSpans'', JArray [JObject
        [(''spans'', JArray [span_to_otlp_json s]),
         (''scope'', JObject [(''name'', JString ''c-gateway''), (''version'', JString ''1.0.0'')])]]),
      (''resource'', JObject [(''attributes'', JArray [JObject
        [(''key'', JString ''service.name''), (''value'', JObject [(''stringValue'', JString ''c-gateway'')])]])])]])]"

definition otlp_exporter_export_span :: "bool \<Rightarrow> (json \<Rightarrow> string option) \<Rightarrow> otel_span_t option \<Rightarrow> tracing \<Rightarrow> int \<times> tracing" where
  "otlp_exporter_export_span have_curl dumps span t =
     (case span of None \<Rightarrow> (- 1, t)
      | Some s \<Rightarrow>
          if have_curl then
            if \<not> curl_handle t \<or> \<not> exporter_initialized t then (- 1, t)
            else (case dumps (otlp_document s) of
                    None \<Rightarrow> (- 1, t)
                  | Some body \<Rightarrow> (0, t\<lparr>posted := posted t @ [(otlp_endpoint t, body)]\<rparr>))
          else (- 1, t))"

fun export_batch_loop :: "bool \<Rightarrow> (json \<Rightarrow> string option) \<Rightarrow> otel_span_t option list \<Rightarrow> int \<Rightarrow> tracing \<Rightarrow> int \<times> tracing" where
  "export_batch_loop have_curl dumps [] n t = (n, t)"
| "export_batch_loop have_curl dumps (s # ss) n t =
     (let (rc, t1) = otlp_exporter_export_span have_curl dumps s t in
      export_batch_loop have_curl dumps ss (if rc = 0 then n + 1 else n) t1)"

definition otlp_exporter_export_batch ::
  "bool \<Rightarrow> (json \<Rightarrow> string option) \<Rightarrow> otel_span_t option list option \<Rightarrow> tracing \<Rightarrow> int \<times> tracing" where
  "otlp_exporter_export_batch have_curl dumps spans t =
     (case spans of None \<Rightarrow> (0, t) | Some ss \<Rightarrow> if ss = [] then (0, t) else export_batch_loop have_curl dumps ss 0 t)"

definition otel_init :: "bool \<Rightarrow> bool \<Rightarrow> string option \<Rightarrow> string option \<Rightarrow> tracing \<Rightarrow> int \<times> tracing" where
  "otel_init have_curl easy_init svc endpoint t =
     (case (svc, endpoint) of
        (Some n, Some e) \<Rightarrow>
          (let (rc, t1) = otlp_exporter_init have_curl easy_init endpoint OTLP_MODE_HTTP (t\<lparr>service_name := c_copy 128 n\<rparr>) in
           if rc \<noteq> 0 then (- 1, t1) else (0, t1\<lparr>otel_initialized := True\<rparr>))
      | _ \<Rightarrow> (- 1, t))"

definition otel_cleanup :: "bool \<Rightarrow> tracing \<Rightarrow> tracing" where
  "otel_cleanup have_curl t =
     (if otel_initialized t then (otlp_exporter_cleanup have_curl t)\<lparr>otel_initialized := False\<rparr> else t)"

text \<open>The span is exported with its end time and freed.\<close>

definition otel_span_end :: "bool \<Rightarrow> (json \<Rightarrow> string option) \<Rightarrow> u64 \<times> u64 \<Rightarrow> otel_span_t option \<Rightarrow> tracing \<Rightarrow> tracing" where
  "otel_span_end have_curl dumps now span t =
     (case span of None \<Rightarrow> t
      | Some s \<Rightarrow>
          if otel_initialized t then snd (otlp_exporter_export_span have_curl dumps (Some (s\<lparr>sp_end := now\<rparr>)) t) else t)"

section \<open>The traceparent header\<close>

text \<open>\<open>%<w>s\<close>: skips white space and reads up to \<open>w\<close> other characters.\<close>

definition scan_str :: "nat \<Rightarrow> string \<Rightarrow> (string \<times> string) option" where
  "scan_str w s =
     (let u = dropWhile is_space s; x = take w (takeWhile (\<lambda>c. \<not> is_space c) u) in
      if x = [] then None else Some (x, drop (length x) u))"

text \<open>
  The loop \<open>sscanf(&id[i*2], "%2x", &byte_val)\<close> over the characters of an id. Reading past the
  terminator of the copied id is undefined.
\<close>

fun read_bytes :: "nat \<Rightarrow> string \<Rightarrow> bytes option outcome" where
  "read_bytes 0 s = Finished (Some [])"
| "read_bytes (Suc n) [] = Finished None"
| "read_bytes (Suc n) [c] = (case scan_hex [c] of None \<Rightarrow> Finished None
     | Some (v, _) \<Rightarrow> if n = 0 then Finished (Some [ucast v]) else Undefined)"
| "read_bytes (Suc n) (c # d # s) =
     (case scan_hex [c, d] of None \<Rightarrow> Finished None
      | Some (v, _) \<Rightarrow> bind_outcome (read_bytes n s) (\<lambda>r. Finished (map_option (\<lambda>bs. ucast v # bs) r)))"

text \<open>The ids when the function returns 0.\<close>

definition otel_extract_trace_context :: "string option \<Rightarrow> (bytes \<times> bytes) option outcome" where
  "otel_extract_trace_context traceparent =
     (case traceparent of None \<Rightarrow> Finished None
      | Some s \<Rightarrow>
          if length s < 55 then Finished None
          else (case Option.bind (scan_str 2 s) (\<lambda>(version, s1). Option.bind (scan_dash s1) (\<lambda>s2.
                     Option.bind (scan_str 32 s2) (\<lambda>(tid, s3). Option.bind (scan_dash s3) (\<lambda>s4.
                     Option.bind (scan_str 16 s4) (\<lambda>(sid, s5). Option.bind (scan_dash s5) (\<lambda>s6.
                     Option.bind (scan_str 2 s6) (\<lambda>(flags, s7). Some (tid, sid)))))))) of
                  None \<Rightarrow> Finished None
                | Some (tid, sid) \<Rightarrow>
                    bind_outcome (read_bytes 16 tid) (\<lambda>t.
                      case t of None \<Rightarrow> Finished None
                      | Some tb \<Rightarrow> bind_outcome (read_bytes 8 sid) (\<lambda>r. Finished (map_option (\<lambda>sb. (tb, sb)) r)))))"

text \<open>The text written and the length returned; the buffer must have 56 bytes.\<close>

definition otel_inject_trace_context :: "bytes option \<Rightarrow> bytes option \<Rightarrow> bool \<Rightarrow> int \<times> string" where
  "otel_inject_trace_context trace span buffer =
     (case (trace, span) of
        (Some t, Some s) \<Rightarrow>
          if \<not> buffer then (- 1, [])
          else (let text = ''00-'' @ id_to_hex t @ ''-'' @ id_to_hex s @ ''-01'' in (int (length text), text))
      | _ \<Rightarrow> (- 1, []))"

section \<open>Lemmas\<close>

lemma read_bytes_defined: "length s = 2 * n \<Longrightarrow> \<exists>r. read_bytes n s = Finished r \<and> (\<forall>bs. r = Some bs \<longrightarrow> length bs = n)"
proof (induction n arbitrary: s)
  case (Suc n)
  then obtain c d u where s: "s = c # d # u" "length u = 2 * n" by (cases s; cases "tl s") auto
  from Suc.IH [OF s(2)] obtain r where "read_bytes n u = Finished r" "\<forall>bs. r = Some bs \<longrightarrow> length bs = n" by blast
  then show ?case by (cases "scan_hex [c, d]") (auto simp: s(1))
qed simp

lemma length_id_to_hex [simp]: "length (id_to_hex bs) = 2 * length bs"
  by (induction bs) (simp_all add: id_to_hex_def)

lemma id_to_hex_hex: "c \<in> set (id_to_hex bs) \<Longrightarrow> is_hex c"
  by (auto simp: id_to_hex_def dest: hex_digits_hex)

lemma scan_hex_byte: "scan_hex (hex_digits 2 (unat (b :: u8))) = Some (of_nat (unat b), [])"
proof -
  have "unat b < 256" using unsigned_less [of b, where 'a = nat] by simp
  then show ?thesis using scan_hex_digits [of 2 "[]" "unat b"] by simp
qed

lemma ucast_u8_u64 [simp]: "ucast (ucast (b :: u8) :: u64) = b"
  by (rule bit_word_eqI) (simp add: bit_simps)

lemma read_bytes_hex: "read_bytes (length bs) (id_to_hex bs) = Finished (Some bs)"
proof (induction bs)
  case (Cons b bs)
  obtain c d where cd: "hex_digits 2 (unat b) = [c, d]" by (simp add: numeral_2_eq_2)
  then have "scan_hex [c, d] = Some (of_nat (unat b), [])" using scan_hex_byte [of b] by simp
  then show ?case using Cons cd by (simp add: id_to_hex_def)
qed (simp add: id_to_hex_def)

lemma scan_str_exact:
  assumes "length x = w" "0 < w" "\<forall>c\<in>set x. \<not> is_space c"
  shows "scan_str w (x @ r) = Some (x, r)"
proof -
  have x: "x \<noteq> []" using assms by auto
  then have "dropWhile is_space (x @ r) = x @ r" using assms(3) by (cases x) auto
  moreover have "take w (takeWhile (\<lambda>c. \<not> is_space c) (x @ r)) = x" using assms by (simp add: takeWhile_append2)
  ultimately show ?thesis using assms(1) x unfolding scan_str_def Let_def by (metis append_eq_conv_conj)
qed

text \<open>A field before a dash has its full width.\<close>

lemma scan_str_dash:
  assumes "scan_str w s = Some (x, r)" "scan_dash r = Some q"
  shows "length x = w"
proof (rule ccontr)
  assume no: "length x \<noteq> w"
  let ?u = "dropWhile is_space s"
  have x: "x = take w (takeWhile (\<lambda>c. \<not> is_space c) ?u)" "r = drop (length x) ?u"
    using assms(1) by (auto simp: scan_str_def Let_def split: if_splits)
  then have "x = takeWhile (\<lambda>c. \<not> is_space c) ?u" using no by auto
  then have "r = dropWhile (\<lambda>c. \<not> is_space c) ?u" using x(2) by (metis dropWhile_eq_drop)
  moreover have "r \<noteq> []" "hd r = CHR ''-''" using assms(2) by (auto simp: scan_dash_def split: list.splits if_splits)
  ultimately have "is_space (CHR ''-'')" by (metis hd_dropWhile)
  then show False by (simp add: is_space_def)
qed

text \<open>Whatever the header, the extraction reads only characters it has stored, and its ids have 16 and 8 bytes.\<close>

lemma extract_defined:
  "\<exists>r. otel_extract_trace_context h = Finished r \<and> (\<forall>t s. r = Some (t, s) \<longrightarrow> length t = 16 \<and> length s = 8)"
proof (cases h)
  case (Some x)
  show ?thesis
  proof (cases "Option.bind (scan_str 2 x) (\<lambda>(version, s1). Option.bind (scan_dash s1) (\<lambda>s2.
                     Option.bind (scan_str 32 s2) (\<lambda>(tid, s3). Option.bind (scan_dash s3) (\<lambda>s4.
                     Option.bind (scan_str 16 s4) (\<lambda>(sid, s5). Option.bind (scan_dash s5) (\<lambda>s6.
                     Option.bind (scan_str 2 s6) (\<lambda>(flags, s7). Some (tid, sid))))))))")
    case None
    then show ?thesis unfolding otel_extract_trace_context_def Some by simp
  next
    case b: (Some p)
    obtain tid sid where p: "p = (tid, sid)" by (cases p)
    have "length tid = 32" "length sid = 16"
      using b p by (auto simp: bind_eq_Some_conv dest: scan_str_dash)
    then obtain rt rs where "read_bytes 16 tid = Finished rt" "\<forall>bs. rt = Some bs \<longrightarrow> length bs = 16"
      "read_bytes 8 sid = Finished rs" "\<forall>bs. rs = Some bs \<longrightarrow> length bs = 8"
      using read_bytes_defined [of tid 16] read_bytes_defined [of sid 8] by auto
    then show ?thesis unfolding otel_extract_trace_context_def Some option.case b p
      by (cases rt) auto
  qed
qed (simp add: otel_extract_trace_context_def)

section \<open>Properties\<close>

text \<open>
  C39. The trace context crosses a service boundary unchanged: for a trace id of 16 and a span id of 8
  bytes the header written is 55 characters long, and reading it gives back both ids. A child span
  started under a parent keeps the parent's trace id and names the parent's span id, so the two headers
  agree in the trace.
\<close>

theorem traceparent_roundtrip:
  assumes "length t = 16" "length s = 8"
  shows "\<exists>h. otel_inject_trace_context (Some t) (Some s) True = (55, h) \<and>
     otel_extract_trace_context (Some h) = Finished (Some (t, s)) \<and>
     (\<forall>src1 src2 now name kind p c. sp_trace_id p = t \<longrightarrow> sp_span_id p = s \<longrightarrow>
        otel_span_start True src1 src2 now (Some name) kind (Some p) = Some c \<longrightarrow>
        sp_trace_id c = t \<and> sp_parent_span_id c = s)"
proof -
  let ?h = "''00-'' @ id_to_hex t @ ''-'' @ id_to_hex s @ ''-01''"
  have ns: "\<forall>c\<in>set (id_to_hex bs). \<not> is_space c" for bs using id_to_hex_hex is_hex_not_special by blast
  have 1: "scan_str 2 ?h = Some (''00'', ''-'' @ id_to_hex t @ ''-'' @ id_to_hex s @ ''-01'')"
    using scan_str_exact [of "''00''" 2] by (simp add: is_space_def)
  have 2: "scan_str 32 (id_to_hex t @ ''-'' @ id_to_hex s @ ''-01'') = Some (id_to_hex t, ''-'' @ id_to_hex s @ ''-01'')"
    using assms ns by (intro scan_str_exact) auto
  have 3: "scan_str 16 (id_to_hex s @ ''-01'') = Some (id_to_hex s, ''-01'')"
    using assms ns by (intro scan_str_exact) auto
  have 4: "scan_str 2 ''01'' = Some (''01'', [])"
    using scan_str_exact [of "''01''" 2 "[]"] by (simp add: is_space_def)
  have "read_bytes 16 (id_to_hex t) = Finished (Some t)" "read_bytes 8 (id_to_hex s) = Finished (Some s)"
    using read_bytes_hex [of t] read_bytes_hex [of s] assms by simp_all
  then have "otel_extract_trace_context (Some ?h) = Finished (Some (t, s))"
    using assms 1 2 3 4 by (simp add: otel_extract_trace_context_def scan_dash_def)
  moreover have "otel_inject_trace_context (Some t) (Some s) True = (55, ?h)"
    using assms by (simp add: otel_inject_trace_context_def)
  ultimately show ?thesis by (auto simp: otel_span_start_def)
qed

theorem traceparent_roundtrip_witness:
  "\<exists>h. otel_inject_trace_context (Some (replicate 16 171)) (Some (replicate 8 7)) True = (55, h) \<and>
     otel_extract_trace_context (Some h) = Finished (Some (replicate 16 171, replicate 8 7))"
  using traceparent_roundtrip [of "replicate 16 171" "replicate 8 7"] by auto

text \<open>The endpoint always fits its array, with the path of the HTTP protocol added when there is room.\<close>

lemma endpoint_fits: "length (otlp_endpoint (snd (otlp_exporter_init hc ei (Some e) mode t))) \<le> 255"
  by (simp add: otlp_exporter_init_def Let_def)

text \<open>The service name given to the initialisation is not exported.\<close>

lemma service_name_ignored:
  "snd (otlp_exporter_export_span hc dumps sp (t\<lparr>service_name := n\<rparr>)) = (snd (otlp_exporter_export_span hc dumps sp t))\<lparr>service_name := n\<rparr>"
  by (simp add: otlp_exporter_export_span_def split: option.splits)

end
