(* ===== verification/Admin_API.thy ===== *)
theory Admin_API
  imports Metrics_Registry
begin

text \<open>
  The administration interface (\<open>admin_grpc.c\<close>): authorization by key, role and action, health and
  status, and its two counters in the metrics. The environment, the status text of the NATS client and
  the clock are parameters. Every call goes through the counters, so its outcome is undefined when they
  have been freed.
\<close>

record admin_resp_t =
  resp_code :: int
  resp_message :: "string option"

record admin_ctx_t =
  ctx_trace_id :: string
  ctx_span_id :: string
  ctx_tenant_id :: string

record admin =
  admin_prom :: prometheus
  admin_requests_total :: "nat option"
  admin_errors_total :: "nat option"

definition admin_metrics_inc :: "string option \<Rightarrow> admin \<Rightarrow> admin outcome" where
  "admin_metrics_inc name a =
     (if name = Some ''gateway_admin_requests_total'' then
        (if admin_requests_total a \<noteq> None
         then bind_outcome (prometheus_counter_inc (admin_requests_total a) (admin_prom a)) (\<lambda>s. Finished (a\<lparr>admin_prom := s\<rparr>))
         else Finished a)
      else if name = Some ''gateway_admin_errors_total'' then
        (if admin_errors_total a \<noteq> None
         then bind_outcome (prometheus_counter_inc (admin_errors_total a) (admin_prom a)) (\<lambda>s. Finished (a\<lparr>admin_prom := s\<rparr>))
         else Finished a)
      else Finished a)"

definition record_admin_metric :: "bool \<Rightarrow> admin \<Rightarrow> admin outcome" where
  "record_admin_metric success a =
     bind_outcome (admin_metrics_inc (Some ''gateway_admin_requests_total'') a) (\<lambda>a1.
       if \<not> success then admin_metrics_inc (Some ''gateway_admin_errors_total'') a1 else Finished a1)"

definition admin_init :: "bool \<Rightarrow> bool \<Rightarrow> admin \<Rightarrow> (admin_resp_t \<times> admin) outcome" where
  "admin_init alloc1 alloc2 a =
     (let a1 = (if admin_requests_total a = None
                then (let (p, s1) = prometheus_counter_create alloc1 ''gateway_admin_requests_total''
                                      ''Total number of admin API requests'' (admin_prom a);
                          (q, s2) = prometheus_counter_create alloc2 ''gateway_admin_errors_total''
                                      ''Total number of admin API errors'' s1 in
                      a\<lparr>admin_prom := s2, admin_requests_total := p, admin_errors_total := q\<rparr>)
                else a) in
      bind_outcome (record_admin_metric True a1) (\<lambda>a2. Finished (\<lparr>resp_code = 0, resp_message = None\<rparr>, a2)))"

definition get_gateway_health_status :: "string option \<Rightarrow> int" where
  "get_gateway_health_status nats_status = (if nats_status \<noteq> Some ''connected'' then 503 else 200)"

definition admin_health :: "string option \<Rightarrow> admin \<Rightarrow> (admin_resp_t \<times> admin) outcome" where
  "admin_health nats_status a =
     (if get_gateway_health_status nats_status = 200
      then bind_outcome (record_admin_metric True a) (\<lambda>a1. Finished (\<lparr>resp_code = 200, resp_message = Some ''healthy''\<rparr>, a1))
      else bind_outcome (record_admin_metric False a) (\<lambda>a1. Finished (\<lparr>resp_code = 503, resp_message = Some ''unhealthy''\<rparr>, a1)))"

definition get_gateway_status_string :: "string option \<Rightarrow> int \<Rightarrow> string" where
  "get_gateway_status_string nats_status now = c_copy 256
     (''{'' @ quoted ''status'' @ '':'' @ quoted ''operational'' @ '','' @ quoted ''nats'' @ '':'' @
      quoted (case nats_status of Some s \<Rightarrow> s | None \<Rightarrow> ''unknown'') @ '','' @ quoted ''timestamp'' @ '':'' @ dec_int now @ ''}'')"

definition admin_status :: "string option \<Rightarrow> int \<Rightarrow> admin \<Rightarrow> (admin_resp_t \<times> admin) outcome" where
  "admin_status nats_status now a =
     bind_outcome (record_admin_metric True a) (\<lambda>a1.
       Finished (\<lparr>resp_code = 200, resp_message = Some (get_gateway_status_string nats_status now)\<rparr>, a1))"

definition validate_api_key :: "getenv \<Rightarrow> string option \<Rightarrow> bool" where
  "validate_api_key env api_key =
     (case api_key of None \<Rightarrow> False
      | Some k \<Rightarrow>
          if k = [] then False
          else if env ''GATEWAY_ADMIN_API_KEY'' = Some k then True
          else k = ''test_admin_key'')"

definition role_allows :: "string \<Rightarrow> string \<Rightarrow> bool" where
  "role_allows role action =
     (if role = ''admin'' then True
      else if role = ''operator'' then action = ''health'' \<or> action = ''status'' \<or> action = ''metrics''
      else if role = ''viewer'' then action = ''metrics''
      else False)"

definition admin_authorize :: "getenv \<Rightarrow> string option \<Rightarrow> string option \<Rightarrow> string option \<Rightarrow> admin \<Rightarrow> (bool \<times> admin) outcome" where
  "admin_authorize env api_key role action a =
     (case (api_key, role, action) of
        (Some k, Some r, Some x) \<Rightarrow>
          if \<not> validate_api_key env api_key
          then bind_outcome (record_admin_metric False a) (\<lambda>a1. Finished (False, a1))
          else bind_outcome (record_admin_metric (role_allows r x) a) (\<lambda>a1. Finished (role_allows r x, a1))
      | _ \<Rightarrow> bind_outcome (record_admin_metric False a) (\<lambda>a1. Finished (False, a1)))"

definition admin_metrics_page :: string where
  "admin_metrics_page =
     text_line ''# HELP gateway_admin_requests_total Total admin API requests'' @
     text_line ''# TYPE gateway_admin_requests_total counter'' @ text_line ''gateway_admin_requests_total 0'' @
     text_line ''# HELP gateway_admin_errors_total Total admin API errors'' @
     text_line ''# TYPE gateway_admin_errors_total counter'' @ text_line ''gateway_admin_errors_total 0''"

text \<open>The return value of \<open>snprintf\<close>, the text stored, and the new state.\<close>

definition admin_get_metrics :: "bool \<Rightarrow> nat \<Rightarrow> admin \<Rightarrow> (int \<times> string \<times> admin) outcome" where
  "admin_get_metrics buf buffer_size a =
     (if \<not> buf \<or> buffer_size = 0 then Finished (- 1, [], a)
      else bind_outcome (record_admin_metric True a) (\<lambda>a1.
        Finished (int (length admin_metrics_page), c_copy buffer_size admin_metrics_page, a1)))"

definition admin_trace_ctx :: "string option \<Rightarrow> string option \<Rightarrow> string option \<Rightarrow> admin_ctx_t" where
  "admin_trace_ctx tr sp tn =
     \<lparr>ctx_trace_id = (case tr of Some t \<Rightarrow> t | None \<Rightarrow> []), ctx_span_id = (case sp of Some t \<Rightarrow> t | None \<Rightarrow> []),
      ctx_tenant_id = (case tn of Some t \<Rightarrow> t | None \<Rightarrow> [])\<rparr>"

section \<open>Specification\<close>

datatype admin_call =
    Ask_health "string option"
  | Ask_status "string option" int
  | Ask_authorize "string option" "string option" "string option"
  | Ask_metrics bool nat

text \<open>Whether the call is answered with success, from its arguments alone.\<close>

fun grants :: "getenv \<Rightarrow> admin_call \<Rightarrow> bool" where
  "grants env (Ask_health st) = (st = Some ''connected'')"
| "grants env (Ask_status st now) = True"
| "grants env (Ask_authorize k r x) =
     ((\<exists>key. k = Some key \<and> key \<noteq> [] \<and> (env ''GATEWAY_ADMIN_API_KEY'' = Some key \<or> key = ''test_admin_key'')) \<and>
      (\<exists>role act. r = Some role \<and> x = Some act \<and>
         (role = ''admin'' \<or> role = ''operator'' \<and> act \<in> {''health'', ''status'', ''metrics''} \<or>
          role = ''viewer'' \<and> act = ''metrics'')))"
| "grants env (Ask_metrics buf n) = (buf \<and> n \<noteq> 0)"

text \<open>The calls that reach the counters: all but a request for the metrics without a buffer or with an empty one.\<close>

fun counted :: "admin_call \<Rightarrow> bool" where
  "counted (Ask_metrics buf n) = (buf \<and> n \<noteq> 0)"
| "counted _ = True"

fun admin_step :: "getenv \<Rightarrow> admin_call \<Rightarrow> admin \<Rightarrow> (bool \<times> admin) outcome" where
  "admin_step env (Ask_health st) a = bind_outcome (admin_health st a) (\<lambda>(r, a1). Finished (resp_code r = 200, a1))"
| "admin_step env (Ask_status st now) a = bind_outcome (admin_status st now a) (\<lambda>(r, a1). Finished (resp_code r = 200, a1))"
| "admin_step env (Ask_authorize k r x) a = admin_authorize env k r x a"
| "admin_step env (Ask_metrics buf n) a = bind_outcome (admin_get_metrics buf n a) (\<lambda>(w, t, a1). Finished (w > 0, a1))"

fun admin_run :: "getenv \<Rightarrow> admin_call list \<Rightarrow> admin \<Rightarrow> (bool list \<times> admin) outcome" where
  "admin_run env [] a = Finished ([], a)"
| "admin_run env (c # cs) a =
     bind_outcome (admin_step env c a) (\<lambda>(ok, a1). bind_outcome (admin_run env cs a1) (\<lambda>(oks, a2). Finished (ok # oks, a2)))"

text \<open>The two counters are live, distinct, and have the given values.\<close>

definition admin_counts :: "u64 \<Rightarrow> u64 \<Rightarrow> admin \<Rightarrow> bool" where
  "admin_counts rq er a =
     (\<exists>p q c d. admin_requests_total a = Some p \<and> admin_errors_total a = Some q \<and> p \<noteq> q \<and>
        at_address (counter_heap (admin_prom a)) p = Finished c \<and> at_address (counter_heap (admin_prom a)) q = Finished d \<and>
        c_value c = rq \<and> c_value d = er)"

section \<open>Lemmas\<close>

lemma record_admin_counts:
  assumes "admin_counts rq er a"
  shows "\<exists>a1. record_admin_metric ok a = Finished a1 \<and> admin_counts (rq + 1) (if ok then er else er + 1) a1"
proof -
  obtain p q c d where a: "admin_requests_total a = Some p" "admin_errors_total a = Some q" "p \<noteq> q"
    "at_address (counter_heap (admin_prom a)) p = Finished c" "at_address (counter_heap (admin_prom a)) q = Finished d"
    "c_value c = rq" "c_value d = er"
    using assms by (auto simp: admin_counts_def)
  then have l: "p < length (counter_heap (admin_prom a))" "q < length (counter_heap (admin_prom a))"
    by (simp_all add: at_address_Finished)
  show ?thesis using a l
    by (auto simp: record_admin_metric_def admin_metrics_inc_def prometheus_counter_inc_def admin_counts_def)
qed

lemma admin_authorize_grants:
  "admin_authorize env k r x a =
     bind_outcome (record_admin_metric (grants env (Ask_authorize k r x)) a) (\<lambda>a1. Finished (grants env (Ask_authorize k r x), a1))"
  by (auto simp: admin_authorize_def validate_api_key_def role_allows_def split: option.splits)

lemma admin_step_counts:
  assumes "admin_counts rq er a"
  shows "\<exists>a1. admin_step env c a = Finished (grants env c, a1) \<and>
     admin_counts (if counted c then rq + 1 else rq) (if counted c \<and> \<not> grants env c then er + 1 else er) a1"
proof -
  obtain a1 where a1: "record_admin_metric (grants env c) a = Finished a1"
    "admin_counts (rq + 1) (if grants env c then er else er + 1) a1"
    using record_admin_counts [OF assms] by blast
  show ?thesis
  proof (cases c)
    case (Ask_health st)
    then show ?thesis using a1 by (auto simp: admin_health_def get_gateway_health_status_def)
  next
    case (Ask_authorize k r x)
    then show ?thesis using a1 by (cases "grants env c") (simp_all add: admin_authorize_grants del: grants.simps)
  next
    case (Ask_metrics buf n)
    then show ?thesis using a1 assms by (auto simp: admin_get_metrics_def admin_metrics_page_def text_line_def)
  qed (use a1 in \<open>auto simp: admin_status_def\<close>)
qed

section \<open>Properties\<close>

text \<open>
  C40. The administration interface grants exactly what its policy says and counts what it does. After an
  initialisation with its counters created, every sequence of calls ends without touching freed memory;
  an authorization is granted exactly when the key is not empty and is the configured key or the test
  key, and the role is admin, or operator for health, status or metrics, or viewer for metrics; a request
  for the metrics succeeds exactly with a buffer that is not empty. The two counters are the number of
  calls, the initialisation included, and of those answered with failure; only the calls for the metrics
  without such a buffer, which fail, are in neither of them.
\<close>

theorem admin_policy:
  assumes "admin_requests_total a0 = None" "length (counters (admin_prom a0)) \<le> 98" "admin_init True True a0 = Finished (r, a)"
  shows "\<exists>a1. admin_run env cs a = Finished (map (grants env) cs, a1) \<and>
     admin_counts (of_nat (length (filter counted cs) + 1)) (of_nat (length (filter (\<lambda>c. counted c \<and> \<not> grants env c) cs))) a1"
proof -
  have run: "\<exists>a1. admin_run env cs a = Finished (map (grants env) cs, a1) \<and>
     admin_counts (rq + of_nat (length (filter counted cs))) (er + of_nat (length (filter (\<lambda>c. counted c \<and> \<not> grants env c) cs))) a1"
    if "admin_counts rq er a" for rq er a
    using that
  proof (induction cs arbitrary: rq er a)
    case (Cons c cs)
    obtain a1 where a1: "admin_step env c a = Finished (grants env c, a1)"
      "admin_counts (if counted c then rq + 1 else rq) (if counted c \<and> \<not> grants env c then er + 1 else er) a1"
      using admin_step_counts [OF Cons.prems] by blast
    from Cons.IH [OF a1(2)] a1(1) show ?case
      by (cases "grants env c"; cases "counted c") (auto simp: add.assoc add.left_commute)
  qed simp
  let ?h = "counter_heap (admin_prom a0)"
  let ?s1 = "snd (prometheus_counter_create True ''gateway_admin_requests_total'' ''Total number of admin API requests'' (admin_prom a0))"
  let ?s2 = "snd (prometheus_counter_create True ''gateway_admin_errors_total'' ''Total number of admin API errors'' ?s1)"
  let ?a = "a0\<lparr>admin_prom := ?s2, admin_requests_total := Some (length ?h), admin_errors_total := Some (Suc (length ?h))\<rparr>"
  have "bind_outcome (record_admin_metric True ?a) (\<lambda>a2. Finished (\<lparr>resp_code = 0, resp_message = None\<rparr>, a2)) = Finished (r, a)"
    using assms by (simp add: admin_init_def prometheus_counter_create_def MAX_METRICS_def)
  moreover have "admin_counts 0 0 ?a"
    using assms(2) by (simp add: admin_counts_def prometheus_counter_create_def MAX_METRICS_def at_address_def nth_append)
  from record_admin_counts [OF this, of True] obtain a1 where "record_admin_metric True ?a = Finished a1" "admin_counts 1 0 a1"
    by auto
  ultimately have "admin_counts 1 0 a" by simp
  from run [OF this] show ?thesis by simp
qed

definition admin_static :: admin where
  "admin_static = \<lparr>admin_prom = prom_static, admin_requests_total = None, admin_errors_total = None\<rparr>"

lemma admin_static_init: "\<exists>a. admin_init True True admin_static = Finished (\<lparr>resp_code = 0, resp_message = None\<rparr>, a)"
  by (simp add: admin_init_def admin_static_def prom_static_def prometheus_counter_create_def MAX_METRICS_def
      record_admin_metric_def admin_metrics_inc_def prometheus_counter_inc_def at_address_def)

theorem admin_policy_witness:
  "\<exists>a a1. admin_init True True admin_static = Finished (\<lparr>resp_code = 0, resp_message = None\<rparr>, a) \<and>
     admin_run (\<lambda>_. Some ''k'') [Ask_authorize (Some ''k'') (Some ''viewer'') (Some ''restart''),
       Ask_authorize (Some ''k'') (Some ''operator'') (Some ''status''), Ask_metrics True 0] a = Finished ([False, True, False], a1) \<and>
     admin_counts 3 1 a1"
proof -
  obtain a where a: "admin_init True True admin_static = Finished (\<lparr>resp_code = 0, resp_message = None\<rparr>, a)"
    using admin_static_init by blast
  from admin_policy [OF _ _ a, of "\<lambda>_. Some ''k''" "[Ask_authorize (Some ''k'') (Some ''viewer'') (Some ''restart''),
       Ask_authorize (Some ''k'') (Some ''operator'') (Some ''status''), Ask_metrics True 0]"] a
  show ?thesis by (auto simp: admin_static_def prom_static_def)
qed

text \<open>
  The test key is accepted in every environment, and the metrics page of this interface shows zeros
  whatever the counters are.
\<close>

lemma test_key_always_accepted: "validate_api_key env (Some ''test_admin_key'')"
  by (simp add: validate_api_key_def)

lemma admin_page_constant:
  "admin_get_metrics True (Suc n) a = Finished (w, t, a1) \<Longrightarrow> admin_get_metrics True (Suc n) b = Finished (w', t', b1) \<Longrightarrow> t = t'"
  by (auto simp: admin_get_metrics_def bind_Finished)

end
