(* ===== verification/Prom_Exporter.thy ===== *)
theory Prom_Exporter
  imports Metrics
begin

text \<open>
  The second metrics library (\<open>prometheus_exporter.c\<close>), with values in doubles. The arithmetic of doubles
  and the text \<open>%.6f\<close> prints for one are parameters, so that the results hold for every value,
  infinities included. Metrics live at addresses of a heap as in \<open>Metrics\<close>, whose export loop is shared.
\<close>

record 'f doubles =
  d_add :: "'f \<Rightarrow> 'f \<Rightarrow> 'f"
  d_sub :: "'f \<Rightarrow> 'f \<Rightarrow> 'f"
  d_le :: "'f \<Rightarrow> 'f \<Rightarrow> bool"
  d_lt :: "'f \<Rightarrow> 'f \<Rightarrow> bool"
  d_zero :: 'f
  d_inf :: 'f
  d_text :: "'f \<Rightarrow> string"

datatype prom_metric_type_t = PROM_METRIC_COUNTER | PROM_METRIC_GAUGE | PROM_METRIC_HISTOGRAM

record 'f prom_histogram =
  ph_buckets :: "('f \<times> u64) list"
  ph_sum :: 'f
  ph_count :: u64

text \<open>The union: the member that was stored.\<close>

datatype 'f prom_data = Single 'f | Histogram "'f prom_histogram"

record 'f prom_metric =
  pm_name :: string
  pm_help :: string
  pm_type :: prom_metric_type_t
  pm_data :: "'f prom_data"

record 'f prom_registry =
  pr_heap :: "'f prom_metric option list"
  pr_metrics :: "nat list"

definition prom_registry_create :: "bool \<Rightarrow> 'f prom_registry option" where
  "prom_registry_create alloc = (if alloc then Some \<lparr>pr_heap = [], pr_metrics = []\<rparr> else None)"

definition prom_registry_destroy :: "'f prom_registry \<Rightarrow> 'f prom_registry" where
  "prom_registry_destroy r = r\<lparr>pr_heap := free_addresses (pr_metrics r) (pr_heap r)\<rparr>"

definition add_metric :: "'f prom_metric \<Rightarrow> 'f prom_registry \<Rightarrow> nat option \<times> 'f prom_registry" where
  "add_metric m r = (Some (length (pr_heap r)), r\<lparr>pr_heap := pr_heap r @ [Some m], pr_metrics := pr_metrics r @ [length (pr_heap r)]\<rparr>)"

definition prom_counter_register ::
  "'f doubles \<Rightarrow> bool \<Rightarrow> string option \<Rightarrow> string option \<Rightarrow> 'f prom_registry \<Rightarrow> nat option \<times> 'f prom_registry" where
  "prom_counter_register D alloc name help r =
     (case (name, help) of
        (Some n, Some t) \<Rightarrow>
          if length (pr_metrics r) \<ge> 128 then (None, r)
          else if \<not> alloc then (None, r)
          else add_metric \<lparr>pm_name = c_copy 128 n, pm_help = c_copy 256 t, pm_type = PROM_METRIC_COUNTER, pm_data = Single (d_zero D)\<rparr> r
      | _ \<Rightarrow> (None, r))"

definition prom_gauge_register ::
  "'f doubles \<Rightarrow> bool \<Rightarrow> string option \<Rightarrow> string option \<Rightarrow> 'f prom_registry \<Rightarrow> nat option \<times> 'f prom_registry" where
  "prom_gauge_register D alloc name help r =
     (case (name, help) of
        (Some n, Some t) \<Rightarrow>
          if length (pr_metrics r) \<ge> 128 then (None, r)
          else if \<not> alloc then (None, r)
          else add_metric \<lparr>pm_name = c_copy 128 n, pm_help = c_copy 256 t, pm_type = PROM_METRIC_GAUGE, pm_data = Single (d_zero D)\<rparr> r
      | _ \<Rightarrow> (None, r))"

text \<open>\<open>alloc1\<close> is the allocation of the metric, \<open>alloc2\<close> the one of the buckets.\<close>

definition prom_histogram_register ::
  "'f doubles \<Rightarrow> bool \<Rightarrow> bool \<Rightarrow> string option \<Rightarrow> string option \<Rightarrow> 'f list option \<Rightarrow> 'f prom_registry \<Rightarrow> nat option \<times> 'f prom_registry" where
  "prom_histogram_register D alloc1 alloc2 name help buckets r =
     (case (name, help, buckets) of
        (Some n, Some t, Some bs) \<Rightarrow>
          if bs = [] then (None, r)
          else if length (pr_metrics r) \<ge> 128 then (None, r)
          else if \<not> alloc1 then (None, r)
          else if \<not> alloc2 then (None, r)
          else add_metric \<lparr>pm_name = c_copy 128 n, pm_help = c_copy 256 t, pm_type = PROM_METRIC_HISTOGRAM,
                 pm_data = Histogram \<lparr>ph_buckets = map (\<lambda>b. (b, 0)) bs @ [(d_inf D, 0)], ph_sum = d_zero D, ph_count = 0\<rparr>\<rparr> r
      | _ \<Rightarrow> (None, r))"

text \<open>
  The updates of a single value do not look at the type: on a histogram they overwrite the pointer to
  the buckets, which is undefined.
\<close>

definition on_value :: "('f \<Rightarrow> 'f) \<Rightarrow> nat \<Rightarrow> 'f prom_registry \<Rightarrow> 'f prom_registry outcome" where
  "on_value f a r = bind_outcome (at_address (pr_heap r) a) (\<lambda>m.
     case pm_data m of
       Single v \<Rightarrow> Finished (r\<lparr>pr_heap := set_address a (m\<lparr>pm_data := Single (f v)\<rparr>) (pr_heap r)\<rparr>)
     | Histogram _ \<Rightarrow> Undefined)"

definition prom_counter_inc :: "'f doubles \<Rightarrow> nat option \<Rightarrow> 'f \<Rightarrow> 'f prom_registry \<Rightarrow> 'f prom_registry outcome" where
  "prom_counter_inc D p v r =
     (case p of None \<Rightarrow> Finished r | Some a \<Rightarrow> if d_lt D v (d_zero D) then Finished r else on_value (\<lambda>x. d_add D x v) a r)"

definition prom_gauge_set :: "nat option \<Rightarrow> 'f \<Rightarrow> 'f prom_registry \<Rightarrow> 'f prom_registry outcome" where
  "prom_gauge_set p v r = (case p of None \<Rightarrow> Finished r | Some a \<Rightarrow> on_value (\<lambda>_. v) a r)"

definition prom_gauge_inc :: "'f doubles \<Rightarrow> nat option \<Rightarrow> 'f \<Rightarrow> 'f prom_registry \<Rightarrow> 'f prom_registry outcome" where
  "prom_gauge_inc D p v r = (case p of None \<Rightarrow> Finished r | Some a \<Rightarrow> on_value (\<lambda>x. d_add D x v) a r)"

definition prom_gauge_dec :: "'f doubles \<Rightarrow> nat option \<Rightarrow> 'f \<Rightarrow> 'f prom_registry \<Rightarrow> 'f prom_registry outcome" where
  "prom_gauge_dec D p v r = (case p of None \<Rightarrow> Finished r | Some a \<Rightarrow> on_value (\<lambda>x. d_sub D x v) a r)"

definition prom_observe :: "'f doubles \<Rightarrow> 'f \<Rightarrow> 'f prom_histogram \<Rightarrow> 'f prom_histogram" where
  "prom_observe D v h = h
     \<lparr>ph_sum := d_add D (ph_sum h) v, ph_count := ph_count h + 1,
      ph_buckets := map (\<lambda>(le, n). (le, if d_le D v le then n + 1 else n)) (ph_buckets h)\<rparr>"

definition prom_histogram_observe :: "'f doubles \<Rightarrow> nat option \<Rightarrow> 'f \<Rightarrow> 'f prom_registry \<Rightarrow> 'f prom_registry outcome" where
  "prom_histogram_observe D p v r =
     (case p of None \<Rightarrow> Finished r
      | Some a \<Rightarrow> bind_outcome (at_address (pr_heap r) a) (\<lambda>m.
          if pm_type m \<noteq> PROM_METRIC_HISTOGRAM then Finished r
          else (case pm_data m of
                  Histogram h \<Rightarrow> Finished (r\<lparr>pr_heap := set_address a (m\<lparr>pm_data := Histogram (prom_observe D v h)\<rparr>) (pr_heap r)\<rparr>)
                | Single _ \<Rightarrow> Undefined)))"

definition type_str :: "prom_metric_type_t \<Rightarrow> string" where
  "type_str t = (case t of PROM_METRIC_COUNTER \<Rightarrow> ''counter'' | PROM_METRIC_GAUGE \<Rightarrow> ''gauge'' | PROM_METRIC_HISTOGRAM \<Rightarrow> ''histogram'')"

definition prom_pieces :: "'f doubles \<Rightarrow> 'f prom_metric \<Rightarrow> string outcome list" where
  "prom_pieces D m =
     map Finished (metric_head (pm_name m) (pm_help m) (type_str (pm_type m))) @
     (case pm_data m of
        Single v \<Rightarrow> [if pm_type m = PROM_METRIC_HISTOGRAM then Undefined else Finished (text_line (pm_name m @ '' '' @ d_text D v))]
      | Histogram h \<Rightarrow>
          if pm_type m \<noteq> PROM_METRIC_HISTOGRAM then [Undefined]
          else map (\<lambda>(le, n). Finished (text_line (pm_name m @ ''_bucket{le='' @ quoted (d_text D le) @ ''} '' @ dec_nat (unat n)))) (ph_buckets h) @
            [Finished (text_line (pm_name m @ ''_sum '' @ d_text D (ph_sum h))),
             Finished (text_line (pm_name m @ ''_count '' @ dec_nat (unat (ph_count h))))])"

definition prom_registry_export :: "'f doubles \<Rightarrow> bool \<Rightarrow> nat \<Rightarrow> 'f prom_registry option \<Rightarrow> (int \<times> string option) outcome" where
  "prom_registry_export D buf cap registry =
     (case registry of None \<Rightarrow> Finished (- 1, None)
      | Some r \<Rightarrow>
          if \<not> buf \<or> cap = 0 then Finished (- 1, None)
          else bind_outcome (export_loop cap (prom_pieces D) (pr_heap r) (pr_metrics r) []) (\<lambda>t.
            case t of None \<Rightarrow> Finished (- 1, None) | Some x \<Rightarrow> Finished (int (length x), Some x)))"

section \<open>Specification\<close>

datatype 'f prom_op =
    Register_counter "string option" "string option"
  | Register_gauge "string option" "string option"
  | Register_histogram "string option" "string option" "'f list option"
  | Counter_inc nat 'f
  | Gauge_set nat 'f
  | Gauge_inc nat 'f
  | Gauge_dec nat 'f
  | Observe nat 'f

fun prom_op_apply :: "'f doubles \<Rightarrow> 'f prom_op \<Rightarrow> 'f prom_registry \<Rightarrow> 'f prom_registry outcome" where
  "prom_op_apply D (Register_counter n t) r = Finished (snd (prom_counter_register D True n t r))"
| "prom_op_apply D (Register_gauge n t) r = Finished (snd (prom_gauge_register D True n t r))"
| "prom_op_apply D (Register_histogram n t bs) r = Finished (snd (prom_histogram_register D True True n t bs r))"
| "prom_op_apply D (Counter_inc a v) r = prom_counter_inc D (Some a) v r"
| "prom_op_apply D (Gauge_set a v) r = prom_gauge_set (Some a) v r"
| "prom_op_apply D (Gauge_inc a v) r = prom_gauge_inc D (Some a) v r"
| "prom_op_apply D (Gauge_dec a v) r = prom_gauge_dec D (Some a) v r"
| "prom_op_apply D (Observe a v) r = prom_histogram_observe D (Some a) v r"

fun prom_ops :: "'f doubles \<Rightarrow> 'f prom_op list \<Rightarrow> 'f prom_registry \<Rightarrow> 'f prom_registry outcome" where
  "prom_ops D [] r = Finished r"
| "prom_ops D (x # xs) r = bind_outcome (prom_op_apply D x r) (prom_ops D xs)"

text \<open>The values observed through an address in a sequence of operations.\<close>

fun observed_at :: "nat \<Rightarrow> 'f prom_op list \<Rightarrow> 'f list" where
  "observed_at a [] = []"
| "observed_at a (Observe b v # xs) = (if a = b then v # observed_at a xs else observed_at a xs)"
| "observed_at a (_ # xs) = observed_at a xs"

definition prom_counts :: "'f doubles \<Rightarrow> 'f list \<Rightarrow> 'f list \<Rightarrow> ('f \<times> u64) list" where
  "prom_counts D les vs = map (\<lambda>le. (le, of_nat (length (filter (\<lambda>v. d_le D v le) vs)))) les"

text \<open>A metric's type says which member of the union is stored.\<close>

definition metric_ok :: "'f prom_metric \<Rightarrow> bool" where
  "metric_ok m = ((pm_type m = PROM_METRIC_HISTOGRAM) = (\<exists>h. pm_data m = Histogram h) \<and>
     length (pm_name m) \<le> 127 \<and> length (pm_help m) \<le> 255)"

definition registry_ok :: "'f prom_registry \<Rightarrow> bool" where
  "registry_ok r = ((\<forall>a\<in>set (pr_metrics r). \<exists>m. at_address (pr_heap r) a = Finished m) \<and>
     (\<forall>m. Some m \<in> set (pr_heap r) \<longrightarrow> metric_ok m))"

definition prom_text :: "'f doubles \<Rightarrow> 'f prom_registry \<Rightarrow> string" where
  "prom_text D r = concat (map (object_text (prom_pieces D) (pr_heap r)) (pr_metrics r))"

section \<open>Lemmas\<close>

lemma prom_pieces_defined: "metric_ok m \<Longrightarrow> Undefined \<notin> set (prom_pieces D m)"
  by (auto simp: prom_pieces_def metric_ok_def split: prom_data.splits)

lemma registry_ok_new: "registry_ok r \<Longrightarrow> metric_ok m \<Longrightarrow> registry_ok (snd (add_metric m r))"
  by (auto simp: registry_ok_def add_metric_def at_address_Finished nth_append)

lemma registry_ok_set:
  assumes "registry_ok r" "at_address (pr_heap r) a = Finished m" "metric_ok m \<Longrightarrow> metric_ok m'"
  shows "registry_ok (r\<lparr>pr_heap := set_address a m' (pr_heap r)\<rparr>)"
proof -
  have "metric_ok m" using assms(1,2) unfolding registry_ok_def at_address_Finished by (metis nth_mem)
  moreover have "\<exists>z. at_address (set_address a m' (pr_heap r)) b = Finished z" if "b \<in> set (pr_metrics r)" for b
    using that assms(1) by (auto simp: registry_ok_def)
  ultimately show ?thesis using assms(1,3) set_update_subset_insert [of "pr_heap r" a "Some m'"]
    unfolding registry_ok_def set_address_def by (auto simp: subset_iff)
qed

lemma on_value_Finished:
  assumes "on_value f a r = Finished r'"
  obtains m v where "at_address (pr_heap r) a = Finished m" "pm_data m = Single v"
    "r' = r\<lparr>pr_heap := set_address a (m\<lparr>pm_data := Single (f v)\<rparr>) (pr_heap r)\<rparr>"
proof (cases "at_address (pr_heap r) a")
  case (Finished m)
  with assms obtain v where v: "pm_data m = Single v" by (cases "pm_data m") (simp_all add: on_value_def)
  with assms Finished show thesis by (intro that [of m v]) (simp_all add: on_value_def)
qed (use assms in \<open>simp add: on_value_def\<close>)

lemma observe_Finished:
  assumes "prom_histogram_observe D (Some a) v r = Finished r'"
  obtains m h where "at_address (pr_heap r) a = Finished m" "pm_type m = PROM_METRIC_HISTOGRAM" "pm_data m = Histogram h"
    "r' = r\<lparr>pr_heap := set_address a (m\<lparr>pm_data := Histogram (prom_observe D v h)\<rparr>) (pr_heap r)\<rparr>"
  | m where "at_address (pr_heap r) a = Finished m" "pm_type m \<noteq> PROM_METRIC_HISTOGRAM" "r' = r"
proof (cases "at_address (pr_heap r) a")
  case (Finished m)
  show thesis
  proof (cases "pm_type m = PROM_METRIC_HISTOGRAM")
    case True
    with assms Finished obtain h where h: "pm_data m = Histogram h"
      by (cases "pm_data m") (simp_all add: prom_histogram_observe_def)
    with assms Finished True show thesis by (intro that(1) [of m h]) (simp_all add: prom_histogram_observe_def)
  next
    case False
    with assms Finished show thesis by (intro that(2) [of m]) (simp_all add: prom_histogram_observe_def)
  qed
qed (use assms in \<open>simp add: prom_histogram_observe_def\<close>)

lemma on_value_ok: "registry_ok r \<Longrightarrow> on_value f a r = Finished r' \<Longrightarrow> registry_ok r'"
  by (erule on_value_Finished) (auto simp: metric_ok_def intro!: registry_ok_set)

lemma observe_ok: "registry_ok r \<Longrightarrow> prom_histogram_observe D (Some a) v r = Finished r' \<Longrightarrow> registry_ok r'"
  by (erule observe_Finished) (auto simp: metric_ok_def intro!: registry_ok_set)

lemma prom_op_ok:
  assumes "registry_ok r" "prom_op_apply D x r = Finished r'"
  shows "registry_ok r'"
proof (cases x)
  case (Register_counter n t)
  then show ?thesis using assms
    by (auto simp: prom_counter_register_def metric_ok_def intro!: registry_ok_new split: option.splits if_splits)
next
  case (Register_gauge n t)
  then show ?thesis using assms
    by (auto simp: prom_gauge_register_def metric_ok_def intro!: registry_ok_new split: option.splits if_splits)
next
  case (Register_histogram n t bs)
  then show ?thesis using assms
    by (auto simp: prom_histogram_register_def metric_ok_def intro!: registry_ok_new split: option.splits if_splits)
next
  case (Observe a v)
  then show ?thesis using assms observe_ok by simp
qed (use assms in \<open>auto simp: prom_counter_inc_def prom_gauge_set_def prom_gauge_inc_def prom_gauge_dec_def
      intro: on_value_ok split: if_splits\<close>)

lemma prom_ops_ok: "prom_ops D xs r = Finished r' \<Longrightarrow> registry_ok r \<Longrightarrow> registry_ok r'"
  by (induction xs arbitrary: r) (auto simp: bind_Finished dest: prom_op_ok)

definition is_histogram :: "'f prom_histogram \<Rightarrow> 'f prom_metric outcome \<Rightarrow> bool" where
  "is_histogram h x = (\<exists>m. x = Finished m \<and> pm_type m = PROM_METRIC_HISTOGRAM \<and> pm_data m = Histogram h)"

lemma is_histogram_new: "is_histogram h (at_address (pr_heap r) a) \<Longrightarrow> is_histogram h (at_address (pr_heap (snd (add_metric m r))) a)"
  by (auto simp: is_histogram_def add_metric_def at_address_Finished nth_append)

lemma is_histogram_value:
  "is_histogram h (at_address (pr_heap r) a) \<Longrightarrow> on_value f b r = Finished r' \<Longrightarrow> is_histogram h (at_address (pr_heap r') a)"
  by (erule on_value_Finished) (auto simp: is_histogram_def)

lemma is_histogram_observe:
  "is_histogram h (at_address (pr_heap r) a) \<Longrightarrow> prom_histogram_observe D (Some b) v r = Finished r' \<Longrightarrow>
     is_histogram (if a = b then prom_observe D v h else h) (at_address (pr_heap r') a)"
  by (erule observe_Finished) (auto simp: is_histogram_def at_address_Finished [of "pr_heap r"])

lemma prom_op_histogram:
  assumes "is_histogram h (at_address (pr_heap r) a)" "prom_op_apply D x r = Finished r'"
  shows "is_histogram (foldl (\<lambda>h v. prom_observe D v h) h (observed_at a [x])) (at_address (pr_heap r') a)"
proof (cases x)
  case (Observe b v)
  then show ?thesis using assms is_histogram_observe [OF assms(1), of D b v r'] by auto
next
  case (Register_counter n t)
  then show ?thesis using assms by (auto simp: prom_counter_register_def intro: is_histogram_new split: option.splits if_splits)
next
  case (Register_gauge n t)
  then show ?thesis using assms by (auto simp: prom_gauge_register_def intro: is_histogram_new split: option.splits if_splits)
next
  case (Register_histogram n t bs)
  then show ?thesis using assms by (auto simp: prom_histogram_register_def intro: is_histogram_new split: option.splits if_splits)
qed (use assms in \<open>auto simp: prom_counter_inc_def prom_gauge_set_def prom_gauge_inc_def prom_gauge_dec_def
      intro: is_histogram_value split: if_splits\<close>)

lemma observed_at_Cons: "observed_at a (x # xs) = observed_at a [x] @ observed_at a xs"
  by (cases x) simp_all

lemma prom_ops_histogram:
  assumes "is_histogram h (at_address (pr_heap r) a)" "prom_ops D xs r = Finished r'"
  shows "is_histogram (foldl (\<lambda>h v. prom_observe D v h) h (observed_at a xs)) (at_address (pr_heap r') a)"
  using assms
proof (induction xs arbitrary: r h)
  case (Cons x xs)
  then obtain r1 where r1: "prom_op_apply D x r = Finished r1" "prom_ops D xs r1 = Finished r'" by (auto simp: bind_Finished)
  from Cons.IH [OF prom_op_histogram [OF Cons.prems(1) r1(1)] r1(2)] show ?case
    by (simp add: observed_at_Cons [of a x xs])
qed simp

lemma foldl_observe:
  assumes "ph_buckets h = prom_counts D les us" "ph_count h = of_nat (length us)"
  shows "ph_buckets (foldl (\<lambda>h v. prom_observe D v h) h vs) = prom_counts D les (us @ vs) \<and>
     ph_count (foldl (\<lambda>h v. prom_observe D v h) h vs) = of_nat (length (us @ vs)) \<and>
     ph_sum (foldl (\<lambda>h v. prom_observe D v h) h vs) = foldl (d_add D) (ph_sum h) vs"
  using assms
proof (induction vs arbitrary: h us)
  case (Cons v vs)
  have "ph_buckets (prom_observe D v h) = prom_counts D les (us @ [v])"
    using Cons.prems(1) by (simp add: prom_observe_def prom_counts_def)
  moreover have "ph_count (prom_observe D v h) = of_nat (length (us @ [v]))" "ph_sum (prom_observe D v h) = d_add D (ph_sum h) v"
    using Cons.prems(2) by (simp_all add: prom_observe_def)
  ultimately show ?case using Cons.IH [of "prom_observe D v h" "us @ [v]"] by simp
qed simp

section \<open>Properties\<close>

text \<open>
  In any program that uses this library, whatever the doubles do: after a histogram is registered in
  a registry that was used before, and after any further operations that end, the bucket of every bound
  counts the observations made through this histogram that are at most the bound, the total counts all
  of them, the sum is their sum in the order they came, and the export of the registry is the complete
  text or -1, according to whether the text fits the buffer.
\<close>

theorem exporter_exact:
  assumes "prom_registry_create True = Some r0" "prom_ops D xs r0 = Finished r1"
    "prom_histogram_register D True True (Some n) (Some t) (Some bs) r1 = (Some a, r2)"
    "prom_ops D ys r2 = Finished r3" "0 < cap"
  shows "(\<exists>m h. at_address (pr_heap r3) a = Finished m \<and> pm_data m = Histogram h \<and>
       ph_buckets h = map (\<lambda>le. (le, of_nat (length (filter (\<lambda>v. d_le D v le) (observed_at a ys))))) (bs @ [d_inf D]) \<and>
       ph_count h = of_nat (length (observed_at a ys)) \<and> ph_sum h = foldl (d_add D) (d_zero D) (observed_at a ys)) \<and>
     prom_registry_export D True cap (Some r3) = Finished
       (if length (prom_text D r3) < cap then (int (length (prom_text D r3)), Some (prom_text D r3)) else (- 1, None))"
proof
  let ?h = "\<lparr>ph_buckets = map (\<lambda>b. (b, 0)) bs @ [(d_inf D, 0)], ph_sum = d_zero D, ph_count = 0\<rparr>"
  have "is_histogram ?h (at_address (pr_heap r2) a)"
    using assms(3) by (auto simp: prom_histogram_register_def add_metric_def is_histogram_def split: if_splits)
  from prom_ops_histogram [OF this assms(4)]
  show "\<exists>m h. at_address (pr_heap r3) a = Finished m \<and> pm_data m = Histogram h \<and>
       ph_buckets h = map (\<lambda>le. (le, of_nat (length (filter (\<lambda>v. d_le D v le) (observed_at a ys))))) (bs @ [d_inf D]) \<and>
       ph_count h = of_nat (length (observed_at a ys)) \<and> ph_sum h = foldl (d_add D) (d_zero D) (observed_at a ys)"
    using foldl_observe [of ?h D "bs @ [d_inf D]" "[]" "observed_at a ys"] by (auto simp: is_histogram_def prom_counts_def)
  have "registry_ok r0" using assms(1) by (auto simp: prom_registry_create_def registry_ok_def)
  from prom_ops_ok [OF assms(2) this] have "registry_ok r1" .
  then have "registry_ok r2"
    using prom_op_ok [of r1 D "Register_histogram (Some n) (Some t) (Some bs)" r2] assms(3) by simp
  from prom_ops_ok [OF assms(4) this] have ok: "registry_ok r3" .
  have "\<forall>a\<in>set (pr_metrics r3). \<exists>x. at_address (pr_heap r3) a = Finished x \<and> Undefined \<notin> set (prom_pieces D x)"
    using ok prom_pieces_defined unfolding registry_ok_def at_address_Finished by (metis nth_mem)
  from export_loop_all [OF _ this, of "[]" cap] assms(5)
  show "prom_registry_export D True cap (Some r3) = Finished
       (if length (prom_text D r3) < cap then (int (length (prom_text D r3)), Some (prom_text D r3)) else (- 1, None))"
    by (simp add: prom_registry_export_def prom_text_def)
qed

definition demo_doubles :: "int doubles" where
  "demo_doubles = \<lparr>d_add = (+), d_sub = (-), d_le = (\<le>), d_lt = (<), d_zero = 0, d_inf = 1000000, d_text = dec_int\<rparr>"

theorem exporter_exact_witness:
  "\<exists>r m h. prom_ops demo_doubles [Observe 0 4, Observe 0 7]
       (snd (prom_histogram_register demo_doubles True True (Some ''n'') (Some ''t'') (Some [5]) \<lparr>pr_heap = [], pr_metrics = []\<rparr>)) = Finished r \<and>
     at_address (pr_heap r) 0 = Finished m \<and> pm_data m = Histogram h \<and>
     ph_buckets h = [(5, 1), (1000000, 2)] \<and> ph_count h = 2 \<and> ph_sum h = 11"
proof -
  let ?r0 = "\<lparr>pr_heap = [], pr_metrics = []\<rparr> :: int prom_registry"
  let ?r2 = "snd (prom_histogram_register demo_doubles True True (Some ''n'') (Some ''t'') (Some [5]) ?r0)"
  obtain r3 where r3: "prom_ops demo_doubles [Observe 0 4, Observe 0 7] ?r2 = Finished r3"
    by (simp add: prom_histogram_register_def add_metric_def prom_histogram_observe_def at_address_def set_address_def)
  have reg: "prom_histogram_register demo_doubles True True (Some ''n'') (Some ''t'') (Some [5]) ?r0 = (Some 0, ?r2)"
    by (simp add: prom_histogram_register_def add_metric_def)
  from exporter_exact [of ?r0 demo_doubles "[]", OF _ _ reg r3, of 100] r3
  show ?thesis by (auto simp: prom_registry_create_def demo_doubles_def)
qed

text \<open>Incrementing a histogram as if it were a counter overwrites its buckets.\<close>

lemma counter_inc_on_histogram:
  assumes "at_address (pr_heap r) a = Finished m" "pm_data m = Histogram h" "\<not> d_lt D v (d_zero D)"
  shows "prom_counter_inc D (Some a) v r = Undefined"
  using assms by (simp add: prom_counter_inc_def on_value_def)

end
