(* ===== verification/JSONL_Logger.thy ===== *)
theory JSONL_Logger
  imports JSON_Validator
begin

text \<open>
  The structured log (\<open>jsonl_logger.c\<close>). Each function returns the line it prints to standard error; the
  local time is a parameter. \<open>jsonl_logf\<close> is modelled after \<open>vsnprintf\<close> has formatted its arguments.
\<close>

datatype log_level_t = LOG_LEVEL_DEBUG | LOG_LEVEL_INFO | LOG_LEVEL_WARN | LOG_LEVEL_ERROR

record log_context_t =
  lc_component :: "string option"
  lc_request_id :: "string option"
  lc_trace_id :: "string option"
  lc_tenant_id :: "string option"

text \<open>The broken-down local time and the microseconds.\<close>

record local_time =
  tm_year :: nat
  tm_mon :: nat
  tm_mday :: nat
  tm_hour :: nat
  tm_min :: nat
  tm_sec :: nat
  tv_usec :: nat

definition zero_padded :: "nat \<Rightarrow> nat \<Rightarrow> string" where
  "zero_padded w n = replicate (w - length (dec_nat n)) (CHR ''0'') @ dec_nat n"

definition get_timestamp :: "local_time \<Rightarrow> nat \<Rightarrow> string" where
  "get_timestamp t n = c_copy n
     (zero_padded 4 (tm_year t + 1900) @ ''-'' @ zero_padded 2 (tm_mon t + 1) @ ''-'' @ zero_padded 2 (tm_mday t) @ ''T'' @
      zero_padded 2 (tm_hour t) @ '':'' @ zero_padded 2 (tm_min t) @ '':'' @ zero_padded 2 (tm_sec t) @ ''.'' @
      zero_padded 3 (tv_usec t div 1000) @ ''Z'')"

definition level_to_string :: "log_level_t \<Rightarrow> string" where
  "level_to_string l = (case l of LOG_LEVEL_DEBUG \<Rightarrow> ''DEBUG'' | LOG_LEVEL_INFO \<Rightarrow> ''INFO'' | LOG_LEVEL_WARN \<Rightarrow> ''WARN''
     | LOG_LEVEL_ERROR \<Rightarrow> ''ERROR'')"

definition log_field :: "string \<Rightarrow> string \<Rightarrow> string" where
  "log_field k v = [dquote] @ k @ [dquote] @ '':'' @ [dquote] @ v @ [dquote]"

definition optional_log_field :: "string \<Rightarrow> string option \<Rightarrow> string" where
  "optional_log_field k v = (case v of None \<Rightarrow> [] | Some x \<Rightarrow> '','' @ log_field k x)"

definition jsonl_log :: "local_time \<Rightarrow> log_level_t \<Rightarrow> log_context_t option \<Rightarrow> string option \<Rightarrow> string" where
  "jsonl_log t level ctx message =
     ''{'' @ log_field ''timestamp'' (get_timestamp t 32) @ '','' @ log_field ''level'' (level_to_string level) @
     (case ctx of None \<Rightarrow> []
      | Some c \<Rightarrow> optional_log_field ''component'' (lc_component c) @ optional_log_field ''request_id'' (lc_request_id c) @
          optional_log_field ''trace_id'' (lc_trace_id c) @ optional_log_field ''tenant_id'' (lc_tenant_id c)) @
     '','' @ log_field ''message'' (case message of Some m \<Rightarrow> m | None \<Rightarrow> []) @ ''}'' @ [CHR 0x0A]"

definition jsonl_logf :: "local_time \<Rightarrow> log_level_t \<Rightarrow> log_context_t option \<Rightarrow> string \<Rightarrow> string" where
  "jsonl_logf t level ctx formatted = jsonl_log t level ctx (Some (c_copy 1024 formatted))"

definition or_text :: "string \<Rightarrow> string option \<Rightarrow> string" where
  "or_text d v = (case v of Some x \<Rightarrow> x | None \<Rightarrow> d)"

definition jsonl_log_request :: "local_time \<Rightarrow> string option \<Rightarrow> string option \<Rightarrow> string option \<Rightarrow> nat \<Rightarrow> string" where
  "jsonl_log_request t component request_id meth payload_size =
     ''{'' @ log_field ''timestamp'' (get_timestamp t 32) @ '','' @ log_field ''level'' ''INFO'' @ '','' @
     log_field ''event'' ''request_received'' @ '','' @ log_field ''component'' (or_text ''unknown'' component) @ '','' @
     log_field ''request_id'' (or_text ''none'' request_id) @ '','' @ log_field ''method'' (or_text ''unknown'' meth) @ '','' @
     [dquote] @ ''payload_size'' @ [dquote] @ '':'' @ dec_nat payload_size @ ''}'' @ [CHR 0x0A]"

definition jsonl_log_response :: "local_time \<Rightarrow> string option \<Rightarrow> string option \<Rightarrow> int \<Rightarrow> nat \<Rightarrow> int \<Rightarrow> string" where
  "jsonl_log_response t component request_id status_code response_size duration_ms =
     ''{'' @ log_field ''timestamp'' (get_timestamp t 32) @ '','' @ log_field ''level'' ''INFO'' @ '','' @
     log_field ''event'' ''response_sent'' @ '','' @ log_field ''component'' (or_text ''unknown'' component) @ '','' @
     log_field ''request_id'' (or_text ''none'' request_id) @ '','' @
     [dquote] @ ''status_code'' @ [dquote] @ '':'' @ dec_int status_code @ '','' @
     [dquote] @ ''response_size'' @ [dquote] @ '':'' @ dec_nat response_size @ '','' @
     [dquote] @ ''duration_ms'' @ [dquote] @ '':'' @ dec_int duration_ms @ ''}'' @ [CHR 0x0A]"

definition jsonl_log_error :: "local_time \<Rightarrow> string option \<Rightarrow> string option \<Rightarrow> string option \<Rightarrow> string option \<Rightarrow> string" where
  "jsonl_log_error t component request_id error_code error_message =
     ''{'' @ log_field ''timestamp'' (get_timestamp t 32) @ '','' @ log_field ''level'' ''ERROR'' @ '','' @
     log_field ''event'' ''error'' @ '','' @ log_field ''component'' (or_text ''unknown'' component) @ '','' @
     log_field ''request_id'' (or_text ''none'' request_id) @ '','' @ log_field ''error_code'' (or_text ''unknown'' error_code) @ '','' @
     log_field ''error_message'' (or_text [] error_message) @ ''}'' @ [CHR 0x0A]"

section \<open>Lemmas\<close>

lemma plain_append [simp]: "plain (s @ t) \<longleftrightarrow> plain s \<and> plain t"
  by (auto simp: plain_def)

lemma plain_Cons [simp]: "plain (c # s) \<longleftrightarrow> c \<noteq> dquote \<and> c \<noteq> bslash \<and> plain s" and plain_Nil [simp]: "plain []"
  by (auto simp: plain_def)

lemma plain_take: "plain s \<Longrightarrow> plain (c_copy n s)"
  by (auto simp: plain_def c_copy_def dest: in_set_takeD)

lemma is_digit_plain: "(\<And>c. c \<in> set s \<Longrightarrow> is_digit c) \<Longrightarrow> plain s"
  by (force simp: plain_def is_digit_def)

lemma plain_dec_nat: "plain (dec_nat n)"
  by (rule is_digit_plain) (rule dec_nat_digits)

lemma plain_zero_padded: "plain (zero_padded w n)"
  using plain_dec_nat [of n] by (simp add: zero_padded_def plain_def)

lemma plain_timestamp: "plain (get_timestamp t n)"
  unfolding get_timestamp_def by (rule plain_take) (simp add: plain_zero_padded)

text \<open>A field, scanned outside a string, changes nothing.\<close>

lemma scan_log_field:
  assumes "plain k" "plain v" "p \<noteq> Some bslash"
  shows "json_scan (log_field k v @ t) (p, False, b, c) = json_scan t (Some dquote, False, b, c)"
proof -
  have colon: "json_scan (CHR '':'' # r) (Some dquote, False, b, c) = json_scan r (Some (CHR '':''), False, b, c)" for r
    by (simp add: scan_char_def)
  have "json_scan (log_field k v @ t) (p, False, b, c) =
      json_scan (CHR '':'' # dquote # v @ dquote # t) (Some dquote, False, b, c)"
    using json_scan_quoted [OF assms(1,3), of "CHR '':'' # dquote # v @ dquote # t"]
    by (simp add: log_field_def del: json_scan_simps)
  also have "\<dots> = json_scan t (Some dquote, False, b, c)"
    unfolding colon by (rule json_scan_quoted [OF assms(2)]) simp
  finally show ?thesis .
qed

lemma scan_optional_field:
  assumes "plain k" "case v of None \<Rightarrow> True | Some x \<Rightarrow> plain x"
  shows "json_scan (optional_log_field k v @ t) (Some dquote, False, b, c) = json_scan t (Some dquote, False, b, c)"
  using assms scan_log_field [OF assms(1), of _ "Some (CHR '','')"]
  by (auto simp: optional_log_field_def scan_char_def split: option.splits)

definition plain_opt :: "string option \<Rightarrow> bool" where
  "plain_opt v = (case v of None \<Rightarrow> True | Some x \<Rightarrow> plain x)"

text \<open>
  A line of the log whose texts contain no quotation mark and no backslash is accepted by the gateway's
  JSON check; a message with a quotation mark can add fields of its own.
\<close>

lemma log_line_valid:
  assumes "plain_opt message"
    "\<And>c. ctx = Some c \<Longrightarrow> plain_opt (lc_component c) \<and> plain_opt (lc_request_id c) \<and> plain_opt (lc_trace_id c) \<and> plain_opt (lc_tenant_id c)"
  shows "json_validate_wellformed (Some (jsonl_log t level ctx message)) = JSON_VALID"
proof -
  have keys: "plain ''timestamp''" "plain ''level''" "plain ''component''" "plain ''request_id''" "plain ''trace_id''"
    "plain ''tenant_id''" "plain ''message''" "plain (level_to_string level)" "plain (get_timestamp t 32)"
    by (simp_all add: level_to_string_def plain_timestamp split: log_level_t.split)
  have msg: "plain (case message of Some m \<Rightarrow> m | None \<Rightarrow> [])"
    using assms(1) by (auto simp: plain_opt_def plain_def split: option.splits)
  let ?ctx = "case ctx of None \<Rightarrow> [] | Some c \<Rightarrow> optional_log_field ''component'' (lc_component c) @
     optional_log_field ''request_id'' (lc_request_id c) @
     optional_log_field ''trace_id'' (lc_trace_id c) @ optional_log_field ''tenant_id'' (lc_tenant_id c)"
  have ctx: "json_scan (?ctx @ r) (Some dquote, False, b, k) = json_scan r (Some dquote, False, b, k)" for r b k
    using assms(2) keys by (cases ctx) (auto simp: plain_opt_def scan_optional_field)
  have "json_scan (jsonl_log t level ctx message) (None, False, 0, 0) = (Some (CHR 0x0A), False, 0, 0)"
    using keys msg by (simp add: jsonl_log_def scan_char_def scan_log_field ctx)
  then show ?thesis by (simp add: json_validate_wellformed_def jsonl_log_def is_space_def)
qed

lemma log_message_injects:
  "\<exists>pre. jsonl_log t level None (Some (''x'' @ [dquote] @ '','' @ [dquote] @ ''level'' @ [dquote] @ '':'' @ [dquote] @ ''DEBUG'')) =
     pre @ log_field ''message'' ''x'' @ '','' @ log_field ''level'' ''DEBUG'' @ ''}'' @ [CHR 0x0A]"
  by (auto simp: jsonl_log_def log_field_def)

end
