(* ===== verification/Stub_Gateways.thy ===== *)
theory Stub_Gateways
  imports Gateway_Prelude
begin

text \<open>
  The WebSocket and the gRPC gateway (\<open>websocket_gateway.c\<close>, \<open>grpc_gateway.c\<close>), which are stubs: their
  server threads wait until they are stopped. Modelled is the life cycle. The number of server threads
  that exist is part of the state: creating a thread adds one, joining it takes it away. Whether an
  allocation and \<open>pthread_create\<close> succeed are parameters. A null
  gateway is \<open>None\<close>: every operation accepts it.
\<close>

section \<open>WebSocket\<close>

record websocket_gateway_config_t =
  ws_port :: u16
  ws_ipc_socket :: "string option"
  ws_max_connections :: int

record websocket_gateway_t =
  ws_config :: websocket_gateway_config_t
  ws_running :: bool
  ws_active_connections :: int
  ws_total_messages :: u64
  ws_total_errors :: u64
  ws_threads :: nat

definition websocket_gateway_init :: "bool \<Rightarrow> websocket_gateway_config_t option \<Rightarrow> websocket_gateway_t option" where
  "websocket_gateway_init alloc config =
     (case config of None \<Rightarrow> None
      | Some c \<Rightarrow>
          if ws_ipc_socket c = None then None
          else if \<not> alloc then None
          else Some \<lparr>ws_config = c, ws_running = False, ws_active_connections = 0, ws_total_messages = 0, ws_total_errors = 0,
                     ws_threads = 0\<rparr>)"

definition websocket_gateway_start :: "bool \<Rightarrow> websocket_gateway_t option \<Rightarrow> int \<times> websocket_gateway_t option" where
  "websocket_gateway_start created gateway =
     (case gateway of None \<Rightarrow> (- 1, None)
      | Some g \<Rightarrow>
          if ws_running g then (- 1, Some g)
          else let g = g\<lparr>ws_running := True\<rparr>
               in if \<not> created then (- 1, Some (g\<lparr>ws_running := False\<rparr>))
                  else (0, Some (g\<lparr>ws_threads := ws_threads g + 1\<rparr>)))"

definition websocket_gateway_stop :: "websocket_gateway_t option \<Rightarrow> websocket_gateway_t option" where
  "websocket_gateway_stop gateway =
     (case gateway of None \<Rightarrow> None
      | Some g \<Rightarrow>
          if \<not> ws_running g then Some g
          else Some (g\<lparr>ws_running := False, ws_threads := ws_threads g - 1\<rparr>))"

definition websocket_gateway_stats :: "websocket_gateway_t option \<Rightarrow> (int \<times> u64 \<times> u64) option" where
  "websocket_gateway_stats gateway =
     map_option (\<lambda>g. (ws_active_connections g, ws_total_messages g, ws_total_errors g)) gateway"

text \<open>The state at the moment the object is freed.\<close>

definition websocket_gateway_destroy :: "websocket_gateway_t option \<Rightarrow> websocket_gateway_t option" where
  "websocket_gateway_destroy gateway =
     (case gateway of None \<Rightarrow> None
      | Some g \<Rightarrow> if ws_running g then websocket_gateway_stop (Some g) else Some g)"

section \<open>gRPC\<close>

record grpc_gateway_config_t =
  gr_port :: u16
  gr_ipc_socket :: "string option"
  gr_max_connections :: int

record grpc_gateway_t =
  gr_config :: grpc_gateway_config_t
  gr_running :: bool
  gr_total_requests :: u64
  gr_total_errors :: u64
  gr_threads :: nat

definition grpc_gateway_init :: "bool \<Rightarrow> grpc_gateway_config_t option \<Rightarrow> grpc_gateway_t option" where
  "grpc_gateway_init alloc config =
     (case config of None \<Rightarrow> None
      | Some c \<Rightarrow>
          if gr_ipc_socket c = None then None
          else if \<not> alloc then None
          else Some \<lparr>gr_config = c, gr_running = False, gr_total_requests = 0, gr_total_errors = 0, gr_threads = 0\<rparr>)"

definition grpc_gateway_start :: "bool \<Rightarrow> grpc_gateway_t option \<Rightarrow> int \<times> grpc_gateway_t option" where
  "grpc_gateway_start created gateway =
     (case gateway of None \<Rightarrow> (- 1, None)
      | Some g \<Rightarrow>
          if gr_running g then (- 1, Some g)
          else let g = g\<lparr>gr_running := True\<rparr>
               in if \<not> created then (- 1, Some (g\<lparr>gr_running := False\<rparr>))
                  else (0, Some (g\<lparr>gr_threads := gr_threads g + 1\<rparr>)))"

definition grpc_gateway_stop :: "grpc_gateway_t option \<Rightarrow> grpc_gateway_t option" where
  "grpc_gateway_stop gateway =
     (case gateway of None \<Rightarrow> None
      | Some g \<Rightarrow>
          if \<not> gr_running g then Some g
          else Some (g\<lparr>gr_running := False, gr_threads := gr_threads g - 1\<rparr>))"

definition grpc_gateway_stats :: "grpc_gateway_t option \<Rightarrow> (u64 \<times> u64) option" where
  "grpc_gateway_stats gateway = map_option (\<lambda>g. (gr_total_requests g, gr_total_errors g)) gateway"

definition grpc_gateway_destroy :: "grpc_gateway_t option \<Rightarrow> grpc_gateway_t option" where
  "grpc_gateway_destroy gateway =
     (case gateway of None \<Rightarrow> None
      | Some g \<Rightarrow> if gr_running g then grpc_gateway_stop (Some g) else Some g)"

section \<open>The life cycle of a server\<close>

text \<open>
  What both gateways promise: a server that runs has one thread and one that does not has none, a start
  succeeds exactly on a stopped server whose thread can be created, and a stop always stops.
\<close>

datatype server_op = Start bool | Stop

locale server_lifecycle =
  fixes start :: "bool \<Rightarrow> 's option \<Rightarrow> int \<times> 's option" and stop :: "'s option \<Rightarrow> 's option"
    and destroy :: "'s option \<Rightarrow> 's option" and running :: "'s \<Rightarrow> bool" and threads :: "'s \<Rightarrow> nat"
  assumes null: "start ok None = (- 1, None)" "stop None = None" "destroy None = None"
    and start_keeps: "running s \<Longrightarrow> start ok (Some s) = (- 1, Some s)"
    and start_fails: "\<not> running s \<Longrightarrow> start False (Some s) = (- 1, Some s)"
    and start_runs: "\<not> running s \<Longrightarrow> \<exists>s1. start True (Some s) = (0, Some s1) \<and> running s1 \<and> threads s1 = threads s + 1"
    and stop_stops: "\<exists>s1. stop (Some s) = Some s1 \<and> \<not> running s1 \<and> threads s1 = threads s - (if running s then 1 else 0)"
    and destroy_stops: "destroy (Some s) = stop (Some s)"
begin

fun run_ops :: "server_op list \<Rightarrow> 's option \<Rightarrow> 's option" where
  "run_ops [] g = g"
| "run_ops (Start ok # ops) g = run_ops ops (snd (start ok g))"
| "run_ops (Stop # ops) g = run_ops ops (stop g)"

definition one_thread :: "'s option \<Rightarrow> bool" where
  "one_thread g = (case g of None \<Rightarrow> True | Some s \<Rightarrow> threads s = (if running s then 1 else 0))"

lemma start_one_thread: "one_thread g \<Longrightarrow> one_thread (snd (start ok g))"
  using null(1) start_keeps start_fails start_runs by (cases g; cases ok) (fastforce simp: one_thread_def split: if_splits)+

lemma stop_one_thread: "one_thread g \<Longrightarrow> one_thread (stop g)"
proof (cases g)
  case (Some s)
  assume "one_thread g"
  then show ?thesis using stop_stops [of s] Some by (auto simp: one_thread_def split: if_splits)
qed (simp add: null)

lemma run_ops_one_thread: "one_thread g \<Longrightarrow> one_thread (run_ops ops g)"
  by (induction ops g rule: run_ops.induct) (simp_all add: start_one_thread stop_one_thread)

lemma no_thread_left: "one_thread g \<Longrightarrow> destroy g = Some s \<Longrightarrow> threads s = 0"
proof (cases g)
  case (Some s0)
  assume "one_thread g" "destroy g = Some s"
  then show ?thesis using stop_stops [of s0] destroy_stops [of s0] Some by (auto simp: one_thread_def split: if_splits)
qed (simp add: null)

end

interpretation ws: server_lifecycle websocket_gateway_start websocket_gateway_stop websocket_gateway_destroy ws_running ws_threads
  by unfold_locales
    (auto simp: websocket_gateway_start_def websocket_gateway_stop_def websocket_gateway_destroy_def)

interpretation grpc: server_lifecycle grpc_gateway_start grpc_gateway_stop grpc_gateway_destroy gr_running gr_threads
  by unfold_locales
    (auto simp: grpc_gateway_start_def grpc_gateway_stop_def grpc_gateway_destroy_def)

text \<open>
  However a gateway is started and stopped after its creation, it never has more than one server thread,
  and none is left when it is destroyed.
\<close>

lemma websocket_threads:
  "ws.one_thread (ws.run_ops ops (websocket_gateway_init alloc config)) \<and>
   (\<forall>g. websocket_gateway_destroy (ws.run_ops ops (websocket_gateway_init alloc config)) = Some g \<longrightarrow> ws_threads g = 0)"
proof -
  have "ws.one_thread (websocket_gateway_init alloc config)"
    by (simp add: ws.one_thread_def websocket_gateway_init_def split: option.splits)
  then show ?thesis using ws.run_ops_one_thread ws.no_thread_left by blast
qed

lemma grpc_threads:
  "grpc.one_thread (grpc.run_ops ops (grpc_gateway_init alloc config)) \<and>
   (\<forall>g. grpc_gateway_destroy (grpc.run_ops ops (grpc_gateway_init alloc config)) = Some g \<longrightarrow> gr_threads g = 0)"
proof -
  have "grpc.one_thread (grpc_gateway_init alloc config)"
    by (simp add: grpc.one_thread_def grpc_gateway_init_def split: option.splits)
  then show ?thesis using grpc.run_ops_one_thread grpc.no_thread_left by blast
qed

end
