(* ===== verification/HTTP_Logs.thy ===== *)
theory HTTP_Logs
  imports HTTP_Decide JSONL_Logger
begin

text \<open>
  The log of the HTTP server (\<open>src/src/http_server.c\<close>): the time stamp, the names of the conflict types
  and the JSON entry that each log function prints. An entry is the jansson object; \<open>utf8\<close> says which
  texts \<open>json_string\<close> accepts, and a field whose text it refuses is not set. The
  allocations of an entry succeed here. A null pointer is None.
  \<open>log_error_with_conflict_info\<close> takes the arguments that an event \<open>Logged\<close> of the handlers holds.
\<close>

section \<open>Operations\<close>

text \<open>The buffer has 32 bytes; \<open>gmtime\<close> returns a null pointer for a year it cannot hold.\<close>

definition get_iso8601_timestamp :: "local_time option \<Rightarrow> nat \<Rightarrow> string" where
  "get_iso8601_timestamp t buflen =
     (case t of
        Some t \<Rightarrow>
          if buflen \<ge> 32 then c_copy buflen
            (zero_padded 4 (tm_year t + 1900) @ ''-'' @ zero_padded 2 (tm_mon t + 1) @ ''-'' @ zero_padded 2 (tm_mday t) @ ''T'' @
             zero_padded 2 (tm_hour t) @ '':'' @ zero_padded 2 (tm_min t) @ '':'' @ zero_padded 2 (tm_sec t) @ ''.'' @
             zero_padded 6 (tv_usec t) @ ''Z'')
          else c_copy buflen ''1970-01-01T00:00:00.000000Z''
      | None \<Rightarrow> c_copy buflen ''1970-01-01T00:00:00.000000Z'')"

fun get_error_type_string :: "conflict_type_t \<Rightarrow> string" where
  "get_error_type_string CONFLICT_TYPE_RATE_LIMIT = ''rate_limit''"
| "get_error_type_string CONFLICT_TYPE_AUTH_GATEWAY = ''auth_gateway''"
| "get_error_type_string CONFLICT_TYPE_REQUEST_GATEWAY = ''request_gateway''"
| "get_error_type_string CONFLICT_TYPE_ROUTER_INTAKE = ''router_intake''"
| "get_error_type_string CONFLICT_TYPE_ROUTER_RUNTIME = ''router_runtime''"
| "get_error_type_string CONFLICT_TYPE_INTERNAL_GATEWAY = ''internal_gateway''"
| "get_error_type_string CONFLICT_TYPE_NONE = ''unknown''"

fun get_severity_from_type :: "conflict_type_t \<Rightarrow> string" where
  "get_severity_from_type CONFLICT_TYPE_RATE_LIMIT = ''WARN''"
| "get_severity_from_type CONFLICT_TYPE_AUTH_GATEWAY = ''WARN''"
| "get_severity_from_type CONFLICT_TYPE_REQUEST_GATEWAY = ''WARN''"
| "get_severity_from_type _ = ''ERROR''"

fun conflict_code :: "conflict_type_t \<Rightarrow> int" where
  "conflict_code CONFLICT_TYPE_NONE = 0"
| "conflict_code CONFLICT_TYPE_RATE_LIMIT = 1"
| "conflict_code CONFLICT_TYPE_AUTH_GATEWAY = 2"
| "conflict_code CONFLICT_TYPE_REQUEST_GATEWAY = 3"
| "conflict_code CONFLICT_TYPE_ROUTER_INTAKE = 4"
| "conflict_code CONFLICT_TYPE_ROUTER_RUNTIME = 5"
| "conflict_code CONFLICT_TYPE_INTERNAL_GATEWAY = 6"

text \<open>The ways a field is set: a text, a text unless it is empty, a text unless the pointer is null.\<close>

definition set_text :: "(string \<Rightarrow> bool) \<Rightarrow> string \<Rightarrow> string \<Rightarrow> json \<Rightarrow> json" where
  "set_text utf8 k s j = (if utf8 s then json_set k (JString s) j else j)"

definition set_nonempty :: "(string \<Rightarrow> bool) \<Rightarrow> string \<Rightarrow> string \<Rightarrow> json \<Rightarrow> json" where
  "set_nonempty utf8 k s j = (if s = [] then j else set_text utf8 k s j)"

definition set_given :: "(string \<Rightarrow> bool) \<Rightarrow> string \<Rightarrow> string option \<Rightarrow> json \<Rightarrow> json" where
  "set_given utf8 k s j = (case s of None \<Rightarrow> j | Some x \<Rightarrow> set_text utf8 k x j)"

definition ctx_text :: "(request_context_t \<Rightarrow> string) \<Rightarrow> request_context_t option \<Rightarrow> string" where
  "ctx_text f ctx = (case ctx of None \<Rightarrow> [] | Some c \<Rightarrow> f c)"

text \<open>The fields every entry starts with, and those that come from the context.\<close>

definition entry_head :: "(string \<Rightarrow> bool) \<Rightarrow> local_time option \<Rightarrow> string \<Rightarrow> string \<Rightarrow> json" where
  "entry_head utf8 t level component =
     set_text utf8 ''component'' component (set_text utf8 ''level'' level (set_text utf8 ''timestamp'' (get_iso8601_timestamp t 32) (JObject [])))"

definition entry_ids :: "(string \<Rightarrow> bool) \<Rightarrow> request_context_t option \<Rightarrow> json \<Rightarrow> json" where
  "entry_ids utf8 ctx j =
     set_nonempty utf8 ''trace_id'' (ctx_text cx_trace_id ctx)
       (set_nonempty utf8 ''run_id'' (ctx_text cx_run_id ctx)
         (set_nonempty utf8 ''tenant_id'' (ctx_text cx_tenant_id ctx) j))"

definition log_error_with_conflict_info ::
    "(string \<Rightarrow> bool) \<Rightarrow> local_time option \<Rightarrow> string option \<Rightarrow> request_context_t option \<Rightarrow> string option \<Rightarrow> string option \<Rightarrow>
     conflict_type_t \<Rightarrow> string option \<Rightarrow> int \<Rightarrow> json" where
  "log_error_with_conflict_info utf8 t stage ctx code message ctype intake http_status =
     (let rid = ctx_text cx_request_id ctx;
          e1 = entry_head utf8 t (get_severity_from_type ctype) ''c-gateway'';
          e2 = set_text utf8 ''subsystem'' (or_text ''http_response'' stage) e1;
          e3 = set_text utf8 ''message'' (filter_pii message 512) e2;
          e4 = set_text utf8 ''severity'' (get_severity_from_type ctype) e3;
          e5 = set_text utf8 ''error_type'' (get_error_type_string ctype) e4;
          e6 = json_set ''http_status'' (JInteger http_status) e5;
          e7 = set_text utf8 ''gateway_error_code'' (or_text ''internal'' code) e6;
          e8 = (case intake of Some c \<Rightarrow> set_text utf8 ''intake_error_code'' c e7 | None \<Rightarrow> json_set ''intake_error_code'' JNull e7);
          e9 = json_set ''conflict_priority_level'' (JInteger (conflict_code ctype)) e8;
          e10 = set_nonempty utf8 ''request_id'' rid (entry_ids utf8 ctx e9);
          context = set_nonempty utf8 ''request_id'' rid
            (set_given utf8 ''error_code'' code (set_given utf8 ''stage'' stage (JObject []))) in
      json_set ''context'' (fst (filter_pii_json (\<lambda>_. True) context 0)) e10)"

definition log_error ::
    "(string \<Rightarrow> bool) \<Rightarrow> local_time option \<Rightarrow> string option \<Rightarrow> request_context_t option \<Rightarrow> string option \<Rightarrow> string option \<Rightarrow> json" where
  "log_error utf8 t stage ctx code message =
     log_error_with_conflict_info utf8 t stage ctx code message CONFLICT_TYPE_INTERNAL_GATEWAY None 0"

definition log_info ::
    "(string \<Rightarrow> bool) \<Rightarrow> local_time option \<Rightarrow> string option \<Rightarrow> request_context_t option \<Rightarrow> string option \<Rightarrow> string option \<Rightarrow>
     int \<Rightarrow> int \<Rightarrow> json" where
  "log_info utf8 t stage ctx method path status latency_ms =
     (let message = c_copy 256 (if stage = Some ''http_request'' then ''Request processed successfully''
                                else or_text ''operation'' stage @ '' completed'');
          e1 = set_text utf8 ''message'' (filter_pii (Some message) 512) (entry_head utf8 t ''INFO'' ''gateway'');
          e2 = json_set ''latency_ms'' (JInteger latency_ms) (entry_ids utf8 ctx e1);
          c1 = set_given utf8 ''path'' path (set_given utf8 ''method'' method (set_given utf8 ''stage'' stage (JObject [])));
          context = set_nonempty utf8 ''request_id'' (ctx_text cx_request_id ctx) (json_set ''status_code'' (JInteger status) c1) in
      json_set ''context'' (fst (filter_pii_json (\<lambda>_. True) context 0)) e2)"

text \<open>\<open>log_warn\<close> and \<open>log_debug\<close> differ in the level alone.\<close>

definition log_simple ::
    "string \<Rightarrow> (string \<Rightarrow> bool) \<Rightarrow> local_time option \<Rightarrow> string option \<Rightarrow> request_context_t option \<Rightarrow> string option \<Rightarrow> json" where
  "log_simple level utf8 t stage ctx message =
     (let e1 = set_text utf8 ''message'' (filter_pii message 512) (entry_head utf8 t level ''gateway'');
          context = set_nonempty utf8 ''request_id'' (ctx_text cx_request_id ctx) (set_given utf8 ''stage'' stage (JObject [])) in
      json_set ''context'' (fst (filter_pii_json (\<lambda>_. True) context 0)) (entry_ids utf8 ctx e1))"

definition log_warn ::
    "(string \<Rightarrow> bool) \<Rightarrow> local_time option \<Rightarrow> string option \<Rightarrow> request_context_t option \<Rightarrow> string option \<Rightarrow> json" where
  "log_warn = log_simple ''WARN''"

definition log_debug ::
    "(string \<Rightarrow> bool) \<Rightarrow> local_time option \<Rightarrow> string option \<Rightarrow> request_context_t option \<Rightarrow> string option \<Rightarrow> json" where
  "log_debug = log_simple ''DEBUG''"

text \<open>
  \<open>log_json\<close> after \<open>vsnprintf\<close> has formatted its arguments; the result says whether the line goes to
  standard error. The broken-down time is in UTC here.
\<close>

definition log_json :: "local_time \<Rightarrow> string \<Rightarrow> string \<Rightarrow> string \<Rightarrow> bool \<times> string" where
  "log_json t level subsystem formatted =
     (strcasecmp_eq level ''error'',
      c_copy 2048 (''{'' @ log_field ''timestamp'' (get_timestamp t 64) @ '','' @ log_field ''level'' level @ '','' @
        log_field ''component'' ''c-gateway'' @ '','' @ log_field ''subsystem'' subsystem @ '','' @
        log_field ''message'' (c_copy 1024 formatted) @ ''}'') @ lf)"

section \<open>Lemmas\<close>

lemma set_text_object [simp]: "json_is_object (set_text utf8 k s j) = json_is_object j"
  by (simp add: set_text_def)

lemma set_nonempty_object [simp]: "json_is_object (set_nonempty utf8 k s j) = json_is_object j"
  by (simp add: set_nonempty_def)

lemma entry_ids_object [simp]: "json_is_object (entry_ids utf8 ctx j) = json_is_object j"
  by (simp add: entry_ids_def)

lemma entry_head_object [simp]: "json_is_object (entry_head utf8 t level c)"
  by (simp add: entry_head_def)

lemma get_set_text [simp]:
  "json_is_object j \<Longrightarrow> json_object_get (set_text utf8 k s j) k' = (if k' = k \<and> utf8 s then Some (JString s) else json_object_get j k')"
  by (simp add: set_text_def)

lemma get_set_nonempty [simp]:
  "json_is_object j \<Longrightarrow> k' \<noteq> k \<Longrightarrow> json_object_get (set_nonempty utf8 k s j) k' = json_object_get j k'"
  by (simp add: set_nonempty_def)

lemma get_entry_ids [simp]:
  "json_is_object j \<Longrightarrow> k \<notin> {''trace_id'', ''run_id'', ''tenant_id''} \<Longrightarrow> json_object_get (entry_ids utf8 ctx j) k = json_object_get j k"
  by (simp add: entry_ids_def)

lemma strstr_prefix_None: "strstr (s @ t) p = None \<Longrightarrow> strstr s p = None"
proof (induction s)
  case (Cons c s)
  have "starts_with ((c # s) @ t) p" if "starts_with (c # s) p" using that unfolding starts_with_iff by force
  then show ?case using Cons by (auto split: if_splits)
qed (cases t; auto split: if_splits)

text \<open>What is logged as the message contains none of the sensitive words.\<close>

lemma filter_pii_clean:
  assumes "k \<in> set sensitive_keywords"
  shows "strstr (filter_pii message n) k = None"
proof (cases message)
  case None
  then show ?thesis using assms by (auto simp: filter_pii_def sensitive_keywords_def)
next
  case (Some m)
  show ?thesis
  proof (cases "list_ex (\<lambda>k. strstr m k \<noteq> None) sensitive_keywords")
    case True
    have "list_all (\<lambda>k. strstr ''[REDACTED]'' k = None) sensitive_keywords" by code_simp
    then have "strstr ''[REDACTED]'' k = None" using assms by (auto simp: list_all_iff)
    then have "strstr (c_copy n ''[REDACTED]'') k = None"
      using strstr_prefix_None [of "take (n - 1) ''[REDACTED]''" "drop (n - 1) ''[REDACTED]''" k] by (simp only: c_copy_def append_take_drop_id)
    then show ?thesis using Some True by (simp add: filter_pii_def)
  next
    case False
    then have "strstr m k = None" using assms by (auto simp: list_ex_iff)
    then have "strstr (c_copy n m) k = None"
      using strstr_prefix_None [of "take (n - 1) m" "drop (n - 1) m" k] by (simp add: c_copy_def)
    then show ?thesis using Some False by (simp add: filter_pii_def)
  qed
qed

text \<open>
  The contract of an error entry: whatever the arguments, it carries the status, the type and the
  priority of the conflict, and its severity is that of its level.
\<close>

lemma log_error_contract:
  assumes "\<And>s. utf8 s"
  shows "json_object_get (log_error_with_conflict_info utf8 t stage ctx code message ctype intake st) ''http_status'' = Some (JInteger st)"
    "json_object_get (log_error_with_conflict_info utf8 t stage ctx code message ctype intake st) ''error_type'' =
       Some (JString (get_error_type_string ctype))"
    "json_object_get (log_error_with_conflict_info utf8 t stage ctx code message ctype intake st) ''conflict_priority_level'' =
       Some (JInteger (conflict_code ctype))"
    "json_object_get (log_error_with_conflict_info utf8 t stage ctx code message ctype intake st) ''level'' =
       json_object_get (log_error_with_conflict_info utf8 t stage ctx code message ctype intake st) ''severity''"
    "json_object_get (log_error_with_conflict_info utf8 t stage ctx code message ctype intake st) ''message'' =
       Some (JString (filter_pii message 512))"
  by (simp_all add: log_error_with_conflict_info_def Let_def assms entry_head_def split: option.split)

end
