(* ===== verification/HTTP_Limits.thy ===== *)
theory HTTP_Limits
  imports HTTP_Logs Rate_Limiter Metrics_Registry Tracing HTTP_Registry
begin

text \<open>
  The state of the HTTP server (the static variables of \<open>src/src/http_server.c\<close> and of the components
  it calls) and its rate limiting: the lazy initialisation, \<open>rate_limit_check\<close> and the 429 response.
  What is written and closed is collected in \<open>sv_out\<close>; the diagnostics that the limiter code prints with
  \<open>fprintf\<close> are not. The clock stands still while one request is handled.
\<close>

section \<open>State and environment\<close>

record ('w, 'r) server =
  sv_gw :: gateway
  sv_limiter :: "rate_limiter_t option"
  sv_rl_initialized :: bool
  sv_rl_mode :: string
  sv_rl_total_hits :: u64
  sv_rl_total_exceeded :: u64
  sv_rl_exceeded_by :: "u64 list"
  sv_fallback_count :: u64
  sv_auth_required :: bool
  sv_requests_total :: u64
  sv_decide_post :: u64
  sv_decide_get :: u64
  sv_registry :: registry
  sv_sse :: sse_pool
  sv_latency :: latency_ring
  sv_start_time :: int
  sv_metrics :: metrics
  sv_tracing :: tracing
  sv_redis :: 'r
  sv_nats :: 'w
  sv_out :: "gw_event list"

text \<open>
  What one request meets: the parser, the clock, the client's address and the NATS client in
  \<open>se_decide\<close>; the environment variables; which build it is and the Redis server; \<open>se_alloc k i\<close>, whether
  the \<open>i\<close>-th allocation at place \<open>k\<close> succeeds; which writes succeed; the measured times; the broken-down
  time; random numbers.
\<close>

record ('w, 'r) server_env =
  se_decide :: "'w decide_env"
  se_getenv :: getenv
  se_hiredis :: bool
  se_redis :: "'r redis_api"
  se_alloc :: "nat \<Rightarrow> nat \<Rightarrow> bool"
  se_write_ok :: "int \<Rightarrow> string \<Rightarrow> bool"
  se_page_ok :: "nat \<Rightarrow> bool"
  se_latency_ms :: int
  se_duration_us :: u64
  se_tm :: "local_time option"
  se_random :: "nat \<Rightarrow> random_source"
  se_clock :: "nat \<Rightarrow> u64 \<times> u64"
  se_have_curl :: bool

abbreviation (input) se_now :: "('w, 'r) server_env \<Rightarrow> int" where "se_now env \<equiv> de_now (se_decide env)"

definition out_events :: "gw_event list \<Rightarrow> ('w, 'r) server \<Rightarrow> ('w, 'r) server" where
  "out_events evs s = s\<lparr>sv_out := sv_out s @ evs\<rparr>"

text \<open>A response writer of the decide endpoint, and a recording function of the metrics, in this state.\<close>

definition on_gw :: "(gateway \<Rightarrow> gw_event list \<times> gateway) \<Rightarrow> ('w, 'r) server \<Rightarrow> ('w, 'r) server" where
  "on_gw f s = (let (evs, g) = f (sv_gw s) in out_events evs (s\<lparr>sv_gw := g\<rparr>))"

definition on_metrics :: "(metrics \<Rightarrow> metrics outcome) \<Rightarrow> ('w, 'r) server \<Rightarrow> ('w, 'r) server outcome" where
  "on_metrics f s = bind_outcome (f (sv_metrics s)) (\<lambda>m. Finished (s\<lparr>sv_metrics := m\<rparr>))"

section \<open>Settings\<close>

definition env_to_int :: "getenv \<Rightarrow> string \<Rightarrow> int \<Rightarrow> int" where
  "env_to_int env name def_val =
     (case env name of
        None \<Rightarrow> def_val
      | Some v \<Rightarrow> if v = [] then def_val else if atoi v \<le> 0 then def_val else atoi v)"

definition env_to_bool :: "getenv \<Rightarrow> string \<Rightarrow> bool \<Rightarrow> bool" where
  "env_to_bool env name def_val =
     (case env name of
        None \<Rightarrow> def_val
      | Some v \<Rightarrow>
          if v = [] then def_val
          else if v = ''1'' \<or> strcasecmp_eq v ''true'' \<or> strcasecmp_eq v ''yes'' then True
          else if v = ''0'' \<or> strcasecmp_eq v ''false'' \<or> strcasecmp_eq v ''no'' then False
          else def_val)"

text \<open>The server's own \<open>get_endpoint_limit\<close> and \<open>get_ttl_seconds\<close>, for the headers of a refusal.\<close>

definition header_limit :: "getenv \<Rightarrow> nat \<Rightarrow> int" where
  "header_limit env endpoint =
     (if endpoint = 0 then env_to_int env ''GATEWAY_RATE_LIMIT_ROUTES_DECIDE_LIMIT'' 50
      else if endpoint = 1 then env_to_int env ''GATEWAY_RATE_LIMIT_MESSAGES'' 100
      else if endpoint = 2 then env_to_int env ''GATEWAY_RATE_LIMIT_REGISTRY_BLOCKS'' 200
      else 1000)"

definition header_ttl :: "getenv \<Rightarrow> int" where
  "header_ttl env = env_to_int env ''GATEWAY_RATE_LIMIT_TTL_SECONDS'' 60"

section \<open>Initialisation\<close>

text \<open>The call through the table's \<open>init\<close> entry: a failure keeps the limiter's state.\<close>

fun limiter_init ::
    "bool \<Rightarrow> (nat \<Rightarrow> bool) \<Rightarrow> 'r redis_api \<Rightarrow> getenv \<Rightarrow> distributed_rl_config_t \<Rightarrow> rate_limiter_t \<Rightarrow> 'r \<Rightarrow> bool \<times> rate_limiter_t \<times> 'r" where
  "limiter_init hiredis alloc api env config (Memory_Limiter m) r =
     (case memory_rl_init (alloc 0) env of None \<Rightarrow> (False, Memory_Limiter m, r) | Some m' \<Rightarrow> (True, Memory_Limiter m', r))"
| "limiter_init hiredis alloc api env config (Redis_Limiter st) r =
     (case redis_rl_init hiredis alloc api env config r of
        (None, r1) \<Rightarrow> (False, Redis_Limiter st, r1) | (Some st', r1) \<Rightarrow> (True, Redis_Limiter st', r1))"

definition memory_config :: distributed_rl_config_t where
  "memory_config = rate_limiter_get_default_config\<lparr>rl_enabled := False\<rparr>"

definition limiter_mode :: "distributed_rl_config_t \<Rightarrow> string" where
  "limiter_mode c = (if rl_enabled c \<and> rl_backend c = ''redis'' then ''redis'' else ''memory'')"

definition limiter_fallback ::
    "('w, 'r) server_env \<Rightarrow> 'r \<Rightarrow> rate_limiter_t option \<times> 'r" where
  "limiter_fallback env r =
     (let (l, r1) = rate_limiter_create (se_hiredis env) (se_alloc env 3) (se_redis env) (se_getenv env) (Some memory_config) r in
      case l of
        None \<Rightarrow> (None, r1)
      | Some m \<Rightarrow> (let (_, m', r2) = limiter_init (se_hiredis env) (se_alloc env 4) (se_redis env) (se_getenv env) memory_config m r1 in
                   (Some m', r2)))"

text \<open>The limiter, the server's state and the mode that the initialisation ends with.\<close>

definition limiter_setup ::
    "('w, 'r) server_env \<Rightarrow> 'r \<Rightarrow> rate_limiter_t option \<times> 'r \<times> string" where
  "limiter_setup env r =
     (let mk = (\<lambda>site c. rate_limiter_create (se_hiredis env) (se_alloc env site) (se_redis env) (se_getenv env) (Some c));
          config = rate_limiter_parse_config (se_getenv env);
          (made, r1) = mk 0 config r;
          (lim, r2, mode) =
            (case made of
               None \<Rightarrow> (let (l, r') = mk 1 memory_config r1 in (l, r', ''memory''))
             | Some l \<Rightarrow> (Some l, r1, limiter_mode config)) in
      case lim of
        None \<Rightarrow> (None, r2, mode)
      | Some l \<Rightarrow>
          (let (ok, l', r3) = limiter_init (se_hiredis env) (se_alloc env 2) (se_redis env) (se_getenv env) config l r2 in
           if ok then (Some l', r3, mode)
           else if fallback_to_local config then (let (l2, r4) = limiter_fallback env r3 in (l2, r4, ''fallback''))
           else (Some l', r3, ''error'')))"

definition rate_limit_init_if_needed :: "('w, 'r) server_env \<Rightarrow> ('w, 'r) server \<Rightarrow> ('w, 'r) server" where
  "rate_limit_init_if_needed env s =
     (if sv_rl_initialized s then s
      else (let ge = se_getenv env;
                (lim, r, mode) = limiter_setup env (sv_redis s);
                g = sv_gw s;
                g1 = g\<lparr>gw_abuse := abuse_detection_init (se_now env) (Some (abuse_detection_parse_config ge)) (gw_abuse g),
                       gw_bp := backpressure_client_init (Some (backpressure_client_parse_config ge)),
                       gw_redis := snd (redis_rate_limiter_init (se_alloc env 5 0) (se_alloc env 5 1) (se_alloc env 5 2, se_alloc env 5 3)
                         (se_alloc env 6) (Some (redis_rate_limiter_parse_config ge)) (gw_redis g))\<rparr> in
            s\<lparr>sv_limiter := lim, sv_redis := r, sv_rl_mode := mode, sv_rl_initialized := True,
              sv_auth_required := env_to_bool ge ''GATEWAY_AUTH_REQUIRED'' False, sv_gw := g1\<rparr>))"

section \<open>The check\<close>

definition fallback_enabled :: "getenv \<Rightarrow> bool" where
  "fallback_enabled env =
     (case env ''GATEWAY_RATE_LIMIT_FALLBACK_TO_LOCAL'' of None \<Rightarrow> True | Some v \<Rightarrow> \<not> (v = ''false'' \<or> v = ''0''))"

text \<open>0: allowed, 1: exceeded, 2: error. No caller reads what is written to \<open>remaining_out\<close>.\<close>

definition rate_limit_check ::
    "('w, 'r) server_env \<Rightarrow> nat \<Rightarrow> string option \<Rightarrow> string option \<Rightarrow> ('w, 'r) server \<Rightarrow> (int \<times> ('w, 'r) server) outcome" where
  "rate_limit_check env endpoint tenant_id api_key s0 =
     (let s = rate_limit_init_if_needed env s0 in
      case sv_limiter s of
        None \<Rightarrow> Finished (0, s)
      | Some l \<Rightarrow>
          (let (res, _, (l', r')) = rate_limiter_check (se_hiredis env) (se_redis env) (se_now env) endpoint tenant_id api_key (l, sv_redis s);
               s1 = s\<lparr>sv_limiter := Some l', sv_redis := r', sv_rl_total_hits := sv_rl_total_hits s + 1\<rparr> in
           case res of
             RL_ALLOWED \<Rightarrow> bind_outcome (on_metrics metrics_record_rate_limit_allowed s1) (\<lambda>s2. Finished (0, s2))
           | RL_EXCEEDED \<Rightarrow>
               bind_outcome (on_metrics metrics_record_rate_limit_hit
                   (s1\<lparr>sv_rl_total_exceeded := sv_rl_total_exceeded s1 + 1,
                       sv_rl_exceeded_by := (sv_rl_exceeded_by s1)[endpoint := sv_rl_exceeded_by s1 ! endpoint + 1]\<rparr>))
                 (\<lambda>s2. Finished (1, s2))
           | RL_ERROR \<Rightarrow>
               if fallback_enabled (se_getenv env)
               then Finished (0, s1\<lparr>sv_fallback_count := sv_fallback_count s1 + 1, sv_rl_mode := ''fallback''\<rparr>)
               else Finished (2, s1)))"

section \<open>The refusal\<close>

definition add_rate_limit_headers :: "getenv \<Rightarrow> int \<Rightarrow> nat \<Rightarrow> int \<Rightarrow> nat \<Rightarrow> string" where
  "add_rate_limit_headers env now buf_size limit remaining =
     c_copy buf_size (''X-RateLimit-Limit: '' @ dec_int limit @ crlf @ ''X-RateLimit-Remaining: '' @ dec_nat remaining @ crlf @
       ''X-RateLimit-Reset: '' @ dec_int (now + header_ttl env) @ crlf @ ''Retry-After: '' @ dec_int (header_ttl env) @ crlf)"

definition endpoint_name :: "nat \<Rightarrow> string" where
  "endpoint_name endpoint =
     (if endpoint = 0 then ''/api/v1/routes/decide'' else if endpoint = 1 then ''/api/v1/messages''
      else if endpoint = 2 then ''/api/v1/registry/blocks'' else ''unknown'')"

definition rate_limit_body :: "getenv \<Rightarrow> nat \<Rightarrow> request_context_t \<Rightarrow> string" where
  "rate_limit_body env endpoint ctx =
     ''{\"ok\":false,\"error\":{\"code\":\"rate_limit_exceeded\",\"message\":\"Rate limit exceeded for endpoint '' @ endpoint_name endpoint @
     ''\",\"intake_error_code\":null,\"details\":{\"endpoint\":\"'' @ endpoint_name endpoint @ ''\",\"limit\":'' @
     dec_int (header_limit env endpoint) @ '',\"retry_after_seconds\":'' @ dec_int (header_ttl env) @
     ''}},\"context\":{\"request_id\":\"'' @ cx_request_id ctx @ ''\",\"trace_id\":\"'' @ cx_trace_id ctx @
     ''\",\"tenant_id\":\"'' @ cx_tenant_id ctx @ ''\"}}''"

definition rate_limit_response :: "getenv \<Rightarrow> int \<Rightarrow> nat \<Rightarrow> string \<Rightarrow> string" where
  "rate_limit_response env now endpoint body =
     ''HTTP/1.1 429 Too Many Requests'' @ crlf @ ''Content-Type: application/json'' @ crlf @ ''Content-Length: '' @ dec_nat (length body) @ crlf @
     add_rate_limit_headers env now 512 (header_limit env endpoint) 0 @ crlf @ body"

definition send_rate_limit_error ::
    "('w, 'r) server_env \<Rightarrow> int \<Rightarrow> nat \<Rightarrow> request_context_t \<Rightarrow> ('w, 'r) server \<Rightarrow> ('w, 'r) server outcome" where
  "send_rate_limit_error env fd endpoint ctx s =
     (let body = rate_limit_body (se_getenv env) endpoint ctx; full = rate_limit_response (se_getenv env) (se_now env) endpoint body in
      if length body \<ge> MAX_RESPONSE_SIZE
      then Finished (on_gw (send_error_response_with_conflict fd ''HTTP/1.1 429 Too Many Requests'' ''rate_limit_exceeded''
             ''Rate limit exceeded'' ctx CONFLICT_TYPE_RATE_LIMIT None) s)
      else (let log = Logged ''rate_limiter'' ''rate_limit_exceeded'' ''Rate limit exceeded for endpoint'' CONFLICT_TYPE_RATE_LIMIT None 429;
                resp = (if length full \<ge> MAX_RESPONSE_SIZE + 512
                        then map Http (send_response fd ''HTTP/1.1 429 Too Many Requests'' ''application/json'' body)
                        else [Http (Wrote fd full)]);
                g = sv_gw s in
            on_metrics metrics_record_rate_limit_hit
              (out_events (log # resp) (s\<lparr>sv_gw := g\<lparr>gw_errors_total := gw_errors_total g + 1\<rparr>\<rparr>))))"

definition rate_limit_check_routes_decide ::
    "('w, 'r) server_env \<Rightarrow> int \<Rightarrow> request_context_t \<Rightarrow> ('w, 'r) server \<Rightarrow> (int \<times> ('w, 'r) server) outcome" where
  "rate_limit_check_routes_decide env fd ctx s =
     bind_outcome (rate_limit_check env 0 (nonempty (cx_tenant_id ctx)) None s) (\<lambda>(result, s1).
       if result = 1 then bind_outcome (send_rate_limit_error env fd 0 ctx s1) (\<lambda>s2. Finished (result, s2))
       else if result = 2 then
         Finished (result, on_gw (send_error_response fd ''HTTP/1.1 503 Service Unavailable'' ''rate_limiter_error''
           ''Rate limiter service unavailable'' ctx) s1)
       else Finished (result, s1))"

end
