(* ===== verification/HTTP_Handlers.thy ===== *)
theory HTTP_Handlers
  imports HTTP_Limits
begin

text \<open>
  The handlers of the HTTP server other than the decide endpoint (\<open>src/src/http_server.c\<close>): health,
  the JSON metrics, the registry of blocks, decisions, extensions and policies. They answer with the
  writers of \<open>HTTP_Decide\<close>. A context that is a null pointer prints like an empty one. The manifest is
  duplicated by \<open>strdup\<close> at place 7 of the allocations; creating JSON values succeeds.
\<close>

definition no_ctx :: request_context_t where
  "no_ctx = \<lparr>cx_request_id = [], cx_trace_id = [], cx_tenant_id = [], cx_run_id = []\<rparr>"

definition send_err :: "int \<Rightarrow> string \<Rightarrow> string \<Rightarrow> string \<Rightarrow> request_context_t \<Rightarrow> ('w, 'r) server \<Rightarrow> ('w, 'r) server" where
  "send_err fd line code message ctx = on_gw (send_error_response fd line code message ctx)"

definition send_json :: "int \<Rightarrow> string \<Rightarrow> string \<Rightarrow> ('w, 'r) server \<Rightarrow> ('w, 'r) server" where
  "send_json fd line body = out_events (map Http (send_response fd line ''application/json'' body))"

definition broadcast :: "('w, 'r) server_env \<Rightarrow> string \<Rightarrow> string \<Rightarrow> string \<Rightarrow> ('w, 'r) server \<Rightarrow> ('w, 'r) server outcome" where
  "broadcast env tenant event json s =
     bind_outcome (sse_broadcast_json (se_write_ok env) (se_now env) (Some tenant) event json (sv_sse s)) (\<lambda>(evs, p).
       Finished (out_events (map Http evs) (s\<lparr>sv_sse := p\<rparr>)))"

text \<open>A request to the router, with the world after it.\<close>

definition ask_router :: "router_call \<Rightarrow> 'w \<Rightarrow> ('w, 'r) server \<Rightarrow> ('w, 'r) server" where
  "ask_router call w s = out_events [Asked_Router call] (s\<lparr>sv_nats := w\<rparr>)"

section \<open>Health and metrics\<close>

definition handle_health :: "('w, 'r) server_env \<Rightarrow> int \<Rightarrow> ('w, 'r) server \<Rightarrow> ('w, 'r) server" where
  "handle_health env fd s =
     (let utf8 = je_utf8 (se_decide env);
          j = set_text utf8 ''timestamp'' (get_iso8601_timestamp (se_tm env) 32) (set_text utf8 ''status'' ''healthy'' (JObject [])) in
      case je_dumps (se_decide env) j of
        Some body \<Rightarrow> send_json fd ''HTTP/1.1 200 OK'' body s
      | None \<Rightarrow> send_json fd ''HTTP/1.1 200 OK'' ''{\"status\":\"healthy\",\"timestamp\":\"error\"}'' s)"

text \<open>A non-negative double printed with \<open>n\<close> digits behind the point.\<close>

definition fixed_point :: "nat \<Rightarrow> real \<Rightarrow> string" where
  "fixed_point n x = (let k = nat (round_even (x * 10 ^ n)) in dec_nat (k div 10 ^ n) @ ''.'' @ zero_padded n (k mod 10 ^ n))"

definition double_ratio :: "u64 \<Rightarrow> real \<Rightarrow> real" where
  "double_ratio a b = to_double (to_double (real (unat a)) / b)"

text \<open>The first call sets the start time.\<close>

definition handle_metrics_json :: "('w, 'r) server_env \<Rightarrow> int \<Rightarrow> ('w, 'r) server \<Rightarrow> ('w, 'r) server" where
  "handle_metrics_json env fd s0 =
     (let now = se_now env;
          s = (if sv_start_time s0 = 0 then s0\<lparr>sv_start_time := now\<rparr> else s0);
          uptime = (if now - sv_start_time s < 1 then 1 else to_double (real_of_int (now - sv_start_time s)));
          rps = double_ratio (sv_requests_total s) uptime;
          err_rate = (if sv_requests_total s > 0
                      then double_ratio (gw_errors_total (sv_gw s)) (to_double (real (unat (sv_requests_total s)))) else 0);
          lu = (\<lambda>x :: u64. dec_nat (unat x));
          body = ''{\"rps\":'' @ fixed_point 3 rps @ '',\"latency\":{\"p50\":'' @ dec_int (percentile_ms 50 (sv_latency s)) @
            '',\"p95\":'' @ dec_int (percentile_ms 95 (sv_latency s)) @ ''},\"error_rate\":'' @ fixed_point 5 err_rate @
            '',\"rate_limit\":{\"total_hits\":'' @ lu (sv_rl_total_hits s) @ '',\"total_exceeded\":'' @ lu (sv_rl_total_exceeded s) @
            '',\"exceeded_by_endpoint\":{\"routes_decide\":'' @ lu (sv_rl_exceeded_by s ! 0) @ '',\"messages\":'' @
            lu (sv_rl_exceeded_by s ! 1) @ '',\"registry_blocks\":'' @ lu (sv_rl_exceeded_by s ! 2) @ ''}}},\"nats\":\"'' @
            nats_get_status_string (de_nats (se_decide env)) (sv_nats s) @ ''\",\"ts\":'' @ dec_int now @ ''}'' in
      if length body \<ge> 512
      then send_json fd ''HTTP/1.1 200 OK''
        (''{\"rps\":0,\"latency\":{\"p50\":-1,\"p95\":-1},\"error_rate\":0,\"rate_limit\":{\"total_hits\":0,\"total_exceeded\":0,'' @
         ''\"exceeded_by_endpoint\":{\"routes_decide\":0,\"messages\":0,\"registry_blocks\":0}}},\"nats\":\"unknown\"}'') s
      else send_json fd ''HTTP/1.1 200 OK'' body s)"

text \<open>\<open>GET /metrics\<close>: the writes of \<open>handle_metrics_request\<close> on the connection.\<close>

definition serve_metrics_page :: "('w, 'r) server_env \<Rightarrow> int \<Rightarrow> ('w, 'r) server \<Rightarrow> ('w, 'r) server outcome" where
  "serve_metrics_page env fd s =
     bind_outcome (handle_metrics_request (se_page_ok env) (sv_metrics s)) (\<lambda>(_, ws).
       Finished (out_events (map (\<lambda>w. Http (Wrote fd w)) ws) s))"

section \<open>Blocks\<close>

definition registry_refusal :: "json option \<Rightarrow> string \<Rightarrow> string \<Rightarrow> (string \<times> string \<times> string) option" where
  "registry_refusal doc type version =
     (case doc of
        None \<Rightarrow> Some (''HTTP/1.1 400 Bad Request'', ''invalid_request'', ''invalid JSON'')
      | Some j \<Rightarrow>
          (let schema = json_object_get j ''schema'' in
           if \<not> json_is_object j then Some (''HTTP/1.1 400 Bad Request'', ''invalid_request'', ''invalid JSON'')
           else if json_object_get j ''type'' \<noteq> Some (JString type) \<or> json_object_get j ''version'' \<noteq> Some (JString version)
             then Some (''HTTP/1.1 409 Conflict'', ''conflict'', ''type/version mismatch with path'')
           else if \<not> optional_field j ''capabilities'' json_is_array
             then Some (''HTTP/1.1 400 Bad Request'', ''invalid_request'', ''capabilities must be array'')
           else if \<not> optional_field j ''capabilities'' validate_string_array
             then Some (''HTTP/1.1 400 Bad Request'', ''invalid_request'', ''capabilities items must be strings'')
           else if \<not> optional_field j ''metadata'' json_is_object
             then Some (''HTTP/1.1 400 Bad Request'', ''invalid_request'', ''metadata must be object'')
           else if \<not> validate_jsonschemas_strict (sub_field schema ''input'') (sub_field schema ''output'')
             then Some (''HTTP/1.1 400 Bad Request'', ''invalid_schema'', ''schema validation failed'')
           else None))"

definition handle_registry_write_common ::
    "('w, 'r) server_env \<Rightarrow> int \<Rightarrow> string \<Rightarrow> string \<Rightarrow> string \<Rightarrow> ('w, 'r) server \<Rightarrow> int \<times> ('w, 'r) server" where
  "handle_registry_write_common env fd type version body s =
     (let doc = je_loads (se_decide env) body in
      case registry_refusal doc type version of
        Some (line, code, msg) \<Rightarrow> (- 1, send_err fd line code msg no_ctx s)
      | None \<Rightarrow>
          (case Option.bind doc (je_dumps (se_decide env)) of
             None \<Rightarrow> (- 1, send_err fd ''HTTP/1.1 500 Internal Server Error'' ''internal'' ''failed to serialize manifest'' no_ctx s)
           | Some manifest \<Rightarrow>
               (let (ok, created, r) = registry_upsert (se_alloc env 7 0) type version manifest (sv_registry s);
                    s1 = s\<lparr>sv_registry := r\<rparr>; new = (created = Some True) in
                if \<not> ok then (- 1, send_err fd ''HTTP/1.1 500 Internal Server Error'' ''internal'' ''registry capacity reached'' no_ctx s1)
                else (0, send_json fd (if new then ''HTTP/1.1 201 Created'' else ''HTTP/1.1 200 OK'')
                       (c_copy 256 (''{\"type\":\"'' @ type @ ''\",\"version\":\"'' @ version @ ''\",\"status\":\"'' @
                         (if new then ''created'' else ''updated'') @ ''\",\"ts\":'' @ dec_int (se_now env) @ ''}'')) s1))))"

definition handle_registry_delete :: "('w, 'r) server_env \<Rightarrow> int \<Rightarrow> string \<Rightarrow> string \<Rightarrow> ('w, 'r) server \<Rightarrow> ('w, 'r) server" where
  "handle_registry_delete env fd type version s =
     (let (ok, r) = registry_delete type version (sv_registry s); s1 = s\<lparr>sv_registry := r\<rparr> in
      if \<not> ok then send_err fd ''HTTP/1.1 404 Not Found'' ''not_found'' ''block not found'' no_ctx s1
      else send_json fd ''HTTP/1.1 200 OK''
        (c_copy 256 (''{\"status\":\"unregistered\",\"type\":\"'' @ type @ ''\",\"version\":\"'' @ version @ ''\",\"ts\":'' @
          dec_int (se_now env) @ ''}'')) s1)"

section \<open>Requests passed on to the router\<close>

text \<open>The status line of a router answer outside the decide endpoint.\<close>

definition answer_line :: "int \<Rightarrow> string" where
  "answer_line st =
     (if st = 400 then ''HTTP/1.1 400 Bad Request'' else if st = 401 then ''HTTP/1.1 401 Unauthorized''
      else if st = 404 then ''HTTP/1.1 404 Not Found'' else if st = 500 then ''HTTP/1.1 500 Internal Server Error''
      else ''HTTP/1.1 200 OK'')"

definition handle_get_decision ::
    "('w, 'r) server_env \<Rightarrow> int \<Rightarrow> string \<Rightarrow> request_context_t \<Rightarrow> ('w, 'r) server \<Rightarrow> ('w, 'r) server outcome" where
  "handle_get_decision env fd message_id ctx s =
     (if message_id = [] then Finished (send_err fd ''HTTP/1.1 400 Bad Request'' ''invalid_request'' ''empty message_id'' ctx s)
      else if cx_tenant_id ctx = []
      then Finished (send_err fd ''HTTP/1.1 400 Bad Request'' ''invalid_request'' ''missing tenant_id for decision lookup'' ctx s)
      else (let (reply, w) = nats_request_get_decision (de_nats (se_decide env)) (cx_tenant_id ctx) message_id MAX_RESPONSE_SIZE (sv_nats s);
                s1 = ask_router (Ask_Decision (cx_tenant_id ctx) message_id) w s in
            case reply of
              None \<Rightarrow> Finished (send_err fd ''HTTP/1.1 503 Service Unavailable'' ''internal'' ''router or NATS unavailable'' ctx s1)
            | Some resp \<Rightarrow>
                (let line = answer_line (map_router_error_status (je_loads (se_decide env)) resp);
                     s2 = send_json fd line resp s1 in
                 if line = ''HTTP/1.1 200 OK'' then broadcast env (cx_tenant_id ctx) ''message_created'' resp s2 else Finished s2)))"

definition unavailable :: "int \<Rightarrow> request_context_t \<Rightarrow> ('w, 'r) server \<Rightarrow> ('w, 'r) server" where
  "unavailable fd ctx = send_err fd ''HTTP/1.1 503 Service Unavailable'' ''SERVICE_UNAVAILABLE'' ''Router or NATS unavailable'' ctx"

definition handle_extensions_health ::
    "('w, 'r) server_env \<Rightarrow> int \<Rightarrow> request_context_t \<Rightarrow> ('w, 'r) server \<Rightarrow> ('w, 'r) server" where
  "handle_extensions_health env fd ctx s =
     (let (reply, w) = nats_request_get_extension_health (de_nats (se_decide env)) MAX_RESPONSE_SIZE (sv_nats s); s1 = ask_router Ask_Extension_Health w s in
      case reply of None \<Rightarrow> unavailable fd ctx s1 | Some resp \<Rightarrow> send_json fd ''HTTP/1.1 200 OK'' resp s1)"

definition handle_circuit_breakers ::
    "('w, 'r) server_env \<Rightarrow> int \<Rightarrow> request_context_t \<Rightarrow> ('w, 'r) server \<Rightarrow> ('w, 'r) server" where
  "handle_circuit_breakers env fd ctx s =
     (let (reply, w) = nats_request_get_circuit_breaker_states (de_nats (se_decide env)) MAX_RESPONSE_SIZE (sv_nats s); s1 = ask_router Ask_Circuit_Breakers w s in
      case reply of None \<Rightarrow> unavailable fd ctx s1 | Some resp \<Rightarrow> send_json fd ''HTTP/1.1 200 OK'' resp s1)"

definition handle_dry_run_pipeline ::
    "('w, 'r) server_env \<Rightarrow> int \<Rightarrow> string \<Rightarrow> request_context_t \<Rightarrow> ('w, 'r) server \<Rightarrow> ('w, 'r) server" where
  "handle_dry_run_pipeline env fd body ctx s =
     (if body = [] then send_err fd ''HTTP/1.1 400 Bad Request'' ''INVALID_REQUEST'' ''empty request body'' ctx s
      else (let (reply, w) = nats_request_dry_run_pipeline (de_nats (se_decide env)) body MAX_RESPONSE_SIZE (sv_nats s); s1 = ask_router (Ask_Dry_Run body) w s in
            case reply of
              None \<Rightarrow> unavailable fd ctx s1
            | Some resp \<Rightarrow> send_json fd (answer_line (map_router_error_status (je_loads (se_decide env)) resp)) resp s1))"

definition handle_pipeline_complexity ::
    "('w, 'r) server_env \<Rightarrow> int \<Rightarrow> string \<Rightarrow> string \<Rightarrow> request_context_t \<Rightarrow> ('w, 'r) server \<Rightarrow> ('w, 'r) server" where
  "handle_pipeline_complexity env fd tenant_id policy_id ctx s =
     (if tenant_id = [] \<or> policy_id = []
      then send_err fd ''HTTP/1.1 400 Bad Request'' ''INVALID_REQUEST'' ''missing tenant_id or policy_id'' ctx s
      else (let (reply, w) = nats_request_get_pipeline_complexity (de_nats (se_decide env)) tenant_id policy_id MAX_RESPONSE_SIZE (sv_nats s);
                s1 = ask_router (Ask_Complexity tenant_id policy_id) w s in
            case reply of
              None \<Rightarrow> unavailable fd ctx s1
            | Some resp \<Rightarrow> send_json fd (answer_line (map_router_error_status (je_loads (se_decide env)) resp)) resp s1))"

end
