(* ===== verification/HTTP_Server.thy ===== *)
theory HTTP_Server
  imports HTTP_Handlers
begin

text \<open>
  The front end of the HTTP server (\<open>src/src/http_server.c\<close>): reading a request, its headers and its
  span, the routes of \<open>handle_client\<close> with their early returns, and \<open>http_server_run\<close>, whose loop takes
  one connection after the other. A branch of \<open>handle_client\<close> either has closed the connection and
  returned, or goes on to the end of the function. The end of a span writes to it, so that a span that
  has been ended before is undefined behaviour there.
\<close>

section \<open>Reading a request\<close>

text \<open>The tokens that repeated calls of \<open>strtok_r\<close> return.\<close>

function tokens :: "(char \<Rightarrow> bool) \<Rightarrow> string \<Rightarrow> string list" where
  "tokens delim s =
     (let u = dropWhile delim s in
      if u = [] then [] else takeWhile (\<lambda>c. \<not> delim c) u # tokens delim (dropWhile (\<lambda>c. \<not> delim c) u))"
  by auto
termination
proof (relation "measure (\<lambda>(_, s). length s)", goal_cases)
  case (2 delim s u)
  then have hd: "\<not> delim (hd u)" "u \<noteq> []" using hd_dropWhile [of delim s] by simp_all
  then obtain c v where u: "u = c # v" by (cases u) auto
  have "length (dropWhile (\<lambda>c. \<not> delim c) u) \<le> length v" using hd(1) length_dropWhile_le [of "\<lambda>c. \<not> delim c" v] by (simp add: u)
  moreover have "length u \<le> length s" using 2(1) length_dropWhile_le [of delim s] by simp
  ultimately show ?case by (simp add: u)
qed simp

declare tokens.simps [simp del]

definition split_request :: "string \<Rightarrow> string \<times> string" where
  "split_request req =
     (let buffer = c_string (take 65535 req) in
      case strstr buffer (crlf @ crlf) of
        Some r \<Rightarrow> (take (length buffer - length r) buffer, drop 4 r)
      | None \<Rightarrow> (buffer, []))"

record request_headers =
  rh_ctx :: request_context_t
  rh_has_tenant :: bool
  rh_has_auth :: bool
  rh_traceparent :: "string option"

definition header_value :: "string \<Rightarrow> string \<Rightarrow> string" where
  "header_value name line = dropWhile (\<lambda>c. c = CHR '' '' \<or> c = CHR 0x09) (drop (length name) line)"

definition read_header :: "request_headers \<Rightarrow> string \<Rightarrow> request_headers" where
  "read_header h line =
     (if starts_with line ''X-Tenant-ID:'' then
        h\<lparr>rh_has_tenant := True, rh_ctx := (rh_ctx h)\<lparr>cx_tenant_id := c_copy 64 (header_value ''X-Tenant-ID:'' line)\<rparr>\<rparr>
      else if starts_with line ''X-Trace-ID:'' then
        h\<lparr>rh_ctx := (rh_ctx h)\<lparr>cx_trace_id := c_copy 64 (header_value ''X-Trace-ID:'' line)\<rparr>\<rparr>
      else if strcasecmp_eq (take 12 line) ''traceparent:'' then
        h\<lparr>rh_traceparent := Some (header_value ''traceparent:'' line)\<rparr>
      else if starts_with line ''Authorization:'' then h\<lparr>rh_has_auth := True\<rparr>
      else h)"

definition read_headers :: "string list \<Rightarrow> request_headers" where
  "read_headers lines =
     foldl read_header \<lparr>rh_ctx = no_ctx, rh_has_tenant = False, rh_has_auth = False, rh_traceparent = None\<rparr> lines"

text \<open>The method, the path and the header lines, unless the request line is malformed.\<close>

definition request_line :: "string \<Rightarrow> (string \<times> string \<times> string list) option" where
  "request_line head =
     (case tokens (\<lambda>c. c = CHR 0x0D \<or> c = CHR 0x0A) head of
        [] \<Rightarrow> None
      | line # lines \<Rightarrow>
          (case tokens (\<lambda>c. c = CHR '' '') line of
             method # path # _ \<Rightarrow> Some (method, path, lines)
           | _ \<Rightarrow> None))"

section \<open>The span of a request\<close>

definition set_span_nonempty :: "string \<Rightarrow> string \<Rightarrow> otel_span_t option \<Rightarrow> otel_span_t option" where
  "set_span_nonempty k v hspan = (if v = [] then hspan else otel_span_set_attribute (Some k) (Some v) hspan)"

definition extracted_parent :: "bytes \<times> bytes \<Rightarrow> otel_span_t" where
  "extracted_parent ids =
     \<lparr>sp_name = [], sp_trace_id = fst ids, sp_span_id = snd ids, sp_parent_span_id = replicate 8 0, sp_kind = SPAN_KIND_INTERNAL,
      sp_status = SPAN_STATUS_UNSET, sp_start = (0, 0), sp_end = (0, 0), sp_attributes = []\<rparr>"

definition start_request_span ::
    "('w, 'r) server_env \<Rightarrow> string \<Rightarrow> string \<Rightarrow> request_headers \<Rightarrow> otel_span_t option outcome" where
  "start_request_span env method path h =
     bind_outcome (otel_extract_trace_context (rh_traceparent h)) (\<lambda>ids.
       let parent = (if se_alloc env 8 0 then map_option extracted_parent ids else None);
           hspan = otel_span_start (se_alloc env 8 1) (se_random env 0) (se_random env 1) (se_clock env 0) (Some ''gateway.http.request'')
                    SPAN_KIND_SERVER parent;
           s1 = otel_span_set_attribute (Some ''http.url'') (Some path) (otel_span_set_attribute (Some ''http.method'') (Some method) hspan);
           s2 = set_span_nonempty ''tenant_id'' (cx_tenant_id (rh_ctx h)) s1;
           s3 = set_span_nonempty ''request_id'' (cx_request_id (rh_ctx h)) s2 in
       Finished (set_span_nonempty ''trace_id'' (cx_trace_id (rh_ctx h)) s3))"

definition end_request_span :: "('w, 'r) server_env \<Rightarrow> otel_span_t option \<Rightarrow> int \<Rightarrow> ('w, 'r) server \<Rightarrow> ('w, 'r) server" where
  "end_request_span env hspan code s =
     s\<lparr>sv_tracing := otel_span_end (se_have_curl env) (je_dumps (se_decide env)) (se_clock env 1)
        (otel_span_set_status (if code < 400 then SPAN_STATUS_OK else SPAN_STATUS_ERROR)
          (otel_span_set_attribute_int (Some ''http.status_code'') code hspan)) (sv_tracing s)\<rparr>"

text \<open>The span of the request to the router inside \<open>handle_decide\<close>.\<close>

definition publish_span :: "('w, 'r) server_env \<Rightarrow> otel_span_t option \<Rightarrow> bool \<Rightarrow> tracing \<Rightarrow> tracing" where
  "publish_span env parent answered t =
     (case parent of
        None \<Rightarrow> t
      | Some p \<Rightarrow>
          (let hspan = otel_span_start (se_alloc env 9 0) (se_random env 2) (se_random env 3) (se_clock env 2) (Some ''gateway.nats.publish'')
                        SPAN_KIND_CLIENT (Some p);
               span1 = otel_span_set_attribute (Some ''nats.subject'')
                         (Some (env_or (se_getenv env) ''ROUTER_DECIDE_SUBJECT'' ''beamline.router.v1.decide'')) hspan in
           otel_span_end (se_have_curl env) (je_dumps (se_decide env)) (se_clock env 3)
             (otel_span_set_status (if answered then SPAN_STATUS_OK else SPAN_STATUS_ERROR) span1) t))"

section \<open>What the routes share\<close>

definition close_client :: "int \<Rightarrow> ('w, 'r) server \<Rightarrow> ('w, 'r) server" where
  "close_client fd = out_events [Http (Closed_Fd fd)]"

definition record_latency :: "('w, 'r) server_env \<Rightarrow> ('w, 'r) server \<Rightarrow> ('w, 'r) server" where
  "record_latency env s = s\<lparr>sv_latency := record_latency_ms (se_latency_ms env) (sv_latency s)\<rparr>"

definition log_request :: "('w, 'r) server_env \<Rightarrow> request_context_t \<Rightarrow> string \<Rightarrow> string \<Rightarrow> ('w, 'r) server \<Rightarrow> ('w, 'r) server" where
  "log_request env ctx method path =
     out_events (case je_dumps (se_decide env) (log_info (je_utf8 (se_decide env)) (se_tm env) (Some ''http_request'') (Some ctx)
         (Some method) (Some path) 200 (se_latency_ms env)) of
       Some t \<Rightarrow> [Stderr (t @ lf)] | None \<Rightarrow> [])"

datatype 's routed = Returned 's | Served int bool 's

text \<open>A request served with latency, metrics and log.\<close>

definition served ::
    "('w, 'r) server_env \<Rightarrow> request_context_t \<Rightarrow> string \<Rightarrow> string \<Rightarrow> ('w, 'r) server \<Rightarrow> ('w, 'r) server routed outcome" where
  "served env ctx method path s =
     bind_outcome (on_metrics (metrics_record_http_request (Some method) (Some path) 200 (se_duration_us env)) (record_latency env s))
       (\<lambda>s1. Finished (Served 200 False (log_request env ctx method path s1)))"

text \<open>An early return, without and with the end of the span.\<close>

definition give_up :: "int \<Rightarrow> ('w, 'r) server \<Rightarrow> ('w, 'r) server routed outcome" where
  "give_up fd s = Finished (Returned (close_client fd s))"

definition fail_request ::
    "('w, 'r) server_env \<Rightarrow> int \<Rightarrow> otel_span_t option \<Rightarrow> int \<Rightarrow> ('w, 'r) server \<Rightarrow> ('w, 'r) server routed outcome" where
  "fail_request env fd hspan code s = give_up fd (end_request_span env hspan code s)"

text \<open>The rate limit of an endpoint in front of the rest of a route.\<close>

definition limited ::
    "('w, 'r) server_env \<Rightarrow> int \<Rightarrow> nat \<Rightarrow> request_context_t \<Rightarrow>
     (('w, 'r) server \<Rightarrow> ('w, 'r) server routed outcome) \<Rightarrow> (('w, 'r) server \<Rightarrow> ('w, 'r) server routed outcome) \<Rightarrow>
     ('w, 'r) server \<Rightarrow> ('w, 'r) server routed outcome" where
  "limited env fd endpoint ctx refuse rest s =
     bind_outcome (rate_limit_check env endpoint (Some (cx_tenant_id ctx)) None s) (\<lambda>(result, s1).
       if result \<noteq> 0 then bind_outcome (send_rate_limit_error env fd endpoint ctx s1) refuse else rest s1)"

section \<open>The routes\<close>

definition route_registry ::
    "('w, 'r) server_env \<Rightarrow> int \<Rightarrow> string \<Rightarrow> string \<Rightarrow> string \<Rightarrow> request_context_t \<Rightarrow> otel_span_t option \<Rightarrow>
     ('w, 'r) server \<Rightarrow> ('w, 'r) server routed outcome" where
  "route_registry env fd method path body ctx hspan s =
     (let p = drop (length ''/api/v1/registry/blocks/'') path in
      case strchr p (CHR ''/'') of
        None \<Rightarrow> give_up fd (record_latency env
          (send_err fd ''HTTP/1.1 400 Bad Request'' ''invalid_request'' ''missing version segment'' ctx s))
      | Some slash \<Rightarrow>
          (let type = c_copy 128 (take (length p - length slash) p); version = tl slash in
           if version = [] then
             fail_request env fd hspan 400 (record_latency env
               (send_err fd ''HTTP/1.1 400 Bad Request'' ''invalid_request'' ''empty version'' ctx s))
           else limited env fd 2 ctx (fail_request env fd hspan 429)
             (\<lambda>s1. let s2 = (if method = ''DELETE'' then handle_registry_delete env fd type version s1
                             else snd (handle_registry_write_common env fd type version body s1)) in
                   Finished (Served 200 False (log_request env ctx method path (record_latency env s2)))) s))"

definition route_get_decision ::
    "('w, 'r) server_env \<Rightarrow> int \<Rightarrow> string \<Rightarrow> request_context_t \<Rightarrow> otel_span_t option \<Rightarrow> ('w, 'r) server \<Rightarrow> ('w, 'r) server routed outcome" where
  "route_get_decision env fd path ctx hspan s =
     (let message_id = drop (length ''/api/v1/routes/decide/'') path in
      if message_id = [] then
        fail_request env fd hspan 400 (send_err fd ''HTTP/1.1 400 Bad Request'' ''invalid_request'' ''missing message_id path parameter'' ctx s)
      else limited env fd 0 ctx (fail_request env fd hspan 429)
        (\<lambda>s1. bind_outcome (handle_get_decision env fd message_id ctx (s1\<lparr>sv_decide_get := sv_decide_get s1 + 1\<rparr>))
           (\<lambda>s2. Finished (Served 200 False (record_latency env s2)))) s)"

definition message_update ::
    "('w, 'r) server_env \<Rightarrow> int \<Rightarrow> string \<Rightarrow> string \<Rightarrow> request_context_t \<Rightarrow> otel_span_t option \<Rightarrow>
     ('w, 'r) server \<Rightarrow> ('w, 'r) server routed outcome" where
  "message_update env fd message_id body ctx hspan s =
     (if body = [] then
        fail_request env fd hspan 400 (send_err fd ''HTTP/1.1 400 Bad Request'' ''invalid_request'' ''empty body'' ctx s)
      else if \<not> is_obj (je_loads (se_decide env) body) then
        fail_request env fd hspan 400 (send_err fd ''HTTP/1.1 400 Bad Request'' ''invalid_request'' ''invalid JSON'' ctx s)
      else (let mid = sub_field (je_loads (se_decide env) body) ''message_id'' in
        if is_str mid \<and> str_of mid \<noteq> message_id then
          fail_request env fd hspan 409 (send_err fd ''HTTP/1.1 409 Conflict'' ''conflict'' ''message_id mismatch with path'' ctx s)
        else bind_outcome (broadcast env (cx_tenant_id ctx) ''message_updated'' body (send_json fd ''HTTP/1.1 200 OK'' body s))
          (\<lambda>s1. Finished (Served 200 False (record_latency env s1)))))"

definition message_delete ::
    "('w, 'r) server_env \<Rightarrow> int \<Rightarrow> string \<Rightarrow> request_context_t \<Rightarrow> ('w, 'r) server \<Rightarrow> ('w, 'r) server routed outcome" where
  "message_delete env fd message_id ctx s =
     (let resp = ''{\"status\":\"deleted\",\"message_id\":\"'' @ message_id @ ''\"}'';
          evt = ''{\"message_id\":\"'' @ message_id @ ''\"}'' in
      if length resp \<ge> 256 then give_up fd (send_err fd ''HTTP/1.1 400 Bad Request'' ''invalid_request'' ''bad message_id'' ctx s)
      else (let s1 = send_json fd ''HTTP/1.1 200 OK'' resp s in
            bind_outcome (if length evt < 128 then broadcast env (cx_tenant_id ctx) ''message_deleted'' evt s1 else Finished s1)
              (\<lambda>s2. Finished (Served 200 False (record_latency env s2)))))"

definition route_messages ::
    "('w, 'r) server_env \<Rightarrow> int \<Rightarrow> string \<Rightarrow> string \<Rightarrow> string \<Rightarrow> request_context_t \<Rightarrow> otel_span_t option \<Rightarrow>
     ('w, 'r) server \<Rightarrow> ('w, 'r) server routed outcome" where
  "route_messages env fd method path body ctx hspan s =
     (let message_id = drop (length ''/api/v1/messages/'') path in
      if message_id = [] then
        give_up fd (send_err fd ''HTTP/1.1 400 Bad Request'' ''invalid_request'' ''missing message_id'' ctx s)
      else if cx_tenant_id ctx = [] then
        give_up fd (send_err fd ''HTTP/1.1 400 Bad Request'' ''invalid_request'' ''missing X-Tenant-ID header'' ctx s)
      else limited env fd 1 ctx (give_up fd)
        (\<lambda>s1. if method = ''PUT'' then message_update env fd message_id body ctx hspan s1 else message_delete env fd message_id ctx s1) s)"

definition route_stream ::
    "('w, 'r) server_env \<Rightarrow> int \<Rightarrow> string \<Rightarrow> request_context_t \<Rightarrow> ('w, 'r) server \<Rightarrow> ('w, 'r) server routed outcome" where
  "route_stream env fd path ctx s =
     (case query_get_param path ''tenant_id'' 64 of
        Some (c # cs) \<Rightarrow>
          (let (ok, evs, p) = sse_register_client (se_now env) fd (c # cs) (sv_sse s) in
           Finished (Served 200 ok (record_latency env (out_events (map Http evs) (s\<lparr>sv_sse := p\<rparr>)))))
      | _ \<Rightarrow> give_up fd (send_err fd ''HTTP/1.1 400 Bad Request'' ''invalid_request'' ''missing tenant_id'' ctx s))"

text \<open>The paths of \<open>handle_decide\<close> that end the span of the request.\<close>

definition decide_ends_span :: "'w decide_env \<Rightarrow> string \<Rightarrow> request_context_t \<Rightarrow> gateway \<Rightarrow> bool" where
  "decide_ends_span env body ctx g \<longleftrightarrow> body \<noteq> [] \<and> \<not> router_busy env g \<and> client_limited env ctx g"

definition serve_decide ::
    "('w, 'r) server_env \<Rightarrow> int \<Rightarrow> string \<Rightarrow> string \<Rightarrow> string \<Rightarrow> request_context_t \<Rightarrow> otel_span_t option \<Rightarrow>
     ('w, 'r) server \<Rightarrow> ('w, 'r) server routed outcome" where
  "serve_decide env fd method path body ctx hspan s =
     bind_outcome (handle_decide (se_decide env) fd (Some body) ctx (sv_gw s) (sv_nats s)) (\<lambda>(evs, ctx1, g, w).
       if hspan \<noteq> None \<and> decide_ends_span (se_decide env) body ctx (sv_gw s) then Undefined
       else (let answered = (\<lambda>q. fst (nats_request_decide (de_nats (se_decide env)) q MAX_RESPONSE_SIZE (sv_nats s)) \<noteq> None);
                 t = foldl (\<lambda>t c. case c of Ask_Decide q \<Rightarrow> publish_span env hspan (answered q) t | _ \<Rightarrow> t) (sv_tracing s) (asked evs) in
             served env ctx1 method path (out_events evs (s\<lparr>sv_gw := g, sv_nats := w, sv_tracing := t\<rparr>))))"

definition route_decide ::
    "('w, 'r) server_env \<Rightarrow> int \<Rightarrow> string \<Rightarrow> string \<Rightarrow> string \<Rightarrow> request_headers \<Rightarrow> otel_span_t option \<Rightarrow>
     ('w, 'r) server \<Rightarrow> ('w, 'r) server routed outcome" where
  "route_decide env fd method path body h hspan s =
     (let ctx = rh_ctx h in
      if sv_auth_required s \<and> \<not> rh_has_auth h then
        give_up fd (on_gw (send_error_response_with_conflict fd ''HTTP/1.1 401 Unauthorized'' ''unauthorized'' ''missing Authorization header''
          ctx CONFLICT_TYPE_AUTH_GATEWAY None) s)
      else if \<not> rh_has_tenant h then
        give_up fd (on_gw (send_error_response_with_conflict fd ''HTTP/1.1 400 Bad Request'' ''invalid_request'' ''missing X-Tenant-ID header''
          ctx CONFLICT_TYPE_REQUEST_GATEWAY None) s)
      else if path = ''/api/v1/routes/decide'' then
        bind_outcome (rate_limit_check_routes_decide env fd ctx s) (\<lambda>(result, s1).
          if result \<noteq> 0 then fail_request env fd hspan 429 s1
          else serve_decide env fd method path body ctx hspan (s1\<lparr>sv_decide_post := sv_decide_post s1 + 1\<rparr>))
      else limited env fd 1 ctx (fail_request env fd hspan 429) (serve_decide env fd method path body ctx hspan) s)"

text \<open>Tenant and policy of a path in front of \<open>/complexity\<close>.\<close>

definition policy_ids :: "string \<Rightarrow> string \<times> string" where
  "policy_ids p =
     (if 0 < length p \<and> length p < 128 then
        (case strchr p (CHR ''/'') of
           Some slash \<Rightarrow> (c_copy 64 (take (length p - length slash) p), c_copy 64 (tl slash))
         | None \<Rightarrow> ([], c_copy 64 p))
      else ([], []))"

definition route_policies ::
    "('w, 'r) server_env \<Rightarrow> int \<Rightarrow> string \<Rightarrow> string \<Rightarrow> request_context_t \<Rightarrow> ('w, 'r) server \<Rightarrow> ('w, 'r) server routed outcome" where
  "route_policies env fd method path ctx s =
     (let rest = drop (length ''/api/v1/policies/'') path in
      case strstr rest ''/complexity'' of
        None \<Rightarrow> give_up fd (send_err fd ''HTTP/1.1 404 Not Found'' ''NOT_FOUND'' ''endpoint not found'' ctx s)
      | Some suffix \<Rightarrow>
          (let (tenant_id, policy_id) = policy_ids (take (length rest - length suffix) rest) in
           if tenant_id \<noteq> [] \<and> policy_id \<noteq> [] then
             served env ctx method path (handle_pipeline_complexity env fd tenant_id policy_id ctx s)
           else give_up fd (send_err fd ''HTTP/1.1 400 Bad Request'' ''INVALID_REQUEST'' ''missing tenant_id or policy_id'' ctx s)))"

definition route_unknown ::
    "('w, 'r) server_env \<Rightarrow> int \<Rightarrow> string \<Rightarrow> string \<Rightarrow> request_context_t \<Rightarrow> ('w, 'r) server \<Rightarrow> ('w, 'r) server routed outcome" where
  "route_unknown env fd method path ctx s =
     bind_outcome (on_metrics (metrics_record_http_request (Some method) (Some path) 404 (se_duration_us env))
         (record_latency env (send_err fd ''HTTP/1.1 404 Not Found'' ''invalid_request'' ''route not found'' ctx s)))
       (\<lambda>s1. Finished (Served 404 False s1))"

definition dispatch ::
    "('w, 'r) server_env \<Rightarrow> int \<Rightarrow> string \<Rightarrow> string \<Rightarrow> string \<Rightarrow> request_headers \<Rightarrow> otel_span_t option \<Rightarrow>
     ('w, 'r) server \<Rightarrow> ('w, 'r) server routed outcome" where
  "dispatch env fd method path body h hspan s =
     (let ctx = rh_ctx h; get = (method = ''GET''); post = (method = ''POST'') in
      if get \<and> (path = ''/health'' \<or> path = ''/_health'') then served env ctx method path (handle_health env fd s)
      else if get \<and> path = ''/_metrics'' then served env ctx method path (handle_metrics_json env fd s)
      else if get \<and> path = ''/metrics'' then bind_outcome (serve_metrics_page env fd s) (served env ctx method path)
      else if (post \<or> method = ''PUT'' \<or> method = ''DELETE'') \<and> starts_with path ''/api/v1/registry/blocks/''
        then route_registry env fd method path body ctx hspan s
      else if get \<and> starts_with path ''/api/v1/routes/decide/'' then route_get_decision env fd path ctx hspan s
      else if (method = ''PUT'' \<or> method = ''DELETE'') \<and> starts_with path ''/api/v1/messages/''
        then route_messages env fd method path body ctx hspan s
      else if get \<and> starts_with path ''/api/v1/messages/stream'' then route_stream env fd path ctx s
      else if post \<and> (path = ''/api/v1/messages'' \<or> path = ''/api/v1/routes/decide'')
        then route_decide env fd method path body h hspan s
      else if get \<and> path = ''/api/v1/extensions/health'' then served env ctx method path (handle_extensions_health env fd ctx s)
      else if get \<and> path = ''/api/v1/extensions/circuit-breakers''
        then served env ctx method path (handle_circuit_breakers env fd ctx s)
      else if post \<and> path = ''/api/v1/policies/dry-run'' then served env ctx method path (handle_dry_run_pipeline env fd body ctx s)
      else if get \<and> starts_with path ''/api/v1/policies/'' then route_policies env fd method path ctx s
      else route_unknown env fd method path ctx s)"

section \<open>A connection\<close>

definition finish_client ::
    "('w, 'r) server_env \<Rightarrow> int \<Rightarrow> otel_span_t option \<Rightarrow> ('w, 'r) server routed \<Rightarrow> ('w, 'r) server" where
  "finish_client env fd hspan r =
     (case r of
        Returned s \<Rightarrow> s
      | Served code keep_open s \<Rightarrow>
          (let s1 = end_request_span env hspan code s in if keep_open then s1 else close_client fd s1))"

text \<open>The bytes of the first \<open>read\<close>; none when it fails or the peer has closed.\<close>

definition handle_client :: "('w, 'r) server_env \<Rightarrow> int \<Rightarrow> string \<Rightarrow> ('w, 'r) server \<Rightarrow> ('w, 'r) server outcome" where
  "handle_client env fd req s0 =
     (if req = [] then Finished (close_client fd s0)
      else (let s = s0\<lparr>sv_requests_total := sv_requests_total s0 + 1\<rparr>; (head, body) = split_request req in
            case request_line head of
              None \<Rightarrow>
                bind_outcome (on_metrics (metrics_record_http_request (Some ''UNKNOWN'') (Some ''UNKNOWN'') 400 (se_duration_us env))
                    (on_gw (send_error_response_with_conflict fd ''HTTP/1.1 400 Bad Request'' ''invalid_request'' ''malformed request line''
                       no_ctx CONFLICT_TYPE_REQUEST_GATEWAY None) s))
                  (\<lambda>s1. Finished (close_client fd s1))
            | Some (method, path, lines) \<Rightarrow>
                (let h = read_headers lines in
                 bind_outcome (start_request_span env method path h) (\<lambda>hspan.
                   bind_outcome (dispatch env fd method path body h hspan s) (\<lambda>r. Finished (finish_client env fd hspan r))))))"

section \<open>The server\<close>

text \<open>
  What the loop of \<open>http_server_run\<close> meets until the signal that ends it: a connection with its
  descriptor and the bytes read from it, or an \<open>accept\<close> that fails.
\<close>

datatype ('w, 'r) arrival = Connection "('w, 'r) server_env" int string | Accept_Failed

fun accept_loop :: "('w, 'r) arrival list \<Rightarrow> ('w, 'r) server \<Rightarrow> ('w, 'r) server outcome" where
  "accept_loop [] s = Finished s"
| "accept_loop (Connection env fd req # as) s = bind_outcome (handle_client env fd req s) (accept_loop as)"
| "accept_loop (Accept_Failed # as) s = accept_loop as s"

record start_calls =
  sc_socket :: "int option"
  sc_bind :: "int \<Rightarrow> bool"
  sc_listen :: bool
  sc_alloc :: "nat \<Rightarrow> bool"
  sc_have_curl :: bool
  sc_easy_init :: bool

definition server_port :: "string option \<Rightarrow> int" where
  "server_port port_str = (case port_str of None \<Rightarrow> 8080 | Some p \<Rightarrow> if atoi p \<le> 0 then 8080 else atoi p)"

definition otlp_setting :: "getenv \<Rightarrow> string" where
  "otlp_setting env = env_or env ''OTLP_ENDPOINT'' ''http://localhost:4318''"

text \<open>
  The signal handler closes the listening socket and makes the loop end; afterwards the function closes
  its own copy of the descriptor. The lines of \<open>log_json\<close> are not recorded.
\<close>

definition on_signal :: "int \<Rightarrow> ('w, 'r) server \<Rightarrow> ('w, 'r) server" where
  "on_signal server_fd = close_client server_fd"

definition stop_events :: "('w, 'r) server \<Rightarrow> ('w, 'r) server" where
  "stop_events s = (let (evs, p) = sse_shutdown (sv_sse s) in out_events (map Http evs) (s\<lparr>sv_sse := p\<rparr>))"

definition start_server ::
    "start_calls \<Rightarrow> getenv \<Rightarrow> int \<Rightarrow> string option \<Rightarrow> ('w, 'r) server \<Rightarrow> (int \<times> ('w, 'r) server) outcome" where
  "start_server sc env now port_str s =
     (if \<not> sc_bind sc (server_port port_str mod 65536) \<or> \<not> sc_listen sc then Finished (1, s)
      else (let s1 = s\<lparr>sv_start_time := now, sv_sse := sse_init_pool\<rparr> in
        bind_outcome (metrics_registry_init (sc_alloc sc) (sv_metrics s1)) (\<lambda>(rc, m).
          let s2 = s1\<lparr>sv_metrics := m\<rparr> in
          if rc \<noteq> 0 then Finished (1, s2)
          else Finished (0, s2\<lparr>sv_tracing := snd (otel_init (sc_have_curl sc) (sc_easy_init sc) (Some ''c-gateway'')
                 (Some (otlp_setting env)) (sv_tracing s2))\<rparr>))))"

definition http_server_run ::
    "start_calls \<Rightarrow> getenv \<Rightarrow> int \<Rightarrow> string option \<Rightarrow> ('w, 'r) arrival list \<Rightarrow> ('w, 'r) server \<Rightarrow> (int \<times> ('w, 'r) server) outcome" where
  "http_server_run sc env now port_str arrivals s =
     (case sc_socket sc of
        None \<Rightarrow> Finished (1, s)
      | Some server_fd \<Rightarrow>
          bind_outcome (start_server sc env now port_str s) (\<lambda>(rc, s1).
            if rc \<noteq> 0 then Finished (1, close_client server_fd s1)
            else bind_outcome (accept_loop arrivals s1) (\<lambda>s2.
              Finished (0, close_client server_fd (stop_events (on_signal server_fd s2))))))"

text \<open>The program.\<close>

definition gateway_main ::
    "start_calls \<Rightarrow> getenv \<Rightarrow> int \<Rightarrow> ('w, 'r) arrival list \<Rightarrow> ('w, 'r) server \<Rightarrow> (int \<times> ('w, 'r) server) outcome" where
  "gateway_main sc env now arrivals s =
     bind_outcome (http_server_run sc env now (env ''GATEWAY_PORT'') arrivals s) (\<lambda>(rc, s1).
       Finished (rc, if rc \<noteq> 0 then out_events [Stderr (''C-Gateway exited with code '' @ dec_int rc @ lf)] s1 else s1))"

end
