(* ===== verification/HTTP_Service.thy ===== *)
theory HTTP_Service
  imports HTTP_Server
begin

text \<open>
  What the HTTP server promises its clients: every connection gets one response and its descriptor is
  closed once or handed over to the event stream, and what reaches the router has passed the front
  end's guards. Descriptors are followed through the events with the set of the open ones. The steps of
  a handler are composed with \<open>step_to\<close>: which texts a step writes to the connection, what it asks the
  router, and that it leaves the connection open and the pool in order.
\<close>

section \<open>Specification\<close>

text \<open>The open descriptors after some events, unless one is written to or closed while it is closed.\<close>

fun track :: "int set \<Rightarrow> http_event list \<Rightarrow> int set option" where
  "track S [] = Some S"
| "track S (Wrote fd d # es) = (if fd \<in> S then track S es else None)"
| "track S (Closed_Fd fd # es) = (if fd \<in> S then track (S - {fd}) es else None)"

fun written :: "int \<Rightarrow> http_event list \<Rightarrow> string list" where
  "written fd [] = []"
| "written fd (Wrote fd' d # es) = (if fd' = fd then d # written fd es else written fd es)"
| "written fd (Closed_Fd _ # es) = written fd es"

definition pool_fds :: "sse_pool \<Rightarrow> int set" where
  "pool_fds p = {fd. fd \<noteq> -1 \<and> (\<exists>i<length p. sse_fd (p ! i) = fd)}"

definition pool_ok :: "sse_pool \<Rightarrow> bool" where
  "pool_ok p \<longleftrightarrow> length p = 64 \<and> (\<forall>i<64. \<forall>j<64. i \<noteq> j \<longrightarrow> sse_fd (p ! i) = sse_fd (p ! j) \<longrightarrow> sse_fd (p ! i) = -1)"

text \<open>One response: a status line with headers, and the body in at most one more write.\<close>

definition response :: "string list \<Rightarrow> bool" where
  "response ws \<longleftrightarrow> (\<exists>line h bs. starts_with line ''HTTP/1.1 '' \<and> ws = (line @ crlf @ h) # bs \<and> length bs \<le> 1)"

definition ready :: "int \<Rightarrow> ('w, 'r) server \<Rightarrow> bool" where
  "ready fd s \<longleftrightarrow> pool_ok (sv_sse s) \<and> fd \<notin> pool_fds (sv_sse s)"

definition step_to :: "int \<Rightarrow> string list \<Rightarrow> router_call list \<Rightarrow> ('w, 'r) server \<Rightarrow> ('w, 'r) server \<Rightarrow> bool" where
  "step_to fd ws qs s s' \<longleftrightarrow>
     (\<exists>evs. sv_out s' = sv_out s @ evs \<and> asked evs = qs \<and> written fd (http_of evs) = ws \<and> ready fd s' \<and>
        track (insert fd (pool_fds (sv_sse s))) (http_of evs) = Some (insert fd (pool_fds (sv_sse s'))))"

section \<open>Events and the pool\<close>

lemma track_append: "track S (xs @ ys) = Option.bind (track S xs) (\<lambda>T. track T ys)"
  by (induction S xs rule: track.induct) auto

lemma written_append [simp]: "written fd (xs @ ys) = written fd xs @ written fd ys"
  by (induction fd xs rule: written.induct) auto

lemma track_writes: "fd \<in> S \<Longrightarrow> track S (map (Wrote fd) ds) = Some S"
  by (induction ds) auto

lemma written_writes [simp]: "written fd (map (Wrote fd') ds) = (if fd = fd' then ds else [])"
  by (induction ds) auto

lemma pool_fds_free:
  assumes "pool_ok p" "i < 64" "sse_fd (p ! i) \<noteq> -1"
  shows "pool_ok (p[i := free_slot])" "pool_fds (p[i := free_slot]) = pool_fds p - {sse_fd (p ! i)}"
proof -
  have p: "length p = 64" "\<And>i j. i < 64 \<Longrightarrow> j < 64 \<Longrightarrow> i \<noteq> j \<Longrightarrow> sse_fd (p ! i) = sse_fd (p ! j) \<Longrightarrow> sse_fd (p ! i) = -1"
    using assms(1) by (auto simp: pool_ok_def)
  have u: "sse_fd (p[i := free_slot] ! j) = (if j = i then -1 else sse_fd (p ! j))" if "j < 64" for j
    using p(1) that by (cases "j = i") (auto simp: free_slot_def)
  show "pool_ok (p[i := free_slot])"
    unfolding pool_ok_def
  proof (intro conjI allI impI)
    fix j k assume "j < 64" "k < 64" "j \<noteq> k" "sse_fd (p[i := free_slot] ! j) = sse_fd (p[i := free_slot] ! k)"
    then show "sse_fd (p[i := free_slot] ! j) = -1" using p(2) [of j k] u [of j] u [of k] by (auto split: if_splits)
  qed (simp add: p(1))
  show "pool_fds (p[i := free_slot]) = pool_fds p - {sse_fd (p ! i)}"
  proof (rule set_eqI)
    fix x
    have "(\<exists>j<64. sse_fd (p[i := free_slot] ! j) = x) \<longleftrightarrow> (\<exists>j<64. sse_fd (p ! j) = x) \<and> x \<noteq> sse_fd (p ! i)" if "x \<noteq> -1"
      using u p(2) [of i] assms(2,3) that by metis
    then show "x \<in> pool_fds (p[i := free_slot]) \<longleftrightarrow> x \<in> pool_fds p - {sse_fd (p ! i)}" using p(1) by (auto simp: pool_fds_def)
  qed
qed

lemma pool_fds_touch:
  assumes "pool_ok p" "sse_fd c = sse_fd (p ! i)"
  shows "pool_ok (p[i := c])" "pool_fds (p[i := c]) = pool_fds p"
proof -
  have "sse_fd (p[i := c] ! j) = sse_fd (p ! j)" if "j < length p" for j using assms(2) that by (cases "j = i") auto
  then show "pool_ok (p[i := c])" "pool_fds (p[i := c]) = pool_fds p" using assms(1) by (auto simp: pool_ok_def pool_fds_def)
qed

lemma unregister_first:
  assumes "pool_ok p" "i < 64" "sse_fd (p ! i) \<noteq> -1"
  shows "sse_unregister_fd (sse_fd (p ! i)) p = ([Closed_Fd (sse_fd (p ! i))], p[i := free_slot])"
proof -
  have len: "length p = 64" using assms(1) by (simp add: pool_ok_def)
  obtain j where j: "first_index (\<lambda>c. sse_fd c = sse_fd (p ! i)) p = Some j"
    using first_index_ex [of "p ! i" p "\<lambda>c. sse_fd c = sse_fd (p ! i)"] assms(2) len by auto
  then have "j < 64" "sse_fd (p ! j) = sse_fd (p ! i)" using first_index_Some [OF j] len by auto
  then have "j = i" using assms by (metis pool_ok_def)
  then show ?thesis using j by (simp add: sse_unregister_fd_def)
qed

text \<open>A change of the pool with its events, in the presence of other open descriptors.\<close>

definition pool_step :: "sse_pool \<Rightarrow> http_event list \<Rightarrow> sse_pool \<Rightarrow> bool" where
  "pool_step p ev p' \<longleftrightarrow> pool_ok p' \<and> pool_fds p' \<subseteq> pool_fds p \<and>
     (\<forall>X. X \<inter> pool_fds p = {} \<longrightarrow> track (X \<union> pool_fds p) ev = Some (X \<union> pool_fds p')) \<and>
     (\<forall>fd. fd \<notin> pool_fds p \<longrightarrow> written fd ev = [])"

lemma pool_step_refl: "pool_ok p \<Longrightarrow> pool_step p [] p"
  by (simp add: pool_step_def)

lemma pool_stepD:
  assumes "pool_step p ev p'"
  shows "pool_ok p'" "pool_fds p' \<subseteq> pool_fds p"
    "X \<inter> pool_fds p = {} \<Longrightarrow> track (X \<union> pool_fds p) ev = Some (X \<union> pool_fds p')" "fd \<notin> pool_fds p \<Longrightarrow> written fd ev = []"
  using assms by (simp_all add: pool_step_def)

lemma pool_step_trans:
  assumes "pool_step p ev p'" "pool_step p' ev' p''"
  shows "pool_step p (ev @ ev') p''"
  unfolding pool_step_def
proof (intro conjI allI impI)
  show "pool_ok p''" by (rule pool_stepD(1) [OF assms(2)])
  show "pool_fds p'' \<subseteq> pool_fds p" using pool_stepD(2) [OF assms(1)] pool_stepD(2) [OF assms(2)] by (rule order_trans [rotated])
  show "track (X \<union> pool_fds p) (ev @ ev') = Some (X \<union> pool_fds p'')" if "X \<inter> pool_fds p = {}" for X
  proof -
    have "X \<inter> pool_fds p' = {}" using that pool_stepD(2) [OF assms(1)] by auto
    then show ?thesis using pool_stepD(3) [OF assms(1) that] pool_stepD(3) [OF assms(2)] by (simp add: track_append)
  qed
  show "written fd (ev @ ev') = []" if "fd \<notin> pool_fds p" for fd
  proof -
    have "fd \<notin> pool_fds p'" using that pool_stepD(2) [OF assms(1)] by auto
    then show ?thesis using pool_stepD(4) [OF assms(1) that] pool_stepD(4) [OF assms(2)] by simp
  qed
qed

lemma pool_step_unregister:
  assumes "pool_ok p" "i < 64" "sse_fd (p ! i) \<noteq> -1"
  shows "pool_step p [Closed_Fd (sse_fd (p ! i))] (p[i := free_slot])"
proof -
  let ?fd = "sse_fd (p ! i)"
  have m: "?fd \<in> pool_fds p" using assms by (auto simp: pool_fds_def pool_ok_def)
  note f = pool_fds_free [OF assms]
  have "track (X \<union> pool_fds p) [Closed_Fd ?fd] = Some (X \<union> pool_fds (p[i := free_slot]))" if "X \<inter> pool_fds p = {}" for X
  proof -
    have "(X \<union> pool_fds p) - {?fd} = X \<union> (pool_fds p - {?fd})" using that m by blast
    then show ?thesis using m unfolding f(2) by simp
  qed
  then show ?thesis unfolding pool_step_def using f by simp
qed

lemma sse_writes_map: "\<exists>ds'. fst (sse_writes ok fd ds) = map (Wrote fd) ds'"
proof (induction ds)
  case (Cons d ds)
  then obtain ds' where "fst (sse_writes ok fd ds) = map (Wrote fd) ds'" ..
  then have "fst (sse_writes ok fd (d # ds)) = map (Wrote fd) (if ok fd d then d # ds' else [])"
    by (auto split: prod.split)
  then show ?case by blast
qed simp

lemma pool_step_send:
  assumes "pool_ok p" "i < 64" "sse_send ok now tenant parts i p = (ev, p')"
  shows "pool_step p ev p'"
proof -
  let ?fd = "sse_fd (p ! i)"
  obtain ws fin where w: "sse_writes ok ?fd parts = (ws, fin)" by fastforce
  obtain ds where ds: "ws = map (Wrote ?fd) ds" using sse_writes_map [of ok ?fd parts] w by auto
  have writes: "pool_step p ws p" if "?fd \<noteq> -1"
  proof -
    have "?fd \<in> pool_fds p" using assms that by (auto simp: pool_fds_def pool_ok_def)
    then show ?thesis using assms(1) by (auto simp: pool_step_def ds track_writes)
  qed
  show ?thesis
  proof (cases "?fd = -1 \<or> (case tenant of Some t \<Rightarrow> t \<noteq> [] \<and> t \<noteq> sse_tenant (p ! i) | None \<Rightarrow> False)")
    case True
    then have "ev = [] \<and> p' = p" using assms(3) by (auto simp: sse_send_def Let_def split: if_splits)
    then show ?thesis using pool_step_refl assms(1) by simp
  next
    case False
    show ?thesis
    proof (cases fin)
      case True
      then have "ev = ws" "p' = p[i := (p ! i)\<lparr>last_write := now\<rparr>]" using assms(3) False w by (auto simp: sse_send_def Let_def)
      then show ?thesis using writes False pool_fds_touch [OF assms(1), of "(p ! i)\<lparr>last_write := now\<rparr>" i]
        by (auto simp: pool_step_def)
    next
      case notdone: False
      then have "ev = ws @ [Closed_Fd ?fd]" "p' = p[i := free_slot]"
        using assms(3) False w unregister_first [OF assms(1,2)] by (auto simp: sse_send_def Let_def)
      then show ?thesis using pool_step_trans [OF writes pool_step_unregister [OF assms(1,2)]] False by auto
    qed
  qed
qed

lemma pool_step_send_all:
  "pool_ok p \<Longrightarrow> set ids \<subseteq> {..<64} \<Longrightarrow> sse_send_all ok now tenant parts ids p = (ev, p') \<Longrightarrow> pool_step p ev p'"
proof (induction ids arbitrary: p ev)
  case (Cons i ids)
  obtain ev1 p1 where s: "sse_send ok now tenant parts i p = (ev1, p1)" by fastforce
  obtain ev2 where r: "sse_send_all ok now tenant parts ids p1 = (ev2, p')" "ev = ev1 @ ev2"
    using Cons.prems(3) by (auto simp: s split: prod.splits)
  have one: "pool_step p ev1 p1" using pool_step_send [OF Cons.prems(1) _ s] Cons.prems(2) by simp
  then have "pool_ok p1" by (simp add: pool_step_def)
  with Cons.IH [OF this _ r(1)] Cons.prems(2) one show ?case using pool_step_trans by (auto simp: r(2))
qed (simp add: pool_step_refl)

lemma pool_step_broadcast: "pool_ok p \<Longrightarrow> sse_broadcast_json ok now tenant event json p = Finished (ev, p') \<Longrightarrow> pool_step p ev p'"
  by (rule pool_step_send_all [of p "slots 64" ok now tenant "sse_parts event json"])
    (auto simp: sse_broadcast_json_def set_slots split: if_splits)

lemma pool_step_close_slots:
  "pool_ok p \<Longrightarrow> set ids \<subseteq> {..<64} \<Longrightarrow> sse_close_slots ids p = (ev, p') \<Longrightarrow>
     pool_step p ev p' \<and> (\<forall>i<64. i \<in> set ids \<or> sse_fd (p ! i) = -1 \<longrightarrow> sse_fd (p' ! i) = -1)"
proof (induction ids arbitrary: p ev)
  case (Cons i ids)
  define p1 where "p1 = (if sse_fd (p ! i) \<noteq> -1 then p[i := free_slot] else p)"
  define ev1 where "ev1 = (if sse_fd (p ! i) \<noteq> -1 then [Closed_Fd (sse_fd (p ! i))] else [])"
  have i: "i < 64" using Cons.prems(2) by simp
  have one: "pool_step p ev1 p1"
    using pool_step_unregister [OF Cons.prems(1) i] pool_step_refl Cons.prems(1) by (simp add: p1_def ev1_def)
  have slots: "sse_fd (p1 ! j) = -1" if "j < 64" "j = i \<or> sse_fd (p ! j) = -1" for j
    using Cons.prems(1) that by (cases "j = i") (auto simp: p1_def pool_ok_def free_slot_def)
  obtain ev2 where r: "sse_close_slots ids p1 = (ev2, p')" "ev = ev1 @ ev2"
    using Cons.prems(3) unregister_first [OF Cons.prems(1) i] by (auto simp: p1_def ev1_def split: prod.splits if_splits)
  have "pool_ok p1" using one by (simp add: pool_step_def)
  from Cons.IH [OF this _ r(1)] Cons.prems(2) have "pool_step p1 ev2 p'"
      "\<forall>j<64. j \<in> set ids \<or> sse_fd (p1 ! j) = -1 \<longrightarrow> sse_fd (p' ! j) = -1" by auto
  then show ?case using pool_step_trans [OF one] slots by (auto simp: r(2))
qed (simp add: pool_step_refl)

section \<open>Steps of a handler\<close>

text \<open>A pool that is full refuses a client of the event stream with a third text.\<close>

definition stream_greeting :: "string list" where
  "stream_greeting = [sse_header, '': connected'' @ lf @ lf]"

definition answered :: "string list \<Rightarrow> bool" where
  "answered ws \<longleftrightarrow> response ws \<or> ws = stream_greeting @ ['':pool_full'' @ lf @ lf]"

definition answers :: "int \<Rightarrow> router_call list \<Rightarrow> ('w, 'r) server \<Rightarrow> ('w, 'r) server \<Rightarrow> bool" where
  "answers fd qs s s' \<longleftrightarrow> (\<exists>ws. answered ws \<and> step_to fd ws qs s s')"

definition finishes :: "'a outcome \<Rightarrow> ('a \<Rightarrow> bool) \<Rightarrow> bool" where
  "finishes m P \<longleftrightarrow> (\<forall>x. m = Finished x \<longrightarrow> P x)"

lemma finishes_simps [simp]: "finishes (Finished x) P = P x" "finishes Undefined P"
  by (simp_all add: finishes_def)

lemma finishes_bind: "finishes m (\<lambda>x. finishes (f x) P) \<Longrightarrow> finishes (bind_outcome m f) P"
  by (auto simp: finishes_def bind_Finished)

lemma finishes_bind_any: "(\<And>x. finishes (f x) P) \<Longrightarrow> finishes (bind_outcome m f) P"
  by (auto simp: finishes_def bind_Finished)

lemma finishes_if: "(c \<Longrightarrow> finishes a P) \<Longrightarrow> (\<not> c \<Longrightarrow> finishes b P) \<Longrightarrow> finishes (if c then a else b) P"
  by simp

lemma finishes_case_option:
  "(x = None \<Longrightarrow> finishes a P) \<Longrightarrow> (\<And>y. x = Some y \<Longrightarrow> finishes (b y) P) \<Longrightarrow> finishes (case x of None \<Rightarrow> a | Some y \<Rightarrow> b y) P"
  by (cases x) simp_all

lemma finishes_weaken: "finishes m P \<Longrightarrow> (\<And>x. P x \<Longrightarrow> Q x) \<Longrightarrow> finishes m Q"
  by (auto simp: finishes_def)

lemma ready_cong: "sv_sse s' = sv_sse s \<Longrightarrow> ready fd s' = ready fd s"
  by (simp add: ready_def)

lemma step_to_from: "step_to fd ws qs s t \<Longrightarrow> sv_out s' = sv_out s \<Longrightarrow> sv_sse s' = sv_sse s \<Longrightarrow> step_to fd ws qs s' t"
  by (simp add: step_to_def)

lemma step_to_same: "step_to fd ws qs s t \<Longrightarrow> sv_out t' = sv_out t \<Longrightarrow> sv_sse t' = sv_sse t \<Longrightarrow> step_to fd ws qs s t'"
  by (simp add: step_to_def ready_def)

lemma answers_from: "answers fd qs s t \<Longrightarrow> sv_out s' = sv_out s \<Longrightarrow> sv_sse s' = sv_sse s \<Longrightarrow> answers fd qs s' t"
  unfolding answers_def using step_to_from by blast

lemma answers_same: "answers fd qs s t \<Longrightarrow> sv_out t' = sv_out t \<Longrightarrow> sv_sse t' = sv_sse t \<Longrightarrow> answers fd qs s t'"
  unfolding answers_def using step_to_same by blast

lemma step_to_ready: "step_to fd ws qs s s' \<Longrightarrow> ready fd s'"
  by (auto simp: step_to_def)

lemma answers_ready: "answers fd qs s s' \<Longrightarrow> ready fd s'"
  by (auto simp: answers_def step_to_def)

lemma step_to_trans:
  assumes "step_to fd ws qs s s1" "step_to fd ws' qs' s1 s2"
  shows "step_to fd (ws @ ws') (qs @ qs') s s2"
proof -
  obtain evs evs' where "sv_out s1 = sv_out s @ evs" "asked evs = qs" "written fd (http_of evs) = ws"
      "track (insert fd (pool_fds (sv_sse s))) (http_of evs) = Some (insert fd (pool_fds (sv_sse s1)))"
    and "sv_out s2 = sv_out s1 @ evs'" "asked evs' = qs'" "written fd (http_of evs') = ws'" "ready fd s2"
      "track (insert fd (pool_fds (sv_sse s1))) (http_of evs') = Some (insert fd (pool_fds (sv_sse s2)))"
    using assms by (auto simp: step_to_def)
  then show ?thesis unfolding step_to_def by (intro exI [of _ "evs @ evs'"]) (simp add: track_append)
qed

lemma step_to_out:
  assumes "ready fd s" "http_of evs = map (Wrote fd) ws" "sv_out s' = sv_out s @ evs" "sv_sse s' = sv_sse s"
  shows "step_to fd ws (asked evs) s s'"
  unfolding step_to_def
  by (intro exI [of _ evs]) (use assms in \<open>simp add: track_writes ready_def\<close>)

lemma step_to_broadcast:
  assumes r: "ready fd s"
  shows "finishes (broadcast env t e j s) (step_to fd [] [] s)"
proof -
  have "step_to fd [] [] s (out_events (map Http ev) (s\<lparr>sv_sse := p\<rparr>))"
    if b: "sse_broadcast_json (se_write_ok env) (se_now env) (Some t) e j (sv_sse s) = Finished (ev, p)" for ev p
  proof -
    have st: "pool_step (sv_sse s) ev p" using pool_step_broadcast [OF _ b] r by (simp add: ready_def)
    have "fd \<notin> pool_fds (sv_sse s)" using r by (simp add: ready_def)
    then have "written fd ev = []" "track ({fd} \<union> pool_fds (sv_sse s)) ev = Some ({fd} \<union> pool_fds p)" "fd \<notin> pool_fds p"
      using pool_stepD(2,4) [OF st] pool_stepD(3) [OF st, of "{fd}"] by auto
    then show ?thesis
      using pool_stepD(1) [OF st] unfolding step_to_def by (intro exI [of _ "map Http ev"]) (simp add: out_events_def ready_def)
  qed
  then show ?thesis by (auto simp: broadcast_def finishes_def bind_Finished)
qed

lemma step_to_ask: "ready fd s \<Longrightarrow> step_to fd [] [call] s (ask_router call w s)"
  using step_to_out [of fd s "[Asked_Router call]" "[]"] by (simp add: ask_router_def out_events_def)

lemma answers_after: "step_to fd [] qs s s1 \<Longrightarrow> answers fd qs' s1 s2 \<Longrightarrow> answers fd (qs @ qs') s s2"
  unfolding answers_def using step_to_trans by fastforce

lemma answers_then: "answers fd qs s s1 \<Longrightarrow> step_to fd [] [] s1 s2 \<Longrightarrow> answers fd qs s s2"
  unfolding answers_def using step_to_trans by fastforce

lemma response_writes:
  assumes "one_response fd l evs" "starts_with l ''HTTP/1.1 ''"
  shows "\<exists>ws. response ws \<and> http_of evs = map (Wrote fd) ws"
proof -
  obtain h b where "http_of evs = Wrote fd (l @ crlf @ h) # http_body fd b" using assms(1) by (auto simp: one_response_def)
  then have "http_of evs = map (Wrote fd) ((l @ crlf @ h) # (if b = [] then [] else [b]))" by (simp add: http_body_def)
  moreover have "response ((l @ crlf @ h) # (if b = [] then [] else [b]))" using assms(2) unfolding response_def by auto
  ultimately show ?thesis by blast
qed

lemma answers_out:
  assumes "ready fd s" "one_response fd l evs" "starts_with l ''HTTP/1.1 ''" "sv_out s' = sv_out s @ evs" "sv_sse s' = sv_sse s"
  shows "answers fd (asked evs) s s'"
  using response_writes [OF assms(2,3)] step_to_out [OF assms(1) _ assms(4,5)] unfolding answers_def answered_def by blast

lemma answers_conflict:
  assumes "ready fd s" "starts_with l ''HTTP/1.1 ''"
  shows "answers fd [] s (on_gw (send_error_response_with_conflict fd l code msg ctx ctype intake) s)"
proof -
  obtain evs g where e: "send_error_response_with_conflict fd l code msg ctx ctype intake (sv_gw s) = (evs, g)" by fastforce
  from error_response_with_conflict [OF e] answers_out [OF assms(1) _ assms(2), of evs] show ?thesis
    by (simp add: on_gw_def out_events_def e)
qed

lemma answers_err:
  "ready fd s \<Longrightarrow> starts_with l ''HTTP/1.1 '' \<Longrightarrow> answers fd [] s (send_err fd l code msg ctx s)"
  unfolding send_err_def send_error_response_def [abs_def] by (rule answers_conflict)

lemma answers_json: "ready fd s \<Longrightarrow> starts_with l ''HTTP/1.1 '' \<Longrightarrow> answers fd [] s (send_json fd l body s)"
  using answers_out [of fd s l "map Http (send_response fd l ''application/json'' body)"]
  by (simp add: send_json_def out_events_def)

lemma finishes_on_metrics: "finishes (on_metrics f s) (\<lambda>s'. sv_out s' = sv_out s \<and> sv_sse s' = sv_sse s)"
  by (auto simp: finishes_def on_metrics_def bind_Finished)

lemma init_keeps: "sv_out (rate_limit_init_if_needed env s) = sv_out s" "sv_sse (rate_limit_init_if_needed env s) = sv_sse s"
  by (simp_all add: rate_limit_init_if_needed_def Let_def split: prod.split)

lemma finishes_rate_limit:
  "finishes (rate_limit_check env e t k s) (\<lambda>(r, s'). sv_out s' = sv_out s \<and> sv_sse s' = sv_sse s)"
  by (auto simp: rate_limit_check_def Let_def finishes_def on_metrics_def bind_Finished init_keeps
      split: option.splits prod.splits rl_result_t.splits if_splits)

lemma finishes_rate_limit_error:
  assumes "ready fd s"
  shows "finishes (send_rate_limit_error env fd e ctx s) (answers fd [] s)"
proof -
  let ?body = "rate_limit_body (se_getenv env) e ctx"
  let ?line = "''HTTP/1.1 429 Too Many Requests''"
  let ?log = "Logged ''rate_limiter'' ''rate_limit_exceeded'' ''Rate limit exceeded for endpoint'' CONFLICT_TYPE_RATE_LIMIT None 429"
  define resp where "resp = (if length (rate_limit_response (se_getenv env) (se_now env) e ?body) \<ge> MAX_RESPONSE_SIZE + 512
      then map Http (send_response fd ?line ''application/json'' ?body)
      else [Http (Wrote fd (rate_limit_response (se_getenv env) (se_now env) e ?body))])"
  have one: "one_response fd ?line (?log # resp)" "asked (?log # resp) = []"
    by (auto simp: resp_def one_response_def send_response_def http_body_def rate_limit_response_def)
  show ?thesis
  proof (cases "length ?body \<ge> MAX_RESPONSE_SIZE")
    case True
    then show ?thesis using answers_conflict [OF assms, of ?line] by (simp add: send_rate_limit_error_def Let_def)
  next
    case False
    let ?s = "out_events (?log # resp) (s\<lparr>sv_gw := (sv_gw s)\<lparr>gw_errors_total := gw_errors_total (sv_gw s) + 1\<rparr>\<rparr>)"
    have "answers fd [] s ?s" using answers_out [OF assms one(1), of ?s] one(2) by (simp add: out_events_def)
    then have "finishes (on_metrics metrics_record_rate_limit_hit ?s) (answers fd [] s)"
      by (intro finishes_weaken [OF finishes_on_metrics]) (blast intro: answers_same)
    then show ?thesis using False by (simp add: send_rate_limit_error_def Let_def resp_def)
  qed
qed

section \<open>The handlers\<close>

lemma answers_json_in:
  "ready fd s \<Longrightarrow> starts_with l ''HTTP/1.1 '' \<Longrightarrow> sv_out s1 = sv_out s \<Longrightarrow> sv_sse s1 = sv_sse s \<Longrightarrow> answers fd [] s (send_json fd l body s1)"
  by (rule answers_from [OF answers_json]) (simp_all add: ready_def)

lemma answers_err_in:
  "ready fd s \<Longrightarrow> starts_with l ''HTTP/1.1 '' \<Longrightarrow> sv_out s1 = sv_out s \<Longrightarrow> sv_sse s1 = sv_sse s \<Longrightarrow>
     answers fd [] s (send_err fd l code msg ctx s1)"
  by (rule answers_from [OF answers_err]) (simp_all add: ready_def)

lemmas answers_intros = answers_json_in answers_err_in

lemma answers_health: "ready fd s \<Longrightarrow> answers fd [] s (handle_health env fd s)"
  by (auto simp: handle_health_def Let_def split: option.split intro!: answers_intros)

lemma answers_metrics_json: "ready fd s \<Longrightarrow> answers fd [] s (handle_metrics_json env fd s)"
  by (simp add: handle_metrics_json_def Let_def answers_json_in)

lemma answers_registry_delete: "ready fd s \<Longrightarrow> answers fd [] s (handle_registry_delete env fd ty v s)"
  by (auto simp: handle_registry_delete_def Let_def split: prod.split intro!: answers_intros)

lemma registry_refusal_line: "registry_refusal doc ty v = Some (l, code, msg) \<Longrightarrow> starts_with l ''HTTP/1.1 ''"
  by (auto simp: registry_refusal_def Let_def split: option.splits if_splits)

lemma answers_registry_write: "ready fd s \<Longrightarrow> answers fd [] s (snd (handle_registry_write_common env fd ty v body s))"
  by (auto simp: handle_registry_write_common_def Let_def split: prod.split option.split
      intro!: answers_intros dest: registry_refusal_line)

lemma answer_line_http: "starts_with (answer_line st) ''HTTP/1.1 ''"
  by (simp add: answer_line_def)

lemma answers_asked:
  assumes "ready fd s"
  shows "starts_with l ''HTTP/1.1 '' \<Longrightarrow> answers fd [call] s (send_json fd l body (ask_router call w s))"
    "starts_with l ''HTTP/1.1 '' \<Longrightarrow> answers fd [call] s (send_err fd l code msg ctx (ask_router call w s))"
    "answers fd [call] s (unavailable fd ctx (ask_router call w s))"
proof -
  have a: "step_to fd [] [call] s (ask_router call w s)" by (rule step_to_ask [OF assms])
  then have r: "ready fd (ask_router call w s)" by (auto simp: step_to_def)
  show "answers fd [call] s (send_json fd l body (ask_router call w s))" if "starts_with l ''HTTP/1.1 ''"
    using answers_after [OF a answers_json_in [OF r that refl refl]] by simp
  have e: "answers fd [call] s (send_err fd l code msg ctx (ask_router call w s))" if "starts_with l ''HTTP/1.1 ''" for l code msg
    using answers_after [OF a answers_err_in [OF r that refl refl]] by simp
  then show "starts_with l ''HTTP/1.1 '' \<Longrightarrow> answers fd [call] s (send_err fd l code msg ctx (ask_router call w s))" .
  show "answers fd [call] s (unavailable fd ctx (ask_router call w s))" unfolding unavailable_def by (rule e) simp
qed

lemma finishes_handle_get_decision:
  assumes r: "ready fd s"
  shows "finishes (handle_get_decision env fd mid ctx s)
     (answers fd (if mid = [] \<or> cx_tenant_id ctx = [] then [] else [Ask_Decision (cx_tenant_id ctx) mid]) s)"
proof -
  have b: "finishes (broadcast env t e j s1) (answers fd qs s)" if "answers fd qs s s1" for qs t e j and s1
    by (rule finishes_weaken [OF step_to_broadcast [OF answers_ready [OF that]]]) (rule answers_then [OF that])
  show ?thesis
    unfolding handle_get_decision_def Let_def
    by (auto split: prod.split option.split intro!: b answers_asked answers_intros r simp: answer_line_http)
qed

lemma answers_extensions_health: "ready fd s \<Longrightarrow> answers fd [Ask_Extension_Health] s (handle_extensions_health env fd ctx s)"
  by (auto simp: handle_extensions_health_def Let_def split: prod.split option.split intro!: answers_asked)

lemma answers_circuit_breakers: "ready fd s \<Longrightarrow> answers fd [Ask_Circuit_Breakers] s (handle_circuit_breakers env fd ctx s)"
  by (auto simp: handle_circuit_breakers_def Let_def split: prod.split option.split intro!: answers_asked)

lemma answers_dry_run:
  "ready fd s \<Longrightarrow> answers fd (if body = [] then [] else [Ask_Dry_Run body]) s (handle_dry_run_pipeline env fd body ctx s)"
  by (auto simp: handle_dry_run_pipeline_def Let_def answer_line_http split: prod.split option.split
      intro!: answers_asked answers_intros)

lemma answers_complexity:
  "ready fd s \<Longrightarrow> answers fd (if t = [] \<or> p = [] then [] else [Ask_Complexity t p]) s (handle_pipeline_complexity env fd t p ctx s)"
  by (auto simp: handle_pipeline_complexity_def Let_def answer_line_http split: prod.split option.split
      intro!: answers_asked answers_intros)

lemma metrics_headers_short: "length (metrics_headers (int32 n)) < 512" if "int32 n \<ge> 0"
proof -
  have "nat (int32 n) < 10 ^ 10" by (simp add: int32_def)
  then have "length (dec_nat (nat (int32 n))) \<le> 10" by (intro length_dec_nat) simp_all
  then show ?thesis using that by (simp add: metrics_headers_def dec_int_def http_eol_def)
qed

lemma export_length: "finishes (prometheus_export_text True cap p) (\<lambda>(n, t). t = None \<or> (\<exists>k. n = int32 k))"
  unfolding prometheus_export_text_def by (intro finishes_if finishes_bind_any finishes_case_option) auto

lemma metrics_page_writes: "finishes (handle_metrics_request wr m) (\<lambda>(_, ws). response ws)"
proof -
  have e: "response [metrics_error_response]"
    unfolding response_def by (rule exI [of _ "''HTTP/1.1 500 Internal Server Error''"]) (auto simp: metrics_error_response_def http_eol_def crlf_def)
  have h: "response (metrics_headers n # bs)" if "length bs \<le> 1" for n bs
  proof -
    obtain h where "metrics_headers n = ''HTTP/1.1 200 OK'' @ crlf @ h" by (simp add: metrics_headers_def http_eol_def crlf_def)
    then show ?thesis unfolding response_def using that by (intro exI [of _ "''HTTP/1.1 200 OK''"] exI [of _ h] exI [of _ bs]) simp
  qed
  have "response (snd r)" if x: "prometheus_export_text True METRICS_BUFFER_SIZE (prom m) = Finished (n, t)"
      and r: "(case t of None \<Rightarrow> Finished (- 1, [metrics_error_response]) | Some t \<Rightarrow>
         if n < 0 then Finished (- 1, [metrics_error_response]) else if length (metrics_headers n) \<ge> 512 then Finished (- 1, [])
         else if \<not> wr 0 then Finished (- 1, [metrics_headers n]) else if \<not> wr 1 then Finished (- 1, [metrics_headers n, t])
         else Finished (0, [metrics_headers n, t])) = Finished r" for n t and r :: "int \<times> string list"
  proof (cases "n < 0 \<or> t = None")
    case True
    then show ?thesis using r e by (auto split: option.splits)
  next
    case False
    then obtain u k where "t = Some u" "n = int32 k" using x export_length [of METRICS_BUFFER_SIZE "prom m"] by (auto simp: finishes_def)
    then show ?thesis using r False h metrics_headers_short [of k] by (auto split: if_splits)
  qed
  then show ?thesis unfolding handle_metrics_request_def finishes_def bind_Finished by fastforce
qed

lemma finishes_metrics_page:
  assumes "ready fd s"
  shows "finishes (serve_metrics_page env fd s) (answers fd [] s)"
proof -
  have q: "asked (map (\<lambda>w. Http (Wrote fd w)) ws) = []" "http_of (map (\<lambda>w. Http (Wrote fd w)) ws) = map (Wrote fd) ws" for ws
    by (induction ws) auto
  have "answers fd [] s (out_events (map (\<lambda>w. Http (Wrote fd w)) ws) s)" if "response ws" for ws
    using step_to_out [OF assms q(2), of "out_events (map (\<lambda>w. Http (Wrote fd w)) ws) s" ws] that
    unfolding answers_def answered_def q by (auto simp: out_events_def)
  then show ?thesis
    using metrics_page_writes [of "se_page_ok env" "sv_metrics s"]
    by (auto simp: serve_metrics_page_def finishes_def bind_Finished)
qed

section \<open>The routes\<close>

text \<open>A connection that has joined the event stream stays open, in the pool.\<close>

definition joins :: "int \<Rightarrow> ('w, 'r) server \<Rightarrow> ('w, 'r) server \<Rightarrow> bool" where
  "joins fd s s' \<longleftrightarrow>
     (\<exists>evs. sv_out s' = sv_out s @ evs \<and> asked evs = [] \<and> written fd (http_of evs) = stream_greeting \<and> pool_ok (sv_sse s') \<and>
        fd \<in> pool_fds (sv_sse s') \<and> track (insert fd (pool_fds (sv_sse s))) (http_of evs) = Some (pool_fds (sv_sse s')))"

definition route_ok :: "int \<Rightarrow> router_call list \<Rightarrow> ('w, 'r) server \<Rightarrow> ('w, 'r) server routed \<Rightarrow> bool" where
  "route_ok fd qs s r \<longleftrightarrow>
     (case r of
        Returned s' \<Rightarrow> (\<exists>s1. answers fd qs s s1 \<and> s' = close_client fd s1)
      | Served code keep s' \<Rightarrow> if keep then qs = [] \<and> joins fd s s' else answers fd qs s s')"

lemma route_ok_from:
  "route_ok fd qs s r \<Longrightarrow> sv_out s' = sv_out s \<Longrightarrow> sv_sse s' = sv_sse s \<Longrightarrow> route_ok fd qs s' r"
  by (cases r) (auto simp: route_ok_def joins_def intro: answers_from)

lemma finishes_give_up: "answers fd qs s s1 \<Longrightarrow> finishes (give_up fd s1) (route_ok fd qs s)"
  by (auto simp: give_up_def route_ok_def)

lemma finishes_fail: "answers fd qs s s1 \<Longrightarrow> finishes (fail_request env fd sp code s1) (route_ok fd qs s)"
  unfolding fail_request_def by (rule finishes_give_up, erule answers_same) (simp_all add: end_request_span_def)

lemma answers_latency: "answers fd qs s s1 \<Longrightarrow> answers fd qs s (record_latency env s1)"
  by (erule answers_same) (simp_all add: record_latency_def)

lemma answers_log: "answers fd qs s s1 \<Longrightarrow> answers fd qs s (log_request env ctx m p s1)"
proof -
  assume a: "answers fd qs s s1"
  have "step_to fd [] [] s1 (out_events evs s1)" if "http_of evs = []" "asked evs = []" for evs
    using step_to_out [OF answers_ready [OF a], of evs "[]" "out_events evs s1"] that by (simp add: out_events_def)
  then show ?thesis
    unfolding log_request_def by (intro answers_then [OF a]) (auto split: option.split)
qed

lemma finishes_served:
  assumes "answers fd qs s s1"
  shows "finishes (served env ctx m p s1) (route_ok fd qs s)"
proof -
  have "answers fd qs s s2" if "sv_out s2 = sv_out (record_latency env s1) \<and> sv_sse s2 = sv_sse (record_latency env s1)" for s2
    using that answers_same [OF answers_latency [OF assms]] by blast
  then show ?thesis
    unfolding served_def
    by (intro finishes_bind finishes_weaken [OF finishes_on_metrics]) (auto simp: route_ok_def intro: answers_log)
qed

lemma served_once: "answers fd qs s s1 \<Longrightarrow> finishes (Finished (Served c False (record_latency env s1))) (route_ok fd qs s)"
  by (simp add: route_ok_def answers_latency)

lemma finishes_limited:
  assumes "ready fd s" "\<And>s1. answers fd [] s s1 \<Longrightarrow> finishes (refuse s1) P"
    "\<And>s1. rate_limit_check env e (Some (cx_tenant_id ctx)) None s = Finished (0, s1) \<Longrightarrow> sv_out s1 = sv_out s \<Longrightarrow>
       sv_sse s1 = sv_sse s \<Longrightarrow> ready fd s1 \<Longrightarrow> finishes (rest s1) P"
  shows "finishes (limited env fd e ctx refuse rest s) P"
  unfolding finishes_def limited_def bind_Finished
proof (intro allI impI, elim exE conjE)
  fix r x
  assume c: "rate_limit_check env e (Some (cx_tenant_id ctx)) None s = Finished x"
    and r: "(case x of (result, s1) \<Rightarrow> if result \<noteq> 0 then bind_outcome (send_rate_limit_error env fd e ctx s1) refuse else rest s1) = Finished r"
  obtain res s1 where x: "x = (res, s1)" by fastforce
  have same: "sv_out s1 = sv_out s" "sv_sse s1 = sv_sse s"
    using finishes_rate_limit [of env e "Some (cx_tenant_id ctx)" None s] c x by (auto simp: finishes_def)
  then have rd: "ready fd s1" using assms(1) by (simp add: ready_def)
  show "P r"
  proof (cases "res = 0")
    case True
    then show ?thesis using assms(3) [of s1] c x r same rd by (auto simp: finishes_def)
  next
    case False
    then obtain s2 where "send_rate_limit_error env fd e ctx s1 = Finished s2" "refuse s2 = Finished r"
      using r x by (auto simp: bind_Finished)
    moreover from this have "answers fd [] s s2"
      using finishes_rate_limit_error [OF rd, of env e ctx] answers_from [of fd "[]" s1 s2 s] same by (auto simp: finishes_def)
    ultimately show ?thesis using assms(2) by (auto simp: finishes_def)
  qed
qed

lemma finishes_registry: "ready fd s \<Longrightarrow> finishes (route_registry env fd m p body ctx sp s) (route_ok fd [] s)"
proof -
  assume r: "ready fd s"
  have ok: "finishes (Finished (Served 200 False (log_request env ctx m p (record_latency env
      (if m = ''DELETE'' then handle_registry_delete env fd ty v s1 else snd (handle_registry_write_common env fd ty v body s1)))))) (route_ok fd [] s)"
    if "sv_out s1 = sv_out s" "sv_sse s1 = sv_sse s" "ready fd s1" for s1 ty v
    using answers_from [OF answers_registry_delete [OF that(3)]] answers_from [OF answers_registry_write [OF that(3)]] that(1,2)
    by (auto simp: route_ok_def intro!: answers_log answers_latency)
  show ?thesis
    unfolding route_registry_def Let_def
    by (intro finishes_case_option finishes_if finishes_give_up finishes_fail finishes_limited answers_latency answers_err_in r
        ok [unfolded Let_def]) (auto simp: r)
qed

lemma finishes_messages: "ready fd s \<Longrightarrow> finishes (route_messages env fd m p body ctx sp s) (route_ok fd [] s)"
proof -
  assume r: "ready fd s"
  have b: "finishes (broadcast env t e j (send_json fd l d s1)) (answers fd [] s)"
    if "starts_with l ''HTTP/1.1 ''" "sv_out s1 = sv_out s" "sv_sse s1 = sv_sse s" for t e j l d and s1
    by (rule finishes_weaken [OF step_to_broadcast [OF answers_ready [OF answers_json_in [OF r that]]]])
      (rule answers_then [OF answers_json_in [OF r that]])
  have "finishes (message_update env fd mid body ctx sp s1) (route_ok fd [] s)"
    "finishes (message_delete env fd mid ctx s1) (route_ok fd [] s)"
    if "sv_out s1 = sv_out s" "sv_sse s1 = sv_sse s" for s1 mid
    unfolding message_update_def message_delete_def Let_def
    by (intro finishes_if finishes_fail finishes_give_up finishes_bind finishes_weaken [OF b] served_once answers_err_in r that;
        simp add: answers_json_in r that route_ok_def answers_latency)+
  then show ?thesis
    unfolding route_messages_def Let_def
    by (intro finishes_if finishes_give_up finishes_limited answers_err_in r) auto
qed

lemma pool_join:
  assumes "pool_ok p" "fd \<notin> pool_fds p" "0 \<le> fd" "i < 64" "sse_fd (p ! i) = -1" "sse_fd c = fd"
  shows "pool_ok (p[i := c])" "pool_fds (p[i := c]) = insert fd (pool_fds p)"
proof -
  have p: "length p = 64" "\<And>i j. i < 64 \<Longrightarrow> j < 64 \<Longrightarrow> i \<noteq> j \<Longrightarrow> sse_fd (p ! i) = sse_fd (p ! j) \<Longrightarrow> sse_fd (p ! i) = -1"
    using assms(1) by (auto simp: pool_ok_def)
  have u: "sse_fd (p[i := c] ! j) = (if j = i then fd else sse_fd (p ! j))" if "j < 64" for j
    using p(1) that assms(6) by (cases "j = i") auto
  have new: "sse_fd (p ! j) \<noteq> fd" if "j < 64" for j using assms(2,3) p(1) that by (auto simp: pool_fds_def)
  show "pool_ok (p[i := c])"
    unfolding pool_ok_def
  proof (intro conjI allI impI)
    fix j k assume "j < 64" "k < 64" "j \<noteq> k" "sse_fd (p[i := c] ! j) = sse_fd (p[i := c] ! k)"
    then show "sse_fd (p[i := c] ! j) = -1" using p(2) [of j k] u [of j] u [of k] new [of j] new [of k] by (auto split: if_splits)
  qed (simp add: p(1))
  show "pool_fds (p[i := c]) = insert fd (pool_fds p)"
  proof (rule set_eqI)
    fix x
    have "(\<exists>j<64. sse_fd (p[i := c] ! j) = x) \<longleftrightarrow> (\<exists>j<64. sse_fd (p ! j) = x) \<or> x = fd" if "x \<noteq> -1"
      using u assms(4,5) that by metis
    then show "x \<in> pool_fds (p[i := c]) \<longleftrightarrow> x \<in> insert fd (pool_fds p)" using p(1) assms(3) by (auto simp: pool_fds_def)
  qed
qed

lemma finishes_stream:
  assumes r: "ready fd s" and fd: "0 \<le> fd"
  shows "finishes (route_stream env fd p ctx s) (route_ok fd [] s)"
proof -
  have pool: "pool_ok (sv_sse s)" "fd \<notin> pool_fds (sv_sse s)" using r by (simp_all add: ready_def)
  have err: "finishes (give_up fd (send_err fd ''HTTP/1.1 400 Bad Request'' ''invalid_request'' ''missing tenant_id'' ctx s)) (route_ok fd [] s)"
    by (intro finishes_give_up answers_err_in r) simp_all
  have reg: "route_ok fd [] s (Served 200 ok (record_latency env (out_events (map Http evs) (s\<lparr>sv_sse := q\<rparr>))))"
    if reg: "sse_register_client (se_now env) fd t (sv_sse s) = (ok, evs, q)" for t ok evs q
  proof (cases "first_index (\<lambda>c. sse_fd c = -1) (sv_sse s)")
    case None
    define ws where "ws = stream_greeting @ ['':pool_full'' @ lf @ lf]"
    have f: "ok = False" "evs = map (Wrote fd) ws" "q = sv_sse s"
      using reg None by (auto simp: sse_register_client_def stream_greeting_def ws_def)
    have "step_to fd ws (asked (map Http evs)) s (out_events (map Http evs) (s\<lparr>sv_sse := q\<rparr>))"
      by (rule step_to_out [OF r]) (use f(2,3) http_of_map [of evs] in \<open>simp_all add: out_events_def\<close>)
    then have "answers fd [] s (out_events (map Http evs) (s\<lparr>sv_sse := q\<rparr>))"
      unfolding answers_def answered_def ws_def asked_map by blast
    then show ?thesis using f(1) by (simp add: route_ok_def answers_latency)
  next
    case (Some i)
    then have ok: "ok" "evs = map (Wrote fd) stream_greeting"
        "q = (sv_sse s)[i := \<lparr>sse_fd = fd, sse_tenant = c_copy 64 t, last_write = se_now env\<rparr>]"
      using reg by (auto simp: sse_register_client_def stream_greeting_def)
    have i: "i < 64" "sse_fd (sv_sse s ! i) = -1" using first_index_Some [OF Some] pool(1) by (auto simp: pool_ok_def)
    note j = pool_join [OF pool fd i, of "\<lparr>sse_fd = fd, sse_tenant = c_copy 64 t, last_write = se_now env\<rparr>"]
    have w: "written fd evs = stream_greeting" "track (insert fd X) evs = Some (insert fd X)" for X by (simp_all add: ok(2) track_writes)
    have "joins fd s (record_latency env (out_events (map Http evs) (s\<lparr>sv_sse := q\<rparr>)))"
      unfolding joins_def
      by (intro exI [of _ "map Http evs"]) (use j w in \<open>simp add: record_latency_def out_events_def ok(3)\<close>)
    then show ?thesis using ok(1) by (simp add: route_ok_def)
  qed
  show ?thesis
    unfolding route_stream_def using err reg by (auto split: option.split list.split prod.split)
qed

lemma finishes_unknown:
  assumes "ready fd s"
  shows "finishes (route_unknown env fd m p ctx s) (route_ok fd [] s)"
proof -
  have "answers fd [] s (record_latency env (send_err fd ''HTTP/1.1 404 Not Found'' ''invalid_request'' ''route not found'' ctx s))"
    by (intro answers_latency answers_err_in assms) simp_all
  then show ?thesis
    unfolding route_unknown_def
    by (intro finishes_bind finishes_weaken [OF finishes_on_metrics]) (auto simp: route_ok_def intro: answers_same)
qed

text \<open>What holds of every call with which \<open>handle_decide\<close> turns to the router.\<close>

definition decide_guard :: "'w decide_env \<Rightarrow> string \<Rightarrow> request_context_t \<Rightarrow> gateway \<Rightarrow> router_call \<Rightarrow> bool" where
  "decide_guard env body ctx g call \<longleftrightarrow> \<not> router_busy env g \<and> \<not> client_limited env ctx g \<and>
     (\<exists>root q. call = Ask_Decide q \<and> je_loads env body = Some root \<and> decide_dto_ok root \<and>
        je_dumps env (route_request (je_utf8 env) ctx root) = Some q)"

lemma decide_line_http: "starts_with (router_line env q w) ''HTTP/1.1 ''" "l \<in> refusal_lines \<Longrightarrow> starts_with l ''HTTP/1.1 ''"
  by (auto simp: router_line_def decide_status_line_def refusal_lines_def split: option.split)

lemma decide_run:
  assumes "handle_decide env fd (Some body) ctx g w = Finished (evs, ctx1, g1, w1)"
  shows "\<exists>l. one_response fd l evs \<and> starts_with l ''HTTP/1.1 ''" "\<forall>q\<in>set (asked evs). decide_guard env body ctx g q"
proof -
  have "(\<exists>l. one_response fd l evs \<and> starts_with l ''HTTP/1.1 '') \<and> (\<forall>q\<in>set (asked evs). decide_guard env body ctx g q)"
    using assms
  proof (cases rule: handle_decide_cases)
    case (refused l)
    then show ?thesis using decide_line_http by auto
  next
    case (passed b pre evs2 g2)
    show ?thesis
      by (rule decide_route_cases [OF passed(8)])
        (use passed in \<open>auto simp: decide_guard_def intro: exI [of _ "''HTTP/1.1 400 Bad Request''"] decide_line_http(1)\<close>)
  qed
  then show "\<exists>l. one_response fd l evs \<and> starts_with l ''HTTP/1.1 ''" "\<forall>q\<in>set (asked evs). decide_guard env body ctx g q" by auto
qed

lemma finishes_serve_decide:
  assumes "ready fd s"
  shows "finishes (serve_decide env fd m p body ctx sp s)
     (\<lambda>r. \<exists>qs. route_ok fd qs s r \<and> (\<forall>q\<in>set qs. decide_guard (se_decide env) body ctx (sv_gw s) q))"
  unfolding serve_decide_def
proof (rule finishes_bind, unfold finishes_def, intro allI impI, clarify)
  fix evs ctx1 g w r
  assume d: "handle_decide (se_decide env) fd (Some body) ctx (sv_gw s) (sv_nats s) = Finished (evs, ctx1, g, w)"
  let ?s = "\<lambda>t. out_events evs (s\<lparr>sv_gw := g, sv_nats := w, sv_tracing := t\<rparr>)"
  obtain l where l: "one_response fd l evs" "starts_with l ''HTTP/1.1 ''" using decide_run(1) [OF d] by blast
  have a: "answers fd (asked evs) s (?s t)" for t using answers_out [OF assms l] by (simp add: out_events_def)
  assume "(if sp \<noteq> None \<and> decide_ends_span (se_decide env) body ctx (sv_gw s) then Undefined
      else let answered = \<lambda>q. fst (nats_request_decide (de_nats (se_decide env)) q MAX_RESPONSE_SIZE (sv_nats s)) \<noteq> None;
               t = foldl (\<lambda>t c. case c of Ask_Decide q \<Rightarrow> publish_span env sp (answered q) t | _ \<Rightarrow> t) (sv_tracing s) (asked evs)
           in served env ctx1 m p (?s t)) = Finished r"
  then have "route_ok fd (asked evs) s r"
    using finishes_served [OF a] by (auto simp: finishes_def Let_def split: if_splits)
  then show "\<exists>qs. route_ok fd qs s r \<and> (\<forall>q\<in>set qs. decide_guard (se_decide env) body ctx (sv_gw s) q)"
    using decide_run(2) [OF d] by blast
qed

lemma rate_limit_codes: "finishes (rate_limit_check env e t k s) (\<lambda>(r, _). r \<in> {0, 1, 2})"
  by (auto simp: rate_limit_check_def Let_def finishes_def bind_Finished split: option.splits prod.splits rl_result_t.splits if_splits)

lemma finishes_limit_decide:
  assumes "ready fd s"
  shows "finishes (rate_limit_check_routes_decide env fd ctx s)
     (\<lambda>(res, s1). if res = 0 then rate_limit_check env 0 (nonempty (cx_tenant_id ctx)) None s = Finished (0, s1) \<and>
                      sv_out s1 = sv_out s \<and> sv_sse s1 = sv_sse s
                  else answers fd [] s s1)"
  unfolding rate_limit_check_routes_decide_def
proof (rule finishes_bind, unfold finishes_def, intro allI impI, clarify)
  fix res s1 res2 s2
  assume c: "rate_limit_check env 0 (nonempty (cx_tenant_id ctx)) None s = Finished (res, s1)"
    and f: "(if res = 1 then bind_outcome (send_rate_limit_error env fd 0 ctx s1) (\<lambda>s2. Finished (res, s2))
      else if res = 2 then Finished (res, on_gw (send_error_response fd ''HTTP/1.1 503 Service Unavailable'' ''rate_limiter_error''
             ''Rate limiter service unavailable'' ctx) s1)
      else Finished (res, s1)) = Finished (res2, s2)"
  have same: "sv_out s1 = sv_out s" "sv_sse s1 = sv_sse s" and code: "res \<in> {0, 1, 2}"
    using finishes_rate_limit [of env 0 "nonempty (cx_tenant_id ctx)" None s]
      rate_limit_codes [of env 0 "nonempty (cx_tenant_id ctx)" None s] c by (auto simp: finishes_def)
  then have rd: "ready fd s1" using assms by (simp add: ready_def)
  have one: "answers fd [] s s2" if "res = 1"
    using finishes_rate_limit_error [OF rd, of env 0 ctx] f that answers_from [of fd "[]" s1 s2 s] same
    by (auto simp: finishes_def bind_Finished)
  have two: "answers fd [] s s2" if "res = 2"
    using f that answers_err_in [OF assms _ same, of "''HTTP/1.1 503 Service Unavailable''" "''rate_limiter_error''"
        "''Rate limiter service unavailable''" ctx] by (auto simp: send_err_def)
  show "if res2 = 0 then rate_limit_check env 0 (nonempty (cx_tenant_id ctx)) None s = Finished (0, s2) \<and>
      sv_out s2 = sv_out s \<and> sv_sse s2 = sv_sse s else answers fd [] s s2"
    using f c same code one two by (auto simp: bind_Finished split: if_splits)
qed

text \<open>What holds of every call that reaches the router through \<open>route_decide\<close>.\<close>

definition front_guard ::
    "('w, 'r) server_env \<Rightarrow> string \<Rightarrow> request_headers \<Rightarrow> string \<Rightarrow> ('w, 'r) server \<Rightarrow> router_call \<Rightarrow> bool" where
  "front_guard env path h body s q \<longleftrightarrow>
     rh_has_tenant h \<and> (sv_auth_required s \<longrightarrow> rh_has_auth h) \<and>
     (\<exists>s1. (if path = ''/api/v1/routes/decide'' then rate_limit_check env 0 (nonempty (cx_tenant_id (rh_ctx h))) None s
            else rate_limit_check env 1 (Some (cx_tenant_id (rh_ctx h))) None s) = Finished (0, s1) \<and>
           decide_guard (se_decide env) body (rh_ctx h) (sv_gw s1) q)"

abbreviation (input) route_guarded where
  "route_guarded fd G s r \<equiv> \<exists>qs. route_ok fd qs s r \<and> (\<forall>q\<in>set qs. G q)"

lemma finishes_quiet: "finishes m (route_ok fd [] s) \<Longrightarrow> finishes m (\<lambda>r. route_guarded fd G s r)"
  by (erule finishes_weaken) (rule exI [of _ "[]"], simp)

lemma finishes_serve_guarded:
  assumes "ready fd s1" "sv_out s1 = sv_out s" "sv_sse s1 = sv_sse s"
    "\<And>q. decide_guard (se_decide env) body ctx (sv_gw s1) q \<Longrightarrow> G q"
  shows "finishes (serve_decide env fd m p body ctx sp s1) (\<lambda>r. route_guarded fd G s r)"
  using finishes_serve_decide [OF assms(1), of env m p body ctx sp]
proof (rule finishes_weaken)
  fix r assume "route_guarded fd (decide_guard (se_decide env) body ctx (sv_gw s1)) s1 r"
  then obtain qs where "route_ok fd qs s1 r" "\<forall>q\<in>set qs. decide_guard (se_decide env) body ctx (sv_gw s1) q" by blast
  then show "route_guarded fd G s r" using route_ok_from [of fd qs s1 r s] assms by auto
qed

lemma finishes_route_decide:
  assumes r: "ready fd s"
  shows "finishes (route_decide env fd m p body h sp s) (\<lambda>x. route_guarded fd (front_guard env p h body s) s x)"
  unfolding route_decide_def Let_def
proof (intro finishes_if)
  show "finishes (give_up fd (on_gw (send_error_response_with_conflict fd ''HTTP/1.1 401 Unauthorized'' ''unauthorized''
      ''missing Authorization header'' (rh_ctx h) CONFLICT_TYPE_AUTH_GATEWAY None) s)) (\<lambda>x. route_guarded fd (front_guard env p h body s) s x)"
    "finishes (give_up fd (on_gw (send_error_response_with_conflict fd ''HTTP/1.1 400 Bad Request'' ''invalid_request''
      ''missing X-Tenant-ID header'' (rh_ctx h) CONFLICT_TYPE_REQUEST_GATEWAY None) s)) (\<lambda>x. route_guarded fd (front_guard env p h body s) s x)"
    by (intro finishes_quiet finishes_give_up answers_conflict r; simp)+
next
  assume g: "\<not> (sv_auth_required s \<and> \<not> rh_has_auth h)" "\<not> \<not> rh_has_tenant h" and p: "p = ''/api/v1/routes/decide''"
  have ok: "finishes (serve_decide env fd m p body (rh_ctx h) sp (s1\<lparr>sv_decide_post := sv_decide_post s1 + 1\<rparr>))
      (\<lambda>x. route_guarded fd (front_guard env p h body s) s x)"
    if "rate_limit_check env 0 (nonempty (cx_tenant_id (rh_ctx h))) None s = Finished (0, s1)" "sv_out s1 = sv_out s" "sv_sse s1 = sv_sse s" for s1
    using that g p r by (intro finishes_serve_guarded) (auto simp: front_guard_def ready_def)
  have no: "finishes (fail_request env fd sp 429 s1) (\<lambda>x. route_guarded fd (front_guard env p h body s) s x)"
    if "answers fd [] s s1" for s1 using that by (intro finishes_quiet finishes_fail)
  show "finishes (bind_outcome (rate_limit_check_routes_decide env fd (rh_ctx h) s) (\<lambda>(result, s1).
      if result \<noteq> 0 then fail_request env fd sp 429 s1
      else serve_decide env fd m p body (rh_ctx h) sp (s1\<lparr>sv_decide_post := sv_decide_post s1 + 1\<rparr>)))
      (\<lambda>x. route_guarded fd (front_guard env p h body s) s x)"
    by (rule finishes_bind, rule finishes_weaken [OF finishes_limit_decide [OF r]])
      (simp split: prod.splits if_splits add: ok no)
next
  assume g: "\<not> (sv_auth_required s \<and> \<not> rh_has_auth h)" "\<not> \<not> rh_has_tenant h" and p: "p \<noteq> ''/api/v1/routes/decide''"
  show "finishes (limited env fd 1 (rh_ctx h) (fail_request env fd sp 429) (serve_decide env fd m p body (rh_ctx h) sp) s)
      (\<lambda>x. route_guarded fd (front_guard env p h body s) s x)"
  proof (rule finishes_limited [OF r])
    show "answers fd [] s s1 \<Longrightarrow> finishes (fail_request env fd sp 429 s1) (\<lambda>x. route_guarded fd (front_guard env p h body s) s x)" for s1
      by (intro finishes_quiet finishes_fail)
    show "finishes (serve_decide env fd m p body (rh_ctx h) sp s1) (\<lambda>x. route_guarded fd (front_guard env p h body s) s x)"
      if "rate_limit_check env 1 (Some (cx_tenant_id (rh_ctx h))) None s = Finished (0, s1)" "sv_out s1 = sv_out s" "sv_sse s1 = sv_sse s"
        "ready fd s1" for s1
      using that g p by (intro finishes_serve_guarded) (auto simp: front_guard_def)
  qed
qed

text \<open>The calls that the routes make, with what each route has checked before.\<close>

definition permitted ::
    "('w, 'r) server_env \<Rightarrow> string \<Rightarrow> string \<Rightarrow> string \<Rightarrow> request_headers \<Rightarrow> ('w, 'r) server \<Rightarrow> router_call \<Rightarrow> bool" where
  "permitted env method path body h s call \<longleftrightarrow>
     (case call of
        Ask_Decide _ \<Rightarrow>
          method = ''POST'' \<and> path \<in> {''/api/v1/messages'', ''/api/v1/routes/decide''} \<and> front_guard env path h body s call
      | Ask_Decision tenant message_id \<Rightarrow>
          method = ''GET'' \<and> path = ''/api/v1/routes/decide/'' @ message_id \<and> message_id \<noteq> [] \<and>
          tenant = cx_tenant_id (rh_ctx h) \<and> tenant \<noteq> [] \<and>
          (\<exists>s1. rate_limit_check env 0 (Some tenant) None s = Finished (0, s1))
      | Ask_Extension_Health \<Rightarrow> method = ''GET'' \<and> path = ''/api/v1/extensions/health''
      | Ask_Circuit_Breakers \<Rightarrow> method = ''GET'' \<and> path = ''/api/v1/extensions/circuit-breakers''
      | Ask_Dry_Run request \<Rightarrow> method = ''POST'' \<and> path = ''/api/v1/policies/dry-run'' \<and> request = body \<and> body \<noteq> []
      | Ask_Complexity tenant policy \<Rightarrow>
          method = ''GET'' \<and> tenant \<noteq> [] \<and> policy \<noteq> [] \<and>
          (\<exists>ids suffix. path = ''/api/v1/policies/'' @ ids @ ''/complexity'' @ suffix \<and> policy_ids ids = (tenant, policy)))"

abbreviation (input) dispatched where
  "dispatched env fd method path body h s r \<equiv> route_guarded fd (permitted env method path body h s) s r"

lemma finishes_get_decision:
  assumes r: "ready fd s" and p: "starts_with p ''/api/v1/routes/decide/''"
  shows "finishes (route_get_decision env fd p (rh_ctx h) sp s) (\<lambda>x. dispatched env fd ''GET'' p body h s x)"
proof -
  obtain mid where mid: "p = ''/api/v1/routes/decide/'' @ mid" using p by (auto simp: starts_with_iff)
  have "finishes (bind_outcome (handle_get_decision env fd mid (rh_ctx h) (s1\<lparr>sv_decide_get := n\<rparr>))
      (\<lambda>s2. Finished (Served 200 False (record_latency env s2)))) (\<lambda>x. dispatched env fd ''GET'' p body h s x)"
    if "rate_limit_check env 0 (Some (cx_tenant_id (rh_ctx h))) None s = Finished (0, s1)"
      "sv_out s1 = sv_out s" "sv_sse s1 = sv_sse s" "mid \<noteq> []" for s1 n
  proof -
    have "ready fd (s1\<lparr>sv_decide_get := n\<rparr>)" using r that(2,3) by (simp add: ready_def)
    from finishes_handle_get_decision [OF this, of env mid "rh_ctx h"] show ?thesis
    proof (intro finishes_bind, elim finishes_weaken)
      fix s2 :: "('a, 'b) server"
      let ?qs = "if mid = [] \<or> cx_tenant_id (rh_ctx h) = [] then [] else [Ask_Decision (cx_tenant_id (rh_ctx h)) mid]"
      assume "answers fd ?qs (s1\<lparr>sv_decide_get := n\<rparr>) s2"
      then have "answers fd ?qs s s2" by (rule answers_from) (simp_all add: that)
      then have "route_ok fd ?qs s (Served 200 False (record_latency env s2))" by (simp add: route_ok_def answers_latency)
      moreover have "\<forall>q\<in>set ?qs. permitted env ''GET'' p body h s q" using mid that by (auto simp: permitted_def)
      ultimately show "finishes (Finished (Served 200 False (record_latency env s2))) (\<lambda>x. dispatched env fd ''GET'' p body h s x)"
        unfolding finishes_def by blast
    qed
  qed
  then show ?thesis
    unfolding route_get_decision_def Let_def mid
    by (intro finishes_if finishes_quiet [OF finishes_fail] finishes_limited answers_err_in r) auto
qed

lemma finishes_served_guarded: "answers fd qs s s1 \<Longrightarrow> \<forall>q\<in>set qs. G q \<Longrightarrow> finishes (served env ctx m p s1) (\<lambda>r. route_guarded fd G s r)"
  by (rule finishes_weaken [OF finishes_served]) blast+

lemma finishes_policies:
  assumes r: "ready fd s" and p: "starts_with p ''/api/v1/policies/''"
  shows "finishes (route_policies env fd ''GET'' p (rh_ctx h) s) (\<lambda>x. dispatched env fd ''GET'' p body h s x)"
proof -
  obtain rest where rest: "p = ''/api/v1/policies/'' @ rest" using p by (auto simp: starts_with_iff)
  have "finishes (served env (rh_ctx h) ''GET'' p (handle_pipeline_complexity env fd t q (rh_ctx h) s)) (\<lambda>x. dispatched env fd ''GET'' p body h s x)"
    if "strstr rest ''/complexity'' = Some suffix" "policy_ids (take (length rest - length suffix) rest) = (t, q)" "t \<noteq> []" "q \<noteq> []" for suffix t q
  proof -
    have "rest = take (length rest - length suffix) rest @ suffix" "starts_with suffix ''/complexity''"
      using strstr_Some [OF that(1)] by auto
    then obtain sf where "rest = take (length rest - length suffix) rest @ ''/complexity'' @ sf" by (auto simp: starts_with_iff)
    then have "permitted env ''GET'' p body h s (Ask_Complexity t q)" using that rest by (auto simp: permitted_def)
    then show ?thesis by (intro finishes_served_guarded [OF answers_complexity [OF r]]) (simp add: that)
  qed
  then show ?thesis
    unfolding route_policies_def Let_def rest
    by (auto split: option.split prod.split intro!: finishes_quiet [OF finishes_give_up] answers_err_in r simp: rest)
qed

lemma finishes_dispatch:
  assumes r: "ready fd s" and fd: "0 \<le> fd"
  shows "finishes (dispatch env fd m p body h sp s) (\<lambda>x. dispatched env fd m p body h s x)"
  unfolding dispatch_def Let_def
proof (intro finishes_if)
  assume "m = ''POST'' \<and> (p = ''/api/v1/messages'' \<or> p = ''/api/v1/routes/decide'')"
  then have "permitted env m p body h s q" if "front_guard env p h body s q" for q
    using that by (auto simp: permitted_def front_guard_def decide_guard_def)
  then show "finishes (route_decide env fd m p body h sp s) (\<lambda>x. dispatched env fd m p body h s x)"
    using finishes_route_decide [OF r, of env m p body h sp] by (auto elim!: finishes_weaken)
next
  assume "m = ''GET'' \<and> p = ''/api/v1/extensions/health''"
  then show "finishes (served env (rh_ctx h) m p (handle_extensions_health env fd (rh_ctx h) s)) (\<lambda>x. dispatched env fd m p body h s x)"
    by (intro finishes_served_guarded [OF answers_extensions_health [OF r]]) (simp add: permitted_def)
next
  assume "m = ''GET'' \<and> p = ''/api/v1/extensions/circuit-breakers''"
  then show "finishes (served env (rh_ctx h) m p (handle_circuit_breakers env fd (rh_ctx h) s)) (\<lambda>x. dispatched env fd m p body h s x)"
    by (intro finishes_served_guarded [OF answers_circuit_breakers [OF r]]) (simp add: permitted_def)
next
  assume "m = ''POST'' \<and> p = ''/api/v1/policies/dry-run''"
  then show "finishes (served env (rh_ctx h) m p (handle_dry_run_pipeline env fd body (rh_ctx h) s)) (\<lambda>x. dispatched env fd m p body h s x)"
    by (intro finishes_served_guarded [OF answers_dry_run [OF r]]) (simp add: permitted_def)
next
  assume "m = ''GET'' \<and> starts_with p ''/api/v1/routes/decide/''"
  then show "finishes (route_get_decision env fd p (rh_ctx h) sp s) (\<lambda>x. dispatched env fd m p body h s x)"
    using finishes_get_decision [OF r, of p env h sp body] by simp
next
  assume "m = ''GET'' \<and> starts_with p ''/api/v1/policies/''"
  then show "finishes (route_policies env fd m p (rh_ctx h) s) (\<lambda>x. dispatched env fd m p body h s x)"
    using finishes_policies [OF r, of p env h body] by simp
qed ((rule finishes_quiet, (rule finishes_bind, rule finishes_weaken [OF finishes_metrics_page [OF r]])?,
     (intro finishes_served answers_health answers_metrics_json r
        finishes_registry finishes_messages finishes_stream finishes_unknown fd | assumption)+)+)

section \<open>A connection\<close>

text \<open>
  What \<open>handle_client\<close> has done with a connection: every event concerns a descriptor that is open at that
  moment; the connection has been answered and closed, or greeted and handed over to the pool.
\<close>

definition settled :: "int \<Rightarrow> bool \<Rightarrow> router_call list \<Rightarrow> ('w, 'r) server \<Rightarrow> ('w, 'r) server \<Rightarrow> bool" where
  "settled fd heard qs s s' \<longleftrightarrow>
     (\<exists>evs. sv_out s' = sv_out s @ evs \<and> asked evs = qs \<and> pool_ok (sv_sse s') \<and>
        track (insert fd (pool_fds (sv_sse s))) (http_of evs) = Some (pool_fds (sv_sse s')) \<and>
        (if fd \<in> pool_fds (sv_sse s') then written fd (http_of evs) = stream_greeting
         else if heard then answered (written fd (http_of evs)) else written fd (http_of evs) = []))"

lemma settled_close:
  assumes "answers fd qs s s1" "sv_out s2 = sv_out s1" "sv_sse s2 = sv_sse s1"
  shows "settled fd True qs s (close_client fd s2)"
proof -
  obtain ws evs where e: "answered ws" "sv_out s1 = sv_out s @ evs" "asked evs = qs" "written fd (http_of evs) = ws" "ready fd s1"
      "track (insert fd (pool_fds (sv_sse s))) (http_of evs) = Some (insert fd (pool_fds (sv_sse s1)))"
    using assms(1) by (auto simp: answers_def step_to_def)
  have "track (insert fd (pool_fds (sv_sse s))) (http_of evs @ [Closed_Fd fd]) = Some (pool_fds (sv_sse s1))"
    using e(5,6) by (simp add: track_append ready_def)
  then show ?thesis
    unfolding settled_def using e assms(2,3)
    by (intro exI [of _ "evs @ [Http (Closed_Fd fd)]"]) (simp add: close_client_def out_events_def ready_def)
qed

lemma settled_from: "settled fd b qs s t \<Longrightarrow> sv_out s' = sv_out s \<Longrightarrow> sv_sse s' = sv_sse s \<Longrightarrow> settled fd b qs s' t"
  by (simp add: settled_def)

lemma settled_route:
  assumes "route_ok fd qs s r"
  shows "settled fd True qs s (finish_client env fd sp r)"
proof (cases r)
  case (Returned s')
  then show ?thesis using assms settled_close [OF _ refl refl] by (auto simp: route_ok_def finish_client_def)
next
  case (Served code keep s')
  have e: "sv_out (end_request_span env sp code s') = sv_out s'" "sv_sse (end_request_span env sp code s') = sv_sse s'"
    by (simp_all add: end_request_span_def)
  show ?thesis
  proof (cases keep)
    case True
    then show ?thesis using assms Served e by (auto simp: route_ok_def finish_client_def joins_def settled_def)
  next
    case False
    then show ?thesis using assms Served settled_close [OF _ e] by (simp add: route_ok_def finish_client_def)
  qed
qed

text \<open>What holds of a call that the gateway makes for a connection.\<close>

definition forwarded :: "('w, 'r) server_env \<Rightarrow> string \<Rightarrow> ('w, 'r) server \<Rightarrow> router_call \<Rightarrow> bool" where
  "forwarded env req s call \<longleftrightarrow>
     (\<exists>method path lines. request_line (fst (split_request req)) = Some (method, path, lines) \<and>
        permitted env method path (snd (split_request req)) (read_headers lines) (s\<lparr>sv_requests_total := sv_requests_total s + 1\<rparr>) call)"

lemma finishes_True [simp]: "finishes m (\<lambda>_. True)"
  by (simp add: finishes_def)

lemma finishes_handle_client:
  assumes "ready fd s" "0 \<le> fd"
  shows "finishes (handle_client env fd req s) (\<lambda>s'. \<exists>qs. settled fd (req \<noteq> []) qs s s' \<and> (\<forall>q\<in>set qs. forwarded env req s q))"
proof (cases "req = []")
  case True
  then show ?thesis using assms(1)
    by (auto simp: handle_client_def settled_def close_client_def out_events_def ready_def intro!: exI [of _ "[]"] exI [of _ "[Http (Closed_Fd fd)]"])
next
  case False
  let ?s = "s\<lparr>sv_requests_total := sv_requests_total s + 1\<rparr>"
  have r: "ready fd ?s" using assms(1) by (simp add: ready_def)
  obtain head body where sr: "split_request req = (head, body)" by fastforce
  have bad: "settled fd True [] s (close_client fd s1)"
    if "sv_out s1 = sv_out s2 \<and> sv_sse s1 = sv_sse s2"
      "s2 = on_gw (send_error_response_with_conflict fd ''HTTP/1.1 400 Bad Request'' ''invalid_request'' ''malformed request line''
         no_ctx CONFLICT_TYPE_REQUEST_GATEWAY None) ?s" for s1 s2
    using that answers_from [OF answers_conflict [OF r]] by (intro settled_close) auto
  have route: "finishes (bind_outcome (dispatch env fd m p body (read_headers ls) sp ?s) (\<lambda>r. Finished (finish_client env fd sp r)))
      (\<lambda>s'. \<exists>qs. settled fd True qs s s' \<and> (\<forall>q\<in>set qs. forwarded env req s q))"
    if "request_line head = Some (m, p, ls)" for m p ls sp
  proof (rule finishes_bind, rule finishes_weaken [OF finishes_dispatch [OF r assms(2)]])
    fix r
    assume "dispatched env fd m p body (read_headers ls) ?s r"
    then obtain qs where q: "route_ok fd qs ?s r" "\<forall>q\<in>set qs. permitted env m p body (read_headers ls) ?s q" by blast
    have "\<forall>q\<in>set qs. forwarded env req s q"
      unfolding forwarded_def sr fst_conv snd_conv using q(2) that by blast
    moreover from q(1) have "route_ok fd qs s r" by (rule route_ok_from) simp_all
    ultimately show "finishes (Finished (finish_client env fd sp r))
        (\<lambda>s'. \<exists>qs. settled fd True qs s s' \<and> (\<forall>q\<in>set qs. forwarded env req s q))"
      using settled_route [of fd qs s r env sp] by auto
  qed
  show ?thesis
    unfolding handle_client_def Let_def sr prod.case using False bad route
    by (auto intro!: finishes_bind_any finishes_bind finishes_weaken [OF finishes_on_metrics] exI [of _ "[]"] split: option.split)
qed

end
