(* ===== verification/HTTP_Run.thy ===== *)
theory HTTP_Run
  imports HTTP_Service
begin

text \<open>
  That the HTTP server comes to an end with every connection: in the states that a started server reaches
  no route runs into undefined behaviour, under named conditions on the settings, on the memory for the
  Redis limiter and on the router's error answers. From this follow the total correctness of
  \<open>handle_client\<close> and of \<open>http_server_run\<close>, and that every accepted descriptor is closed exactly once.
\<close>

section \<open>Specification\<close>

definition registry_live :: "metrics \<Rightarrow> bool" where
  "registry_live m \<longleftrightarrow> (\<exists>cv gv hv. holds_values UNIV UNIV UNIV cv gv hv m)"

text \<open>
  What the state of the gateway must be for the decide route: the host of the router's metrics fits its
  buffer, and the Redis limiter has not been released and lets requests pass when Redis is unreachable.
\<close>

definition url_fits :: "string option \<Rightarrow> bool" where
  "url_fits url = (case url of None \<Rightarrow> True | Some u \<Rightarrow> length u < 263)"

definition bp_ok :: "bp_client \<Rightarrow> bool" where
  "bp_ok b \<longleftrightarrow> (bpc_initialized b \<longrightarrow> url_fits (router_metrics_url (bpc_config b)))"

fun redis_ok :: "g_state \<Rightarrow> bool" where
  "redis_ok No_State = True"
| "redis_ok (Live_State g) = rc_cb_fail_open (rs_config g)"
| "redis_ok Freed_State = False"

definition gateway_ok :: "gateway \<Rightarrow> bool" where
  "gateway_ok g \<longleftrightarrow> bp_ok (gw_bp g) \<and> redis_ok (gw_redis g)"

text \<open>
  What is asked of the surroundings of a request: the setting of the metrics URL is short enough; if the
  Redis limiter is enabled, it is in its default mode and its initialisation does not run out of memory;
  no answer of the router is an error with an \<open>intake_error_code\<close>.
\<close>

definition sound_env :: "('w, 'r) server_env \<Rightarrow> bool" where
  "sound_env env \<longleftrightarrow>
     url_fits (se_getenv env ''GATEWAY_ROUTER_METRICS_URL'') \<and>
     (rc_enabled (redis_rate_limiter_parse_config (se_getenv env)) \<longrightarrow>
        rc_cb_fail_open (redis_rate_limiter_parse_config (se_getenv env)) \<and> se_alloc env 5 1 \<and> se_alloc env 5 2 \<and> se_alloc env 5 3) \<and>
     (\<forall>q w resp w1 root err. nats_request_decide (de_nats (se_decide env)) q MAX_RESPONSE_SIZE w = (Some resp, w1) \<and>
        je_loads (se_decide env) resp = Some root \<and> json_object_get root ''error'' = Some err \<longrightarrow>
        \<not> is_str (json_object_get err ''intake_error_code''))"

text \<open>The part of the state on which definedness depends.\<close>

definition core :: "('w, 'r) server \<Rightarrow> metrics \<times> bp_client \<times> g_state" where
  "core s = (sv_metrics s, gw_bp (sv_gw s), gw_redis (sv_gw s))"

definition core_ok :: "metrics \<times> bp_client \<times> g_state \<Rightarrow> bool" where
  "core_ok c \<longleftrightarrow> registry_live (fst c) \<and> bp_ok (fst (snd c)) \<and> redis_ok (snd (snd c))"

abbreviation (input) live :: "('w, 'r) server \<Rightarrow> bool" where "live s \<equiv> core_ok (core s)"

definition completes :: "'a outcome \<Rightarrow> ('a \<Rightarrow> bool) \<Rightarrow> bool" where
  "completes m Q \<longleftrightarrow> (\<exists>x. m = Finished x \<and> Q x)"

fun routed_server :: "'s routed \<Rightarrow> 's" where
  "routed_server (Returned s) = s"
| "routed_server (Served _ _ s) = s"

section \<open>The decide handler\<close>

lemma completes_Finished [simp]: "completes (Finished x) Q = Q x" "\<not> completes Undefined Q"
  by (simp_all add: completes_def)

lemma completes_bind: "completes m (\<lambda>x. completes (f x) Q) \<Longrightarrow> completes (bind_outcome m f) Q"
  by (auto simp: completes_def)

lemma completes_weaken: "completes m P \<Longrightarrow> (\<And>x. P x \<Longrightarrow> Q x) \<Longrightarrow> completes m Q"
  by (auto simp: completes_def)

lemma completes_if: "(c \<Longrightarrow> completes a P) \<Longrightarrow> (\<not> c \<Longrightarrow> completes b P) \<Longrightarrow> completes (if c then a else b) P"
  by simp

lemma copy_host_fits: "length s < 256 \<Longrightarrow> copy_host s rest = Finished (take (length s - length rest) s)"
  by (simp add: copy_host_def Let_def)

lemma parse_url_fits: "length url < 263 \<Longrightarrow> parse_url url \<noteq> Undefined"
  by (simp add: parse_url_def Let_def copy_host_fits split: option.split)

lemma completes_backpressure:
  assumes "bp_ok b"
  shows "completes (backpressure_client_check_router_status tcp now b) (\<lambda>(_, b'). bp_ok b')"
proof (cases "bpc_initialized b")
  case True
  then have "http_get tcp url n \<noteq> Undefined" if "router_metrics_url (bpc_config b) = Some url" for url n
    using assms that parse_url_fits [of url] by (auto simp: http_get_def bp_ok_def url_fits_def split: outcome.split option.split)
  then have "fetch_router_metrics tcp b \<noteq> Undefined" by (auto simp: fetch_router_metrics_def split: outcome.split option.split)
  then show ?thesis
    using assms by (auto simp: backpressure_client_check_router_status_def bp_ok_def split: outcome.split)
qed (use assms in \<open>simp add: backpressure_client_check_router_status_def\<close>)

lemma check_rate_limit_config: "rs_config (snd (snd (check_rate_limit_redis now ctx r g))) = rs_config g"
  by (simp add: check_rate_limit_redis_def cb_get_state_def acquire_connection_def cb_record_error_def cb_transition_def Let_def)

lemma check_rate_limit_open: "rc_cb_fail_open (rs_config g) \<Longrightarrow> decision (fst (snd (check_rate_limit_redis now ctx r g))) = REDIS_RL_ALLOW"
  by (simp add: check_rate_limit_redis_def cb_get_state_def acquire_connection_def cb_transition_def Let_def)

text \<open>In the default mode the Redis limiter never refuses a request.\<close>

lemma completes_redis:
  assumes "redis_ok p"
  shows "completes (redis_rate_limiter_check now ctx r p) (\<lambda>(_, r', p'). redis_ok p' \<and> decision r' = REDIS_RL_ALLOW)"
proof (cases p)
  case (Live_State g)
  let ?g = "g\<lparr>rs_requests_total := map_option Suc (rs_requests_total g)\<rparr>"
  obtain rc r1 g1 where c: "check_rate_limit_redis now ctx r ?g = (rc, r1, g1)" by (cases "check_rate_limit_redis now ctx r ?g")
  have "rs_config g1 = rs_config g" using check_rate_limit_config [of now ctx r ?g] c by simp
  moreover have "decision r1 = REDIS_RL_ALLOW" using check_rate_limit_open [of ?g now ctx r] assms Live_State c by simp
  ultimately show ?thesis using assms Live_State c by (simp add: redis_rate_limiter_check_def)
qed (use assms in \<open>simp_all add: redis_rate_limiter_check_def\<close>)

lemma error_core:
  "send_error_response_with_conflict fd l c m ctx ty i g = (evs, g') \<Longrightarrow> gw_bp g' = gw_bp g \<and> gw_redis g' = gw_redis g"
  "send_error_response fd l c m ctx g = (evs, g') \<Longrightarrow> gw_bp g' = gw_bp g \<and> gw_redis g' = gw_redis g"
  "send_error_response_with_retry_after fd l c m n ctx g = (evs, g') \<Longrightarrow> gw_bp g' = gw_bp g \<and> gw_redis g' = gw_redis g"
  by (auto simp: send_error_response_def send_error_response_with_conflict_def send_error_response_with_retry_after_def count_error_def Let_def)

lemma completes_respond:
  assumes "sound_env env" "nats_request_decide (de_nats (se_decide env)) q MAX_RESPONSE_SIZE w = (Some resp, w1)"
  shows "completes (decide_respond (se_decide env) fd resp) (\<lambda>_. True)"
proof -
  have "\<not> is_str (json_object_get err ''intake_error_code'')"
    if "je_loads (se_decide env) resp = Some root" "json_object_get root ''error'' = Some err" for root err
    using assms that unfolding sound_env_def by metis
  then show ?thesis by (auto simp: decide_respond_def Let_def completes_def split: option.split)
qed

lemma completes_decide_route:
  assumes "sound_env env"
  shows "completes (decide_route (se_decide env) fd body ctx g w) (\<lambda>(_, _, g', _). gw_bp g' = gw_bp g \<and> gw_redis g' = gw_redis g)"
proof -
  have "completes (case decide_respond (se_decide env) fd resp of
        Undefined \<Rightarrow> Undefined | Finished evs \<Rightarrow> Finished (Asked_Router (Ask_Decide q) # evs, ctx2, g, w1))
      (\<lambda>(_, _, g', _). gw_bp g' = gw_bp g \<and> gw_redis g' = gw_redis g)"
    if "nats_request_decide (de_nats (se_decide env)) q MAX_RESPONSE_SIZE w = (Some resp, w1)" for q resp w1 ctx2
    using completes_respond [OF assms that, of fd] by (auto simp: completes_def)
  then show ?thesis unfolding decide_route_def by (auto split: prod.split option.split bool.split dest: error_core)
qed

lemma completes_handle_decide:
  assumes "sound_env env" "gateway_ok g"
  shows "completes (handle_decide (se_decide env) fd (Some body) ctx g w) (\<lambda>(_, _, g', _). gateway_ok g')"
    "\<not> decide_ends_span (se_decide env) body ctx g"
proof -
  let ?q = "\<lparr>rq_client_ip = Some (de_client_ip (se_decide env)), rq_method = Some ''POST'', rq_path = Some ''/api/v1/routes/decide'',
      rq_tenant_id = nonempty (cx_tenant_id ctx)\<rparr>"
  obtain bp b1 where b: "backpressure_client_check_router_status (de_tcp (se_decide env)) (de_now (se_decide env)) (gw_bp g) =
      Finished (bp, b1)" "bp_ok b1"
    using completes_backpressure [of "gw_bp g" "de_tcp (se_decide env)" "de_now (se_decide env)"] assms(2) by (auto simp: completes_def gateway_ok_def)
  obtain rc r p where r: "redis_rate_limiter_check (de_now (se_decide env)) ?q (de_result (se_decide env)) (gw_redis g) =
      Finished (rc, r, p)" "redis_ok p" "decision r = REDIS_RL_ALLOW"
    using completes_redis [of "gw_redis g" "de_now (se_decide env)" ?q "de_result (se_decide env)"] assms(2) by (auto simp: completes_def gateway_ok_def)
  obtain evs g3 where a: "decide_abuse (se_decide env) fd body ctx (g\<lparr>gw_bp := b1, gw_redis := p\<rparr>) = (evs, g3, False)"
      "gw_bp g3 = b1" "gw_redis g3 = p"
    using decide_abuse_logs [of "se_decide env" fd body ctx "g\<lparr>gw_bp := b1, gw_redis := p\<rparr>"] by auto
  have rest: "completes (with_events es (decide_route (se_decide env) fd body ctx g3 w)) (\<lambda>(_, _, g', _). gateway_ok g')" for es
    using completes_decide_route [OF assms(1), of fd body ctx g3 w] a b(2) r(2)
    by (auto simp: completes_def with_events_def gateway_ok_def split: prod.splits)
  have empty: "completes (case send_error_response_with_conflict fd l c m ctx ty i g of (evs, g1) \<Rightarrow> Finished (evs, ctx, g1, w))
      (\<lambda>(_, _, g', _). gateway_ok g')" for l c m ty i
    using assms(2) by (auto simp: gateway_ok_def split: prod.split dest: error_core)
  have busy: "completes (case send_error_response_with_retry_after fd l c m n ctx (g\<lparr>gw_bp := b1\<rparr>) of (evs, g1) \<Rightarrow> Finished (evs, ctx, g1, w))
      (\<lambda>(_, _, g', _). gateway_ok g')" for l c m n
    using assms(2) b(2) by (auto simp: gateway_ok_def split: prod.split dest: error_core)
  show "completes (handle_decide (se_decide env) fd (Some body) ctx g w) (\<lambda>(_, _, g', _). gateway_ok g')"
    using b(1) r(1,3) a(1) by (simp add: handle_decide_def Let_def empty busy rest)
  show "\<not> decide_ends_span (se_decide env) body ctx g" using r by (simp add: decide_ends_span_def client_limited_def)
qed

section \<open>The state stays sound\<close>

lemma core_gw [simp]: "core (s\<lparr>sv_gw := g\<rparr>) = (sv_metrics s, gw_bp g, gw_redis g)"
  by (simp add: core_def)

lemma core_upd [simp]:
  "core (s\<lparr>sv_out := a\<rparr>) = core s" "core (s\<lparr>sv_sse := b\<rparr>) = core s" "core (s\<lparr>sv_nats := c\<rparr>) = core s"
  "core (s\<lparr>sv_tracing := d\<rparr>) = core s" "core (s\<lparr>sv_latency := e\<rparr>) = core s" "core (s\<lparr>sv_registry := f\<rparr>) = core s"
  "core (s\<lparr>sv_requests_total := g\<rparr>) = core s" "core (s\<lparr>sv_decide_get := h\<rparr>) = core s" "core (s\<lparr>sv_decide_post := i\<rparr>) = core s"
  "core (s\<lparr>sv_limiter := j, sv_redis := k, sv_rl_total_hits := l\<rparr>) = core s"
  "core (s\<lparr>sv_rl_total_exceeded := l, sv_rl_exceeded_by := m\<rparr>) = core s"
  "core (s\<lparr>sv_start_time := r\<rparr>) = core s" "core (s\<lparr>sv_fallback_count := n, sv_rl_mode := q\<rparr>) = core s"
  by (simp_all add: core_def)

lemma live_iff: "live s \<longleftrightarrow> registry_live (sv_metrics s) \<and> gateway_ok (sv_gw s)"
  by (simp add: core_ok_def core_def gateway_ok_def)

lemma live_http:
  "live s \<Longrightarrow> completes (on_metrics (metrics_record_http_request (Some m) (Some p) st d) s) (\<lambda>s. live s)"
  unfolding live_iff registry_live_def on_metrics_def completes_def bind_Finished
  by (elim conjE exE, drule http_request_values [of _ _ _ _ _ m p st d]) fastforce

lemma live_count: "live s \<Longrightarrow> completes (on_metrics (count k) s) (\<lambda>s. live s)"
  unfolding live_iff registry_live_def on_metrics_def completes_def bind_Finished
  by (elim conjE exE, drule count_bump [of _ _ _ _ _ _ k]) fastforce

lemma live_init:
  assumes "sound_env env" "live s"
  shows "live (rate_limit_init_if_needed env s)"
proof -
  let ?c = "redis_rate_limiter_parse_config (se_getenv env)"
  have "redis_ok (snd (redis_rate_limiter_init a (se_alloc env 5 1) (se_alloc env 5 2, se_alloc env 5 3) made (Some ?c) p))"
    if "redis_ok p" for a made p using assms(1) that by (simp add: redis_rate_limiter_init_def sound_env_def Let_def)
  moreover have "bp_ok (backpressure_client_init (Some (backpressure_client_parse_config (se_getenv env))))"
    using assms(1) by (auto simp: bp_ok_def backpressure_client_init_def backpressure_client_parse_config_def sound_env_def url_fits_def
        backpressure_client_get_default_config_def Let_def split: option.split)
  ultimately show ?thesis
    using assms(2) by (auto simp: rate_limit_init_if_needed_def live_iff gateway_ok_def Let_def split: prod.split)
qed

lemma init_metrics [simp]: "sv_metrics (rate_limit_init_if_needed env s) = sv_metrics s"
  by (simp add: rate_limit_init_if_needed_def Let_def split: prod.split)

lemma core_out [simp]: "core (out_events evs s) = core s" "core (close_client fd s) = core s"
  "core (record_latency env s) = core s" "core (log_request env ctx m p s) = core s"
  "core (end_request_span env sp code s) = core s" "core (ask_router call w s) = core s"
  by (simp_all add: out_events_def close_client_def record_latency_def log_request_def end_request_span_def ask_router_def)

lemma core_send [simp]: "core (send_err fd l c m ctx s) = core s" "core (send_json fd l b s) = core s"
  "core (on_gw (send_error_response_with_conflict fd l c m ctx ty i) s) = core s" "core (on_gw (send_error_response fd l c m ctx) s) = core s"
  by (auto simp: send_err_def send_json_def on_gw_def core_def out_events_def split: prod.split dest: error_core)

lemma completes_broadcast: "length e < 120 \<Longrightarrow> live s \<Longrightarrow> completes (broadcast env t e j s) (\<lambda>s. live s)"
  by (auto simp: broadcast_def sse_broadcast_json_def event_line_def lf_def split: prod.split)

lemma core_handlers [simp]: "core (handle_health env fd s) = core s"
  "core (handle_metrics_json env fd s) = core s" "core (handle_registry_delete env fd ty v s) = core s"
  "core (snd (handle_registry_write_common env fd ty v body s)) = core s"
  "core (handle_extensions_health env fd ctx s) = core s" "core (handle_circuit_breakers env fd ctx s) = core s"
  "core (handle_dry_run_pipeline env fd body ctx s) = core s"
  "core (handle_pipeline_complexity env fd t p ctx s) = core s"
  by (auto simp: handle_health_def handle_metrics_json_def handle_registry_delete_def handle_registry_write_common_def
      handle_extensions_health_def handle_circuit_breakers_def handle_dry_run_pipeline_def handle_pipeline_complexity_def unavailable_def
      Let_def split: option.split prod.split)

lemma completes_handle_get_decision: "live s \<Longrightarrow> completes (handle_get_decision env fd mid ctx s) (\<lambda>s. live s)"
  by (auto simp: handle_get_decision_def Let_def split: option.split prod.split intro!: completes_broadcast)

lemma completes_rate_limit:
  assumes "sound_env env" "live s"
  shows "completes (rate_limit_check env e t k s) (\<lambda>(_, s'). live s')"
proof -
  note i = live_init [OF assms]
  have one: "completes (bind_outcome (on_metrics (count n) s1) (\<lambda>s2. Finished (r, s2))) (\<lambda>(_, s'). live s')"
    if "core s1 = core (rate_limit_init_if_needed env s)" for n s1 and r :: int
    by (rule completes_bind, rule completes_weaken [OF live_count]) (simp_all add: that i)
  show ?thesis
    unfolding rate_limit_check_def Let_def metrics_record_rate_limit_allowed_def metrics_record_rate_limit_hit_def
    by (simp add: one i split: option.split prod.split rl_result_t.split)
qed

lemma completes_rate_limit_error:
  assumes "live s"
  shows "completes (send_rate_limit_error env fd e ctx s) (\<lambda>s. live s)"
proof -
  have "core (out_events evs (s\<lparr>sv_gw := (sv_gw s)\<lparr>gw_errors_total := n\<rparr>\<rparr>)) = core s" for evs n by (simp add: core_def out_events_def)
  then show ?thesis
    unfolding send_rate_limit_error_def Let_def metrics_record_rate_limit_hit_def
    by (intro completes_if live_count; simp add: assms)
qed

section \<open>The routes\<close>

abbreviation (input) routed_live where "routed_live r \<equiv> live (routed_server r)"

lemma completes_served: "live s \<Longrightarrow> completes (served env ctx m p s) (\<lambda>r. routed_live r)"
  unfolding served_def
  by (intro completes_bind completes_weaken [OF live_http]) simp_all

lemma completes_Served: "live s' \<Longrightarrow> completes (Finished (Served c k s')) (\<lambda>r. routed_live r)"
  by simp

lemma completes_give_up: "live s' \<Longrightarrow> completes (give_up fd s') (\<lambda>r. routed_live r)"
  "live s' \<Longrightarrow> completes (fail_request env fd sp code s') (\<lambda>r. routed_live r)"
  by (simp_all add: give_up_def fail_request_def)

lemma completes_limited:
  fixes s :: "('w, 'r) server"
  assumes "sound_env env" "live s" "\<And>s1. live s1 \<Longrightarrow> completes (refuse s1) Q" "\<And>s1. live s1 \<Longrightarrow> completes (rest s1) Q"
  shows "completes (limited env fd e ctx refuse rest s) Q"
  unfolding limited_def
proof (rule completes_bind, rule completes_weaken [OF completes_rate_limit [OF assms(1,2)]], clarify)
  fix res and s1 :: "('w, 'r) server" assume "live s1"
  then show "completes (if res \<noteq> 0 then bind_outcome (send_rate_limit_error env fd e ctx s1) refuse else rest s1) Q"
    using assms(3,4) by (intro completes_if completes_bind completes_weaken [OF completes_rate_limit_error])
qed

lemmas completes_ends = completes_give_up completes_Served completes_served

lemma completes_registry: "sound_env env \<Longrightarrow> live s \<Longrightarrow> completes (route_registry env fd m p body ctx sp s) (\<lambda>r. routed_live r)"
  unfolding route_registry_def Let_def
  by (auto split: option.split intro!: completes_limited completes_ends)

lemma completes_get_decision: "sound_env env \<Longrightarrow> live s \<Longrightarrow> completes (route_get_decision env fd p ctx sp s) (\<lambda>r. routed_live r)"
  unfolding route_get_decision_def Let_def
  by (auto intro!: completes_limited completes_ends completes_bind completes_weaken [OF completes_handle_get_decision])

lemma completes_messages:
  assumes "sound_env env" "live s"
  shows "completes (route_messages env fd m p body ctx sp s) (\<lambda>r. routed_live r)"
proof -
  have "completes (message_update env fd mid body ctx sp s1) (\<lambda>r. routed_live r)"
    "completes (message_delete env fd mid ctx s1) (\<lambda>r. routed_live r)" if "live s1" for mid s1
    using that unfolding message_update_def message_delete_def Let_def
    by (auto intro!: completes_ends completes_bind completes_weaken [OF completes_broadcast])
  then show ?thesis using assms
    unfolding route_messages_def Let_def
    by (auto intro!: completes_limited completes_ends)
qed

lemma completes_stream: "live s \<Longrightarrow> completes (route_stream env fd p ctx s) (\<lambda>r. routed_live r)"
  unfolding route_stream_def by (auto split: option.split list.split prod.split intro!: completes_ends)

lemma completes_policies: "live s \<Longrightarrow> completes (route_policies env fd m p ctx s) (\<lambda>r. routed_live r)"
  unfolding route_policies_def Let_def
  by (auto split: option.split prod.split intro!: completes_ends)

lemma completes_unknown: "live s \<Longrightarrow> completes (route_unknown env fd m p ctx s) (\<lambda>r. routed_live r)"
  unfolding route_unknown_def
  by (intro completes_bind completes_weaken [OF live_http]) simp_all

lemma completes_metrics_page:
  assumes "live s"
  shows "completes (serve_metrics_page env fd s) (\<lambda>s. live s)"
proof -
  have "prometheus_wf (prom (sv_metrics s))" using assms by (auto simp: live_iff registry_live_def holds_values_def)
  then have "completes (handle_metrics_request (se_page_ok env) (sv_metrics s)) (\<lambda>_. True)"
    unfolding handle_metrics_request_def by (simp add: export_text_wf METRICS_BUFFER_SIZE_def)
  then obtain r where "handle_metrics_request (se_page_ok env) (sv_metrics s) = Finished r" by (auto simp: completes_def)
  then show ?thesis using assms by (cases r) (auto simp: serve_metrics_page_def)
qed

lemma completes_serve_decide:
  assumes "sound_env env" "live s"
  shows "completes (serve_decide env fd m p body ctx sp s) (\<lambda>r. routed_live r)"
proof -
  have g: "gateway_ok (sv_gw s)" "registry_live (sv_metrics s)" using assms(2) by (simp_all add: live_iff)
  obtain evs ctx1 g w where d: "handle_decide (se_decide env) fd (Some body) ctx (sv_gw s) (sv_nats s) = Finished (evs, ctx1, g, w)" "gateway_ok g"
    using completes_handle_decide(1) [OF assms(1) g(1), of fd body ctx "sv_nats s"] by (auto simp: completes_def)
  have "live (out_events evs (s\<lparr>sv_gw := g, sv_nats := w, sv_tracing := t\<rparr>))" for t using d(2) g(2) by (simp add: core_ok_def gateway_ok_def)
  then show ?thesis
    using d(1) completes_handle_decide(2) [OF assms(1) g(1), of body ctx] by (simp add: serve_decide_def Let_def completes_served)
qed

lemma completes_route_decide:
  fixes s :: "('w, 'r) server"
  assumes "sound_env env" "live s"
  shows "completes (route_decide env fd m p body h sp s) (\<lambda>r. routed_live r)"
proof -
  have serve: "completes (serve_decide env fd m p' body (rh_ctx h) sp s1) (\<lambda>r. routed_live r)" if "live s1" for p' s1
    using completes_serve_decide [OF assms(1) that] .
  have lim: "completes (rate_limit_check_routes_decide env fd (rh_ctx h) s) (\<lambda>(_, s1). live s1)"
    unfolding rate_limit_check_routes_decide_def
  proof (rule completes_bind, rule completes_weaken [OF completes_rate_limit [OF assms]], clarify)
    fix res and s1 :: "('w, 'r) server" assume "live s1"
    then show "completes (if res = 1 then bind_outcome (send_rate_limit_error env fd 0 (rh_ctx h) s1) (\<lambda>s2. Finished (res, s2))
        else if res = 2 then Finished (res, on_gw (send_error_response fd ''HTTP/1.1 503 Service Unavailable'' ''rate_limiter_error''
               ''Rate limiter service unavailable'' (rh_ctx h)) s1) else Finished (res, s1)) (\<lambda>(_, s1). live s1)"
      by (auto intro!: completes_bind completes_weaken [OF completes_rate_limit_error])
  qed
  show ?thesis
    unfolding route_decide_def Let_def
    by (intro completes_if completes_limited completes_bind completes_give_up serve completes_weaken [OF lim] assms(1))
      (auto simp: assms(2) intro!: completes_give_up serve)
qed

lemma completes_dispatch:
  assumes "sound_env env" "live s"
  shows "completes (dispatch env fd m p body h sp s) (\<lambda>r. routed_live r)"
  unfolding dispatch_def Let_def
  by (intro completes_if completes_bind completes_served completes_registry completes_get_decision completes_messages completes_stream
      completes_policies completes_unknown completes_route_decide completes_weaken [OF completes_metrics_page] assms(1); simp add: assms(2))

lemma request_span_none:
  assumes "start_request_span env m p h = Finished sp"
  shows "\<not> se_alloc env 8 1 \<longrightarrow> sp = None"
proof
  assume "\<not> se_alloc env 8 1"
  then have "otel_span_start (se_alloc env 8 1) r r' c n k parent = None" for r r' c n k parent
    by (simp add: otel_span_start_def split: option.split)
  moreover have "otel_span_set_attribute k v None = None" "set_span_nonempty j t None = None" for k v j t
    by (simp_all add: otel_span_set_attribute_def set_span_nonempty_def)
  ultimately show "sp = None" using assms by (auto simp: start_request_span_def bind_Finished Let_def)
qed

lemma completes_handle_client:
  assumes "sound_env env" "live s"
  shows "completes (handle_client env fd req s) (\<lambda>s'. live s')"
proof (cases "req = []")
  case True
  then show ?thesis using assms(2) by (simp add: handle_client_def)
next
  case False
  obtain head body where sr: "split_request req = (head, body)" by fastforce
  let ?s = "s\<lparr>sv_requests_total := sv_requests_total s + 1\<rparr>"
  have fin: "live (finish_client env fd sp r)" if "routed_live r" for sp r
    using that by (cases r) (simp_all add: finish_client_def Let_def)
  have route: "completes (bind_outcome (start_request_span env m p (read_headers ls)) (\<lambda>sp.
      bind_outcome (dispatch env fd m p body (read_headers ls) sp ?s) (\<lambda>r. Finished (finish_client env fd sp r)))) (\<lambda>s'. live s')" for m p ls
  proof -
    obtain sp where sp: "start_request_span env m p (read_headers ls) = Finished sp"
      using extract_defined [of "rh_traceparent (read_headers ls)"] by (auto simp: start_request_span_def Let_def)
    have "completes (dispatch env fd m p body (read_headers ls) sp ?s) (\<lambda>r. routed_live r)"
      using assms by (intro completes_dispatch) simp_all
    then show ?thesis using fin by (auto simp: sp intro!: completes_bind elim!: completes_weaken)
  qed
  have "completes (bind_outcome (on_metrics (metrics_record_http_request (Some a) (Some b) c d)
      (on_gw (send_error_response_with_conflict fd l e m no_ctx ty i) ?s)) (\<lambda>s1. Finished (close_client fd s1))) (\<lambda>s'. live s')" for a b c d l e m ty i
    using assms(2) by (intro completes_bind completes_weaken [OF live_http]) simp_all
  then show ?thesis
    unfolding handle_client_def Let_def sr prod.case using False route by (auto split: option.split)
qed

section \<open>The server\<close>

definition closes :: "int \<Rightarrow> http_event list \<Rightarrow> nat" where
  "closes fd es = count_list es (Closed_Fd fd)"

fun accepted :: "('w, 'r) arrival list \<Rightarrow> int list" where
  "accepted [] = []"
| "accepted (Connection _ fd _ # as) = fd # accepted as"
| "accepted (Accept_Failed # as) = accepted as"

text \<open>What \<open>accept\<close> promises: a descriptor that is not in use at that moment.\<close>

fun accept_fresh :: "('w, 'r) arrival list \<Rightarrow> ('w, 'r) server \<Rightarrow> bool" where
  "accept_fresh [] s = True"
| "accept_fresh (Connection env fd req # as) s =
     (0 \<le> fd \<and> fd \<notin> pool_fds (sv_sse s) \<and>
      (case handle_client env fd req s of Finished s' \<Rightarrow> accept_fresh as s' | Undefined \<Rightarrow> True))"
| "accept_fresh (Accept_Failed # as) s = accept_fresh as s"

definition sound_arrivals :: "('w, 'r) arrival list \<Rightarrow> bool" where
  "sound_arrivals as \<longleftrightarrow> list_all (\<lambda>a. case a of Connection env _ _ \<Rightarrow> sound_env env | Accept_Failed \<Rightarrow> True) as"

lemma closes_simps [simp]: "closes fd [] = 0" "closes fd (xs @ ys) = closes fd xs + closes fd ys"
  "closes fd (Closed_Fd fd' # es) = of_bool (fd' = fd) + closes fd es"
  by (simp_all add: closes_def)

text \<open>A descriptor is closed once between the moments it is open and no longer open, and otherwise not.\<close>

lemma closes_track: "track S es = Some T \<Longrightarrow> closes x es + of_bool (x \<in> T) = of_bool (x \<in> S)"
proof (induction S es rule: track.induct)
  case (2 S fd d es)
  then show ?case by (cases "fd \<in> S") (simp_all add: closes_def)
next
  case (3 S fd es)
  then have "fd \<in> S" "track (S - {fd}) es = Some T" by (auto split: if_splits)
  moreover from this have "closes x es + of_bool (x \<in> T) = of_bool (x \<in> S - {fd})" using 3(1) by blast
  ultimately show ?case by (cases "x = fd") (simp_all add: closes_def)
qed simp

lemma client_total:
  assumes "sound_env env" "live s" "ready fd s" "0 \<le> fd"
  obtains s' qs where "handle_client env fd req s = Finished s'" "live s'" "settled fd (req \<noteq> []) qs s s'"
    "\<forall>q\<in>set qs. forwarded env req s q"
  using completes_handle_client [OF assms(1,2), of fd req] finishes_handle_client [OF assms(3,4), of env req]
  by (auto simp: completes_def)

lemma accept_loop_total:
  assumes "live s" "pool_ok (sv_sse s)" "accept_fresh as s" "sound_arrivals as"
  shows "\<exists>s' evs. accept_loop as s = Finished s' \<and> sv_out s' = sv_out s @ evs \<and> pool_ok (sv_sse s') \<and>
     (\<forall>x. closes x (http_of evs) + of_bool (x \<in> pool_fds (sv_sse s')) = count_list (accepted as) x + of_bool (x \<in> pool_fds (sv_sse s)))"
  using assms
proof (induction as s rule: accept_loop.induct)
  case (2 env fd req as s)
  then have "sound_env env" "ready fd s" "0 \<le> fd" by (auto simp: ready_def sound_arrivals_def)
  from client_total [OF this(1) 2(2) this(2,3), of req] obtain s1 qs where
    c: "handle_client env fd req s = Finished s1" "live s1" "settled fd (req \<noteq> []) qs s s1" by blast
  then obtain evs where e: "sv_out s1 = sv_out s @ evs" "pool_ok (sv_sse s1)"
      "track (insert fd (pool_fds (sv_sse s))) (http_of evs) = Some (pool_fds (sv_sse s1))" by (auto simp: settled_def)
  obtain s' evs' where r: "accept_loop as s1 = Finished s'" "sv_out s' = sv_out s1 @ evs'" "pool_ok (sv_sse s')"
      "\<And>x. closes x (http_of evs') + of_bool (x \<in> pool_fds (sv_sse s')) = count_list (accepted as) x + of_bool (x \<in> pool_fds (sv_sse s1))"
    using "2.IH" [of s1] c e(2) 2(4,5) by (auto simp: sound_arrivals_def)
  have "closes x (http_of (evs @ evs')) + of_bool (x \<in> pool_fds (sv_sse s')) =
      count_list (fd # accepted as) x + of_bool (x \<in> pool_fds (sv_sse s))" for x
    using closes_track [OF e(3), of x] r(4) [of x] \<open>ready fd s\<close> by (auto simp: ready_def)
  then show ?case using c(1) e(1) r by (intro exI [of _ s'] exI [of _ "evs @ evs'"]) simp
qed (auto simp: sound_arrivals_def)

lemma stop_closes:
  assumes "pool_ok (sv_sse s)"
  obtains evs where "sv_out (stop_events s) = sv_out s @ evs" "pool_fds (sv_sse (stop_events s)) = {}"
    "\<And>x. closes x (http_of evs) = of_bool (x \<in> pool_fds (sv_sse s))"
proof -
  obtain ev p' where sd: "sse_shutdown (sv_sse s) = (ev, p')" by fastforce
  have p: "pool_step (sv_sse s) ev p'" "\<forall>i<64. sse_fd (p' ! i) = -1"
    using pool_step_close_slots [OF assms, of "slots SSE_MAX_CLIENTS" ev p'] sd by (auto simp: sse_shutdown_def)
  have empty: "pool_fds p' = {}" using p by (auto simp: pool_step_def pool_fds_def pool_ok_def)
  have "track ({} \<union> pool_fds (sv_sse s)) ev = Some ({} \<union> pool_fds p')" using p(1) unfolding pool_step_def by blast
  then have "closes x ev = of_bool (x \<in> pool_fds (sv_sse s))" for x using closes_track [of _ ev _ x] empty by fastforce
  then show thesis using that [of "map Http ev"] sd empty by (simp add: stop_events_def out_events_def)
qed

lemma init_pool: "pool_ok sse_init_pool" "pool_fds sse_init_pool = {}"
  by (auto simp: pool_ok_def pool_fds_def sse_init_pool_def free_slot_def)

definition starts :: "start_calls \<Rightarrow> string option \<Rightarrow> bool" where
  "starts sc port \<longleftrightarrow> sc_bind sc (server_port port mod 65536) \<and> sc_listen sc \<and> (\<forall>k<21. sc_alloc sc k)"

lemma start_server_cases:
  assumes "sv_metrics s = metrics_static" "gateway_ok (sv_gw s)"
  obtains s1 where "start_server sc env now port s = Finished (if starts sc port then 0 else 1, s1)" "sv_out s1 = sv_out s"
    "starts sc port \<Longrightarrow> live s1 \<and> pool_ok (sv_sse s1) \<and> pool_fds (sv_sse s1) = {}"
proof (cases "sc_bind sc (server_port port mod 65536) \<and> sc_listen sc")
  case False
  then show thesis using that [of s] by (auto simp: start_server_def starts_def)
next
  case True
  obtain m where m: "metrics_registry_init (sc_alloc sc) metrics_static = Finished (if starts sc port then 0 else - 1, m)"
    using registry_init_iff [of "sc_alloc sc"] True by (auto simp: starts_def)
  let ?s = "s\<lparr>sv_start_time := now, sv_sse := sse_init_pool, sv_metrics := m\<rparr>"
  let ?t = "snd (otel_init (sc_have_curl sc) (sc_easy_init sc) (Some ''c-gateway'') (Some (otlp_setting env)) (sv_tracing s))"
  have st: "start_server sc env now port s = Finished (if starts sc port then 0 else 1, if starts sc port then ?s\<lparr>sv_tracing := ?t\<rparr> else ?s)"
    using True m assms(1) by (cases "starts sc port") (simp_all add: start_server_def)
  have "registry_live m" if "starts sc port"
    using registry_init_fresh [of "sc_alloc sc" m] m that by (auto simp: registry_live_def)
  then have "live (?s\<lparr>sv_tracing := ?t\<rparr>)" if "starts sc port" using that assms(2) by (simp add: core_ok_def gateway_ok_def core_def)
  then show thesis by (intro that [OF st]) (simp_all add: init_pool)
qed

lemma started_run_closes:
  assumes "sc_socket sc = Some server_fd" "start_server sc env now (env ''GATEWAY_PORT'') s = Finished (0, s1)"
    "live s1" "pool_ok (sv_sse s1)" "pool_fds (sv_sse s1) = {}" "sv_out s1 = sv_out s" "accept_fresh arrivals s1" "sound_arrivals arrivals"
  shows "\<exists>s' evs. gateway_main sc env now arrivals s = Finished (0, s') \<and> sv_out s' = sv_out s @ evs \<and>
     pool_fds (sv_sse s') = {} \<and>
     (\<forall>fd. closes fd (http_of evs) = count_list (accepted arrivals) fd + (if fd = server_fd then 2 else 0))"
proof -
  obtain s2 evs where l: "accept_loop arrivals s1 = Finished s2" "sv_out s2 = sv_out s1 @ evs" "pool_ok (sv_sse s2)"
      "\<And>x. closes x (http_of evs) + of_bool (x \<in> pool_fds (sv_sse s2)) = count_list (accepted arrivals) x"
    using accept_loop_total [OF assms(3,4,7,8)] assms(5) by auto
  let ?t = "on_signal server_fd s2"
  have t: "sv_out ?t = sv_out s2 @ [Http (Closed_Fd server_fd)]" "sv_sse ?t = sv_sse s2"
    by (simp_all add: on_signal_def close_client_def out_events_def)
  obtain evs2 where e: "sv_out (stop_events ?t) = sv_out ?t @ evs2" "pool_fds (sv_sse (stop_events ?t)) = {}"
      "\<And>x. closes x (http_of evs2) = of_bool (x \<in> pool_fds (sv_sse s2))"
    using stop_closes [of ?t] l(3) t(2) by metis
  define all where "all = evs @ [Http (Closed_Fd server_fd)] @ evs2 @ [Http (Closed_Fd server_fd)]"
  have "closes x (http_of all) = count_list (accepted arrivals) x + (if x = server_fd then 2 else 0)" for x
    using l(4) [of x] e(3) [of x] by (cases "x = server_fd") (simp_all add: all_def)
  moreover have "gateway_main sc env now arrivals s = Finished (0, close_client server_fd (stop_events ?t))"
    using assms(1,2) l(1) by (simp add: gateway_main_def http_server_run_def)
  moreover have "sv_out (close_client server_fd (stop_events ?t)) = sv_out s @ all"
    using l(2) t(1) e(1) assms(6) by (simp add: close_client_def out_events_def all_def)
  moreover have "sv_sse (close_client server_fd (stop_events ?t)) = sv_sse (stop_events ?t)"
    by (simp add: close_client_def out_events_def)
  ultimately show ?thesis using e(2) by metis
qed

section \<open>Properties\<close>

text \<open>
  C8. Every connection comes to an end and is answered. The state is that of a started server: the
  metrics registry is initialised, the pool of event streams is in order, the URL of the router's
  metrics is shorter than 263 characters and the Redis limiter, if it has been set up, is live and in its
  default mode. The environment has such settings too, and the router does not answer a decide request
  with an error that carries an \<open>intake_error_code\<close>. Then \<open>handle_client\<close> returns for every request, the
  ones for the router included, and the state is again one of these. The connection has been given one
  response and closed, or been greeted and entered into the pool; nothing is written to or closed on a
  descriptor that is closed at that moment.
\<close>

theorem client_served:
  assumes "registry_live (sv_metrics s)" "gateway_ok (sv_gw s)" "sound_env env"
    "pool_ok (sv_sse s)" "fd \<notin> pool_fds (sv_sse s)" "0 \<le> fd"
  shows "\<exists>s' evs. handle_client env fd req s = Finished s' \<and> sv_out s' = sv_out s @ evs \<and>
     registry_live (sv_metrics s') \<and> gateway_ok (sv_gw s') \<and> pool_ok (sv_sse s') \<and>
     track (insert fd (pool_fds (sv_sse s))) (http_of evs) = Some (pool_fds (sv_sse s')) \<and>
     (if fd \<in> pool_fds (sv_sse s') then written fd (http_of evs) = stream_greeting
      else if req = [] then written fd (http_of evs) = [] else answered (written fd (http_of evs)))"
proof -
  have "ready fd s" "live s" using assms by (simp_all add: ready_def live_iff)
  from client_total [OF assms(3) this(2,1) assms(6), of req] show ?thesis unfolding settled_def live_iff by metis
qed

text \<open>
  C9. What the front end asks of the router, for every kind of call. A decide request goes out only for a
  POST to one of the two decide paths with a tenant header and, if one is required, an Authorization
  header, after the rate limiter has allowed it for that tenant, and the guards of \<open>handle_decide\<close> hold in
  the state after that check. A decision is looked up only for a GET whose path ends in the message's
  id, with the tenant of the header, after the same limiter has allowed it. The other four calls belong to
  their own paths: the health of the extensions, the circuit breakers, a dry run with the body of the
  request, and the complexity of a policy whose ids are those of the path. For these four routes there is
  no check of tenant, authorization or rate.
\<close>

theorem front_end_guarded:
  assumes "handle_client env fd req s = Finished s'" "sv_out s' = sv_out s @ evs" "call \<in> set (asked evs)"
    "pool_ok (sv_sse s)" "fd \<notin> pool_fds (sv_sse s)" "0 \<le> fd"
  shows "\<exists>method path lines.
     request_line (fst (split_request req)) = Some (method, path, lines) \<and>
     (case call of
        Ask_Decide q \<Rightarrow>
          method = ''POST'' \<and> path \<in> {''/api/v1/messages'', ''/api/v1/routes/decide''} \<and>
          rh_has_tenant (read_headers lines) \<and> (sv_auth_required s \<longrightarrow> rh_has_auth (read_headers lines)) \<and>
          (\<exists>s1. rate_limit_check env (if path = ''/api/v1/messages'' then 1 else 0)
             (if path = ''/api/v1/messages'' then Some (cx_tenant_id (rh_ctx (read_headers lines)))
              else nonempty (cx_tenant_id (rh_ctx (read_headers lines)))) None
             (s\<lparr>sv_requests_total := sv_requests_total s + 1\<rparr>) = Finished (0, s1) \<and>
           decide_guard (se_decide env) (snd (split_request req)) (rh_ctx (read_headers lines)) (sv_gw s1) call)
      | Ask_Decision tenant message_id \<Rightarrow>
          method = ''GET'' \<and> path = ''/api/v1/routes/decide/'' @ message_id \<and> message_id \<noteq> [] \<and>
          tenant = cx_tenant_id (rh_ctx (read_headers lines)) \<and> tenant \<noteq> [] \<and>
          (\<exists>s1. rate_limit_check env 0 (Some tenant) None (s\<lparr>sv_requests_total := sv_requests_total s + 1\<rparr>) = Finished (0, s1))
      | Ask_Extension_Health \<Rightarrow> method = ''GET'' \<and> path = ''/api/v1/extensions/health''
      | Ask_Circuit_Breakers \<Rightarrow> method = ''GET'' \<and> path = ''/api/v1/extensions/circuit-breakers''
      | Ask_Dry_Run request \<Rightarrow>
          method = ''POST'' \<and> path = ''/api/v1/policies/dry-run'' \<and> request = snd (split_request req) \<and> request \<noteq> []
      | Ask_Complexity tenant policy \<Rightarrow>
          method = ''GET'' \<and> tenant \<noteq> [] \<and> policy \<noteq> [] \<and>
          (\<exists>ids suffix. path = ''/api/v1/policies/'' @ ids @ ''/complexity'' @ suffix \<and> policy_ids ids = (tenant, policy)))"
proof -
  have "ready fd s" using assms(4,5) by (simp add: ready_def)
  from finishes_handle_client [OF this assms(6), of env req] assms(1-3) have "forwarded env req s call"
    by (auto simp: finishes_def settled_def)
  then show ?thesis unfolding forwarded_def permitted_def front_guard_def
    by (cases call) (fastforce split: if_splits)+
qed

text \<open>
  C10. A run of the program ends and leaves no connection open. It ends with 0 exactly if the socket is
  made, bound and listening and the 21 metrics can be allocated, and otherwise with 1. In the first case
  the server returns whatever connections arrive before the signal, as long as the environment of each is
  sound in the sense of C8 and \<open>accept\<close> hands out descriptors that are not in use: every descriptor is
  closed exactly as often as it was accepted, the pool of event streams is empty at the end, and only the
  listening socket is closed twice, by the signal handler and by the function itself. A start that fails
  closes the listening socket once, if there is one, and nothing else.
\<close>

theorem server_run_closes:
  assumes "sv_metrics s = metrics_static" "gateway_ok (sv_gw s)" "sound_arrivals arrivals"
    "\<forall>s1. start_server sc env now (env ''GATEWAY_PORT'') s = Finished (0, s1) \<longrightarrow> accept_fresh arrivals s1"
  shows "\<exists>rc s' evs. gateway_main sc env now arrivals s = Finished (rc, s') \<and> sv_out s' = sv_out s @ evs \<and>
     rc = (if sc_socket sc \<noteq> None \<and> sc_bind sc (server_port (env ''GATEWAY_PORT'') mod 65536) \<and> sc_listen sc \<and>
              (\<forall>k<21. sc_alloc sc k) then 0 else 1) \<and>
     (rc = 0 \<longrightarrow> pool_fds (sv_sse s') = {}) \<and>
     (\<forall>fd. closes fd (http_of evs) =
        (if rc = 0 then count_list (accepted arrivals) fd else 0) +
        (if sc_socket sc = Some fd then (if rc = 0 then 2 else 1) else 0))"
proof (cases "sc_socket sc")
  case None
  then show ?thesis by (simp add: gateway_main_def http_server_run_def out_events_def)
next
  case (Some server_fd)
  obtain s1 where st: "start_server sc env now (env ''GATEWAY_PORT'') s = Finished (if starts sc (env ''GATEWAY_PORT'') then 0 else 1, s1)"
      "sv_out s1 = sv_out s" "starts sc (env ''GATEWAY_PORT'') \<Longrightarrow> live s1 \<and> pool_ok (sv_sse s1) \<and> pool_fds (sv_sse s1) = {}"
    using start_server_cases [OF assms(1,2), of sc env now "env ''GATEWAY_PORT''"] by metis
  show ?thesis
  proof (cases "starts sc (env ''GATEWAY_PORT'')")
    case False
    then show ?thesis using Some st
      by (auto simp: gateway_main_def http_server_run_def close_client_def out_events_def starts_def)
  next
    case True
    then obtain s' evs where r: "gateway_main sc env now arrivals s = Finished (0, s')" "sv_out s' = sv_out s @ evs" "pool_fds (sv_sse s') = {}"
        "\<And>fd. closes fd (http_of evs) = count_list (accepted arrivals) fd + (if fd = server_fd then 2 else 0)"
      using started_run_closes [OF Some, of env now s s1 arrivals] st assms(3,4) by auto
    then show ?thesis using True Some by (intro exI [of _ 0] exI [of _ s'] exI [of _ evs]) (auto simp: starts_def)
  qed
qed

section \<open>Concrete runs\<close>

definition demo_server_env :: "(unit, string \<Rightarrow> nat) server_env" where
  "demo_server_env =
     \<lparr>se_decide = demo_decide_env, se_getenv = (\<lambda>_. None), se_hiredis = False, se_redis = demo_redis, se_alloc = (\<lambda>_ _. False),
      se_write_ok = (\<lambda>_ _. True), se_page_ok = (\<lambda>_. True), se_latency_ms = 1, se_duration_us = 1000, se_tm = None,
      se_random = (\<lambda>_. \<lparr>urandom = None, rand_values = (\<lambda>_. 0)\<rparr>), se_clock = (\<lambda>_. (0, 0)), se_have_curl = False\<rparr>"

definition demo_server :: "metrics \<Rightarrow> (unit, string \<Rightarrow> nat) server" where
  "demo_server m =
     \<lparr>sv_gw = HTTP_Decide.demo_gateway, sv_limiter = None, sv_rl_initialized = True, sv_rl_mode = ''memory'', sv_rl_total_hits = 0,
      sv_rl_total_exceeded = 0, sv_rl_exceeded_by = [0, 0, 0, 0], sv_fallback_count = 0, sv_auth_required = False, sv_requests_total = 0,
      sv_decide_post = 0, sv_decide_get = 0, sv_registry = [], sv_sse = sse_init_pool, sv_latency = latency_init, sv_start_time = 0,
      sv_metrics = m, sv_tracing = tracing_static, sv_redis = (\<lambda>_. 0), sv_nats = (), sv_out = []\<rparr>"

definition message_request :: string where
  "message_request = ''POST /api/v1/messages HTTP/1.1'' @ crlf @ ''X-Tenant-ID: acme'' @ crlf @ ''X-Trace-ID: t1'' @ crlf @ crlf @ ''body''"

definition message_head :: string where
  "message_head = ''POST /api/v1/messages HTTP/1.1'' @ crlf @ ''X-Tenant-ID: acme'' @ crlf @ ''X-Trace-ID: t1''"

lemma message_parsed:
  "split_request message_request = (message_head, ''body'')"
  "request_line message_head = Some (''POST'', ''/api/v1/messages'', [''X-Tenant-ID: acme'', ''X-Trace-ID: t1''])"
  "read_headers [''X-Tenant-ID: acme'', ''X-Trace-ID: t1''] =
     \<lparr>rh_ctx = demo_ctx, rh_has_tenant = True, rh_has_auth = False, rh_traceparent = None\<rparr>"
proof -
  show "split_request message_request = (message_head, ''body'')"
    by (simp add: split_request_def message_request_def message_head_def crlf_def c_string_def)
qed code_simp+

lemma demo_sound: "sound_env demo_server_env" "gateway_ok (sv_gw (demo_server m))"
proof -
  have "rc_enabled (redis_rate_limiter_parse_config (\<lambda>_. None)) = False" by (simp add: redis_rate_limiter_parse_config_def Let_def)
  then show "sound_env demo_server_env"
    by (simp add: sound_env_def demo_server_env_def demo_decide_env_def url_fits_def is_str_def)
  show "gateway_ok (sv_gw (demo_server m))"
    by (simp add: gateway_ok_def bp_ok_def demo_server_def HTTP_Decide.demo_gateway_def url_fits_def backpressure_client_init_def
        backpressure_client_get_default_config_def)
qed

lemma demo_message_run:
  assumes "registry_live m"
  shows "\<exists>s'. handle_client demo_server_env 7 message_request (demo_server m) = Finished s' \<and> asked (sv_out s') = [Ask_Decide ''{}'']"
proof -
  let ?h = "read_headers [''X-Tenant-ID: acme'', ''X-Trace-ID: t1'']"
  let ?s = "(demo_server m)\<lparr>sv_requests_total := 1\<rparr>"
  note h = message_parsed(3)
  have sp: "start_request_span demo_server_env ''POST'' ''/api/v1/messages'' ?h = Finished None"
    using request_span_none [of demo_server_env "''POST''" "''/api/v1/messages''" ?h]
    by (simp add: h start_request_span_def otel_extract_trace_context_def demo_server_env_def Let_def)
  have lim: "rate_limit_check demo_server_env e t k ?s = Finished (0, ?s)" for e t k
    by (simp add: rate_limit_check_def rate_limit_init_if_needed_def demo_server_def)
  obtain evs g' where d: "handle_decide demo_decide_env 7 (Some ''body'') demo_ctx HTTP_Decide.demo_gateway () =
      Finished (evs, demo_ctx\<lparr>cx_request_id := ''r1''\<rparr>, g', ())" "asked evs = [Ask_Decide ''{}'']" using demo_decide_run by blast
  define s1 where "s1 = out_events evs (?s\<lparr>sv_gw := g', sv_nats := (), sv_tracing := tracing_static\<rparr>)"
  have s1: "sv_metrics s1 = m" "asked (sv_out s1) = [Ask_Decide ''{}'']" by (simp_all add: s1_def demo_server_def out_events_def d(2))
  have serve: "serve_decide demo_server_env 7 ''POST'' ''/api/v1/messages'' ''body'' demo_ctx None ?s =
      served demo_server_env (demo_ctx\<lparr>cx_request_id := ''r1''\<rparr>) ''POST'' ''/api/v1/messages'' s1"
    using d by (simp add: serve_decide_def s1_def demo_server_def demo_server_env_def publish_span_def)
  have route: "dispatch demo_server_env 7 ''POST'' ''/api/v1/messages'' ''body'' ?h None ?s =
      served demo_server_env (demo_ctx\<lparr>cx_request_id := ''r1''\<rparr>) ''POST'' ''/api/v1/messages'' s1"
    using serve lim by (simp add: dispatch_def route_decide_def limited_def h demo_server_def)
  have live1: "live s1"
    using completes_handle_decide(1) [of demo_server_env HTTP_Decide.demo_gateway 7 "''body''" demo_ctx "()"] d(1) demo_sound(1)
      demo_sound(2) [of m] s1(1) assms by (simp add: live_iff s1_def out_events_def demo_server_def demo_server_env_def)
  obtain s2 where s2: "on_metrics (metrics_record_http_request (Some ''POST'') (Some ''/api/v1/messages'') 200 (se_duration_us demo_server_env))
      (record_latency demo_server_env s1) = Finished s2" "sv_out s2 = sv_out s1"
    using live_http [of "record_latency demo_server_env s1" "''POST''" "''/api/v1/messages''" 200 "se_duration_us demo_server_env"] live1
    by (auto simp: completes_def on_metrics_def bind_Finished record_latency_def)
  have "asked (sv_out (log_request demo_server_env ctx mm pp s2)) = [Ask_Decide ''{}'']" for ctx mm pp
    using s1 s2(2) by (simp add: log_request_def out_events_def split: option.split)
  then show ?thesis
    using message_parsed(1,2) sp route s2(1)
    by (simp add: handle_client_def served_def finish_client_def end_request_span_def close_client_def out_events_def Let_def
        message_request_def demo_server_def)
qed

lemma demo_registry: obtains m where "metrics_registry_init (\<lambda>_. True) metrics_static = Finished (0, m)" "registry_live m"
proof -
  obtain m where m: "metrics_registry_init (\<lambda>_. True) metrics_static = Finished (0, m)" using registry_init_ok by blast
  have "registry_live m" unfolding registry_live_def using registry_init_fresh [OF m] by blast
  then show thesis using that m by blast
qed

theorem client_served_witness:
  "\<exists>m s'. metrics_registry_init (\<lambda>_. True) metrics_static = Finished (0, m) \<and>
     handle_client demo_server_env 7 message_request (demo_server m) = Finished s' \<and> asked (sv_out s') = [Ask_Decide ''{}''] \<and>
     track {7} (http_of (sv_out s')) = Some (pool_fds (sv_sse s')) \<and>
     (7 \<notin> pool_fds (sv_sse s') \<longrightarrow> answered (written 7 (http_of (sv_out s'))))"
proof -
  obtain m where m: "metrics_registry_init (\<lambda>_. True) metrics_static = Finished (0, m)" "registry_live m" by (rule demo_registry)
  obtain s' where run: "handle_client demo_server_env 7 message_request (demo_server m) = Finished s'" "asked (sv_out s') = [Ask_Decide ''{}'']"
    using demo_message_run [OF m(2)] by blast
  have d: "sv_metrics (demo_server m) = m" "sv_sse (demo_server m) = sse_init_pool" "sv_out (demo_server m) = []" by (simp_all add: demo_server_def)
  have "message_request \<noteq> []" by (simp add: message_request_def)
  then show ?thesis
    using client_served [of "demo_server m" demo_server_env 7 message_request] m run d demo_sound init_pool
    by (intro exI [of _ m] exI [of _ s']) (auto split: if_splits)
qed

theorem front_end_guarded_witness:
  "\<exists>m s' s1. handle_client demo_server_env 7 message_request (demo_server m) = Finished s' \<and> asked (sv_out s') = [Ask_Decide ''{}''] \<and>
     rate_limit_check demo_server_env 1 (Some ''acme'') None ((demo_server m)\<lparr>sv_requests_total := 1\<rparr>) = Finished (0, s1) \<and>
     decide_guard demo_decide_env ''body'' demo_ctx (sv_gw s1) (Ask_Decide ''{}'')"
proof -
  obtain m where m: "registry_live m" by (rule demo_registry)
  obtain s' where run: "handle_client demo_server_env 7 message_request (demo_server m) = Finished s'" "asked (sv_out s') = [Ask_Decide ''{}'']"
    using demo_message_run [OF m] by blast
  have h: "cx_tenant_id demo_ctx = ''acme''" by code_simp
  have d: "se_decide demo_server_env = demo_decide_env" "sv_requests_total (demo_server m) + 1 = 1" "sv_out (demo_server m) = []"
    "sv_sse (demo_server m) = sse_init_pool" by (simp_all add: demo_server_env_def demo_server_def)
  from front_end_guarded [OF run(1), of "sv_out s'" "Ask_Decide ''{}''"] show ?thesis
    using run message_parsed h d init_pool by auto
qed

definition demo_start :: start_calls where
  "demo_start = \<lparr>sc_socket = Some 3, sc_bind = (\<lambda>_. True), sc_listen = True, sc_alloc = (\<lambda>_. True), sc_have_curl = False, sc_easy_init = False\<rparr>"

theorem server_run_closes_witness:
  "\<exists>s' evs. gateway_main demo_start (\<lambda>_. None) 0 [Connection demo_server_env 7 message_request, Accept_Failed]
       (demo_server metrics_static) = Finished (0, s') \<and>
     sv_out s' = evs \<and> closes 7 (http_of evs) = 1 \<and> closes 3 (http_of evs) = 2"
proof -
  let ?as = "[Connection demo_server_env 7 message_request, Accept_Failed]"
  have st: "sv_metrics (demo_server metrics_static) = metrics_static" "sv_out (demo_server metrics_static) = []" by (simp_all add: demo_server_def)
  have arr: "sound_arrivals ?as" by (simp add: sound_arrivals_def demo_sound(1))
  have fresh: "\<forall>s1. start_server demo_start (\<lambda>_. None) 0 ((\<lambda>_. None) ''GATEWAY_PORT'') (demo_server metrics_static) = Finished (0, s1) \<longrightarrow>
      accept_fresh ?as s1"
  proof (intro allI impI)
    fix s1 :: "(unit, string \<Rightarrow> nat) server"
    assume "start_server demo_start (\<lambda>_. None) 0 ((\<lambda>_. None) ''GATEWAY_PORT'') (demo_server metrics_static) = Finished (0, s1)"
    then have "sv_sse s1 = sse_init_pool" by (auto simp: start_server_def demo_start_def bind_Finished Let_def split: if_splits)
    then show "accept_fresh ?as s1" by (simp add: init_pool split: outcome.split)
  qed
  show ?thesis
    using server_run_closes [OF st(1) demo_sound(2) arr fresh] st(2) by (auto simp: demo_start_def)
qed

text \<open>
  The setting of \<open>GATEWAY_AUTH_REQUIRED\<close> is read with the first rate limit check, which follows the check
  of the Authorization header: a request without that header that arrives first is not refused.
\<close>

lemma first_request_not_authenticated:
  assumes "\<not> sv_auth_required s" "\<not> sv_rl_initialized s" "se_getenv env ''GATEWAY_AUTH_REQUIRED'' = Some ''1''" "rh_has_tenant h"
  shows "route_decide env fd m ''/api/v1/messages'' body h sp s =
     limited env fd 1 (rh_ctx h) (fail_request env fd sp 429) (serve_decide env fd m ''/api/v1/messages'' body (rh_ctx h) sp) s"
    "sv_auth_required (rate_limit_init_if_needed env s)"
  using assms by (simp_all add: route_decide_def rate_limit_init_if_needed_def env_to_bool_def Let_def split: prod.split)

text \<open>A refused request is counted by the check and again by the response.\<close>

lemma refusal_counted_twice:
  assumes "rate_limit_check env e (Some (cx_tenant_id ctx)) None s = Finished (1, s1)"
    "length (rate_limit_body (se_getenv env) e ctx) < MAX_RESPONSE_SIZE" "send_rate_limit_error env fd e ctx s1 = Finished s2"
    "holds_values UNIV UNIV UNIV cv gv hv (sv_metrics s)"
  shows "\<exists>hv. holds_values UNIV UNIV UNIV (cv(rate_limit_hits_total := cv rate_limit_hits_total + 2)) gv hv (sv_metrics s2)"
proof -
  have one: "holds_values UNIV UNIV UNIV (c(rate_limit_hits_total := c rate_limit_hits_total + 1)) gv hv m'"
    if "count rate_limit_hits_total m = Finished m'" "holds_values UNIV UNIV UNIV c gv hv m" for c m m'
    using count_values [OF that(2), of rate_limit_hits_total] that(1) by auto
  have "count rate_limit_hits_total (sv_metrics s) = Finished (sv_metrics s1)"
    using assms(1) by (auto simp: rate_limit_check_def Let_def on_metrics_def bind_Finished metrics_record_rate_limit_hit_def
        split: option.splits prod.splits rl_result_t.splits if_splits)
  moreover have "count rate_limit_hits_total (sv_metrics s1) = Finished (sv_metrics s2)"
    using assms(2,3) by (auto simp: send_rate_limit_error_def Let_def on_metrics_def bind_Finished metrics_record_rate_limit_hit_def out_events_def)
  ultimately show ?thesis using one [OF _ one [OF _ assms(4)]] by (auto simp: add.assoc)
qed

text \<open>A denial by the Redis limiter ends the span of the request, which \<open>handle_client\<close> then ends again.\<close>

lemma denial_ends_span_twice:
  assumes "decide_ends_span (se_decide env) body ctx (sv_gw s)" "sp \<noteq> None"
  shows "serve_decide env fd m p body ctx sp s = Undefined"
  using assms by (cases "handle_decide (se_decide env) fd (Some body) ctx (sv_gw s) (sv_nats s)") (auto simp: serve_decide_def)


text \<open>A tenant header without a value passes the check of the front end and leaves the tenant empty.\<close>

lemma empty_tenant_header_accepted:
  "rh_has_tenant (read_headers [''X-Tenant-ID: '']) \<and> cx_tenant_id (rh_ctx (read_headers [''X-Tenant-ID: ''])) = []"
  by code_simp

end
