(* ===== verification/Spec2Isabelle.thy ===== *)
theory Spec2Isabelle
  imports IPC_Bridge IPC_Socket Flow_Control Circuit_Breaker Resource_Pools IPC_Streaming Rate_Limiter
    JSON_Values HTTP_Registry HTTP_Events Abuse_Detection
    Redis_Limiter Backpressure_Client HTTP_Decide Trace_Context Log_Sanitizer
    Metrics_Registry Health Audit_Log IPC_Config Router_Contract Tracing Admin_API Prom_Exporter JSONL_Logger Stub_Gateways HTTP_Run
begin

text \<open>
  A verification library for the Beamline C gateway (\<open>src/\<close>): an HTTP server and a Unix-socket IPC server
  that take task requests, check, limit and log them, and forward them to a router over NATS.

  \<^bold>\<open>Parts and how they interact.\<close> \<open>src/src/main.c\<close> starts the HTTP server of \<open>http_server.c\<close>. Its accept loop
  hands each connection to \<open>handle_client\<close>, which reads the request, starts a span (\<open>tracing/\<close>), and takes
  one of thirteen routes. The decide route passes the authentication and tenant check, the rate limiter
  (\<open>rate_limiter*.c\<close>), and in \<open>handle_decide\<close> the backpressure client, the Redis limiter per address, the
  abuse detector and the validation, before it asks the router through the NATS client. The other routes
  serve health, metrics, the block registry, messages with their event stream, and the extension
  endpoints. The IPC server (\<open>ipc_server.c\<close>) cuts the byte stream of each client into frames
  (\<open>ipc_protocol.c\<close>) and calls the bridge (\<open>ipc_nats_bridge.c\<close>), which uses the same NATS client. Around
  them stand pools, breakers, backpressure counters, logs, configuration, health checks and metrics.

  \<^bold>\<open>Conventions.\<close> Each operation is one function with its state passed explicitly; structs are records, enums
  datatypes, integers words of their width where they can wrap. What the source gets from outside (socket
  calls, files, the clock, the allocator, random numbers, the environment, jansson, hiredis, the NATS
  library, curl) is an argument. A null pointer is \<^const>\<open>None\<close>. An execution that reads or writes outside an
  object, or uses one that was released, is \<^const>\<open>Undefined\<close>; everything else is \<^const>\<open>Finished\<close>. What is
  written, sent or closed is a list of events in its order. Texts are C strings without a zero byte.

  \<^bold>\<open>Theories.\<close>
  \<^item> \<open>Gateway_Prelude\<close>: integer types, byte order, the parts of the C library in use, slot tables, outcomes.
  \<^item> \<open>IPC_Protocol\<close> (\<open>ipc_protocol.c\<close>), \<open>IPC_Server\<close> and \<open>IPC_Socket\<close> (\<open>ipc_server.c\<close>), \<open>IPC_Bridge\<close>
    (\<open>ipc_nats_bridge.c\<close>, \<open>ipc_capabilities.c\<close>, \<open>ipc_peercred.c\<close>, \<open>nats_subjects.c\<close>), \<open>IPC_Streaming\<close>
    (\<open>ipc_streaming.c\<close>), \<open>IPC_Config\<close> (\<open>ipc_config.c\<close>), \<open>JSON_Validator\<close> (\<open>json_validator.c\<close>): encoding and
    decoding are inverse and the decoder is exact; the answers do not depend on how the stream is cut; the
    table and the buffers keep their bounds; a conversation through server and bridge gets one reply per
    request; the socket file is the owner's only and is removed.
  \<^item> \<open>NATS_Client\<close> (\<open>nats_client_stub.c\<close>, \<open>nats_client_real.c\<close>), \<open>Router_Contract\<close> (\<open>router_contract.c\<close>): the
    contract of the transport for both builds; printed requests pass the gateway's own JSON check exactly
    when their input is balanced.
  \<^item> \<open>Flow_Control\<close> (\<open>ipc_backpressure.c\<close>, \<open>nats_resilience.c\<close>), \<open>Circuit_Breaker\<close> (\<open>circuit_breaker.c\<close>),
    \<open>Resource_Pools\<close> (\<open>buffer_pool.c\<close>, \<open>nats_pool.c\<close>): limits under matched calls, refinement of a
    three-state machine, exclusive use of what a pool hands out, for the connection pool also to threads
    that wait for it, but only without the health check, which breaks it.
  \<^item> \<open>Rate_Limiter\<close> (\<open>rate_limiter.c\<close>, \<open>rate_limiter_memory.c\<close>, \<open>rate_limiter_redis.c\<close>), \<open>Redis_Limiter\<close>
    (\<open>redis_rate_limiter.c\<close>), \<open>Abuse_Detection\<close> (\<open>abuse_detection.c\<close>), \<open>Backpressure_Client\<close>
    (\<open>backpressure_client.c\<close>): what a window admits, also for several gateways on one Redis server in any
    interleaving; the fallback as a refinement of the memory limiter; exact counts in the hash table.
  \<^item> \<open>JSON_Values\<close>, \<open>HTTP_Registry\<close>, \<open>HTTP_Events\<close>, \<open>HTTP_Decide\<close>, \<open>HTTP_Logs\<close>, \<open>HTTP_Limits\<close>,
    \<open>HTTP_Handlers\<close>, \<open>HTTP_Server\<close> (all \<open>http_server.c\<close>, in this order of its parts, and \<open>main.c\<close>): redaction
    and schema check, the registry as a partial map, the isolation of tenants on the event stream, the
    decide handler, the logs, the limiter's set-up and refusal, the other handlers, the routes and the
    server. \<open>HTTP_Service\<close> proves the rules for a handler's steps (what it writes, which calls it
    sends to the router, and what it closes) and \<open>HTTP_Run\<close> the total correctness of a connection and of a
    run of the program. There the conditions \<open>gateway_ok\<close> on the state and \<open>sound_env\<close> on the surroundings
    exclude the undefined behaviour of the decide route: a metrics URL of 263 characters or more, a Redis
    limiter that fails to initialise or refuses requests, and a router error with an \<open>intake_error_code\<close>.
  \<^item> \<open>Metrics\<close> with \<open>Doubles\<close> (\<open>metrics/prometheus.c\<close>), \<open>Metrics_Registry\<close> (\<open>metrics/metrics_registry.c\<close>,
    \<open>handlers/metrics_handler.c\<close>), \<open>Prom_Exporter\<close> (\<open>prometheus_exporter.c\<close>), \<open>Health\<close> (\<open>health_check.c\<close>,
    \<open>gateway_health.c\<close>), \<open>Tracing\<close> (\<open>tracing/otel.c\<close>, \<open>tracing/otlp_exporter.c\<close>), \<open>Trace_Context\<close>
    (\<open>trace_context.c\<close>), \<open>JSONL_Logger\<close> (\<open>jsonl_logger.c\<close>), \<open>Log_Sanitizer\<close> (\<open>log_sanitizer.c\<close>), \<open>Audit_Log\<close>
    (\<open>audit_log.c\<close>), \<open>Admin_API\<close> (\<open>admin_grpc.c\<close>), \<open>Stub_Gateways\<close> (\<open>websocket_gateway.c\<close>,
    \<open>grpc_gateway.c\<close>): the metrics hold what the events add up to and the page is complete; headers and
    trace contexts are read back; the audit log is replayed exactly; masking ends and is complete.

  \<^bold>\<open>Interfaces.\<close> Locales state the contracts that several components share: \<open>nats_transport\<close> and
  \<open>bridge_world\<close> (both NATS builds), \<open>ipc_handler_contract\<close> (the bridge), \<open>breaker\<close> (both breakers),
  \<open>admission\<close> (both in-flight limits), \<open>exclusive_pool\<close> (both pools), \<open>limiter\<close> (the memory table and the
  function table), \<open>bounded_store\<close> (the registry), \<open>server_lifecycle\<close> (both stub gateways). Each is
  interpreted on the model's own operations.

  \<^bold>\<open>Bounds.\<close> No definition takes fuel: loops are structural recursions or have a termination proof. The
  constants of the source stay as they are (64 clients, sessions, blocks and event streams, 10000 tenants,
  64 levels of schemas, 65536 bytes of a request, the buffer of the metrics page). The theorems about a
  run quantify over every finite sequence of calls or arrivals. A conclusion that something returns is
  stated as such; where undefined behaviour of the source stands in the way, the condition that excludes
  it is a hypothesis, and a lemma shows the undefined run.

  \<^bold>\<open>Not modelled.\<close>
  \<^item> Threads: the source shares state between threads without locks in places; the model runs one call at a
    time, and interleavings are sequences of calls. The memory order of \<open>atomic_counter.h\<close> does not show.
  \<^item> A signal that arrives inside a handler: the model ends the accept loop with it.
  \<^item> Diagnostics with \<open>printf\<close>, \<open>perror\<close> and \<open>log_json\<close> to the terminal, partial writes of \<open>send_response\<close>,
    and memory that is released without an effect on later calls, such as the release of a rate limiter.
  \<^item> The entries that \<open>redis_rate_limiter.c\<close> makes in the metrics registry: its metrics are values of its own
    state. Allocations inside jansson, except where the redaction of the logs depends on them.
  \<^item> The hiredis branch of \<open>redis_rate_limiter.c\<close>, which uses undeclared variables and does not compile.
  \<^item> Headers with declarations only, the examples, benchmarks and tests.
\<close>

end
